(* ===== verification/Prelude.thy ===== *)
theory Prelude
  imports Complex_Main "HOL-Library.Word" "HOL-Library.AList" "HOL-Library.Char_ord"
    "HOL-Library.List_Lexorder" "HOL-Library.Sublist"
begin

text \<open>
  Shared ground of the development: the machine types of the Rust code, the containers
  (\<open>HashMap\<close>, \<open>BTreeMap\<close>, \<open>HashSet\<close>) and the string functions of its standard library,
  as far as the modelled sources use them, with the lemmas the components share.

  \<^item> Rust integers are words of their width; \<open>usize\<close> counters that never approach their
    limit are \<open>nat\<close>.
  \<^item> A Rust \<open>String\<close> is its UTF-8 byte sequence, a \<open>string\<close> of 8-bit characters; the
    order on strings is the byte-wise lexicographic one, as in Rust.
  \<^item> A \<open>HashMap\<close> is an association list without duplicate keys; its list order stands for
    the unspecified iteration order, so a theorem about all such lists covers them all.
  \<^item> A \<open>BTreeMap\<close> is an association list with strictly increasing keys.
\<close>

type_synonym u8 = "8 word"
type_synonym u16 = "16 word"
type_synonym u32 = "32 word"
type_synonym u64 = "64 word"
type_synonym u128 = "128 word"
type_synonym i16 = "16 word"

named_theorems store_simps \<open>reading a store after an operation on it\<close>
named_theorems wf_intros \<open>introduction rules of the well-formedness invariants\<close>

section \<open>Words\<close>

lemma unat_ucast_mod: "unat (ucast w :: 'b::len word) = unat w mod 2 ^ LENGTH('b)"
  by (simp add: unsigned_ucast_eq take_bit_eq_mod)

lemma unat_of_nat_id: "n < 2 ^ LENGTH('a) \<Longrightarrow> unat (of_nat n :: 'a::len word) = n"
  by (simp add: unsigned_of_nat take_bit_nat_eq_self)

text \<open>Rust's \<open>saturating_add\<close>.\<close>

definition sat_add :: "'a::len word \<Rightarrow> 'a word \<Rightarrow> 'a word" where
  "sat_add a b = (if unat a + unat b < 2 ^ LENGTH('a) then a + b else - 1)"

lemma unat_sat_add: "unat (sat_add a b) = min (unat a + unat b) (2 ^ LENGTH('a) - 1)"
  for a b :: "'a::len word"
proof (cases "unat a + unat b < 2 ^ LENGTH('a)")
  case True
  then show ?thesis by (simp add: sat_add_def unat_add_lem [THEN iffD1])
next
  case False
  then show ?thesis by (simp add: sat_add_def unsigned_minus_1_eq_mask mask_eq_exp_minus_1)
qed

lemma unat_not_max: "a \<noteq> - 1 \<Longrightarrow> unat a < 2 ^ LENGTH('a) - 1" for a :: "'a::len word"
proof -
  assume "a \<noteq> - 1"
  then have "unat a \<noteq> 2 ^ LENGTH('a) - 1"
    by (metis mask_eq_exp_minus_1 unsigned_minus_1_eq_mask word_unat_eq_iff)
  moreover have "unat a < 2 ^ LENGTH('a)" by simp
  ultimately show ?thesis by linarith
qed

lemma sat_add_less: "a \<noteq> - 1 \<Longrightarrow> a < sat_add a 1" for a :: "'a::len word"
  using unat_not_max [of a] by (simp add: word_less_nat_alt unat_sat_add less_diff_conv)

lemma sat_add_1: "a \<noteq> - 1 \<Longrightarrow> sat_add a 1 = a + 1" for a :: "'a::len word"
  using unat_not_max [of a] by (simp add: sat_add_def less_diff_conv)

lemma sat_add_1_nonzero [simp]: "sat_add a 1 \<noteq> 0" for a :: "'a::len word"
  using sat_add_less [of a] by (cases "a = - 1") (auto simp: sat_add_def unsigned_minus_1_eq_mask mask_eq_exp_minus_1)

lemma sat_add_code [code]: "sat_add a b = (if a + b < a then - 1 else a + b)"
  for a b :: "'a::len word"
  using no_olen_add_nat [of a b] by (auto simp: sat_add_def not_less)

text \<open>\<open>saturating_mul\<close>\<close>

definition sat_mul :: "'a::len word \<Rightarrow> 'a word \<Rightarrow> 'a word" where
  "sat_mul a b = (if b = 0 \<or> a \<le> - 1 div b then a * b else - 1)"

lemma unat_sat_mul: "unat (sat_mul a b) = min (unat a * unat b) (2 ^ LENGTH('a) - 1)"
  for a b :: "'a::len word"
proof (cases "b = 0")
  case False
  then have b: "0 < unat b" by (simp add: unat_gt_0)
  have max: "unat (- 1 :: 'a word) = 2 ^ LENGTH('a) - 1" by (simp add: unsigned_minus_1_eq_mask mask_eq_exp_minus_1)
  have le: "a \<le> - 1 div b \<longleftrightarrow> unat a * unat b \<le> 2 ^ LENGTH('a) - 1"
    by (simp add: word_le_nat_alt unat_div_distrib max less_eq_div_iff_mult_less_eq[OF b])
  show ?thesis
  proof (cases "a \<le> - 1 div b")
    case True
    then have "unat a * unat b < 2 ^ LENGTH('a)" using le by (simp add: less_eq_Suc_le[symmetric] le_less_trans)
    then show ?thesis using True le False by (simp add: sat_mul_def unat_mult_lem[THEN iffD1])
  next
    case no: False
    then show ?thesis using le False by (simp add: sat_mul_def max)
  qed
qed (simp add: sat_mul_def)

text \<open>\<open>saturating_sub\<close>\<close>

definition sat_sub :: "'a::len word \<Rightarrow> 'a word \<Rightarrow> 'a word" where
  "sat_sub a b = (if a \<le> b then 0 else a - b)"

lemma unat_sat_sub: "unat (sat_sub a b) = unat a - unat b" for a b :: "'a::len word"
  by (simp add: sat_sub_def word_le_nat_alt unat_sub)

section \<open>Options\<close>

text \<open>Rust's \<open>Option::or\<close>: the first value that is present.\<close>

fun opt_or :: "'a option \<Rightarrow> 'a option \<Rightarrow> 'a option" where
  "opt_or None b = b"
| "opt_or (Some a) _ = Some a"

lemma opt_or_None_right [simp]: "opt_or a None = a"
  by (cases a) auto

lemma opt_or_assoc: "opt_or (opt_or a b) c = opt_or a (opt_or b c)"
  by (cases a) auto

lemma opt_or_idem [simp]: "opt_or a a = a"
  by (cases a) auto

lemma opt_or_eq_None [simp]: "opt_or a b = None \<longleftrightarrow> a = None \<and> b = None"
  by (cases a) auto

lemma opt_or_if: "(if a \<noteq> None then a else b) = opt_or a b"
  by (cases a) auto

text \<open>Rust's \<open>Option::unwrap_or\<close>.\<close>

fun unwrap_or :: "'a option \<Rightarrow> 'a \<Rightarrow> 'a" where
  "unwrap_or None d = d"
| "unwrap_or (Some a) _ = a"

lemma unwrap_or_opt_or: "unwrap_or (opt_or a b) d = unwrap_or a (unwrap_or b d)"
  by (cases a) auto

text \<open>Rust's \<open>Option::filter\<close>.\<close>

definition opt_filter :: "('a \<Rightarrow> bool) \<Rightarrow> 'a option \<Rightarrow> 'a option" where
  "opt_filter p a = (case a of None \<Rightarrow> None | Some x \<Rightarrow> if p x then Some x else None)"

lemma opt_filter_simps [simp]:
  "opt_filter p None = None"
  "opt_filter p (Some x) = (if p x then Some x else None)"
  by (simp_all add: opt_filter_def)

text \<open>\<open>get_or_insert\<close>\<close>

definition get_or :: "'a \<Rightarrow> 'a option \<Rightarrow> 'a option" where
  "get_or x o' = Some (unwrap_or o' x)"

lemma opt_filter_SomeD: "opt_filter p a = Some x \<Longrightarrow> a = Some x \<and> p x"
  by (cases a) (auto split: if_splits)

section \<open>Guarded steps\<close>

text \<open>
  A component as a system of events: each event is a step of the state that is taken when its guard holds. The contract
  is that a step keeps the invariant; what a client gets is the invariant after any run.
\<close>

fun run_guarded :: "('e \<Rightarrow> 's \<Rightarrow> bool) \<Rightarrow> ('e \<Rightarrow> 's \<Rightarrow> 's) \<Rightarrow> 'e list \<Rightarrow> 's \<Rightarrow> bool" where
  "run_guarded guard step [] s = True"
| "run_guarded guard step (e # es) s = (guard e s \<and> run_guarded guard step es (step e s))"

locale guarded_steps =
  fixes guard :: "'e \<Rightarrow> 's \<Rightarrow> bool"
    and step :: "'e \<Rightarrow> 's \<Rightarrow> 's"
    and inv :: "'s \<Rightarrow> bool"
  assumes step_keeps: "inv s \<Longrightarrow> guard e s \<Longrightarrow> inv (step e s)"
begin

lemma run_keeps: "inv s \<Longrightarrow> run_guarded guard step es s \<Longrightarrow> inv (fold step es s)"
  by (induction es arbitrary: s) (auto simp: step_keeps)

lemma free_run_keeps: "inv s \<Longrightarrow> (\<And>e s. e \<in> set es \<Longrightarrow> guard e s) \<Longrightarrow> inv (fold step es s)"
  by (induction es arbitrary: s) (auto simp: step_keeps)

end

section \<open>Stores\<close>

text \<open>
  The interface the components use of a map: what a lookup sees after an insert and after
  a removal, and the invariant that makes this hold. \<open>HashMap\<close> and \<open>BTreeMap\<close> both
  provide it.
\<close>

locale store =
  fixes ok :: "'m \<Rightarrow> bool"
    and get :: "'m \<Rightarrow> 'k \<Rightarrow> 'v option"
    and insert :: "'k \<Rightarrow> 'v \<Rightarrow> 'm \<Rightarrow> 'm"
    and remove :: "'k \<Rightarrow> 'm \<Rightarrow> 'm"
  assumes get_insert: "ok m \<Longrightarrow> get (insert k v m) = (get m)(k \<mapsto> v)"
    and get_remove: "ok m \<Longrightarrow> get (remove k m) = (get m)(k := None)"
    and ok_insert: "ok m \<Longrightarrow> ok (insert k v m)"
    and ok_remove: "ok m \<Longrightarrow> ok (remove k m)"
begin

lemma get_insert_same: "ok m \<Longrightarrow> get (insert k v m) k = Some v"
  by (simp add: get_insert)

lemma get_insert_other: "ok m \<Longrightarrow> k' \<noteq> k \<Longrightarrow> get (insert k v m) k' = get m k'"
  by (simp add: get_insert)

lemma get_remove_same: "ok m \<Longrightarrow> get (remove k m) k = None"
  by (simp add: get_remove)

lemma get_remove_other: "ok m \<Longrightarrow> k' \<noteq> k \<Longrightarrow> get (remove k m) k' = get m k'"
  by (simp add: get_remove)

lemma dom_insert: "ok m \<Longrightarrow> dom (get (insert k v m)) = {k} \<union> dom (get m)"
  by (auto simp: get_insert)

lemma dom_remove: "ok m \<Longrightarrow> dom (get (remove k m)) = dom (get m) - {k}"
  by (auto simp: get_remove split: if_splits)

lemma ok_fold_insert: "ok m \<Longrightarrow> ok (fold (\<lambda>(k, v). insert k v) kvs m)"
  by (induction kvs arbitrary: m) (auto simp: ok_insert)

lemma get_fold_insert:
  "ok m \<Longrightarrow> get (fold (\<lambda>(k, v). insert k v) kvs m) = get m ++ map_of (rev kvs)"
proof (induction kvs arbitrary: m)
  case Nil
  then show ?case by simp
next
  case (Cons kv kvs)
  obtain k v where kv: "kv = (k, v)" by fastforce
  have "get (fold (\<lambda>(k, v). insert k v) kvs (insert k v m))
      = (get m)(k \<mapsto> v) ++ map_of (rev kvs)"
    by (simp only: Cons.IH [OF ok_insert [OF Cons.prems]] get_insert [OF Cons.prems])
  then show ?case
    by (simp add: kv)
qed

end

section \<open>HashMap\<close>

type_synonym ('k, 'v) hmap = "('k \<times> 'v) list"

abbreviation hm_ok :: "('k, 'v) hmap \<Rightarrow> bool" where
  "hm_ok m \<equiv> distinct (map fst m)"

interpretation hm: store hm_ok map_of AList.update AList.delete
  by unfold_locales
    (simp_all add: update_conv' delete_conv' distinct_update distinct_delete)

lemmas hm_simps [store_simps] = update_conv' delete_conv'

lemma hm_delete_id [simp]: "map_of m k = None \<Longrightarrow> AList.delete k m = m"
  by (simp add: delete_id map_of_eq_None_iff)

text \<open>Rewriting every value in place (\<open>values_mut\<close>, \<open>iter_mut\<close>) keeps the keys.\<close>

definition hm_map :: "('v \<Rightarrow> 'v) \<Rightarrow> ('k, 'v) hmap \<Rightarrow> ('k, 'v) hmap" where
  "hm_map f m = map (\<lambda>(k, v). (k, f v)) m"

lemma map_fst_hm_map [simp]: "map fst (hm_map f m) = map fst m"
  by (auto simp: hm_map_def)

lemma hm_get_hm_map [store_simps]: "map_of (hm_map f m) k = map_option f (map_of m k)"
  by (simp add: hm_map_def map_of_map)

text \<open>Updating the value of one key in place (\<open>get_mut\<close> followed by assignments).\<close>

definition hm_modify :: "'k \<Rightarrow> ('v \<Rightarrow> 'v) \<Rightarrow> ('k, 'v) hmap \<Rightarrow> ('k, 'v) hmap" where
  "hm_modify k f m = map (\<lambda>(k', v). (k', if k' = k then f v else v)) m"

lemma map_fst_hm_modify [simp]: "map fst (hm_modify k f m) = map fst m"
  by (auto simp: hm_modify_def)

lemma hm_get_modify [store_simps]:
  "map_of (hm_modify k f m) = (map_of m)(k := map_option f (map_of m k))"
proof
  fix x
  show "map_of (hm_modify k f m) x = ((map_of m)(k := map_option f (map_of m k))) x"
    by (induction m) (auto simp: hm_modify_def)
qed

lemma map_of_keyed_map: "map_of (map (\<lambda>(k, v). (k, f k v)) m) k = map_option (f k) (map_of m k)"
  by (induction m) auto

lemma hm_values_ran: "hm_ok m \<Longrightarrow> set (map snd m) = ran (map_of m)"
  by (force simp: ran_def map_of_eq_Some_iff image_iff)

section \<open>BTreeMap\<close>

type_synonym ('k, 'v) btmap = "('k \<times> 'v) list"

abbreviation bt_ok :: "('k::linorder, 'v) btmap \<Rightarrow> bool" where
  "bt_ok m \<equiv> sorted_wrt (<) (map fst m)"

fun bt_insert :: "'k::linorder \<Rightarrow> 'v \<Rightarrow> ('k, 'v) btmap \<Rightarrow> ('k, 'v) btmap" where
  "bt_insert k v [] = [(k, v)]"
| "bt_insert k v ((k', v') # m) =
     (if k < k' then (k, v) # (k', v') # m
      else if k = k' then (k, v) # m
      else (k', v') # bt_insert k v m)"

lemma set_fst_bt_insert: "set (map fst (bt_insert k v m)) = set (map fst m) \<union> {k}"
  by (induction k v m rule: bt_insert.induct) auto

lemma bt_ok_insert: "bt_ok m \<Longrightarrow> bt_ok (bt_insert k v m)"
proof (induction k v m rule: bt_insert.induct)
  case (2 k v k' v' m)
  then show ?case
    using set_fst_bt_insert [of k v m] by force
qed simp

lemma bt_get_insert: "bt_ok m \<Longrightarrow> map_of (bt_insert k v m) = (map_of m)(k \<mapsto> v)"
proof (induction k v m rule: bt_insert.induct)
  case (2 k v k' v' m)
  then show ?case by (auto simp: fun_upd_twist)
qed simp

lemma bt_ok_distinct: "bt_ok m \<Longrightarrow> distinct (map fst m)"
  by (simp add: strict_sorted_iff)

lemma bt_ok_delete: "bt_ok m \<Longrightarrow> bt_ok (AList.delete k m)"
  by (simp add: AList.delete_eq sorted_wrt_filter sorted_wrt_map)

interpretation bt: store bt_ok map_of bt_insert AList.delete
  by unfold_locales (simp_all add: bt_get_insert bt_ok_insert bt_ok_delete delete_conv')

text \<open>
  \<open>BTreeMap\<close>s are determined by their lookup function, so two of them are equal exactly
  when they agree on every key.
\<close>

lemma bt_eqI:
  assumes "bt_ok m" and "bt_ok n" and "map_of m = map_of n"
  shows "m = n"
proof -
  have d: "distinct (map fst m)" "distinct (map fst n)"
    using assms(1,2) by (simp_all add: bt_ok_distinct)
  have s: "sorted (map fst m)" "sorted (map fst n)"
    using assms(1,2) by (simp_all add: strict_sorted_iff)
  show ?thesis
    using map_sorted_distinct_set_unique [of fst m n] s d assms(3)
      map_of_inject_set [OF d] inj_on_map_eq_map
    by (metis distinct_map inj_on_subset order_refl sup.idem)
qed

text \<open>\<open>BTreeMap::extend\<close>: insert every entry of the second map, in its order.\<close>

definition bt_extend :: "('k::linorder, 'v) btmap \<Rightarrow> ('k, 'v) btmap \<Rightarrow> ('k, 'v) btmap" where
  "bt_extend m n = fold (\<lambda>(k, v). bt_insert k v) n m"

lemma bt_ok_extend [wf_intros]: "bt_ok m \<Longrightarrow> bt_ok (bt_extend m n)"
  by (simp add: bt_extend_def bt.ok_fold_insert)

lemma map_of_rev_distinct: "distinct (map fst n) \<Longrightarrow> map_of (rev n) = map_of n"
  by (metis distinct_rev map_of_inject_set rev_map set_rev)

lemma bt_get_extend [store_simps]:
  "bt_ok m \<Longrightarrow> bt_ok n \<Longrightarrow> map_of (bt_extend m n) = map_of m ++ map_of n"
  by (simp add: bt_extend_def bt.get_fold_insert map_of_rev_distinct bt_ok_distinct)

text \<open>
  Merging one map into another with a function for the keys both have, the loop
  \<open>for (k, v) in local { let merged = m.get(k).map(f v).unwrap_or(v); m.insert(k, merged) }\<close>
  of the sources.
\<close>

definition bt_merge_with ::
    "('v \<Rightarrow> 'v \<Rightarrow> 'v) \<Rightarrow> ('k::linorder, 'v) btmap \<Rightarrow> ('k, 'v) btmap \<Rightarrow> ('k, 'v) btmap" where
  "bt_merge_with f loc parent =
     fold (\<lambda>(k, v) m. bt_insert k (case map_of m k of Some p \<Rightarrow> f v p | None \<Rightarrow> v) m) loc parent"

lemma bt_merge_with_Nil [simp]: "bt_merge_with f [] m = m"
  by (simp add: bt_merge_with_def)

lemma bt_merge_with_Cons:
  "bt_merge_with f ((k, v) # loc) m =
     bt_merge_with f loc (bt_insert k (case map_of m k of Some p \<Rightarrow> f v p | None \<Rightarrow> v) m)"
  by (simp add: bt_merge_with_def)

lemma bt_ok_merge_with [wf_intros]: "bt_ok m \<Longrightarrow> bt_ok (bt_merge_with f loc m)"
  by (induction loc arbitrary: m) (auto simp: bt_merge_with_Cons bt_ok_insert)

lemma bt_get_merge_with [store_simps]:
  "bt_ok m \<Longrightarrow> distinct (map fst loc) \<Longrightarrow>
   map_of (bt_merge_with f loc m) k =
     (case map_of loc k of
        None \<Rightarrow> map_of m k
      | Some v \<Rightarrow> Some (case map_of m k of Some p \<Rightarrow> f v p | None \<Rightarrow> v))"
proof (induction loc arbitrary: m)
  case Nil
  then show ?case by simp
next
  case (Cons kv loc)
  obtain k' v where kv: "kv = (k', v)" by fastforce
  with Cons.prems have "map_of loc k' = None"
    by (auto simp: map_of_eq_None_iff)
  with Cons kv show ?case
    by (auto simp: bt_merge_with_Cons bt_ok_insert bt_get_insert split: option.splits)
qed

end
