(* ===== verification/F32.thy ===== *)
theory F32
  imports Prelude
begin

text \<open>
  The IEEE-754 arithmetic of the Rust types \<open>f32\<close> and \<open>f64\<close>, executable on exact
  rationals: every operation computes the exact result and rounds it once, to nearest with
  ties to even, in the precision and exponent range of the format. The sign of a zero is not
  represented: no modelled operation observes it.
\<close>

datatype fl = F_NaN | F_Inf bool | F_Fin rat

type_synonym f32 = fl
type_synonym f64 = fl

section \<open>Rounding\<close>

definition pow2 :: "int \<Rightarrow> rat" where
  "pow2 e = (if 0 \<le> e then 2 ^ nat e else 1 / 2 ^ nat (- e))"

text \<open>The number of bits of a positive integer.\<close>

function int_bits :: "int \<Rightarrow> int" where
  "int_bits n = (if n \<le> 0 then 0 else int_bits (n div 2) + 1)"
  by pat_completeness auto
termination
  by (relation "measure nat") auto

declare int_bits.simps [simp del]

text \<open>The exponent of a positive rational: the largest \<open>e\<close> with \<open>2\<^sup>e \<le> x\<close>.\<close>

definition exponent2 :: "rat \<Rightarrow> int" where
  "exponent2 x =
     (let (n, d) = quotient_of x;
          e = int_bits n - int_bits d
      in if pow2 e \<le> x then e else e - 1)"

definition round_half_even :: "rat \<Rightarrow> int" where
  "round_half_even z =
     (let f = \<lfloor>z\<rfloor>; r = z - of_int f in
      if r < 1 / 2 then f else if 1 / 2 < r then f + 1 else if even f then f else f + 1)"

definition fl_round :: "int \<Rightarrow> int \<Rightarrow> int \<Rightarrow> rat \<Rightarrow> fl" where
  "fl_round prec emin emax x =
     (if x = 0 then F_Fin 0
      else
        let q = pow2 (max (exponent2 \<bar>x\<bar> - (prec - 1)) emin);
            r = of_int (round_half_even (x / q)) * q
        in if pow2 emax \<le> \<bar>r\<bar> then F_Inf (x < 0) else F_Fin r)"

abbreviation f32_round :: "rat \<Rightarrow> f32" where
  "f32_round \<equiv> fl_round 24 (- 149) 128"

abbreviation f64_round :: "rat \<Rightarrow> f64" where
  "f64_round \<equiv> fl_round 53 (- 1074) 1024"

lemma fl_round_zero [simp]: "fl_round prec emin emax 0 = F_Fin 0"
  by (simp add: fl_round_def)

lemma fl_round_not_NaN [simp]: "fl_round prec emin emax x \<noteq> F_NaN"
  by (simp add: fl_round_def Let_def)

lemma round_half_even_int [simp]: "round_half_even (of_int k) = k"
  by (simp add: round_half_even_def)

lemma pow2_pos [simp]: "0 < pow2 e"
  by (simp add: pow2_def)

lemma pow2_nonpos_inverse: "e \<le> 0 \<Longrightarrow> pow2 e = 1 / of_int (2 ^ nat (- e))"
  by (auto simp: pow2_def)

section \<open>Arithmetic\<close>

fun fl_add :: "(rat \<Rightarrow> fl) \<Rightarrow> fl \<Rightarrow> fl \<Rightarrow> fl" where
  "fl_add rnd F_NaN _ = F_NaN"
| "fl_add rnd _ F_NaN = F_NaN"
| "fl_add rnd (F_Inf s) (F_Inf t) = (if s = t then F_Inf s else F_NaN)"
| "fl_add rnd (F_Inf s) (F_Fin _) = F_Inf s"
| "fl_add rnd (F_Fin _) (F_Inf t) = F_Inf t"
| "fl_add rnd (F_Fin x) (F_Fin y) = rnd (x + y)"

text \<open>Multiplication and division by a positive constant.\<close>

fun fl_scale :: "(rat \<Rightarrow> fl) \<Rightarrow> rat \<Rightarrow> fl \<Rightarrow> fl" where
  "fl_scale rnd k F_NaN = F_NaN"
| "fl_scale rnd k (F_Inf s) = F_Inf s"
| "fl_scale rnd k (F_Fin x) = rnd (x * k)"

fun fl_lt :: "fl \<Rightarrow> fl \<Rightarrow> bool" where
  "fl_lt F_NaN _ = False"
| "fl_lt _ F_NaN = False"
| "fl_lt (F_Inf s) (F_Inf t) = (s \<and> \<not> t)"
| "fl_lt (F_Inf s) (F_Fin _) = s"
| "fl_lt (F_Fin _) (F_Inf t) = (\<not> t)"
| "fl_lt (F_Fin x) (F_Fin y) = (x < y)"

fun fl_le :: "fl \<Rightarrow> fl \<Rightarrow> bool" where
  "fl_le F_NaN _ = False"
| "fl_le _ F_NaN = False"
| "fl_le (F_Inf s) (F_Inf t) = (s \<or> \<not> t)"
| "fl_le (F_Inf s) (F_Fin _) = s"
| "fl_le (F_Fin _) (F_Inf t) = (\<not> t)"
| "fl_le (F_Fin x) (F_Fin y) = (x \<le> y)"

fun is_finite :: "fl \<Rightarrow> bool" where
  "is_finite (F_Fin _) = True"
| "is_finite _ = False"

text \<open>\<open>f32::clamp\<close> with constant bounds; a NaN stays a NaN.\<close>

definition fl_clamp :: "rat \<Rightarrow> rat \<Rightarrow> fl \<Rightarrow> fl" where
  "fl_clamp lo hi x =
     (if fl_lt x (F_Fin lo) then F_Fin lo else if fl_lt (F_Fin hi) x then F_Fin hi else x)"

definition rat_trunc :: "rat \<Rightarrow> int" where
  "rat_trunc x = (if x < 0 then - \<lfloor>- x\<rfloor> else \<lfloor>x\<rfloor>)"

text \<open>The exact remainder \<open>x % k\<close> by a positive constant, with the sign of \<open>x\<close>.\<close>

fun fl_rem :: "rat \<Rightarrow> fl \<Rightarrow> fl" where
  "fl_rem k (F_Fin x) = F_Fin (x - k * of_int (rat_trunc (x / k)))"
| "fl_rem k _ = F_NaN"

definition fl_rem_euclid :: "(rat \<Rightarrow> fl) \<Rightarrow> rat \<Rightarrow> fl \<Rightarrow> fl" where
  "fl_rem_euclid rnd k x =
     (let r = fl_rem k x in if fl_lt r (F_Fin 0) then fl_add rnd r (F_Fin k) else r)"

fun fl_floor :: "fl \<Rightarrow> fl" where
  "fl_floor (F_Fin x) = F_Fin (of_int \<lfloor>x\<rfloor>)"
| "fl_floor x = x"

text \<open>\<open>f64::round\<close>: to the nearest integer, halves away from zero.\<close>

fun fl_round_half_away :: "fl \<Rightarrow> fl" where
  "fl_round_half_away (F_Fin x) =
     F_Fin (of_int (if x < 0 then - \<lfloor>- x + 1 / 2\<rfloor> else \<lfloor>x + 1 / 2\<rfloor>))"
| "fl_round_half_away x = x"

text \<open>The saturating cast \<open>as u16\<close>, as a natural number.\<close>

fun fl_as_u16 :: "fl \<Rightarrow> nat" where
  "fl_as_u16 F_NaN = 0"
| "fl_as_u16 (F_Inf s) = (if s then 0 else 65535)"
| "fl_as_u16 (F_Fin x) = nat (min 65535 (rat_trunc x))"

text \<open>The cast \<open>as f32\<close> of an \<open>f64\<close>.\<close>

fun f32_of_f64 :: "f64 \<Rightarrow> f32" where
  "f32_of_f64 (F_Fin x) = f32_round x"
| "f32_of_f64 x = x"

section \<open>Laws\<close>

lemma fl_lt_irrefl [simp]: "\<not> fl_lt x x"
  by (cases x) auto

lemma is_finite_iff: "is_finite x \<longleftrightarrow> (\<exists>r. x = F_Fin r)"
  by (cases x) auto

definition fl_between :: "rat \<Rightarrow> rat \<Rightarrow> fl \<Rightarrow> bool" where
  "fl_between lo hi x \<longleftrightarrow> (case x of F_Fin r \<Rightarrow> lo \<le> r \<and> r \<le> hi | _ \<Rightarrow> False)"

lemma fl_between_finite: "fl_between lo hi x \<Longrightarrow> is_finite x"
  by (cases x) (auto simp: fl_between_def)

lemma fl_between_Fin [simp]: "fl_between lo hi (F_Fin r) \<longleftrightarrow> lo \<le> r \<and> r \<le> hi"
  by (simp add: fl_between_def)

lemma fl_clamp_between: "lo \<le> hi \<Longrightarrow> x \<noteq> F_NaN \<Longrightarrow> fl_between lo hi (fl_clamp lo hi x)"
  by (cases x) (auto simp: fl_clamp_def fl_between_def)

lemma fl_clamp_NaN [simp]: "fl_clamp lo hi F_NaN = F_NaN"
  by (simp add: fl_clamp_def)

lemma fl_clamp_id: "fl_between lo hi x \<Longrightarrow> fl_clamp lo hi x = x"
  by (cases x) (auto simp: fl_clamp_def fl_between_def)

lemma fl_add_NaN_iff:
  "fl_add (fl_round p e m) x y = F_NaN \<longleftrightarrow>
     x = F_NaN \<or> y = F_NaN \<or> (\<exists>s t. x = F_Inf s \<and> y = F_Inf t \<and> s \<noteq> t)"
  by (cases x; cases y) auto

lemma fl_add_finite_not_NaN:
  "is_finite x \<Longrightarrow> is_finite y \<Longrightarrow> fl_add (fl_round p e m) x y \<noteq> F_NaN"
  by (simp add: fl_add_NaN_iff is_finite_iff) auto

lemma rat_trunc_nonneg: "0 \<le> x \<Longrightarrow> rat_trunc x = \<lfloor>x\<rfloor>"
  by (simp add: rat_trunc_def)

lemma fl_rem_nonneg:
  assumes "0 < k" and "0 \<le> x"
  shows "\<exists>r. fl_rem k (F_Fin x) = F_Fin r \<and> 0 \<le> r \<and> r < k"
proof -
  let ?n = "\<lfloor>x / k\<rfloor>"
  have "of_int ?n * k \<le> x"
    using of_int_floor_le [of "x / k"] by (simp only: pos_le_divide_eq [OF assms(1)])
  moreover have "x < (of_int ?n + 1) * k"
    using floor_correct [of "x / k"] by (simp only: pos_divide_less_eq [OF assms(1)] of_int_add of_int_1)
  ultimately have "k * of_int ?n \<le> x" and "x < k * of_int ?n + k"
    by (simp_all add: algebra_simps)
  then show ?thesis
    using assms by (simp add: rat_trunc_nonneg)
qed

lemma fl_rem_id: "0 \<le> x \<Longrightarrow> x < k \<Longrightarrow> fl_rem k (F_Fin x) = F_Fin x"
  by (simp add: rat_trunc_nonneg floor_eq_iff)

lemma fl_rem_euclid_id:
  "0 \<le> x \<Longrightarrow> x < k \<Longrightarrow> fl_rem_euclid rnd k (F_Fin x) = F_Fin x"
  by (simp add: fl_rem_euclid_def fl_rem_id del: fl_rem.simps)

end
