(* ===== verification/RustStr.thy ===== *)
theory RustStr
  imports Prelude
begin

text \<open>
  The functions of Rust's \<open>str\<close> that the modelled sources call, on UTF-8 byte sequences:
  splitting, trimming of Unicode white space, ASCII case, decimal parsing and formatting.
\<close>

section \<open>Characters\<close>

abbreviation byte :: "char \<Rightarrow> nat" where
  "byte c \<equiv> of_char c"

definition is_digit :: "char \<Rightarrow> bool" where
  "is_digit c \<longleftrightarrow> 48 \<le> byte c \<and> byte c \<le> 57"

definition is_ascii_alphanumeric :: "char \<Rightarrow> bool" where
  "is_ascii_alphanumeric c \<longleftrightarrow>
     is_digit c \<or> 65 \<le> byte c \<and> byte c \<le> 90 \<or> 97 \<le> byte c \<and> byte c \<le> 122"

definition to_ascii_lowercase :: "char \<Rightarrow> char" where
  "to_ascii_lowercase c =
     (if 65 \<le> byte c \<and> byte c \<le> 90 then char_of (byte c + 32 :: nat) else c)"

lemma byte_char_of: "n < 256 \<Longrightarrow> byte (char_of (n :: nat)) = n"
  by (simp add: of_char_of)

lemma to_ascii_lowercase_idem [simp]:
  "to_ascii_lowercase (to_ascii_lowercase c) = to_ascii_lowercase c"
  by (simp add: to_ascii_lowercase_def byte_char_of)

lemma is_ascii_alphanumeric_lowercase [simp]:
  "is_ascii_alphanumeric (to_ascii_lowercase c) = is_ascii_alphanumeric c"
  by (auto simp: to_ascii_lowercase_def is_ascii_alphanumeric_def is_digit_def byte_char_of)

section \<open>Splitting\<close>

text \<open>\<open>str::split\<close> at one ASCII character; there is always at least one part.\<close>

fun split_on :: "char \<Rightarrow> string \<Rightarrow> string list" where
  "split_on d [] = [[]]"
| "split_on d (c # cs) =
     (if c = d then [] # split_on d cs
      else (case split_on d cs of p # ps \<Rightarrow> (c # p) # ps | [] \<Rightarrow> [[c]]))"

lemma split_on_nonempty [simp]: "split_on d s \<noteq> []"
  by (induction s) (auto split: list.splits)

lemma split_on_no_sep [simp]: "d \<notin> set s \<Longrightarrow> split_on d s = [s]"
  by (induction s) auto

lemma split_on_append [simp]: "d \<notin> set s \<Longrightarrow> split_on d (s @ d # t) = s # split_on d t"
  by (induction s) auto

section \<open>White space\<close>

text \<open>
  Length in bytes of the Unicode white-space character at the head of a UTF-8 sequence, 0 if
  there is none: U+0009 to U+000D, U+0020, U+0085, U+00A0, U+1680, U+2000 to U+200A, U+2028,
  U+2029, U+202F, U+205F and U+3000 (\<open>char::is_whitespace\<close>).
\<close>

fun ws_len :: "nat list \<Rightarrow> nat" where
  "ws_len (a # rest) =
     (if 9 \<le> a \<and> a \<le> 13 \<or> a = 32 then 1
      else case rest of
        [] \<Rightarrow> 0
      | b # rest' \<Rightarrow>
          if a = 194 \<and> (b = 133 \<or> b = 160) then 2
          else case rest' of
            [] \<Rightarrow> 0
          | c # _ \<Rightarrow>
              if a = 225 \<and> b = 154 \<and> c = 128 then 3
              else if a = 226 \<and> b = 128 \<and> (128 \<le> c \<and> c \<le> 138 \<or> c = 168 \<or> c = 169 \<or> c = 175)
                then 3
              else if a = 226 \<and> b = 129 \<and> c = 159 then 3
              else if a = 227 \<and> b = 128 \<and> c = 128 then 3
              else 0)"
| "ws_len [] = 0"

text \<open>The same at the end of a sequence, given its bytes in reverse order.\<close>

fun ws_len_rev :: "nat list \<Rightarrow> nat" where
  "ws_len_rev s =
     (if ws_len (take 1 s) = 1 then 1
      else if ws_len (rev (take 2 s)) = 2 then 2
      else if ws_len (rev (take 3 s)) = 3 then 3
      else 0)"

function trim_start :: "string \<Rightarrow> string" where
  "trim_start s =
     (let n = ws_len (map byte s) in
      if n = 0 \<or> s = [] then s else trim_start (drop n s))"
  by pat_completeness auto
termination
  by (relation "measure length") auto

function trim_end_rev :: "string \<Rightarrow> string" where
  "trim_end_rev s =
     (let n = ws_len_rev (map byte s) in
      if n = 0 \<or> s = [] then s else trim_end_rev (drop n s))"
  by pat_completeness auto
termination
  by (relation "measure length") auto

declare trim_start.simps [simp del] trim_end_rev.simps [simp del]

text \<open>\<open>str::trim\<close>.\<close>

definition trim :: "string \<Rightarrow> string" where
  "trim s = rev (trim_end_rev (rev (trim_start s)))"

lemma trim_start_Nil [simp]: "trim_start [] = []"
  by (simp add: trim_start.simps)

lemma trim_end_rev_Nil [simp]: "trim_end_rev [] = []"
  by (simp add: trim_end_rev.simps)

lemma trim_Nil [simp]: "trim [] = []"
  by (simp add: trim_def)

lemma trim_start_id: "ws_len (map byte s) = 0 \<Longrightarrow> trim_start s = s"
  by (subst trim_start.simps) (simp add: Let_def)

text \<open>A string that starts and ends with a printable ASCII character is not changed by \<open>trim\<close>.\<close>

definition printable :: "char \<Rightarrow> bool" where
  "printable c \<longleftrightarrow> 32 < byte c \<and> byte c < 128"

lemma ws_len_printable: "printable c \<Longrightarrow> ws_len (byte c # r) = 0"
  by (auto simp: printable_def split: list.splits)

lemma ws_len_ascii_end: "z < 128 \<Longrightarrow> ws_len [x, z] \<noteq> 2 \<and> ws_len [x, y, z] \<noteq> 3"
  by auto

lemma ws_len_le: "ws_len s \<le> length s"
  by (induction s rule: ws_len.induct) (auto split: list.splits)

lemma ws_len_rev_printable:
  assumes "printable c"
  shows "ws_len_rev (byte c # r) = 0"
proof -
  have z: "byte c < 128" "ws_len [byte c] = 0"
    using assms ws_len_printable [of c "[]"] by (simp_all add: printable_def)
  then have "ws_len (rev (take 2 (byte c # r))) \<noteq> 2"
    using ws_len_ascii_end by (cases r) (auto simp del: ws_len.simps)
  moreover have "ws_len (rev (take 3 (byte c # r))) \<noteq> 3"
  proof (cases r)
    case (Cons x r')
    then show ?thesis
      using z ws_len_ascii_end ws_len_le [of "[x, byte c]"]
      by (cases r') (auto simp: numeral_3_eq_3 simp del: ws_len.simps)
  qed (use z in \<open>simp del: ws_len.simps\<close>)
  ultimately show ?thesis using z(2) by (simp del: ws_len.simps)
qed

lemma trim_id:
  assumes "s \<noteq> []" and "printable (hd s)" and "printable (last s)"
  shows "trim s = s"
proof -
  obtain c cs where c: "s = c # cs" using assms(1) by (cases s) auto
  have "trim_start s = s"
    using assms(2) c ws_len_printable [of c "map byte cs"]
    by (simp add: trim_start_id del: ws_len.simps)
  obtain d ds where d: "rev s = d # ds" using assms(1) by (cases "rev s") auto
  then have "d = last s" using assms(1) by (metis hd_rev list.sel(1))
  then have "trim_end_rev (d # ds) = d # ds"
    using assms(3) ws_len_rev_printable [of d "map byte ds"]
    by (subst trim_end_rev.simps) (simp add: Let_def del: ws_len_rev.simps)
  then have "trim_end_rev (rev s) = rev s" by (simp only: d)
  with \<open>trim_start s = s\<close> show ?thesis by (simp only: trim_def rev_rev_ident)
qed

section \<open>Decimal numbers\<close>

definition digit_char :: "nat \<Rightarrow> char" where
  "digit_char d = char_of (48 + d)"

definition digit_val :: "char \<Rightarrow> nat" where
  "digit_val c = byte c - 48"

lemma digit_val_char [simp]: "d < 10 \<Longrightarrow> digit_val (digit_char d) = d"
  by (simp add: digit_val_def digit_char_def of_char_of)

lemma is_digit_char [simp]: "d < 10 \<Longrightarrow> is_digit (digit_char d)"
  by (simp add: is_digit_def digit_char_def of_char_of)

fun show_nat :: "nat \<Rightarrow> string" where
  "show_nat n = (if n < 10 then [digit_char n] else show_nat (n div 10) @ [digit_char (n mod 10)])"

declare show_nat.simps [simp del]

definition digits_val :: "string \<Rightarrow> nat" where
  "digits_val s = foldl (\<lambda>n c. 10 * n + digit_val c) 0 s"

lemma digits_val_Nil [simp]: "digits_val [] = 0"
  by (simp add: digits_val_def)

lemma digits_val_snoc [simp]: "digits_val (s @ [c]) = 10 * digits_val s + digit_val c"
  by (simp add: digits_val_def)

lemma show_nat_digits: "list_all is_digit (show_nat n)"
proof (induction n rule: show_nat.induct)
  case (1 n)
  then show ?case by (subst show_nat.simps) auto
qed

lemma show_nat_nonempty [simp]: "show_nat n \<noteq> []"
  by (subst show_nat.simps) auto

lemma digits_val_show_nat [simp]: "digits_val (show_nat n) = n"
proof (induction n rule: show_nat.induct)
  case (1 n)
  show ?case
  proof (cases "n < 10")
    case True
    then show ?thesis
      by (subst show_nat.simps) (simp add: digits_val_def)
  next
    case False
    with 1 show ?thesis
      by (subst show_nat.simps) auto
  qed
qed

lemma show_nat_inject [simp]: "show_nat m = show_nat n \<longleftrightarrow> m = n"
  by (metis digits_val_show_nat)

text \<open>\<open>format!("{:02}", n)\<close>.\<close>

definition show_nat2 :: "nat \<Rightarrow> string" where
  "show_nat2 n = (if n < 10 then CHR ''0'' # show_nat n else show_nat n)"

text \<open>
  \<open>str::parse\<close> for an unsigned type with largest value \<open>hi\<close>: an optional plus sign and at
  least one digit, nothing else; a value above \<open>hi\<close> is an error.
\<close>

definition parse_uint :: "nat \<Rightarrow> string \<Rightarrow> nat option" where
  "parse_uint hi s =
     (let ds = (case s of [] \<Rightarrow> [] | c # r \<Rightarrow> if c = CHR ''+'' then r else s) in
      if ds = [] \<or> \<not> list_all is_digit ds then None
      else if digits_val ds \<le> hi then Some (digits_val ds) else None)"

lemma plus_not_digit: "\<not> is_digit CHR ''+''"
  by (simp add: is_digit_def)

lemma colon_not_digit: "\<not> is_digit CHR '':''"
  by (simp add: is_digit_def)

lemma parse_uint_digits:
  "ds \<noteq> [] \<Longrightarrow> list_all is_digit ds \<Longrightarrow> digits_val ds \<le> hi \<Longrightarrow> parse_uint hi ds = Some (digits_val ds)"
  by (cases ds) (auto simp: parse_uint_def plus_not_digit)

lemma parse_uint_le: "parse_uint hi s = Some n \<Longrightarrow> n \<le> hi"
  by (auto simp: parse_uint_def Let_def split: if_splits)

lemma show_nat2_digits [simp]: "list_all is_digit (show_nat2 n)"
  by (simp add: show_nat2_def show_nat_digits is_digit_def)

lemma show_nat2_nonempty [simp]: "show_nat2 n \<noteq> []"
  by (simp add: show_nat2_def)

lemma foldl_digits_zero:
  "foldl (\<lambda>n c. 10 * n + digit_val c) 0 (CHR ''0'' # s) = foldl (\<lambda>n c. 10 * n + digit_val c) 0 s"
  by (simp add: digit_val_def)

lemma digits_val_show_nat2 [simp]: "digits_val (show_nat2 n) = n"
  using digits_val_show_nat [of n]
  by (simp add: show_nat2_def digits_val_def foldl_digits_zero del: digits_val_show_nat foldl_Cons)

lemma parse_uint_show_nat2: "n \<le> hi \<Longrightarrow> parse_uint hi (show_nat2 n) = Some n"
  by (simp add: parse_uint_digits)

lemma digits_no_sep: "list_all is_digit s \<Longrightarrow> \<not> is_digit c \<Longrightarrow> c \<notin> set s"
  by (auto simp: list_all_iff)

text \<open>\<open>format!("{:+}", n)\<close>: the sign is always printed.\<close>

definition show_signed :: "int \<Rightarrow> string" where
  "show_signed n = (if n < 0 then CHR ''-'' # show_nat (nat (- n)) else CHR ''+'' # show_nat (nat n))"

text \<open>\<open>format!("{}", n)\<close> of a signed number.\<close>

definition show_int :: "int \<Rightarrow> string" where
  "show_int n = (if n < 0 then CHR ''-'' # show_nat (nat (- n)) else show_nat (nat n))"

end
