(* ===== verification/Profile.thy ===== *)
theory Profile
  imports F32 RustStr
begin

text \<open>
  Light profile configuration (\<open>rhythm-profile/src/profile_config.rs\<close>,
  \<open>curve_shape.rs\<close>, \<open>color.rs\<close> and \<open>rhythm-core/src/light_profile/defaults.rs\<close>):
  timer settings, curve shapes, the complete profile record, its normalisation and the
  built-in profiles. Curve evaluation is not part of it.
\<close>

section \<open>Data\<close>

record xy_color =
  xy_x :: f32
  xy_y :: f32

record rgb =
  rgb_r :: u8
  rgb_g :: u8
  rgb_b :: u8

record light_direct_color =
  dc_xy :: xy_color
  dc_rgb :: rgb

record light_palette_keyframe =
  kf_hour :: f32
  kf_r :: u8
  kf_g :: u8
  kf_b :: u8

datatype light_curve_shape =
    SuperGaussian (width_left_bri: f32) (width_right_bri: f32) (width_left_cct: f32)
      (width_right_cct: f32) (shape_p: f32) (sg_direct_color: "light_direct_color option")
  | Palette (keyframes: "light_palette_keyframe list")
  | InheritActive
  | Constant (const_brightness: f32) (const_color_temp: f32)
      (const_direct_color: "light_direct_color option")

record hour_breakpoint =
  bp_hour :: f32
  bp_value :: u32

datatype timer_setting = TimerAuto | TimerFixed u32 | TimerScheduled "hour_breakpoint list"

record light_profile_config =
  lp_id :: string
  lp_name :: string
  lp_curve :: light_curve_shape
  lp_min_brightness :: u8
  lp_max_brightness :: u8
  lp_min_color_temp :: u16
  lp_max_color_temp :: u16
  lp_max_dim_steps :: u8
  lp_fade_ms :: timer_setting
  lp_motion_timeout_secs :: timer_setting
  lp_rhythm_interval_secs :: timer_setting

section \<open>Float normalisation\<close>

text \<open>
  \<open>normalize_config_float\<close>: scale by 1000 in \<open>f64\<close>, round, scale back, cast to
  \<open>f32\<close>. The final test only turns a negative zero into a positive one.
\<close>

definition normalize_config_float :: "f32 \<Rightarrow> f32" where
  "normalize_config_float v =
     f32_of_f64 (fl_scale f64_round (1 / 1000)
       (fl_round_half_away (fl_scale f64_round 1000 v)))"

definition normalize_timer :: "timer_setting \<Rightarrow> timer_setting" where
  "normalize_timer t =
     (case t of
        TimerScheduled bps \<Rightarrow>
          TimerScheduled (map (\<lambda>b. b\<lparr>bp_hour := normalize_config_float (bp_hour b)\<rparr>) bps)
      | _ \<Rightarrow> t)"

definition normalize_direct_color :: "light_direct_color \<Rightarrow> light_direct_color" where
  "normalize_direct_color c =
     c\<lparr>dc_xy := \<lparr>xy_x = normalize_config_float (xy_x (dc_xy c)),
                   xy_y = normalize_config_float (xy_y (dc_xy c))\<rparr>\<rparr>"

fun normalize_curve :: "light_curve_shape \<Rightarrow> light_curve_shape" where
  "normalize_curve (SuperGaussian a b c d p col) =
     SuperGaussian (normalize_config_float a) (normalize_config_float b)
       (normalize_config_float c) (normalize_config_float d) (normalize_config_float p)
       (map_option normalize_direct_color col)"
| "normalize_curve (Palette ks) =
     Palette (map (\<lambda>k. k\<lparr>kf_hour := normalize_config_float (kf_hour k)\<rparr>) ks)"
| "normalize_curve InheritActive = InheritActive"
| "normalize_curve (Constant b t col) =
     Constant (normalize_config_float b) (normalize_config_float t)
       (map_option normalize_direct_color col)"

definition normalize_float_precision :: "light_profile_config \<Rightarrow> light_profile_config" where
  "normalize_float_precision c =
     c\<lparr>lp_curve := normalize_curve (lp_curve c),
       lp_fade_ms := normalize_timer (lp_fade_ms c),
       lp_motion_timeout_secs := normalize_timer (lp_motion_timeout_secs c),
       lp_rhythm_interval_secs := normalize_timer (lp_rhythm_interval_secs c)\<rparr>"

section \<open>Timer resolution\<close>

text \<open>\<open>TimerSetting::resolve\<close>: the loop keeps the value of the last breakpoint at or before the hour.\<close>

fun resolve_breakpoints :: "u32 \<Rightarrow> hour_breakpoint list \<Rightarrow> f32 \<Rightarrow> u32" where
  "resolve_breakpoints r [] h = r"
| "resolve_breakpoints r (b # bs) h =
     resolve_breakpoints (if fl_le (bp_hour b) h then bp_value b else r) bs h"

definition timer_resolve :: "timer_setting \<Rightarrow> f32 \<Rightarrow> u32 option" where
  "timer_resolve t h =
     (case t of
        TimerAuto \<Rightarrow> None
      | TimerFixed v \<Rightarrow> Some v
      | TimerScheduled bps \<Rightarrow>
          if bps = [] then None
          else Some (resolve_breakpoints (bp_value (last bps)) bps h))"

definition is_auto :: "timer_setting \<Rightarrow> bool" where
  "is_auto t \<longleftrightarrow> t = TimerAuto"

text \<open>
  Specification: the breakpoint in force is the last one whose hour is not after the current
  one; before the first breakpoint of the day it is the last one of the list.
\<close>

definition breakpoint_in_force :: "hour_breakpoint list \<Rightarrow> f32 \<Rightarrow> hour_breakpoint option" where
  "breakpoint_in_force bps h =
     (if bps = [] then None
      else case filter (\<lambda>b. fl_le (bp_hour b) h) bps of
             [] \<Rightarrow> Some (last bps)
           | bs \<Rightarrow> Some (last bs))"

lemma resolve_breakpoints_filter:
  "resolve_breakpoints r bps h =
     (let bs = filter (\<lambda>b. fl_le (bp_hour b) h) bps in
      if bs = [] then r else bp_value (last bs))"
  by (induction r bps h rule: resolve_breakpoints.induct) (auto simp: Let_def)

lemma timer_resolve_in_force:
  "timer_resolve (TimerScheduled bps) h = map_option bp_value (breakpoint_in_force bps h)"
  by (auto simp: timer_resolve_def breakpoint_in_force_def resolve_breakpoints_filter Let_def
      split: list.splits)

section \<open>Output ranges\<close>

definition brightness_range :: "light_profile_config \<Rightarrow> u8 \<times> u8" where
  "brightness_range c =
     (if lp_min_brightness c \<le> lp_max_brightness c
      then (lp_min_brightness c, lp_max_brightness c)
      else (lp_max_brightness c, lp_min_brightness c))"

definition color_temp_range :: "light_profile_config \<Rightarrow> u16 \<times> u16" where
  "color_temp_range c =
     (if lp_min_color_temp c \<le> lp_max_color_temp c
      then (lp_min_color_temp c, lp_max_color_temp c)
      else (lp_max_color_temp c, lp_min_color_temp c))"

text \<open>\<open>brightness_step_size\<close>: \<open>saturating_sub\<close> of the bytes, divided in \<open>f32\<close>.\<close>

definition brightness_step_size :: "light_profile_config \<Rightarrow> f32" where
  "brightness_step_size c =
     f32_round (of_nat (unat (lp_max_brightness c) - unat (lp_min_brightness c)) /
                of_nat (max (unat (lp_max_dim_steps c)) 1))"

lemma brightness_range_ordered: "fst (brightness_range c) \<le> snd (brightness_range c)"
  by (auto simp: brightness_range_def)

lemma color_temp_range_ordered: "fst (color_temp_range c) \<le> snd (color_temp_range c)"
  by (auto simp: color_temp_range_def)

section \<open>Built-in profiles\<close>

definition RHYTHM_PROFILE_ID :: string where "RHYTHM_PROFILE_ID = ''rhythm''"
definition SLEEP_PROFILE_ID :: string where "SLEEP_PROFILE_ID = ''sleep''"
definition DAY_IDLE_PROFILE_ID :: string where "DAY_IDLE_PROFILE_ID = ''day_idle''"
definition SLEEP_IDLE_PROFILE_ID :: string where "SLEEP_IDLE_PROFILE_ID = ''sleep_idle''"

lemmas profile_id_defs =
  RHYTHM_PROFILE_ID_def SLEEP_PROFILE_ID_def DAY_IDLE_PROFILE_ID_def SLEEP_IDLE_PROFILE_ID_def

definition default_super_gaussian :: light_curve_shape where
  "default_super_gaussian =
     SuperGaussian (f32_round (95 / 100)) (f32_round (85 / 100)) (f32_round (95 / 100))
       (f32_round (115 / 100)) (F_Fin 6) None"

definition inherit_active_idle_profile :: "string \<Rightarrow> string \<Rightarrow> light_profile_config" where
  "inherit_active_idle_profile i n =
     \<lparr>lp_id = i, lp_name = n, lp_curve = InheritActive,
      lp_min_brightness = 1, lp_max_brightness = 1,
      lp_min_color_temp = 0, lp_max_color_temp = 0, lp_max_dim_steps = 1,
      lp_fade_ms = TimerAuto, lp_motion_timeout_secs = TimerAuto,
      lp_rhythm_interval_secs = TimerAuto\<rparr>"

definition default_rhythm_profile :: light_profile_config where
  "default_rhythm_profile =
     \<lparr>lp_id = RHYTHM_PROFILE_ID, lp_name = ''Day'', lp_curve = default_super_gaussian,
      lp_min_brightness = 20, lp_max_brightness = 100,
      lp_min_color_temp = 1800, lp_max_color_temp = 5500, lp_max_dim_steps = 6,
      lp_fade_ms = TimerAuto, lp_motion_timeout_secs = TimerAuto,
      lp_rhythm_interval_secs = TimerAuto\<rparr>"

definition default_sleep_profile :: light_profile_config where
  "default_sleep_profile =
     \<lparr>lp_id = SLEEP_PROFILE_ID, lp_name = ''Sleep'',
      lp_curve = Constant (F_Fin 0) (F_Fin 0) None,
      lp_min_brightness = 1, lp_max_brightness = 1,
      lp_min_color_temp = lp_min_color_temp default_rhythm_profile,
      lp_max_color_temp = lp_min_color_temp default_rhythm_profile, lp_max_dim_steps = 1,
      lp_fade_ms = TimerAuto, lp_motion_timeout_secs = TimerAuto,
      lp_rhythm_interval_secs = TimerAuto\<rparr>"

definition default_day_idle_profile :: light_profile_config where
  "default_day_idle_profile = inherit_active_idle_profile DAY_IDLE_PROFILE_ID ''Day Idle''"

definition default_sleep_idle_profile :: light_profile_config where
  "default_sleep_idle_profile = inherit_active_idle_profile SLEEP_IDLE_PROFILE_ID ''Sleep Idle''"

definition default_builtin_profiles :: "light_profile_config list" where
  "default_builtin_profiles =
     [default_rhythm_profile, default_sleep_profile, default_day_idle_profile,
      default_sleep_idle_profile]"

text \<open>Built-in state profiles cannot be selected as active profiles.\<close>

definition is_builtin_state_profile_id :: "string \<Rightarrow> bool" where
  "is_builtin_state_profile_id i \<longleftrightarrow> i = DAY_IDLE_PROFILE_ID \<or> i = SLEEP_IDLE_PROFILE_ID"

definition normalize_builtin_state_profile_config ::
    "light_profile_config \<Rightarrow> light_profile_config" where
  "normalize_builtin_state_profile_config c =
     (if \<not> is_builtin_state_profile_id (lp_id c) then c
      else
        let reset = lp_min_brightness c = 20 \<and> lp_max_brightness c = 100;
            fixed = (if reset then 1 else max (max (lp_max_brightness c) (lp_min_brightness c)) 1)
        in c\<lparr>lp_min_brightness := fixed, lp_max_brightness := fixed,
              lp_curve := (case lp_curve c of
                 Constant b t col \<Rightarrow> Constant (F_Fin 1) (fl_clamp 0 1 t) col
               | cv \<Rightarrow> cv)\<rparr>)"

lemma fl_clamp_idem: "lo \<le> hi \<Longrightarrow> fl_clamp lo hi (fl_clamp lo hi x) = fl_clamp lo hi x"
  by (cases x) (auto simp: fl_clamp_def)

lemma normalize_builtin_idem:
  "normalize_builtin_state_profile_config (normalize_builtin_state_profile_config c) =
   normalize_builtin_state_profile_config c"
  by (auto simp: normalize_builtin_state_profile_config_def Let_def fl_clamp_idem max_def
      split: light_curve_shape.splits)

section \<open>Properties\<close>

text \<open>A timer that follows the time of day resolves to the value of the last breakpoint
  that is not after the current hour, before the first one of the day to the value of the last
  breakpoint of the list, and to nothing only when it has no breakpoints; an automatic one
  resolves to nothing and a fixed one to its value.\<close>

theorem timer_resolve_spec:
  "timer_resolve t h =
     (case t of
        TimerAuto \<Rightarrow> None
      | TimerFixed v \<Rightarrow> Some v
      | TimerScheduled bps \<Rightarrow> map_option bp_value (breakpoint_in_force bps h))"
  by (cases t) (simp_all add: timer_resolve_in_force, simp_all add: timer_resolve_def)

end
