(* ===== verification/Modes.thy ===== *)
theory Modes
  imports Profile
begin

text \<open>
  Modes, room states and mode transitions (\<open>rhythm-core/src/room.rs\<close>, first half): the two
  global modes, the profile mapping of a mode, wall-clock times, transition triggers with
  their wire format, and the normalisation of the transition list.
\<close>

section \<open>Modes\<close>

datatype rhythm_mode = Day | Sleep

text \<open>The derived order of the enum: \<open>Day\<close> before \<open>Sleep\<close>.\<close>

instantiation rhythm_mode :: linorder
begin

definition less_eq_rhythm_mode :: "rhythm_mode \<Rightarrow> rhythm_mode \<Rightarrow> bool" where
  "less_eq_rhythm_mode a b \<longleftrightarrow> a = Day \<or> b = Sleep"

definition less_rhythm_mode :: "rhythm_mode \<Rightarrow> rhythm_mode \<Rightarrow> bool" where
  "less_rhythm_mode a b \<longleftrightarrow> a = Day \<and> b = Sleep"

instance
proof
  fix x y z :: rhythm_mode
  show "(x < y) = (x \<le> y \<and> \<not> y \<le> x)"
    by (cases x; cases y) (auto simp: less_eq_rhythm_mode_def less_rhythm_mode_def)
  show "x \<le> x"
    by (cases x) (auto simp: less_eq_rhythm_mode_def)
  show "x \<le> y \<Longrightarrow> y \<le> z \<Longrightarrow> x \<le> z"
    by (auto simp: less_eq_rhythm_mode_def)
  show "x \<le> y \<Longrightarrow> y \<le> x \<Longrightarrow> x = y"
    by (auto simp: less_eq_rhythm_mode_def)
  show "x \<le> y \<or> y \<le> x"
    by (cases x; cases y) (auto simp: less_eq_rhythm_mode_def)
qed

end

definition ALL_MODES :: "rhythm_mode list" where
  "ALL_MODES = [Day, Sleep]"

definition from_profile_id :: "string \<Rightarrow> rhythm_mode" where
  "from_profile_id i = (if i = SLEEP_PROFILE_ID then Sleep else Day)"

fun default_active_profile_id :: "rhythm_mode \<Rightarrow> string" where
  "default_active_profile_id Day = RHYTHM_PROFILE_ID"
| "default_active_profile_id Sleep = SLEEP_PROFILE_ID"

fun default_idle_profile_id :: "rhythm_mode \<Rightarrow> string" where
  "default_idle_profile_id Day = DAY_IDLE_PROFILE_ID"
| "default_idle_profile_id Sleep = SLEEP_IDLE_PROFILE_ID"

lemma from_profile_id_default [simp]: "from_profile_id (default_active_profile_id m) = m"
  by (cases m) (simp_all add: from_profile_id_def profile_id_defs)

lemma default_active_not_builtin [simp]:
  "\<not> is_builtin_state_profile_id (default_active_profile_id m)"
  by (cases m) (simp_all add: is_builtin_state_profile_id_def profile_id_defs)

section \<open>Room states\<close>

datatype room_mode_state = Active | Mood | Standby | Wake | Warning | HardOff

fun as_api_str :: "room_mode_state \<Rightarrow> string" where
  "as_api_str Active = ''active''"
| "as_api_str Mood = ''mood''"
| "as_api_str Standby = ''standby''"
| "as_api_str Wake = ''wake''"
| "as_api_str Warning = ''warning''"
| "as_api_str HardOff = ''hard_off''"

fun is_mode_default_target :: "room_mode_state \<Rightarrow> bool" where
  "is_mode_default_target Active = True"
| "is_mode_default_target Mood = True"
| "is_mode_default_target Standby = True"
| "is_mode_default_target HardOff = True"
| "is_mode_default_target _ = False"

definition from_flags :: "bool \<Rightarrow> bool \<Rightarrow> bool \<Rightarrow> bool \<Rightarrow> room_mode_state" where
  "from_flags hard_off soft_off mood_active warning_active =
     (if hard_off then HardOff
      else if warning_active then Warning
      else if mood_active then Mood
      else if soft_off then Standby
      else Active)"

text \<open>\<open>Deserialize for RoomModeState\<close>: the label, with two legacy names of Standby.\<close>

definition room_mode_state_of_str :: "string \<Rightarrow> string + room_mode_state" where
  "room_mode_state_of_str raw =
     (if raw = ''active'' then Inr Active
      else if raw = ''mood'' then Inr Mood
      else if raw = ''standby'' \<or> raw = ''idle'' \<or> raw = ''soft_off'' then Inr Standby
      else if raw = ''hard_off'' then Inr HardOff
      else if raw = ''wake'' then Inr Wake
      else if raw = ''warning'' then Inr Warning
      else Inl (''unknown room state '' @ [CHR 0x27] @ raw @ [CHR 0x27]))"

section \<open>Mode configuration\<close>

record room_mode_default =
  rd_room_id :: string
  rd_state :: room_mode_state

record mode_config =
  mc_mode :: rhythm_mode
  mc_active_profile_id :: "string option"
  mc_idle_profile_id :: "string option"
  mc_wake_profile_id :: "string option"
  mc_warning_profile_id :: "string option"
  mc_room_defaults :: "room_mode_default list"

text \<open>The loop of \<open>normalize_room_defaults\<close> over the reversed list.\<close>

fun keep_first_valid :: "string list \<Rightarrow> room_mode_default list \<Rightarrow> room_mode_default list" where
  "keep_first_valid seen [] = []"
| "keep_first_valid seen (d # ds) =
     (if \<not> is_mode_default_target (rd_state d) then keep_first_valid seen ds
      else if rd_room_id d \<in> set seen then keep_first_valid seen ds
      else d # keep_first_valid (rd_room_id d # seen) ds)"

definition normalize_room_defaults :: "mode_config \<Rightarrow> bool \<times> mode_config" where
  "normalize_room_defaults c =
     (let normalized = rev (keep_first_valid [] (rev (mc_room_defaults c)))
      in (normalized \<noteq> mc_room_defaults c, c\<lparr>mc_room_defaults := normalized\<rparr>))"

definition normalize_profile_ids :: "mode_config \<Rightarrow> bool \<times> mode_config" where
  "normalize_profile_ids c =
     (let (changed, c') = normalize_room_defaults c in
      case mc_active_profile_id c' of
        None \<Rightarrow> (changed, c')
      | Some i \<Rightarrow>
          if is_builtin_state_profile_id i
          then (True, c'\<lparr>mc_active_profile_id := Some (default_active_profile_id (mc_mode c'))\<rparr>)
          else (changed, c'))"

definition default_for_mode :: "rhythm_mode \<Rightarrow> mode_config" where
  "default_for_mode m =
     \<lparr>mc_mode = m, mc_active_profile_id = Some (default_active_profile_id m),
      mc_idle_profile_id = None, mc_wake_profile_id = None, mc_warning_profile_id = None,
      mc_room_defaults = []\<rparr>"

definition default_mode_configs :: "mode_config list" where
  "default_mode_configs = map default_for_mode ALL_MODES"

fun resolve_state_profile_id :: "mode_config \<Rightarrow> room_mode_state \<Rightarrow> string \<Rightarrow> string option" where
  "resolve_state_profile_id c Active active =
     Some (unwrap_or (opt_filter (\<lambda>i. \<not> is_builtin_state_profile_id i) (mc_active_profile_id c))
       active)"
| "resolve_state_profile_id c Mood active = mc_idle_profile_id c"
| "resolve_state_profile_id c Standby active = mc_idle_profile_id c"
| "resolve_state_profile_id c Wake active = Some (unwrap_or (mc_wake_profile_id c) active)"
| "resolve_state_profile_id c Warning active = Some (unwrap_or (mc_warning_profile_id c) active)"
| "resolve_state_profile_id c HardOff active = None"

subsection \<open>Room defaults after normalisation\<close>

definition state_of :: "room_mode_default list \<Rightarrow> string \<rightharpoonup> room_mode_state" where
  "state_of ds = map_of (map (\<lambda>d. (rd_room_id d, rd_state d)) ds)"

lemma keep_first_valid_fresh:
  "rd_room_id ` set (keep_first_valid seen ds) \<inter> set seen = {}"
  by (induction seen ds rule: keep_first_valid.induct) auto

lemma keep_first_valid_distinct: "distinct (map rd_room_id (keep_first_valid seen ds))"
proof (induction seen ds rule: keep_first_valid.induct)
  case (2 seen d ds)
  then show ?case
    using keep_first_valid_fresh [of "rd_room_id d # seen" ds] by auto
qed simp

lemma keep_first_valid_valid:
  "list_all (\<lambda>d. is_mode_default_target (rd_state d)) (keep_first_valid seen ds)"
  by (induction seen ds rule: keep_first_valid.induct) auto

lemma keep_first_valid_state_of:
  "r \<notin> set seen \<Longrightarrow>
   state_of (keep_first_valid seen ds) r =
     state_of (filter (\<lambda>d. is_mode_default_target (rd_state d)) ds) r"
  by (induction seen ds rule: keep_first_valid.induct) (auto simp: state_of_def)

lemma keep_first_valid_id:
  "distinct (map rd_room_id ds) \<Longrightarrow> list_all (\<lambda>d. is_mode_default_target (rd_state d)) ds \<Longrightarrow>
   rd_room_id ` set ds \<inter> set seen = {} \<Longrightarrow> keep_first_valid seen ds = ds"
  by (induction seen ds rule: keep_first_valid.induct) auto

lemma normalize_room_defaults_idem:
  "fst (normalize_room_defaults (snd (normalize_room_defaults c))) = False"
  using keep_first_valid_distinct [of "[]" "rev (mc_room_defaults c)"]
    keep_first_valid_valid [of "[]" "rev (mc_room_defaults c)"]
  by (simp add: normalize_room_defaults_def Let_def keep_first_valid_id)

section \<open>Wall-clock times\<close>

datatype mode_transition_time = TransitionTime (minutes_since_midnight: u16)

definition from_hour_minute :: "u8 \<Rightarrow> u8 \<Rightarrow> mode_transition_time option" where
  "from_hour_minute h m =
     (if 24 \<le> h \<or> 60 \<le> m then None
      else Some (TransitionTime (ucast h * 60 + ucast m)))"

definition hour_of :: "mode_transition_time \<Rightarrow> u8" where
  "hour_of t = ucast (minutes_since_midnight t div 60)"

definition minute_of :: "mode_transition_time \<Rightarrow> u8" where
  "minute_of t = ucast (minutes_since_midnight t mod 60)"

definition local_hour_of :: "mode_transition_time \<Rightarrow> f32" where
  "local_hour_of t = f32_round (of_nat (unat (minutes_since_midnight t)) / 60)"

definition parse_time :: "string \<Rightarrow> string + mode_transition_time" where
  "parse_time v =
     (case split_on CHR '':'' v of
        h # m # rest \<Rightarrow>
          if 1 < length rest then Inl ''scheduled time must use HH:MM''
          else (case parse_uint 255 h of
            None \<Rightarrow> Inl ''scheduled time hour must be a number''
          | Some h' \<Rightarrow> (case parse_uint 255 m of
              None \<Rightarrow> Inl ''scheduled time minute must be a number''
            | Some m' \<Rightarrow>
                (let finish = (case from_hour_minute (of_nat h') (of_nat m') of
                       None \<Rightarrow> Inl ''scheduled time must be between 00:00 and 23:59''
                     | Some t \<Rightarrow> Inr t)
                 in case rest of
                      [] \<Rightarrow> finish
                    | s # _ \<Rightarrow> (case parse_uint 255 s of
                        None \<Rightarrow> Inl ''scheduled time second must be a number''
                      | Some s' \<Rightarrow>
                          if s' \<noteq> 0 then Inl ''scheduled time does not support seconds''
                          else finish))))
      | _ \<Rightarrow> Inl ''scheduled time must use HH:MM'')"

definition display_time :: "mode_transition_time \<Rightarrow> string" where
  "display_time t = show_nat2 (unat (hour_of t)) @ '':'' @ show_nat2 (unat (minute_of t))"

definition time_id_suffix :: "mode_transition_time \<Rightarrow> string" where
  "time_id_suffix t =
     ''scheduled_'' @ show_nat2 (unat (hour_of t)) @ show_nat2 (unat (minute_of t))"

definition wf_time :: "mode_transition_time \<Rightarrow> bool" where
  "wf_time t \<longleftrightarrow> unat (minutes_since_midnight t) < 1440"

lemma from_hour_minute_minutes:
  assumes "from_hour_minute h m = Some t"
  shows "unat (minutes_since_midnight t) = unat h * 60 + unat m" "unat h < 24" "unat m < 60"
proof -
  from assms have hm: "unat h < 24" "unat m < 60"
    by (simp_all add: from_hour_minute_def word_le_nat_alt not_le split: if_splits)
  with assms show "unat (minutes_since_midnight t) = unat h * 60 + unat m"
    by (auto simp: from_hour_minute_def unat_word_ariths unat_ucast_mod split: if_splits)
  show "unat h < 24" "unat m < 60" by (rule hm)+
qed

lemma from_hour_minute_wf: "from_hour_minute h m = Some t \<Longrightarrow> wf_time t"
  using from_hour_minute_minutes [of h m t] by (simp add: wf_time_def)

lemma hour_minute_unat:
  assumes "wf_time t"
  shows "unat (hour_of t) = unat (minutes_since_midnight t) div 60"
    and "unat (minute_of t) = unat (minutes_since_midnight t) mod 60"
  using assms by (simp_all add: wf_time_def hour_of_def minute_of_def unat_ucast_mod unat_div unat_mod)

lemma from_hour_minute_hour_minute:
  assumes "wf_time t"
  shows "from_hour_minute (hour_of t) (minute_of t) = Some t"
proof -
  have h: "unat (hour_of t) < 24" "unat (minute_of t) < 60"
    using assms by (simp_all add: hour_minute_unat) (simp add: wf_time_def)
  then obtain t' where t': "from_hour_minute (hour_of t) (minute_of t) = Some t'"
    by (simp add: from_hour_minute_def word_le_nat_alt)
  have "unat (minutes_since_midnight t') = unat (minutes_since_midnight t)"
    using from_hour_minute_minutes(1) [OF t'] assms by (simp add: hour_minute_unat)
  then have "t' = t"
    by (cases t; cases t') (simp add: word_unat_eq_iff)
  with t' show ?thesis by simp
qed

lemma parse_display_time:
  assumes "wf_time t"
  shows "parse_time (display_time t) = Inr t"
proof -
  have "CHR '':'' \<notin> set (show_nat2 n)" for n
    using show_nat2_digits [of n] colon_not_digit by (rule digits_no_sep)
  then have "split_on CHR '':'' (display_time t) =
      [show_nat2 (unat (hour_of t)), show_nat2 (unat (minute_of t))]"
    by (simp add: display_time_def)
  moreover have "unat (hour_of t) \<le> 255" "unat (minute_of t) \<le> 255"
    using assms by (simp_all add: hour_minute_unat) (simp add: wf_time_def)
  ultimately show ?thesis
    using from_hour_minute_hour_minute [OF assms]
    by (simp add: parse_time_def parse_uint_show_nat2)
qed

lemma parse_time_wf: "parse_time s = Inr t \<Longrightarrow> wf_time t"
  by (auto simp: parse_time_def Let_def intro: from_hour_minute_wf
      split: list.splits option.splits if_splits)

section \<open>Properties\<close>

text \<open>A time of day printed as HH:MM parses back to itself, for every minute of the day.\<close>

theorem time_print_parse:
  assumes "wf_time t"
  shows "parse_time (display_time t) = Inr t"
  using assms by (rule parse_display_time)

theorem time_print_parse_witness:
  "parse_time (display_time (TransitionTime 1439)) = Inr (TransitionTime 1439)"
  by (rule time_print_parse) (simp add: wf_time_def)

lemma state_of_rev:
  assumes "distinct (map rd_room_id ds)"
  shows "state_of (rev ds) = state_of ds"
proof -
  let ?f = "\<lambda>d. (rd_room_id d, rd_state d)"
  have "distinct (map fst (map ?f ds))"
    using assms by (simp add: comp_def)
  then have "distinct (map fst (map ?f (rev ds)))"
    by (simp only: rev_map [symmetric] distinct_rev)
  with \<open>distinct (map fst (map ?f ds))\<close> show ?thesis
    unfolding state_of_def by (subst map_of_inject_set) simp_all
qed

lemma normalize_room_defaults_state_of:
  "state_of (mc_room_defaults (snd (normalize_room_defaults c))) =
   state_of (rev (filter (\<lambda>d. is_mode_default_target (rd_state d)) (mc_room_defaults c)))"
  using keep_first_valid_distinct [of "[]" "rev (mc_room_defaults c)"]
  by (simp add: normalize_room_defaults_def Let_def state_of_rev rev_filter
      keep_first_valid_state_of fun_eq_iff)

lemma normalize_room_defaults_distinct:
  "distinct (map rd_room_id (mc_room_defaults (snd (normalize_room_defaults c))))"
  using keep_first_valid_distinct [of "[]" "rev (mc_room_defaults c)"]
  by (simp add: normalize_room_defaults_def Let_def)
     (simp only: rev_map [symmetric] distinct_rev)

lemma normalize_room_defaults_changed:
  "fst (normalize_room_defaults c) \<longleftrightarrow> snd (normalize_room_defaults c) \<noteq> c"
  by (cases c) (simp add: normalize_room_defaults_def Let_def)

definition selects_state_profile :: "mode_config \<Rightarrow> bool" where
  "selects_state_profile c \<longleftrightarrow>
     (case mc_active_profile_id c of Some i \<Rightarrow> is_builtin_state_profile_id i | None \<Rightarrow> False)"

lemma normalize_profile_ids_alt:
  "normalize_profile_ids c =
     (let c' = snd (normalize_room_defaults c) in
      if selects_state_profile c
      then (True, c'\<lparr>mc_active_profile_id := Some (default_active_profile_id (mc_mode c))\<rparr>)
      else (fst (normalize_room_defaults c), c'))"
  by (auto simp: normalize_profile_ids_def normalize_room_defaults_def Let_def
      selects_state_profile_def split: option.splits)

lemma normalize_profile_ids_id:
  assumes "\<not> fst (normalize_room_defaults c)"
    and "\<not> selects_state_profile c"
  shows "normalize_profile_ids c = (False, c)"
  using assms normalize_room_defaults_changed [of c] by (simp add: normalize_profile_ids_alt Let_def)

text \<open>Normalising a mode configuration keeps, for each room, the last allowed default the
  configuration had, drops the states that are not allowed as defaults, leaves one entry for each
  room and an active profile that is not a state profile, reports a change exactly when it made
  one, and changes nothing when it is applied again.\<close>

theorem normalize_profile_ids_spec:
  "let (changed, c') = normalize_profile_ids c in
     distinct (map rd_room_id (mc_room_defaults c')) \<and>
     state_of (mc_room_defaults c') =
       state_of (rev (filter (\<lambda>d. is_mode_default_target (rd_state d)) (mc_room_defaults c))) \<and>
     \<not> selects_state_profile c' \<and>
     (changed \<longleftrightarrow> c' \<noteq> c) \<and> normalize_profile_ids c' = (False, c')"
proof -
  let ?d = "snd (normalize_room_defaults c)"
  have again: "\<not> fst (normalize_room_defaults (?d\<lparr>mc_active_profile_id := i\<rparr>))" for i
    using normalize_room_defaults_idem [of c] by (simp add: normalize_room_defaults_def Let_def)
  show ?thesis
  proof (cases "selects_state_profile c")
    case True
    then have "mc_active_profile_id c \<noteq> Some (default_active_profile_id (mc_mode c))"
      by (auto simp: selects_state_profile_def)
    then have "c \<noteq> ?d\<lparr>mc_active_profile_id := Some (default_active_profile_id (mc_mode c))\<rparr>"
      by (metis mode_config.select_convs(2) mode_config.surjective mode_config.update_convs(2))
    with True show ?thesis
      using normalize_profile_ids_id [OF again] normalize_room_defaults_state_of [of c]
        normalize_room_defaults_distinct [of c]
      by (simp add: normalize_profile_ids_alt [of c] Let_def)
        (simp add: selects_state_profile_def)
  next
    case False
    then have "\<not> selects_state_profile ?d"
      by (simp add: selects_state_profile_def normalize_room_defaults_def Let_def)
    with False show ?thesis
      using normalize_profile_ids_id [of ?d] normalize_room_defaults_idem [of c]
        normalize_room_defaults_state_of [of c] normalize_room_defaults_distinct [of c]
        normalize_room_defaults_changed [of c]
      by (simp add: normalize_profile_ids_alt [of c] Let_def)
  qed
qed

end
