(* ===== verification/Triggers.thy ===== *)
theory Triggers
  imports Modes
begin

text \<open>
  Mode-transition triggers (\<open>rhythm-core/src/room.rs\<close>): manual, solar with a minute offset,
  or scheduled at a wall-clock time; their wire format, the sparse trigger patches, and the
  transition records with their normalisation.
\<close>

section \<open>Triggers\<close>

datatype solar_event = Sunrise | Sunset | CivilTwilight | NauticalTwilight | AstronomicalTwilight

fun solar_as_str :: "solar_event \<Rightarrow> string" where
  "solar_as_str Sunrise = ''sunrise''"
| "solar_as_str Sunset = ''sunset''"
| "solar_as_str CivilTwilight = ''civil_twilight''"
| "solar_as_str NauticalTwilight = ''nautical_twilight''"
| "solar_as_str AstronomicalTwilight = ''astronomical_twilight''"

fun solar_display_name :: "solar_event \<Rightarrow> string" where
  "solar_display_name Sunrise = ''Sunrise''"
| "solar_display_name Sunset = ''Sunset''"
| "solar_display_name CivilTwilight = ''Civil Twilight''"
| "solar_display_name NauticalTwilight = ''Nautical Twilight''"
| "solar_display_name AstronomicalTwilight = ''Astronomical Twilight''"

datatype trigger_kind = KManual | KSolar solar_event | KScheduled mode_transition_time

record trigger =
  tg_kind :: trigger_kind
  tg_offset :: i16

definition MAX_SOLAR_OFFSET_MINUTES :: int where
  "MAX_SOLAR_OFFSET_MINUTES = 720"

definition Manual :: trigger where
  "Manual = \<lparr>tg_kind = KManual, tg_offset = 0\<rparr>"

definition Scheduled :: "mode_transition_time \<Rightarrow> trigger" where
  "Scheduled t = \<lparr>tg_kind = KScheduled t, tg_offset = 0\<rparr>"

definition solar :: "solar_event \<Rightarrow> i16 \<Rightarrow> trigger" where
  "solar e off = \<lparr>tg_kind = KSolar e, tg_offset = off\<rparr>"

definition offset_in_range :: "i16 \<Rightarrow> bool" where
  "offset_in_range off \<longleftrightarrow> - MAX_SOLAR_OFFSET_MINUTES \<le> sint off \<and> sint off \<le> MAX_SOLAR_OFFSET_MINUTES"

definition solar_range_error :: string where
  "solar_range_error = ''solar offset_minutes must be between -720 and 720''"

definition solar_only_error :: string where
  "solar_only_error = ''offset_minutes is valid only for solar triggers''"

definition is_manual :: "trigger \<Rightarrow> bool" where
  "is_manual t \<longleftrightarrow> (case tg_kind t of KManual \<Rightarrow> True | _ \<Rightarrow> False)"

definition is_solar :: "trigger \<Rightarrow> bool" where
  "is_solar t \<longleftrightarrow> (case tg_kind t of KSolar _ \<Rightarrow> True | _ \<Rightarrow> False)"

definition with_solar_offset :: "trigger \<Rightarrow> i16 \<Rightarrow> string + trigger" where
  "with_solar_offset t off =
     (if \<not> is_solar t then Inl solar_only_error
      else if \<not> offset_in_range off then Inl solar_range_error
      else Inr (t\<lparr>tg_offset := off\<rparr>))"

definition kind_str :: "trigger \<Rightarrow> string" where
  "kind_str t = (case tg_kind t of KManual \<Rightarrow> ''manual'' | KSolar _ \<Rightarrow> ''solar''
                 | KScheduled _ \<Rightarrow> ''scheduled'')"

definition solar_event_of :: "trigger \<Rightarrow> solar_event option" where
  "solar_event_of t = (case tg_kind t of KSolar e \<Rightarrow> Some e | _ \<Rightarrow> None)"

definition event_str :: "trigger \<Rightarrow> string option" where
  "event_str t = (case solar_event_of t of Some e \<Rightarrow> Some (solar_as_str e) | None \<Rightarrow> None)"

definition scheduled_time :: "trigger \<Rightarrow> mode_transition_time option" where
  "scheduled_time t = (case tg_kind t of KScheduled m \<Rightarrow> Some m | _ \<Rightarrow> None)"

definition trigger_id_suffix :: "trigger \<Rightarrow> string" where
  "trigger_id_suffix t =
     (case tg_kind t of
        KManual \<Rightarrow> ''manual''
      | KSolar e \<Rightarrow>
          if tg_offset t = 0 then solar_as_str e
          else solar_as_str e @ ''_'' @ show_signed (sint (tg_offset t))
      | KScheduled m \<Rightarrow> time_id_suffix m)"

definition trigger_label_suffix :: "trigger \<Rightarrow> string option" where
  "trigger_label_suffix t =
     (case tg_kind t of
        KManual \<Rightarrow> None
      | KSolar e \<Rightarrow>
          Some (if sint (tg_offset t) < 0
                then show_nat (nat (- sint (tg_offset t))) @ '' min before '' @ solar_display_name e
                else if 0 < sint (tg_offset t)
                then show_int (sint (tg_offset t)) @ '' min after '' @ solar_display_name e
                else solar_display_name e)
      | KScheduled m \<Rightarrow> Some (display_time m))"

text \<open>
  The invariant of the type: only a solar trigger carries an offset, within a day's half, and
  a scheduled time is a minute of the day.
\<close>

definition wf_trigger :: "trigger \<Rightarrow> bool" where
  "wf_trigger t \<longleftrightarrow>
     (case tg_kind t of
        KManual \<Rightarrow> tg_offset t = 0
      | KSolar _ \<Rightarrow> offset_in_range (tg_offset t)
      | KScheduled m \<Rightarrow> tg_offset t = 0 \<and> wf_time m)"

lemma offset_in_range_zero [simp]: "offset_in_range 0"
  by (simp add: offset_in_range_def MAX_SOLAR_OFFSET_MINUTES_def)

lemma wf_trigger_intros [wf_intros]:
  "wf_trigger Manual"
  "wf_time m \<Longrightarrow> wf_trigger (Scheduled m)"
  "offset_in_range off \<Longrightarrow> wf_trigger (solar e off)"
  by (simp_all add: wf_trigger_def Manual_def Scheduled_def solar_def)

lemma with_solar_offset_wf: "with_solar_offset t off = Inr t' \<Longrightarrow> wf_trigger t'"
  by (auto simp: with_solar_offset_def is_solar_def wf_trigger_def
      split: if_splits trigger_kind.splits)

lemma with_solar_offset_solar [simp]:
  "with_solar_offset (solar e a) off =
     (if offset_in_range off then Inr (solar e off) else Inl solar_range_error)"
  by (simp add: with_solar_offset_def is_solar_def solar_def)

section \<open>Wire format\<close>

text \<open>
  What \<open>Serialize\<close> writes and what \<open>Deserialize\<close> accepts, after the JSON syntax: either
  a bare legacy label or an object with a kind, an optional event, an optional time string
  and an offset, which is left out when it is 0 and read as 0 when missing.
\<close>

record trigger_object =
  to_kind :: string
  to_event :: "string option"
  to_time :: "string option"
  to_offset :: "i16 option"

datatype trigger_repr = ReprObject trigger_object | ReprLegacy string

definition serialize_trigger :: "trigger \<Rightarrow> trigger_repr" where
  "serialize_trigger t = ReprObject
     \<lparr>to_kind = kind_str t, to_event = event_str t,
      to_time = map_option display_time (scheduled_time t),
      to_offset = (if tg_offset t = 0 then None else Some (tg_offset t))\<rparr>"

datatype legacy_trigger = LManual | LSolar solar_event

text \<open>The snake-case labels of the enum \<open>LegacyTrigger\<close>.\<close>

definition legacy_of_str :: "string \<Rightarrow> legacy_trigger option" where
  "legacy_of_str s =
     (if s = ''manual'' then Some LManual
      else if s = ''sunrise'' then Some (LSolar Sunrise)
      else if s = ''sunset'' then Some (LSolar Sunset)
      else if s = ''civil_twilight'' then Some (LSolar CivilTwilight)
      else if s = ''nautical_twilight'' then Some (LSolar NauticalTwilight)
      else if s = ''astronomical_twilight'' then Some (LSolar AstronomicalTwilight)
      else None)"

datatype trigger_type = TManual | TSolar | TScheduled

definition trigger_type_of_str :: "string \<Rightarrow> trigger_type option" where
  "trigger_type_of_str s =
     (if s = ''manual'' then Some TManual
      else if s = ''solar'' then Some TSolar
      else if s = ''scheduled'' then Some TScheduled
      else None)"

text \<open>
  The derived part of the deserialiser: reading the fields of an object. Any field that does
  not parse makes the untagged enum fail.
\<close>

definition untagged_error :: string where
  "untagged_error = ''data did not match any variant of untagged enum TriggerRepr''"

fun read_opt :: "('a \<Rightarrow> 'b option) \<Rightarrow> 'a option \<Rightarrow> 'b option option" where
  "read_opt f None = Some None"
| "read_opt f (Some x) = map_option Some (f x)"

definition time_of_str :: "string \<Rightarrow> mode_transition_time option" where
  "time_of_str s = (case parse_time s of Inl _ \<Rightarrow> None | Inr t \<Rightarrow> Some t)"

fun deserialize_trigger :: "trigger_repr \<Rightarrow> string + trigger" where
  "deserialize_trigger (ReprLegacy s) =
     (case legacy_of_str s of
        None \<Rightarrow> Inl untagged_error
      | Some LManual \<Rightarrow> Inr Manual
      | Some (LSolar e) \<Rightarrow> Inr (solar e 0))"
| "deserialize_trigger (ReprObject r) =
     (case (trigger_type_of_str (to_kind r), read_opt legacy_of_str (to_event r),
            read_opt time_of_str (to_time r)) of
        (Some k, Some event, Some time) \<Rightarrow>
          (let offset = unwrap_or (to_offset r) 0 in
           case k of
             TManual \<Rightarrow> if offset = 0 then Inr Manual else Inl solar_only_error
           | TSolar \<Rightarrow>
               if \<not> offset_in_range offset then Inl solar_range_error
               else (case event of
                   Some (LSolar e) \<Rightarrow> Inr (solar e offset)
                 | _ \<Rightarrow> Inl ''solar trigger requires a solar event'')
           | TScheduled \<Rightarrow>
               if offset = 0 then (case time of
                   Some t \<Rightarrow> Inr (Scheduled t)
                 | None \<Rightarrow> Inl ''scheduled trigger requires time'')
               else Inl solar_only_error)
      | _ \<Rightarrow> Inl untagged_error)"

lemma legacy_of_str_solar [simp]: "legacy_of_str (solar_as_str e) = Some (LSolar e)"
  by (cases e) (simp_all add: legacy_of_str_def)

lemma time_of_str_wf: "time_of_str s = Some t \<Longrightarrow> wf_time t"
  by (auto simp: time_of_str_def intro: parse_time_wf split: sum.splits)

lemma read_opt_SomeD: "read_opt f a = Some (Some b) \<Longrightarrow> \<exists>x. a = Some x \<and> f x = Some b"
  by (cases a) auto

lemma deserialize_wf: "deserialize_trigger r = Inr t \<Longrightarrow> wf_trigger t"
proof (induction r rule: deserialize_trigger.induct)
  case (1 s)
  then show ?case
    by (auto intro: wf_intros split: option.splits legacy_trigger.splits)
next
  case (2 r)
  then show ?case
    by (auto simp: Let_def intro!: wf_intros dest: time_of_str_wf read_opt_SomeD
        split: option.splits trigger_type.splits legacy_trigger.splits if_splits)
qed

lemma deserialize_serialize:
  assumes "wf_trigger t"
  shows "deserialize_trigger (serialize_trigger t) = Inr t"
proof (cases "tg_kind t")
  case KManual
  with assms show ?thesis
    by (simp add: serialize_trigger_def wf_trigger_def kind_str_def event_str_def
        solar_event_of_def scheduled_time_def trigger_type_of_str_def Manual_def)
next
  case (KSolar e)
  with assms show ?thesis
    by (cases t) (simp add: serialize_trigger_def wf_trigger_def kind_str_def event_str_def
        solar_event_of_def scheduled_time_def trigger_type_of_str_def solar_def)
next
  case (KScheduled m)
  with assms show ?thesis
    by (cases t) (simp add: serialize_trigger_def wf_trigger_def kind_str_def event_str_def
        solar_event_of_def scheduled_time_def trigger_type_of_str_def Scheduled_def
        time_of_str_def parse_display_time)
qed

section \<open>Trigger patches\<close>

record trigger_override =
  ov_kind :: "trigger_type option"
  ov_event :: "solar_event option"
  ov_offset :: "i16 option"
  ov_time :: "mode_transition_time option"

definition empty_override :: trigger_override where
  "empty_override = \<lparr>ov_kind = None, ov_event = None, ov_offset = None, ov_time = None\<rparr>"

definition override_is_empty :: "trigger_override \<Rightarrow> bool" where
  "override_is_empty o1 \<longleftrightarrow>
     ov_kind o1 = None \<and> ov_event o1 = None \<and> ov_offset o1 = None \<and> ov_time o1 = None"

definition merge_override :: "trigger_override \<Rightarrow> trigger_override \<Rightarrow> trigger_override" where
  "merge_override o1 parent =
     (case ov_kind o1 of
        Some TManual \<Rightarrow> o1
      | Some TScheduled \<Rightarrow>
          \<lparr>ov_kind = ov_kind o1, ov_event = ov_event o1, ov_offset = ov_offset o1,
           ov_time = opt_or (ov_time o1) (ov_time parent)\<rparr>
      | Some TSolar \<Rightarrow>
          \<lparr>ov_kind = ov_kind o1, ov_event = opt_or (ov_event o1) (ov_event parent),
           ov_offset = opt_or (ov_offset o1) (ov_offset parent), ov_time = ov_time o1\<rparr>
      | None \<Rightarrow>
          \<lparr>ov_kind = opt_or (ov_kind o1) (ov_kind parent),
           ov_event = opt_or (ov_event o1) (ov_event parent),
           ov_offset = opt_or (ov_offset o1) (ov_offset parent),
           ov_time = opt_or (ov_time o1) (ov_time parent)\<rparr>)"

definition base_type :: "trigger \<Rightarrow> trigger_type" where
  "base_type b = (if is_manual b then TManual else if is_solar b then TSolar else TScheduled)"

definition nonzero_offset :: "trigger_override \<Rightarrow> bool" where
  "nonzero_offset o1 \<longleftrightarrow> (case ov_offset o1 of Some v \<Rightarrow> v \<noteq> 0 | None \<Rightarrow> False)"

definition apply_override :: "trigger_override \<Rightarrow> trigger \<Rightarrow> string + trigger" where
  "apply_override o1 base =
     (let inherited = base_type base;
          effective = unwrap_or (ov_kind o1) inherited;
          kind_changed = (case ov_kind o1 of Some k \<Rightarrow> k \<noteq> inherited | None \<Rightarrow> False)
      in case effective of
        TManual \<Rightarrow>
          if ov_event o1 \<noteq> None \<or> ov_time o1 \<noteq> None \<or> nonzero_offset o1
          then Inl ''manual trigger override cannot include event, time, or offset_minutes''
          else Inr Manual
      | TScheduled \<Rightarrow>
          if ov_event o1 \<noteq> None \<or> nonzero_offset o1
          then Inl ''scheduled trigger override cannot include event or offset_minutes''
          else (case opt_or (ov_time o1) (if kind_changed then None else scheduled_time base) of
              Some t \<Rightarrow> Inr (Scheduled t)
            | None \<Rightarrow> Inl ''scheduled trigger override requires time'')
      | TSolar \<Rightarrow>
          if ov_time o1 \<noteq> None then Inl ''solar trigger override cannot include time''
          else (case opt_or (ov_event o1) (if kind_changed then None else solar_event_of base) of
              None \<Rightarrow> Inl ''solar trigger override requires event''
            | Some e \<Rightarrow>
                with_solar_offset (solar e 0)
                  (unwrap_or (ov_offset o1)
                     (if \<not> kind_changed \<and> is_solar base then tg_offset base else 0))))"

definition wf_override :: "trigger_override \<Rightarrow> bool" where
  "wf_override o1 \<longleftrightarrow> (\<forall>t. ov_time o1 = Some t \<longrightarrow> wf_time t)"

lemma merge_override_empty_left [simp]: "merge_override empty_override p = p"
  by (simp add: merge_override_def empty_override_def)

lemma merge_override_empty_right [simp]: "merge_override o1 empty_override = o1"
  by (cases o1) (auto simp: merge_override_def empty_override_def
      split: option.splits trigger_type.splits)

lemma merge_override_idem [simp]: "merge_override o1 o1 = o1"
  by (cases o1) (auto simp: merge_override_def split: option.splits trigger_type.splits)

lemma merge_override_kind [simp]: "ov_kind (merge_override a b) = opt_or (ov_kind a) (ov_kind b)"
  by (auto simp: merge_override_def split: option.splits trigger_type.splits)

lemma wf_merge_override [wf_intros]:
  "wf_override a \<Longrightarrow> wf_override b \<Longrightarrow> wf_override (merge_override a b)"
  by (cases "ov_time a")
    (auto simp: merge_override_def wf_override_def split: option.splits trigger_type.splits)

lemma scheduled_time_wf: "wf_trigger b \<Longrightarrow> scheduled_time b = Some t \<Longrightarrow> wf_time t"
  by (auto simp: wf_trigger_def scheduled_time_def split: trigger_kind.splits)

lemma apply_override_wf:
  assumes "wf_override o1" and "wf_trigger base" and "apply_override o1 base = Inr t"
  shows "wf_trigger t"
  using assms
  by (cases "ov_time o1")
    (auto simp: apply_override_def Let_def wf_override_def
      intro!: wf_intros dest: scheduled_time_wf
      split: trigger_type.splits if_splits option.splits)

lemma apply_override_empty:
  assumes "wf_trigger base"
  shows "apply_override empty_override base = Inr base"
proof (cases "tg_kind base")
  case KManual
  with assms show ?thesis
    by (cases base) (simp add: apply_override_def empty_override_def base_type_def is_manual_def
        nonzero_offset_def wf_trigger_def Manual_def)
next
  case (KSolar e)
  with assms show ?thesis
    by (cases base) (simp add: apply_override_def empty_override_def base_type_def is_manual_def
        is_solar_def nonzero_offset_def wf_trigger_def solar_def solar_event_of_def
        with_solar_offset_def)
next
  case (KScheduled m)
  with assms show ?thesis
    by (cases base) (simp add: apply_override_def empty_override_def base_type_def is_manual_def
        is_solar_def nonzero_offset_def wf_trigger_def Scheduled_def scheduled_time_def)
qed

section \<open>Properties\<close>

text \<open>C31: Writing a trigger to its stored form and reading it back gives the trigger again for exactly the well-formed
  triggers. The public constructor of solar triggers takes any offset: within twelve hours the trigger reads
  back, beyond them what was written is refused when it is read.\<close>

theorem trigger_wire_roundtrip:
  "(deserialize_trigger (serialize_trigger t) = Inr t \<longleftrightarrow> wf_trigger t) \<and>
   deserialize_trigger (serialize_trigger Manual) = Inr Manual \<and>
   deserialize_trigger (serialize_trigger (solar e off)) =
     (if - 720 \<le> sint off \<and> sint off \<le> 720 then Inr (solar e off) else Inl solar_range_error)"
proof (intro conjI)
  show "deserialize_trigger (serialize_trigger t) = Inr t \<longleftrightarrow> wf_trigger t"
    using deserialize_serialize deserialize_wf by blast
  show "deserialize_trigger (serialize_trigger Manual) = Inr Manual"
    by (intro deserialize_serialize wf_intros)
  show "deserialize_trigger (serialize_trigger (solar e off)) =
     (if - 720 \<le> sint off \<and> sint off \<le> 720 then Inr (solar e off) else Inl solar_range_error)"
  proof (cases "offset_in_range off")
    case True
    then show ?thesis using deserialize_serialize [OF wf_trigger_intros(3) [OF True, of e]]
      by (simp add: offset_in_range_def MAX_SOLAR_OFFSET_MINUTES_def)
  next
    case False
    have "off \<noteq> 0" using False by auto
    then have "deserialize_trigger (serialize_trigger (solar e off)) = Inl solar_range_error" using False
      by (simp add: serialize_trigger_def solar_def kind_str_def event_str_def solar_event_of_def scheduled_time_def trigger_type_of_str_def)
    then show ?thesis using False by (simp add: offset_in_range_def MAX_SOLAR_OFFSET_MINUTES_def)
  qed
qed

text \<open>C32: A trigger read from its stored form, legacy strings included, is well formed, and
  patching a well-formed trigger gives an error or a well-formed trigger: a patch never produces
  an offset out of range, a time past midnight or an offset on a trigger that is not solar.\<close>

theorem trigger_always_wf:
  assumes "deserialize_trigger w = Inr base" and "wf_override o1" and "apply_override o1 base = Inr t"
  shows "wf_trigger base \<and> wf_trigger t"
  using deserialize_wf [OF assms(1)] apply_override_wf [OF assms(2) _ assms(3)] by blast

theorem trigger_always_wf_witness:
  "wf_trigger (solar Sunset (- 120))"
proof -
  let ?o = "empty_override\<lparr>ov_offset := Some (- 120)\<rparr>"
  have "deserialize_trigger (serialize_trigger (solar Sunset 30)) = Inr (solar Sunset 30)"
    "apply_override ?o (solar Sunset 30) = Inr (solar Sunset (- 120))"
    by code_simp+
  moreover have "wf_override ?o" by (simp add: wf_override_def empty_override_def)
  ultimately show ?thesis using trigger_always_wf by blast
qed

end
