(* ===== verification/Transitions.thy ===== *)
theory Transitions
  imports Triggers
begin

text \<open>
  Mode transitions (\<open>rhythm-core/src/room.rs\<close>): the transition record and the
  normalisation of the transition list, which gives every transition a unique identifier and
  a label.
\<close>

section \<open>Transition records\<close>

record mode_transition =
  mt_id :: string
  mt_label :: string
  mt_from :: rhythm_mode
  mt_to :: rhythm_mode
  mt_trigger :: trigger
  mt_trigger_enabled :: bool
  mt_duration :: timer_setting

definition new_transition :: "rhythm_mode \<Rightarrow> rhythm_mode \<Rightarrow> u32 \<Rightarrow> mode_transition" where
  "new_transition f t d =
     \<lparr>mt_id = [], mt_label = [], mt_from = f, mt_to = t, mt_trigger = Manual,
      mt_trigger_enabled = True, mt_duration = TimerFixed d\<rparr>"

fun id_fragment :: "rhythm_mode \<Rightarrow> string" where
  "id_fragment Day = ''day''"
| "id_fragment Sleep = ''sleep''"

fun mode_display_name :: "rhythm_mode \<Rightarrow> string" where
  "mode_display_name Day = ''Day''"
| "mode_display_name Sleep = ''Sleep''"

definition default_id_base :: "mode_transition \<Rightarrow> string" where
  "default_id_base c =
     id_fragment (mt_from c) @ ''_to_'' @ id_fragment (mt_to c) @ ''_'' @
     trigger_id_suffix (mt_trigger c)"

definition default_label :: "mode_transition \<Rightarrow> string" where
  "default_label c =
     (let base = mode_display_name (mt_from c) @ '' to '' @ mode_display_name (mt_to c) in
      case trigger_label_suffix (mt_trigger c) of
        Some s \<Rightarrow> base @ '' ('' @ s @ '')''
      | None \<Rightarrow> base)"

section \<open>Slugs\<close>

text \<open>The loop of \<open>slugify_id\<close>: the output so far and whether the last character was a separator.\<close>

fun slug_loop :: "string \<Rightarrow> bool \<Rightarrow> string \<Rightarrow> string" where
  "slug_loop out sep [] = out"
| "slug_loop out sep (c # cs) =
     (if is_ascii_alphanumeric c then slug_loop (out @ [to_ascii_lowercase c]) False cs
      else slug_loop (if \<not> sep \<and> out \<noteq> [] then out @ ''_'' else out) True cs)"

definition trim_underscores :: "string \<Rightarrow> string" where
  "trim_underscores s =
     rev (dropWhile (\<lambda>c. c = CHR ''_'') (rev (dropWhile (\<lambda>c. c = CHR ''_'') s)))"

definition slugify_id :: "string \<Rightarrow> string" where
  "slugify_id s = trim_underscores (slug_loop [] False s)"

text \<open>A slug: lower-case letters, digits and single inner underscores.\<close>

definition slug_char :: "char \<Rightarrow> bool" where
  "slug_char c \<longleftrightarrow> is_ascii_alphanumeric c \<and> to_ascii_lowercase c = c"

fun slug_tail :: "string \<Rightarrow> bool" where
  "slug_tail [] = True"
| "slug_tail (c # cs) =
     (if slug_char c then slug_tail cs
      else c = CHR ''_'' \<and> cs \<noteq> [] \<and> slug_char (hd cs) \<and> slug_tail cs)"

definition is_slug :: "string \<Rightarrow> bool" where
  "is_slug s \<longleftrightarrow> (s = [] \<or> slug_char (hd s)) \<and> slug_tail s"

lemma underscore_not_alnum [simp]: "\<not> is_ascii_alphanumeric CHR ''_''"
  by (simp add: is_ascii_alphanumeric_def is_digit_def)

lemma underscore_not_slug_char [simp]: "\<not> slug_char CHR ''_''"
  by (simp add: slug_char_def)

lemma slug_char_lowercase [simp]:
  "is_ascii_alphanumeric c \<Longrightarrow> slug_char (to_ascii_lowercase c)"
  by (simp add: slug_char_def)

lemma slug_charD: "slug_char c \<Longrightarrow> is_ascii_alphanumeric c" "slug_char c \<Longrightarrow> to_ascii_lowercase c = c"
  by (simp_all add: slug_char_def)

text \<open>A slug passes through the loop unchanged.\<close>

lemma slug_loop_slug:
  "slug_tail s \<Longrightarrow> (s \<noteq> [] \<and> \<not> slug_char (hd s) \<longrightarrow> out \<noteq> [] \<and> \<not> sep) \<Longrightarrow>
   slug_loop out sep s = out @ s"
proof (induction out sep s rule: slug_loop.induct)
  case (2 out sep c cs)
  show ?case
  proof (cases "slug_char c")
    case True
    have "slug_loop (out @ [c]) False cs = (out @ [c]) @ cs"
      using 2 True by (auto simp: slug_charD)
    with True show ?thesis by (simp add: slug_charD)
  next
    case False
    with "2.prems" have c: "c = CHR ''_''" "out \<noteq> []" "\<not> sep" "slug_tail cs" "cs \<noteq> []" "slug_char (hd cs)"
      by (auto split: if_splits)
    then have n: "\<not> is_ascii_alphanumeric c" by simp
    have "slug_loop (out @ ''_'') True cs = (out @ ''_'') @ cs"
      using "2.IH"(2) [OF n c(4)] c(2,3,6) by simp
    with n c show ?thesis by simp
  qed
qed simp

lemma slug_tail_last: "slug_tail s \<Longrightarrow> s \<noteq> [] \<Longrightarrow> slug_char (last s)"
  by (induction s) (auto split: if_splits)

lemma trim_underscores_id:
  assumes "is_slug s"
  shows "trim_underscores s = s"
proof (cases "s = []")
  case False
  have "slug_char (hd s)" "slug_char (last s)"
    using assms False by (simp_all add: is_slug_def slug_tail_last)
  then have "hd s \<noteq> CHR ''_''" and e: "hd (rev s) \<noteq> CHR ''_''"
    using underscore_not_slug_char by (metis, metis hd_rev)
  then have l: "dropWhile (\<lambda>c. c = CHR ''_'') s = s"
    by (simp add: dropWhile_eq_self_iff)
  from e have "dropWhile (\<lambda>c. c = CHR ''_'') (rev s) = rev s"
    by (simp add: dropWhile_eq_self_iff)
  with l show ?thesis
    by (simp only: trim_underscores_def rev_rev_ident)
qed (simp add: trim_underscores_def)

lemma slugify_slug: "is_slug s \<Longrightarrow> slugify_id s = s"
  using slug_loop_slug [of s "[]" False]
  by (simp add: slugify_id_def trim_underscores_id is_slug_def)

lemma is_slug_Nil [simp]: "is_slug []"
  by (simp add: is_slug_def)

text \<open>Every output of the loop is a slug but for a possible trailing underscore.\<close>

definition slug_prefix :: "string \<Rightarrow> bool \<Rightarrow> bool" where
  "slug_prefix out sep \<longleftrightarrow>
     is_slug out \<and> (sep \<longrightarrow> out = []) \<or> sep \<and> (\<exists>s. s \<noteq> [] \<and> is_slug s \<and> out = s @ ''_'')"

lemma slug_tail_append:
  "slug_tail s \<Longrightarrow> slug_char c \<Longrightarrow> slug_tail (s @ [c])"
  by (induction s) (auto split: if_splits)

lemma slug_tail_append_sep:
  "slug_tail s \<Longrightarrow> slug_char c \<Longrightarrow> slug_tail (s @ [CHR ''_'', c])"
  by (induction s) (auto split: if_splits)

lemma is_slug_single [simp]: "is_slug [c] \<longleftrightarrow> slug_char c"
  by (auto simp: is_slug_def)

lemma is_slug_snoc: "is_slug s \<Longrightarrow> slug_char c \<Longrightarrow> is_slug (s @ [c])"
  using slug_tail_append [of s c] by (cases s) (auto simp: is_slug_def)

lemma is_slug_snoc_sep: "s \<noteq> [] \<Longrightarrow> is_slug s \<Longrightarrow> slug_char c \<Longrightarrow> is_slug (s @ [CHR ''_'', c])"
  using slug_tail_append_sep [of s c] by (cases s) (auto simp: is_slug_def)

lemma slug_prefix_loop:
  "slug_prefix out sep \<Longrightarrow> \<exists>sep'. slug_prefix (slug_loop out sep s) sep'"
proof (induction out sep s rule: slug_loop.induct)
  case (2 out sep c cs)
  show ?case
  proof (cases "is_ascii_alphanumeric c")
    case True
    then have "slug_char (to_ascii_lowercase c)" by simp
    with "2.prems" have "is_slug (out @ [to_ascii_lowercase c])"
      by (auto simp: slug_prefix_def is_slug_snoc is_slug_snoc_sep)
    then have "slug_prefix (out @ [to_ascii_lowercase c]) False"
      by (simp add: slug_prefix_def)
    with True 2 show ?thesis by simp
  next
    case False
    have "slug_prefix (if \<not> sep \<and> out \<noteq> [] then out @ ''_'' else out) True"
      using "2.prems" by (auto simp: slug_prefix_def)
    with False 2 show ?thesis by simp
  qed
qed auto

lemma trim_underscores_trailing:
  assumes "s \<noteq> []" and "is_slug s"
  shows "trim_underscores (s @ ''_'') = s"
proof -
  have "slug_char (hd s)"
    using assms by (simp add: is_slug_def)
  then have "hd s \<noteq> CHR ''_''"
    using underscore_not_slug_char by metis
  then have "dropWhile (\<lambda>c. c = CHR ''_'') (s @ ''_'') = s @ ''_''"
    "dropWhile (\<lambda>c. c = CHR ''_'') s = s"
    using assms(1) by (simp_all add: dropWhile_eq_self_iff)
  then have "trim_underscores (s @ ''_'') = trim_underscores s"
    by (simp add: trim_underscores_def)
  then show ?thesis using assms by (simp add: trim_underscores_id)
qed

lemma is_slug_slugify: "is_slug (slugify_id s)"
proof -
  obtain sep where "slug_prefix (slug_loop [] False s) sep"
    using slug_prefix_loop [of "[]" False s] by (auto simp: slug_prefix_def)
  then show ?thesis
    by (auto simp: slug_prefix_def slugify_id_def trim_underscores_id trim_underscores_trailing)
qed

section \<open>Unique identifiers\<close>

text \<open>
  The loop that appends \<open>_2\<close>, \<open>_3\<close>, \<dots> to a base until the candidate is new. It ends
  because the candidates differ from each other and only finitely many identifiers are taken.
\<close>

definition candidate :: "string \<Rightarrow> nat \<Rightarrow> string" where
  "candidate base n = base @ ''_'' @ show_nat n"

lemma candidate_inject [simp]: "candidate base m = candidate base n \<longleftrightarrow> m = n"
  by (simp add: candidate_def)

function fresh_from :: "string list \<Rightarrow> string \<Rightarrow> nat \<Rightarrow> string" where
  "fresh_from seen base n =
     (if candidate base n \<in> set seen then fresh_from seen base (Suc n) else candidate base n)"
  by pat_completeness auto
termination
proof (relation "measure (\<lambda>(seen, base, n). card (set seen \<inter> candidate base ` {n..}))")
  fix seen :: "string list" and base n
  assume "candidate base n \<in> set seen"
  moreover have "candidate base n \<notin> candidate base ` {Suc n..}"
    by auto
  ultimately have "set seen \<inter> candidate base ` {Suc n..} \<subset> set seen \<inter> candidate base ` {n..}"
    by (auto intro: Suc_leD)
  then show "((seen, base, Suc n), (seen, base, n))
      \<in> measure (\<lambda>(seen, base, n). card (set seen \<inter> candidate base ` {n..}))"
    by (simp add: psubset_card_mono)
qed simp

declare fresh_from.simps [simp del]

definition unique_id :: "string list \<Rightarrow> string \<Rightarrow> string" where
  "unique_id seen base = (if base \<in> set seen then fresh_from seen base 2 else base)"

lemma fresh_from_fresh: "fresh_from seen base n \<notin> set seen"
proof (induction seen base n rule: fresh_from.induct)
  case (1 seen base n)
  then show ?case by (subst fresh_from.simps) auto
qed

lemma fresh_from_candidate: "\<exists>k\<ge>n. fresh_from seen base n = candidate base k"
proof (induction seen base n rule: fresh_from.induct)
  case (1 seen base n)
  then show ?case by (subst fresh_from.simps) (auto intro: Suc_leD)
qed

lemma unique_id_fresh: "unique_id seen base \<notin> set seen"
  by (simp add: unique_id_def fresh_from_fresh)

lemma unique_id_id: "base \<notin> set seen \<Longrightarrow> unique_id seen base = base"
  by (simp add: unique_id_def)

section \<open>Normalisation\<close>

fun reserved_default_transition_id :: "rhythm_mode \<Rightarrow> rhythm_mode \<Rightarrow> string option" where
  "reserved_default_transition_id Sleep Day = Some ''sleep_to_day''"
| "reserved_default_transition_id Day Sleep = Some ''day_to_sleep''"
| "reserved_default_transition_id _ _ = None"

fun reserved_default_transition_label :: "rhythm_mode \<Rightarrow> rhythm_mode \<Rightarrow> string option" where
  "reserved_default_transition_label Sleep Day = Some ''Sleep to Day''"
| "reserved_default_transition_label Day Sleep = Some ''Day to Sleep''"
| "reserved_default_transition_label _ _ = None"

definition bump_count :: "'k \<Rightarrow> ('k, nat) hmap \<Rightarrow> ('k, nat) hmap" where
  "bump_count k m = AList.update k (unwrap_or (map_of m k) 0 + 1) m"

definition count_pairs :: "mode_transition list \<Rightarrow> (rhythm_mode \<times> rhythm_mode, nat) hmap" where
  "count_pairs cs = fold (\<lambda>c. bump_count (mt_from c, mt_to c)) cs []"

definition requested_id :: "mode_transition \<Rightarrow> string" where
  "requested_id c = slugify_id (trim (mt_id c))"

definition reserved_default ::
    "(rhythm_mode \<times> rhythm_mode, nat) hmap \<Rightarrow> mode_transition \<Rightarrow> string option" where
  "reserved_default counts c =
     opt_filter
       (\<lambda>r. unwrap_or (map_of counts (mt_from c, mt_to c)) 0 = 1 \<and>
            (requested_id c = [] \<or> requested_id c = r))
       (reserved_default_transition_id (mt_from c) (mt_to c))"

definition normalized_label ::
    "(rhythm_mode \<times> rhythm_mode, nat) hmap \<Rightarrow> mode_transition \<Rightarrow> string" where
  "normalized_label counts c =
     (case opt_filter (\<lambda>_. reserved_default counts c \<noteq> None)
             (reserved_default_transition_label (mt_from c) (mt_to c)) of
        Some l \<Rightarrow> l
      | None \<Rightarrow> if trim (mt_label c) = [] then default_label c else mt_label c)"

definition base_id ::
    "(rhythm_mode \<times> rhythm_mode, nat) hmap \<Rightarrow> mode_transition \<Rightarrow> string" where
  "base_id counts c =
     (case reserved_default counts c of
        Some r \<Rightarrow> r
      | None \<Rightarrow> if requested_id c = [] then default_id_base c else requested_id c)"

fun normalize_loop ::
    "(rhythm_mode \<times> rhythm_mode, nat) hmap \<Rightarrow> string list \<Rightarrow> mode_transition list \<Rightarrow>
     mode_transition list" where
  "normalize_loop counts seen [] = []"
| "normalize_loop counts seen (c # cs) =
     (let i = unique_id seen (base_id counts c) in
      c\<lparr>mt_label := normalized_label counts c, mt_id := i\<rparr> # normalize_loop counts (i # seen) cs)"

definition normalize_mode_transition_configs :: "mode_transition list \<Rightarrow> mode_transition list" where
  "normalize_mode_transition_configs cs = normalize_loop (count_pairs cs) [] cs"

definition default_mode_transition_configs :: "mode_transition list" where
  "default_mode_transition_configs =
     normalize_mode_transition_configs
       [(new_transition Sleep Day 10000)
          \<lparr>mt_duration := TimerAuto, mt_id := ''sleep_to_day'', mt_label := ''Sleep to Day'',
           mt_trigger := solar AstronomicalTwilight 0\<rparr>,
        (new_transition Day Sleep 10000)
          \<lparr>mt_duration := TimerAuto, mt_id := ''day_to_sleep'', mt_label := ''Day to Sleep'',
           mt_trigger := solar NauticalTwilight 0\<rparr>]"

text \<open>The part of a transition that normalisation leaves alone.\<close>

definition behaviour :: "mode_transition \<Rightarrow> rhythm_mode \<times> rhythm_mode \<times> trigger \<times> bool \<times> timer_setting"
  where "behaviour c = (mt_from c, mt_to c, mt_trigger c, mt_trigger_enabled c, mt_duration c)"

lemma normalize_loop_behaviour:
  "map behaviour (normalize_loop counts seen cs) = map behaviour cs"
  by (induction counts seen cs rule: normalize_loop.induct) (auto simp: Let_def behaviour_def)

lemma normalize_loop_ids:
  "distinct (map mt_id (normalize_loop counts seen cs)) \<and>
   mt_id ` set (normalize_loop counts seen cs) \<inter> set seen = {}"
proof (induction counts seen cs rule: normalize_loop.induct)
  case (2 counts seen c cs)
  then show ?case
    using unique_id_fresh [of seen "base_id counts c"]
    by (auto simp: Let_def)
qed simp

text \<open>The pair counts are a function of the modes alone.\<close>

definition pair_of :: "mode_transition \<Rightarrow> rhythm_mode \<times> rhythm_mode" where
  "pair_of c = (mt_from c, mt_to c)"

lemma count_pairs_fold: "count_pairs cs = fold bump_count (map pair_of cs) []"
  by (simp add: count_pairs_def fold_map comp_def pair_of_def)

lemma behaviour_pair: "map behaviour cs = map behaviour ds \<Longrightarrow> map pair_of cs = map pair_of ds"
proof -
  assume eq: "map behaviour cs = map behaviour ds"
  have "map pair_of xs = map (\<lambda>(f, t, _). (f, t)) (map behaviour xs)" for xs
    by (simp add: pair_of_def behaviour_def)
  then show ?thesis by (simp only: eq)
qed

lemma count_pairs_normalize [simp]: "count_pairs (normalize_loop counts seen cs) = count_pairs cs"
  using behaviour_pair [OF normalize_loop_behaviour] by (simp only: count_pairs_fold)

lemma fold_bump_count:
  "unwrap_or (map_of (fold bump_count ks m) k) 0 = unwrap_or (map_of m k) 0 + count_list ks k"
  by (induction ks arbitrary: m) (auto simp: bump_count_def update_conv')

lemma count_pairs_count: "unwrap_or (map_of (count_pairs cs) k) 0 = count_list (map pair_of cs) k"
  by (simp add: count_pairs_fold fold_bump_count)

section \<open>Stability of the identifiers\<close>

text \<open>
  A second normalisation changes nothing when the identifiers of the first one are slugs. They
  are, unless one was generated from a solar trigger with an offset, whose signed suffix is
  not a slug.
\<close>

definition offset_free :: "mode_transition \<Rightarrow> bool" where
  "offset_free c \<longleftrightarrow> requested_id c \<noteq> [] \<or> tg_offset (mt_trigger c) = 0"

lemma is_slug_append:
  assumes "is_slug a" and "a \<noteq> []" and "is_slug b" and "b \<noteq> []"
  shows "is_slug (a @ ''_'' @ b)"
proof -
  have "slug_tail a \<Longrightarrow> slug_tail (a @ CHR ''_'' # b)"
    using assms(3,4) by (induction a) (auto simp: is_slug_def split: if_splits)
  with assms show ?thesis by (auto simp: is_slug_def)
qed

lemma slug_char_digit: "is_digit c \<Longrightarrow> slug_char c"
  by (auto simp: slug_char_def is_ascii_alphanumeric_def is_digit_def to_ascii_lowercase_def)

lemma is_slug_all: "list_all slug_char s \<Longrightarrow> is_slug s"
  by (induction s) (auto simp: is_slug_def)

lemma is_slug_digits: "list_all is_digit s \<Longrightarrow> is_slug s"
  by (rule is_slug_all) (auto simp: list_all_iff slug_char_digit)

lemma is_slug_candidate: "is_slug base \<Longrightarrow> base \<noteq> [] \<Longrightarrow> is_slug (candidate base n)"
  using is_slug_append [of base "show_nat n"]
  by (simp add: candidate_def is_slug_digits show_nat_digits)

lemma unique_id_slug: "is_slug base \<Longrightarrow> base \<noteq> [] \<Longrightarrow> is_slug (unique_id seen base)"
  using fresh_from_candidate [of 2 seen base] is_slug_candidate [of base]
  by (auto simp: unique_id_def)

lemma is_slug_literals:
  "is_slug ''day''" "is_slug ''sleep''" "is_slug ''to''" "is_slug ''manual''"
  "is_slug ''scheduled''" "is_slug ''sunrise''" "is_slug ''sunset''"
  "is_slug ''civil_twilight''" "is_slug ''nautical_twilight''" "is_slug ''astronomical_twilight''"
  "is_slug ''sleep_to_day''" "is_slug ''day_to_sleep''"
  by (simp_all add: is_slug_def slug_char_def is_ascii_alphanumeric_def is_digit_def
      to_ascii_lowercase_def)

lemma is_slug_trigger_suffix:
  assumes "tg_offset t = 0"
  shows "is_slug (trigger_id_suffix t) \<and> trigger_id_suffix t \<noteq> []"
proof (cases "tg_kind t")
  case (KSolar e)
  with assms show ?thesis
    by (cases e) (simp_all add: trigger_id_suffix_def is_slug_literals)
next
  case (KScheduled m)
  have "is_slug (show_nat2 (unat (hour_of m)) @ show_nat2 (unat (minute_of m)))"
    by (rule is_slug_digits) (simp add: list_all_append)
  with KScheduled show ?thesis
    using is_slug_append [OF is_slug_literals(5)]
    by (simp add: trigger_id_suffix_def time_id_suffix_def)
qed (simp add: trigger_id_suffix_def is_slug_literals)

lemma is_slug_default_id_base:
  assumes "tg_offset (mt_trigger c) = 0"
  shows "is_slug (default_id_base c)" "default_id_base c \<noteq> []"
proof -
  have f: "is_slug (id_fragment m)" "id_fragment m \<noteq> []" for m
    by (cases m; simp add: is_slug_literals)+
  note t = is_slug_trigger_suffix [OF assms, THEN conjunct1] is_slug_trigger_suffix [OF assms, THEN conjunct2]
  have a: "is_slug (id_fragment (mt_to c) @ ''_'' @ trigger_id_suffix (mt_trigger c))"
    by (intro is_slug_append f t)
  have b: "is_slug (''to'' @ ''_'' @ id_fragment (mt_to c) @ ''_'' @ trigger_id_suffix (mt_trigger c))"
    by (rule is_slug_append [OF is_slug_literals(3) _ a]) simp_all
  have "is_slug (id_fragment (mt_from c) @ ''_'' @ ''to'' @ ''_'' @ id_fragment (mt_to c) @ ''_''
      @ trigger_id_suffix (mt_trigger c))"
    by (rule is_slug_append [OF f b]) simp_all
  then show "is_slug (default_id_base c)" "default_id_base c \<noteq> []"
    by (simp_all add: default_id_base_def)
qed

lemma reserved_default_SomeD:
  "reserved_default counts c = Some r \<Longrightarrow>
     reserved_default_transition_id (mt_from c) (mt_to c) = Some r \<and>
     (requested_id c = [] \<or> requested_id c = r)"
  by (auto simp: reserved_default_def dest: opt_filter_SomeD)

lemma reserved_id_slug:
  "reserved_default_transition_id f t = Some r \<Longrightarrow> is_slug r \<and> r \<noteq> []"
  by (cases f; cases t) (auto simp: is_slug_literals)

lemma base_id_slug:
  assumes "offset_free c"
  shows "is_slug (base_id counts c)" "base_id counts c \<noteq> []"
  using assms is_slug_default_id_base [of c] is_slug_slugify [of "trim (mt_id c)"]
    reserved_id_slug [of "mt_from c" "mt_to c"]
  by (auto simp: base_id_def offset_free_def requested_id_def
      split: option.splits dest!: reserved_default_SomeD)

lemma slug_printable: "slug_char c \<Longrightarrow> printable c"
  by (auto simp: slug_char_def printable_def is_ascii_alphanumeric_def is_digit_def)

lemma requested_id_slug: "is_slug (mt_id c) \<Longrightarrow> requested_id c = mt_id c"
proof -
  assume s: "is_slug (mt_id c)"
  then have "trim (mt_id c) = mt_id c"
    by (cases "mt_id c = []")
      (auto simp: is_slug_def intro!: trim_id slug_printable slug_tail_last)
  with s show ?thesis by (simp add: requested_id_def slugify_slug)
qed

lemma base_id_of_slug:
  "is_slug (mt_id c) \<Longrightarrow> mt_id c \<noteq> [] \<Longrightarrow> base_id counts c = mt_id c"
  by (auto simp: base_id_def requested_id_slug split: option.splits dest!: reserved_default_SomeD)

lemma normalize_loop_id:
  assumes "\<forall>d\<in>set ds. is_slug (mt_id d) \<and> mt_id d \<noteq> [] \<and> normalized_label counts d = mt_label d"
    and "distinct (map mt_id ds)" and "mt_id ` set ds \<inter> set seen = {}"
  shows "normalize_loop counts seen ds = ds"
  using assms
proof (induction ds arbitrary: seen)
  case (Cons d ds)
  then have "unique_id seen (base_id counts d) = mt_id d"
    by (simp add: base_id_of_slug unique_id_id)
  moreover have "normalize_loop counts (mt_id d # seen) ds = ds"
    using Cons.prems by (intro Cons.IH) auto
  ultimately show ?case
    using Cons.prems by simp
qed simp

lemma trim_default_label: "trim (default_label c) \<noteq> []"
proof -
  have "trim (default_label c) = default_label c"
    by (rule trim_id; cases "mt_from c"; cases "mt_to c")
      (simp_all add: default_label_def printable_def Let_def split: option.splits)
  moreover have "default_label c \<noteq> []"
    by (simp add: default_label_def Let_def split: option.splits)
  ultimately show ?thesis by simp
qed

lemma trim_reserved_label:
  "reserved_default_transition_label f t = Some l \<Longrightarrow> trim l \<noteq> []"
  by (cases f; cases t) (auto simp: trim_id printable_def)

lemma trim_normalized_label: "trim (normalized_label counts c) \<noteq> []"
  using trim_default_label trim_reserved_label
  by (auto simp: normalized_label_def split: option.splits dest!: opt_filter_SomeD)

lemma candidate_not_reserved:
  "reserved_default_transition_id f t = Some r \<Longrightarrow> r \<noteq> candidate base k"
proof
  assume r: "reserved_default_transition_id f t = Some r" and eq: "r = candidate base k"
  have "is_digit (last (candidate base k))"
    using show_nat_digits [of k] by (simp add: candidate_def list_all_iff)
  then have "is_digit (last r)" by (simp only: eq)
  with r show False
    by (cases f; cases t) (auto simp: is_digit_def)
qed

lemma normalized_label_stable:
  fixes counts c seen
  defines "d \<equiv> c\<lparr>mt_label := normalized_label counts c, mt_id := unique_id seen (base_id counts c)\<rparr>"
  assumes slug: "is_slug (mt_id d)" and ne: "mt_id d \<noteq> []"
  shows "normalized_label counts d = mt_label d"
proof (cases "reserved_default counts d")
  case None
  then show ?thesis
    using trim_normalized_label [of counts c]
    by (simp add: normalized_label_def [of counts d] opt_filter_def split: option.splits)
      (simp add: d_def)
next
  case (Some r)
  then have r: "reserved_default_transition_id (mt_from c) (mt_to c) = Some r"
    and id: "mt_id d = r" and one: "unwrap_or (map_of counts (mt_from c, mt_to c)) 0 = 1"
    using requested_id_slug [OF slug] ne
    by (auto simp: reserved_default_def d_def dest!: opt_filter_SomeD)
  have "base_id counts c = r"
    using id fresh_from_candidate [of 2 seen "base_id counts c"] candidate_not_reserved [OF r]
    by (auto simp: d_def unique_id_def split: if_splits)
  then have "reserved_default counts c = Some r"
    using r one by (auto simp: base_id_def reserved_default_def split: option.splits if_splits)
  with Some r show ?thesis
    by (cases "mt_from c"; cases "mt_to c") (auto simp: normalized_label_def d_def)
qed

lemma normalize_loop_stable:
  assumes "list_all offset_free cs"
  shows "\<forall>d\<in>set (normalize_loop counts seen cs).
           is_slug (mt_id d) \<and> mt_id d \<noteq> [] \<and> normalized_label counts d = mt_label d"
  using assms
proof (induction counts seen cs rule: normalize_loop.induct)
  case (2 counts seen c cs)
  let ?i = "unique_id seen (base_id counts c)"
  have "is_slug ?i \<and> ?i \<noteq> []"
    using 2(2) base_id_slug [of c counts] fresh_from_candidate [of 2 seen "base_id counts c"]
    by (auto simp: unique_id_slug) (auto simp: unique_id_def candidate_def split: if_splits)
  then show ?case
    using 2 normalized_label_stable [where c = c and counts = counts and seen = seen] by (auto simp: Let_def)
qed simp

section \<open>Properties\<close>

lemma base_id_nonempty: "base_id counts c \<noteq> []"
  using reserved_id_slug [of "mt_from c" "mt_to c"]
  by (auto simp: base_id_def default_id_base_def split: option.splits dest!: reserved_default_SomeD)

lemma normalize_loop_named:
  "\<forall>d\<in>set (normalize_loop counts seen cs). mt_id d \<noteq> [] \<and> trim (mt_label d) \<noteq> []"
proof (induction counts seen cs rule: normalize_loop.induct)
  case (2 counts seen c cs)
  have "unique_id seen (base_id counts c) \<noteq> []"
    using base_id_nonempty [of counts c] fresh_from_candidate [of 2 seen "base_id counts c"]
    by (auto simp: unique_id_def candidate_def)
  with 2 show ?case by (simp add: Let_def trim_normalized_label)
qed simp

text \<open>C22: Normalising the transitions of a configuration gives every transition an identifier
  that is not empty and that no other one has, and a label that is not blank, and leaves their
  number, their order and everything that decides when they fire (modes, trigger, enabled flag,
  duration) as it was.\<close>

theorem normalize_transitions_sound:
  "distinct (map mt_id (normalize_mode_transition_configs cs)) \<and>
   list_all (\<lambda>d. mt_id d \<noteq> [] \<and> trim (mt_label d) \<noteq> []) (normalize_mode_transition_configs cs) \<and>
   map behaviour (normalize_mode_transition_configs cs) = map behaviour cs"
  unfolding normalize_mode_transition_configs_def list_all_iff
  by (intro conjI normalize_loop_ids [THEN conjunct1] normalize_loop_named normalize_loop_behaviour)

text \<open>When no identifier has to be generated from a solar trigger with an offset, a second
  normalisation changes nothing: identifiers persisted once stay the same on every reload.\<close>

theorem normalize_transitions_idempotent:
  assumes "list_all offset_free cs"
  shows "normalize_mode_transition_configs (normalize_mode_transition_configs cs) =
         normalize_mode_transition_configs cs"
  unfolding normalize_mode_transition_configs_def count_pairs_normalize
proof (rule normalize_loop_id)
  show "\<forall>d\<in>set (normalize_loop (count_pairs cs) [] cs). is_slug (mt_id d) \<and> mt_id d \<noteq> [] \<and>
      normalized_label (count_pairs cs) d = mt_label d"
    by (rule normalize_loop_stable [OF assms])
  show "distinct (map mt_id (normalize_loop (count_pairs cs) [] cs))"
    by (rule normalize_loop_ids [THEN conjunct1])
qed simp

theorem normalize_transitions_idempotent_witness:
  "let cs = [new_transition Sleep Day 10000, new_transition Sleep Day 20000,
             (new_transition Day Sleep 0)\<lparr>mt_id := ''  Evening -- Dim ''\<rparr>]
   in normalize_mode_transition_configs (normalize_mode_transition_configs cs) =
        normalize_mode_transition_configs cs \<and>
      map mt_id (normalize_mode_transition_configs cs) =
        [''sleep_to_day_manual'', ''sleep_to_day_manual_2'', ''evening_dim'']"
proof -
  let ?cs = "[new_transition Sleep Day 10000, new_transition Sleep Day 20000,
             (new_transition Day Sleep 0)\<lparr>mt_id := ''  Evening -- Dim ''\<rparr>]"
  have "list_all offset_free ?cs" by code_simp
  moreover have "map mt_id (normalize_mode_transition_configs ?cs) =
      [''sleep_to_day_manual'', ''sleep_to_day_manual_2'', ''evening_dim'']" by code_simp
  ultimately show ?thesis using normalize_transitions_idempotent [of ?cs] by (simp only: Let_def)
qed

text \<open>With a solar offset the generated identifier is not stable: saved and normalised
  again, the signed suffix is rewritten, so the identifier that overrides refer to changes.\<close>

theorem normalize_transitions_offset_unstable:
  "let c = (new_transition Sleep Day 0)\<lparr>mt_trigger := solar Sunset 30\<rparr>;
       once = normalize_mode_transition_configs [c, c]
   in map mt_id once = [''sleep_to_day_sunset_+30'', ''sleep_to_day_sunset_+30_2''] \<and>
      map mt_id (normalize_mode_transition_configs once) =
        [''sleep_to_day_sunset_30'', ''sleep_to_day_sunset_30_2'']"
  by code_simp

end
