(* ===== verification/Schedules.thy ===== *)
theory Schedules
  imports Transitions
begin

text \<open>
  Schedules of \<open>rhythm-core/src/room.rs\<close>: the sparse patches over transitions and named
  schedules, the explicit schedule ownership of a light root, and the room-local wall-clock
  schedule with its resolution of the current mode.
\<close>

section \<open>Transition patches\<close>

record transition_override =
  tov_trigger :: trigger_override
  tov_trigger_enabled :: "bool option"
  tov_duration :: "timer_setting option"

definition transition_override_is_empty :: "transition_override \<Rightarrow> bool" where
  "transition_override_is_empty o1 \<longleftrightarrow>
     override_is_empty (tov_trigger o1) \<and> tov_trigger_enabled o1 = None \<and> tov_duration o1 = None"

definition merge_transition_override ::
    "transition_override \<Rightarrow> transition_override \<Rightarrow> transition_override" where
  "merge_transition_override o1 parent =
     \<lparr>tov_trigger = merge_override (tov_trigger o1) (tov_trigger parent),
      tov_trigger_enabled = opt_or (tov_trigger_enabled o1) (tov_trigger_enabled parent),
      tov_duration = opt_or (tov_duration o1) (tov_duration parent)\<rparr>"

definition apply_transition_override ::
    "transition_override \<Rightarrow> mode_transition \<Rightarrow> string + mode_transition" where
  "apply_transition_override o1 base =
     (case apply_override (tov_trigger o1) (mt_trigger base) of
        Inl e \<Rightarrow> Inl e
      | Inr t \<Rightarrow> Inr (base\<lparr>mt_trigger := t,
          mt_trigger_enabled := unwrap_or (tov_trigger_enabled o1) (mt_trigger_enabled base),
          mt_duration := unwrap_or (tov_duration o1) (mt_duration base)\<rparr>))"

section \<open>Named schedules\<close>

record light_schedule =
  ls_id :: string
  ls_name :: string
  ls_enabled :: bool
  ls_active_mode :: rhythm_mode
  ls_transitions :: "mode_transition list"

type_synonym schedule_override = "(string, transition_override) btmap"

definition merge_schedule_override :: "schedule_override \<Rightarrow> schedule_override \<Rightarrow> schedule_override" where
  "merge_schedule_override loc parent = bt_merge_with merge_transition_override loc parent"

definition unknown_transition_error :: "string \<Rightarrow> string" where
  "unknown_transition_error i =
     ''Light schedule override references unknown transition '' @ [CHR 0x27] @ i @ [CHR 0x27]"

fun patch_transitions ::
    "schedule_override \<Rightarrow> mode_transition list \<Rightarrow> string + mode_transition list" where
  "patch_transitions ov [] = Inr []"
| "patch_transitions ov (t # ts) =
     (case (case map_of ov (mt_id t) of
              Some o1 \<Rightarrow> apply_transition_override o1 t
            | None \<Rightarrow> Inr t) of
        Inl e \<Rightarrow> Inl e
      | Inr t' \<Rightarrow> (case patch_transitions ov ts of Inl e \<Rightarrow> Inl e | Inr ts' \<Rightarrow> Inr (t' # ts')))"

definition apply_schedule_override :: "schedule_override \<Rightarrow> light_schedule \<Rightarrow> string + light_schedule" where
  "apply_schedule_override ov s =
     (case filter (\<lambda>i. i \<notin> mt_id ` set (ls_transitions s)) (map fst ov) of
        i # _ \<Rightarrow> Inl (unknown_transition_error i)
      | [] \<Rightarrow> (case patch_transitions ov (ls_transitions s) of
          Inl e \<Rightarrow> Inl e
        | Inr ts \<Rightarrow> Inr (s\<lparr>ls_transitions := ts\<rparr>)))"

text \<open>Explicit schedule ownership of a light root.\<close>

datatype schedule_assignment =
    Unscheduled rhythm_mode
  | Named string rhythm_mode

fun assignment_schedule_id :: "schedule_assignment \<Rightarrow> string option" where
  "assignment_schedule_id (Unscheduled _) = None"
| "assignment_schedule_id (Named i _) = Some i"

fun assignment_active_mode :: "schedule_assignment \<Rightarrow> rhythm_mode option" where
  "assignment_active_mode (Unscheduled m) = Some m"
| "assignment_active_mode (Named _ m) = Some m"

lemma assignment_active_mode_Some [simp]: "assignment_active_mode a \<noteq> None"
  by (cases a) auto

section \<open>Room-local schedules\<close>

datatype room_schedule_source = WakeSleepPresets | FollowTime

record room_schedule =
  rs_source :: room_schedule_source
  rs_wake :: mode_transition_time
  rs_sleep :: mode_transition_time

text \<open>The default panics unless its two times are valid, which they are.\<close>

definition default_room_schedule :: "room_schedule option" where
  "default_room_schedule =
     (case (from_hour_minute 6 30, from_hour_minute 22 30) of
        (Some w, Some s) \<Rightarrow> Some \<lparr>rs_source = WakeSleepPresets, rs_wake = w, rs_sleep = s\<rparr>
      | _ \<Rightarrow> None)"

definition follows_time :: "room_schedule \<Rightarrow> bool" where
  "follows_time r \<longleftrightarrow> (case rs_source r of FollowTime \<Rightarrow> True | _ \<Rightarrow> False)"

definition minute_of_hour :: "f32 \<Rightarrow> nat" where
  "minute_of_hour h =
     min (fl_as_u16 (fl_floor (fl_scale f32_round 60 (fl_rem_euclid f32_round 24 h)))) 1439"

definition effective_mode :: "room_schedule \<Rightarrow> f32 \<Rightarrow> rhythm_mode" where
  "effective_mode r h =
     (let minute = minute_of_hour h;
          wake = unat (minutes_since_midnight (rs_wake r));
          sleep = unat (minutes_since_midnight (rs_sleep r));
          is_day = (if wake < sleep then wake \<le> minute \<and> minute < sleep
                    else if sleep < wake then wake \<le> minute \<or> minute < sleep
                    else False)
      in if is_day then Day else Sleep)"

subsection \<open>Patches\<close>

lemma patch_transitions_ids:
  "patch_transitions ov ts = Inr ts' \<Longrightarrow> map mt_id ts' = map mt_id ts"
proof (induction ts arbitrary: ts')
  case (Cons t ts)
  then show ?case
    by (auto simp: apply_transition_override_def split: option.splits sum.splits)
qed simp

definition wf_transition_override :: "transition_override \<Rightarrow> bool" where
  "wf_transition_override o1 \<longleftrightarrow> wf_override (tov_trigger o1)"

definition wf_schedule :: "light_schedule \<Rightarrow> bool" where
  "wf_schedule s \<longleftrightarrow>
     distinct (map mt_id (ls_transitions s)) \<and>
     list_all (\<lambda>t. wf_trigger (mt_trigger t)) (ls_transitions s)"

lemma apply_transition_override_wf:
  "wf_transition_override o1 \<Longrightarrow> wf_trigger (mt_trigger t) \<Longrightarrow>
   apply_transition_override o1 t = Inr t' \<Longrightarrow> wf_trigger (mt_trigger t')"
  by (auto simp: apply_transition_override_def wf_transition_override_def
      intro: apply_override_wf split: sum.splits)

lemma patch_transitions_wf:
  assumes "\<forall>o1\<in>snd ` set ov. wf_transition_override o1"
    and "list_all (\<lambda>t. wf_trigger (mt_trigger t)) ts" and "patch_transitions ov ts = Inr ts'"
  shows "list_all (\<lambda>t. wf_trigger (mt_trigger t)) ts'"
  using assms(2,3)
proof (induction ts arbitrary: ts')
  case (Cons t ts)
  have "wf_transition_override o1" if "map_of ov (mt_id t) = Some o1" for o1
    using assms(1) map_of_SomeD [OF that] by force
  with Cons show ?case
    by (auto dest: apply_transition_override_wf split: option.splits sum.splits)
qed simp

lemma apply_schedule_override_wf:
  assumes "\<forall>o1\<in>snd ` set ov. wf_transition_override o1" and "wf_schedule s"
    and "apply_schedule_override ov s = Inr s'"
  shows "wf_schedule s'"
  using assms
  by (auto simp: apply_schedule_override_def wf_schedule_def
      dest: patch_transitions_ids intro: patch_transitions_wf split: list.splits sum.splits)

lemma apply_schedule_override_keys:
  "apply_schedule_override ov s = Inr s' \<Longrightarrow> fst ` set ov \<subseteq> mt_id ` set (ls_transitions s)"
  by (auto simp: apply_schedule_override_def filter_empty_conv split: list.splits)

text \<open>The transitions without an entry in the override are not touched.\<close>

lemma patch_transitions_other:
  "patch_transitions ov ts = Inr ts' \<Longrightarrow> k < length ts \<Longrightarrow> map_of ov (mt_id (ts ! k)) = None \<Longrightarrow>
   ts' ! k = ts ! k"
proof (induction ts arbitrary: ts' k)
  case (Cons t ts)
  then show ?case
    by (cases k) (auto split: option.splits sum.splits)
qed simp

lemma patch_transitions_patched:
  "patch_transitions ov ts = Inr ts' \<Longrightarrow> k < length ts \<Longrightarrow> map_of ov (mt_id (ts ! k)) = Some o1 \<Longrightarrow>
   apply_transition_override o1 (ts ! k) = Inr (ts' ! k)"
proof (induction ts arbitrary: ts' k)
  case (Cons t ts)
  then show ?case
    by (cases k) (auto split: option.splits sum.splits)
qed simp

text \<open>Merging patches is associative as long as no inner patch switches the trigger's kind.\<close>

lemma merge_override_assoc:
  assumes "ov_kind a = None"
  shows "merge_override (merge_override a b) c = merge_override a (merge_override b c)"
  using assms
  by (auto simp: merge_override_def opt_or_assoc split: option.splits trigger_type.splits)

subsection \<open>Wall-clock resolution\<close>

lemma minute_of_hour_less: "minute_of_hour h < 1440"
  by (simp add: minute_of_hour_def)

lemma minute_of_hour_nonfinite: "\<not> is_finite h \<Longrightarrow> minute_of_hour h = 0"
  by (cases h) (simp_all add: minute_of_hour_def fl_rem_euclid_def)

text \<open>The minutes of the day during which a schedule is in its day mode: a cyclic interval.\<close>

definition day_minutes :: "nat \<Rightarrow> nat \<Rightarrow> nat set" where
  "day_minutes wake sleep = {m. m < 1440 \<and> (m + 1440 - wake) mod 1440 < (sleep + 1440 - wake) mod 1440}"

lemma effective_mode_cyclic:
  assumes "wf_time (rs_wake r)" and "wf_time (rs_sleep r)"
  shows "effective_mode r h = Day \<longleftrightarrow>
    minute_of_hour h \<in> day_minutes (unat (minutes_since_midnight (rs_wake r)))
                         (unat (minutes_since_midnight (rs_sleep r)))"
proof -
  have *: "(a + 1440 - w) mod 1440 = (if w \<le> a then a - w else a + 1440 - w)"
    if "a < 1440" "w < 1440" for a w :: nat
    using that by (auto simp: mod_if)
  show ?thesis
    using assms minute_of_hour_less [of h]
    by (auto simp: effective_mode_def day_minutes_def wf_time_def * Let_def)
qed

section \<open>Properties\<close>

text \<open>C25: Applying a schedule override succeeds only when every identifier it names is one of
  the schedule, and then keeps the identifiers and their order, patches each named transition
  with its own patch and leaves the others alone.\<close>

theorem schedule_override_pointwise:
  assumes "apply_schedule_override ov s = Inr s'" and "k < length (ls_transitions s)"
  shows "fst ` set ov \<subseteq> mt_id ` set (ls_transitions s) \<and>
    map mt_id (ls_transitions s') = map mt_id (ls_transitions s) \<and>
    (case map_of ov (mt_id (ls_transitions s ! k)) of
       None \<Rightarrow> ls_transitions s' ! k = ls_transitions s ! k
     | Some o1 \<Rightarrow> apply_transition_override o1 (ls_transitions s ! k) = Inr (ls_transitions s' ! k))"
proof -
  have p: "patch_transitions ov (ls_transitions s) = Inr (ls_transitions s')"
    using assms(1) by (auto simp: apply_schedule_override_def split: list.splits sum.splits)
  show ?thesis
    using apply_schedule_override_keys [OF assms(1)] patch_transitions_ids [OF p]
      patch_transitions_other [OF p assms(2)] patch_transitions_patched [OF p assms(2)]
    by (auto split: option.split)
qed

definition evening_schedule :: light_schedule where
  "evening_schedule = \<lparr>ls_id = ''s'', ls_name = ''S'', ls_enabled = True,
     ls_active_mode = Day, ls_transitions = default_mode_transition_configs\<rparr>"

definition evening_patch :: schedule_override where
  "evening_patch =
     [(''day_to_sleep'', \<lparr>tov_trigger = empty_override\<lparr>ov_offset := Some 15\<rparr>,
        tov_trigger_enabled = None, tov_duration = None\<rparr>)]"

theorem schedule_override_pointwise_witness:
  "\<exists>s'. apply_schedule_override evening_patch evening_schedule = Inr s' \<and>
     map mt_id (ls_transitions s') = [''sleep_to_day'', ''day_to_sleep'']"
proof -
  have "\<not> isl (apply_schedule_override evening_patch evening_schedule)" by code_simp
  then obtain s' where s': "apply_schedule_override evening_patch evening_schedule = Inr s'"
    by (metis obj_sumE isl_def)
  moreover have "map mt_id (ls_transitions evening_schedule) = [''sleep_to_day'', ''day_to_sleep'']"
    by code_simp
  ultimately show ?thesis
    using schedule_override_pointwise [OF s', of 0] by auto
qed

text \<open>A room that follows the clock is in its day mode exactly during the minutes of the
  cyclic interval from its wake time up to its sleep time, an interval past midnight included and
  an empty one when the two times are equal.\<close>

theorem effective_mode_interval:
  assumes "wf_time (rs_wake r)" and "wf_time (rs_sleep r)"
  shows "effective_mode r h = Day \<longleftrightarrow>
    minute_of_hour h \<in> day_minutes (unat (minutes_since_midnight (rs_wake r)))
                         (unat (minutes_since_midnight (rs_sleep r)))"
  using assms by (rule effective_mode_cyclic)

theorem effective_mode_interval_witness:
  "effective_mode \<lparr>rs_source = FollowTime, rs_wake = TransitionTime 1380,
     rs_sleep = TransitionTime 360\<rparr> (F_Fin 3) = Day"
proof -
  have "minute_of_hour (F_Fin 3) = 180" by code_simp
  then show ?thesis
    using effective_mode_interval [of "\<lparr>rs_source = FollowTime, rs_wake = TransitionTime 1380,
      rs_sleep = TransitionTime 360\<rparr>" "F_Fin 3"]
    by (simp add: wf_time_def day_minutes_def)
qed

text \<open>The hour of a wake time, rounded to single precision, can fall just short of its
  minute: at the very hour the code computes for 01:03 a room that wakes at 01:03 is still
  asleep.\<close>

theorem effective_mode_rounding:
  "let wake = TransitionTime 63;
       r = \<lparr>rs_source = FollowTime, rs_wake = wake, rs_sleep = TransitionTime 1320\<rparr>
   in wf_time wake \<and> minute_of_hour (local_hour_of wake) = 62 \<and>
      effective_mode r (local_hour_of wake) = Sleep"
  by code_simp

text \<open>Merging trigger patches from the leaf outward is not associative: an inner patch that
  switches to a scheduled trigger takes its time from any ancestor when the merge goes from the
  leaf outward, but not when the outer patches are merged first and one of them switches to a
  manual trigger.\<close>

theorem trigger_patch_merge_order:
  "let leaf = empty_override\<lparr>ov_kind := Some TScheduled\<rparr>;
       parent = empty_override\<lparr>ov_kind := Some TManual\<rparr>;
       grandparent = empty_override\<lparr>ov_time := Some (TransitionTime 420)\<rparr>
   in apply_override (merge_override (merge_override leaf parent) grandparent) Manual =
        Inr (Scheduled (TransitionTime 420)) \<and>
      apply_override (merge_override leaf (merge_override parent grandparent)) Manual =
        Inl ''scheduled trigger override requires time''"
  by code_simp

end
