(* ===== verification/RoomSettings.thy ===== *)
theory RoomSettings
  imports Schedules
begin

text \<open>
  Per-node light settings of \<open>rhythm-core/src/room.rs\<close>: the overrides of one resolved light
  profile, the profile settings of a room, and how a node's settings are merged on top of its
  parent's.
\<close>

section \<open>Profile overrides of a node\<close>

record node_override =
  no_curve :: "light_curve_shape option"
  no_min_brightness :: "u8 option"
  no_max_brightness :: "u8 option"
  no_min_color_temp :: "u16 option"
  no_max_color_temp :: "u16 option"
  no_max_dim_steps :: "u8 option"
  no_fade_ms :: "timer_setting option"
  no_motion_timeout_secs :: "timer_setting option"
  no_rhythm_interval_secs :: "timer_setting option"

definition node_override_default :: node_override where
  "node_override_default =
     \<lparr>no_curve = None, no_min_brightness = None, no_max_brightness = None,
      no_min_color_temp = None, no_max_color_temp = None, no_max_dim_steps = None,
      no_fade_ms = None, no_motion_timeout_secs = None, no_rhythm_interval_secs = None\<rparr>"

definition node_override_is_empty :: "node_override \<Rightarrow> bool" where
  "node_override_is_empty o1 \<longleftrightarrow>
     no_curve o1 = None \<and> no_min_brightness o1 = None \<and> no_max_brightness o1 = None \<and>
     no_min_color_temp o1 = None \<and> no_max_color_temp o1 = None \<and> no_max_dim_steps o1 = None \<and>
     no_fade_ms o1 = None \<and> no_motion_timeout_secs o1 = None \<and> no_rhythm_interval_secs o1 = None"

definition merge_from :: "node_override \<Rightarrow> node_override \<Rightarrow> node_override" where
  "merge_from self patch =
     \<lparr>no_curve = (if no_curve patch \<noteq> None then no_curve patch else no_curve self),
      no_min_brightness =
        (if no_min_brightness patch \<noteq> None then no_min_brightness patch else no_min_brightness self),
      no_max_brightness =
        (if no_max_brightness patch \<noteq> None then no_max_brightness patch else no_max_brightness self),
      no_min_color_temp =
        (if no_min_color_temp patch \<noteq> None then no_min_color_temp patch else no_min_color_temp self),
      no_max_color_temp =
        (if no_max_color_temp patch \<noteq> None then no_max_color_temp patch else no_max_color_temp self),
      no_max_dim_steps =
        (if no_max_dim_steps patch \<noteq> None then no_max_dim_steps patch else no_max_dim_steps self),
      no_fade_ms = (if no_fade_ms patch \<noteq> None then no_fade_ms patch else no_fade_ms self),
      no_motion_timeout_secs =
        (if no_motion_timeout_secs patch \<noteq> None then no_motion_timeout_secs patch
         else no_motion_timeout_secs self),
      no_rhythm_interval_secs =
        (if no_rhythm_interval_secs patch \<noteq> None then no_rhythm_interval_secs patch
         else no_rhythm_interval_secs self)\<rparr>"

definition clear_legacy_timer_fields :: "node_override \<Rightarrow> node_override" where
  "clear_legacy_timer_fields o1 = o1\<lparr>no_fade_ms := None, no_motion_timeout_secs := None\<rparr>"

definition field_names :: "node_override \<Rightarrow> string list" where
  "field_names o1 =
     (if no_curve o1 \<noteq> None then [''curve''] else []) @
     (if no_min_brightness o1 \<noteq> None then [''min_brightness''] else []) @
     (if no_max_brightness o1 \<noteq> None then [''max_brightness''] else []) @
     (if no_min_color_temp o1 \<noteq> None then [''min_color_temp''] else []) @
     (if no_max_color_temp o1 \<noteq> None then [''max_color_temp''] else []) @
     (if no_max_dim_steps o1 \<noteq> None then [''max_dim_steps''] else []) @
     (if no_fade_ms o1 \<noteq> None then [''fade_ms''] else []) @
     (if no_motion_timeout_secs o1 \<noteq> None then [''motion_timeout_secs''] else []) @
     (if no_rhythm_interval_secs o1 \<noteq> None then [''rhythm_interval_secs''] else [])"

definition override_config :: "node_override \<Rightarrow> light_profile_config \<Rightarrow> light_profile_config" where
  "override_config o1 c = normalize_float_precision
     (c\<lparr>lp_curve := unwrap_or (no_curve o1) (lp_curve c),
        lp_min_brightness := unwrap_or (no_min_brightness o1) (lp_min_brightness c),
        lp_max_brightness := unwrap_or (no_max_brightness o1) (lp_max_brightness c),
        lp_min_color_temp := unwrap_or (no_min_color_temp o1) (lp_min_color_temp c),
        lp_max_color_temp := unwrap_or (no_max_color_temp o1) (lp_max_color_temp c),
        lp_max_dim_steps := unwrap_or (no_max_dim_steps o1) (lp_max_dim_steps c),
        lp_fade_ms := unwrap_or (no_fade_ms o1) (lp_fade_ms c),
        lp_motion_timeout_secs := unwrap_or (no_motion_timeout_secs o1) (lp_motion_timeout_secs c),
        lp_rhythm_interval_secs :=
          unwrap_or (no_rhythm_interval_secs o1) (lp_rhythm_interval_secs c)\<rparr>)"

lemma field_names_empty: "field_names o1 = [] \<longleftrightarrow> node_override_is_empty o1"
  by (auto simp: field_names_def node_override_is_empty_def)

lemma merge_from_alt:
  "merge_from s p =
     \<lparr>no_curve = opt_or (no_curve p) (no_curve s),
      no_min_brightness = opt_or (no_min_brightness p) (no_min_brightness s),
      no_max_brightness = opt_or (no_max_brightness p) (no_max_brightness s),
      no_min_color_temp = opt_or (no_min_color_temp p) (no_min_color_temp s),
      no_max_color_temp = opt_or (no_max_color_temp p) (no_max_color_temp s),
      no_max_dim_steps = opt_or (no_max_dim_steps p) (no_max_dim_steps s),
      no_fade_ms = opt_or (no_fade_ms p) (no_fade_ms s),
      no_motion_timeout_secs = opt_or (no_motion_timeout_secs p) (no_motion_timeout_secs s),
      no_rhythm_interval_secs = opt_or (no_rhythm_interval_secs p) (no_rhythm_interval_secs s)\<rparr>"
  by (simp only: merge_from_def opt_or_if)

lemma merge_from_assoc: "merge_from (merge_from a b) c = merge_from a (merge_from b c)"
  by (simp add: merge_from_alt opt_or_assoc)

section \<open>Room profile settings\<close>

record room_settings =
  ps_profile_id :: "string option"
  ps_mood_enabled :: "bool option"
  ps_mood_profile_id :: "string option"
  ps_mood_scene_id :: "string option"
  ps_palette_offset :: "u32 option"
  ps_palette_span :: "u32 option"
  ps_palette_seed :: "u32 option"
  ps_device_mode :: "bool option"
  ps_device_slots :: "(string, u32) btmap option"
  ps_fade_ms :: "timer_setting option"
  ps_motion_timeout_secs :: "timer_setting option"
  ps_motion_activation :: "bool option"
  ps_light_schedule :: "schedule_assignment option"
  ps_schedule_overrides :: "(string, schedule_override) btmap"
  ps_schedule_modes :: "(string, rhythm_mode) btmap"
  ps_room_schedule :: "room_schedule option"
  ps_profile_overrides :: "(string, node_override) btmap"

definition room_settings_default :: room_settings where
  "room_settings_default =
     \<lparr>ps_profile_id = None, ps_mood_enabled = None, ps_mood_profile_id = None,
      ps_mood_scene_id = None, ps_palette_offset = None, ps_palette_span = None,
      ps_palette_seed = None, ps_device_mode = None, ps_device_slots = None,
      ps_fade_ms = None, ps_motion_timeout_secs = None, ps_motion_activation = None,
      ps_light_schedule = None, ps_schedule_overrides = [], ps_schedule_modes = [],
      ps_room_schedule = None, ps_profile_overrides = []\<rparr>"

definition settings_is_empty :: "room_settings \<Rightarrow> bool" where
  "settings_is_empty s \<longleftrightarrow>
     ps_profile_id s = None \<and> ps_mood_enabled s = None \<and> ps_mood_profile_id s = None \<and>
     ps_mood_scene_id s = None \<and> ps_palette_offset s = None \<and> ps_palette_span s = None \<and>
     ps_palette_seed s = None \<and> ps_device_mode s = None \<and> ps_device_slots s = None \<and>
     ps_fade_ms s = None \<and> ps_motion_timeout_secs s = None \<and> ps_motion_activation s = None \<and>
     ps_light_schedule s = None \<and> ps_schedule_overrides s = [] \<and> ps_schedule_modes s = [] \<and>
     ps_room_schedule s = None \<and> ps_profile_overrides s = []"

definition motion_activation_enabled :: "room_settings \<Rightarrow> bool" where
  "motion_activation_enabled s = unwrap_or (ps_motion_activation s) True"

definition schedule_mode :: "room_settings \<Rightarrow> rhythm_mode \<Rightarrow> f32 \<Rightarrow> rhythm_mode" where
  "schedule_mode s global h =
     (case Option.bind (ps_light_schedule s) assignment_active_mode of
        Some m \<Rightarrow> m
      | None \<Rightarrow> unwrap_or
          (map_option (\<lambda>r. effective_mode r h) (opt_filter follows_time (ps_room_schedule s)))
          global)"

definition mood_enabled_or :: "room_settings \<Rightarrow> bool \<Rightarrow> bool" where
  "mood_enabled_or s d = unwrap_or (ps_mood_enabled s) (ps_mood_profile_id s \<noteq> None \<or> d)"

definition resolved_profile_id :: "room_settings \<Rightarrow> string \<Rightarrow> string" where
  "resolved_profile_id s active = unwrap_or (ps_profile_id s) active"

definition settings_apply_to_config ::
    "room_settings \<Rightarrow> light_profile_config \<Rightarrow> light_profile_config" where
  "settings_apply_to_config s c =
     c\<lparr>lp_fade_ms := unwrap_or (ps_fade_ms s) (lp_fade_ms c),
       lp_motion_timeout_secs := unwrap_or (ps_motion_timeout_secs s) (lp_motion_timeout_secs c)\<rparr>"

definition apply_profile_override_to_config ::
    "room_settings \<Rightarrow> string \<Rightarrow> light_profile_config \<Rightarrow> light_profile_config" where
  "apply_profile_override_to_config s i c =
     (case map_of (ps_profile_overrides s) i of
        Some o1 \<Rightarrow> override_config o1 c
      | None \<Rightarrow> c)"

definition apply_to_config_for_profile ::
    "room_settings \<Rightarrow> string \<Rightarrow> light_profile_config \<Rightarrow> light_profile_config" where
  "apply_to_config_for_profile s i c =
     apply_profile_override_to_config s i (settings_apply_to_config s c)"

text \<open>
  Which schedule authority wins: a local choice of either kind masks both fields of the
  parent; an inherited named assignment takes the node's own materialised mode, if any.
\<close>

definition merged_schedule ::
    "room_settings \<Rightarrow> room_settings \<Rightarrow> schedule_assignment option \<times> room_schedule option" where
  "merged_schedule self parent =
     (let inherits = ps_light_schedule self = None \<and> ps_room_schedule self = None;
          (light, room) =
            (if ps_light_schedule self \<noteq> None then (ps_light_schedule self, ps_room_schedule self)
             else if ps_room_schedule self \<noteq> None then (None, ps_room_schedule self)
             else (ps_light_schedule parent, ps_room_schedule parent));
          light' =
            (if inherits then
               (case light of
                  Some (Named i m) \<Rightarrow> Some (Named i (unwrap_or (map_of (ps_schedule_modes self) i) m))
                | _ \<Rightarrow> light)
             else light)
      in (light', room))"

definition merged_with_parent :: "room_settings \<Rightarrow> room_settings \<Rightarrow> room_settings" where
  "merged_with_parent self parent =
     (let scene = ps_mood_scene_id self \<noteq> None; schedule = merged_schedule self parent in
      \<lparr>ps_profile_id = opt_or (ps_profile_id self) (ps_profile_id parent),
       ps_mood_enabled = opt_or (ps_mood_enabled self) (ps_mood_enabled parent),
       ps_mood_profile_id = opt_or (ps_mood_profile_id self) (ps_mood_profile_id parent),
       ps_mood_scene_id = opt_or (ps_mood_scene_id self) (ps_mood_scene_id parent),
       ps_palette_offset = (if scene then ps_palette_offset self else ps_palette_offset parent),
       ps_palette_span = (if scene then ps_palette_span self else ps_palette_span parent),
       ps_palette_seed = (if scene then ps_palette_seed self else ps_palette_seed parent),
       ps_device_mode = (if scene then ps_device_mode self else ps_device_mode parent),
       ps_device_slots = (if scene then ps_device_slots self else ps_device_slots parent),
       ps_fade_ms = opt_or (ps_fade_ms self) (ps_fade_ms parent),
       ps_motion_timeout_secs = opt_or (ps_motion_timeout_secs self) (ps_motion_timeout_secs parent),
       ps_motion_activation = opt_or (ps_motion_activation self) (ps_motion_activation parent),
       ps_light_schedule = fst schedule,
       ps_schedule_overrides =
         bt_merge_with merge_schedule_override (ps_schedule_overrides self) (ps_schedule_overrides parent),
       ps_schedule_modes = ps_schedule_modes self,
       ps_room_schedule = snd schedule,
       ps_profile_overrides = bt_extend (ps_profile_overrides parent) (ps_profile_overrides self)\<rparr>)"

subsection \<open>Well-formedness\<close>

lemma merged_fields [simp]:
  "ps_light_schedule (merged_with_parent s p) = fst (merged_schedule s p)"
  "ps_room_schedule (merged_with_parent s p) = snd (merged_schedule s p)"
  "ps_schedule_modes (merged_with_parent s p) = ps_schedule_modes s"
  "ps_schedule_overrides (merged_with_parent s p) =
     bt_merge_with merge_schedule_override (ps_schedule_overrides s) (ps_schedule_overrides p)"
  "ps_profile_overrides (merged_with_parent s p) =
     bt_extend (ps_profile_overrides p) (ps_profile_overrides s)"
  by (simp_all add: merged_with_parent_def Let_def)

definition wf_settings :: "room_settings \<Rightarrow> bool" where
  "wf_settings s \<longleftrightarrow>
     bt_ok (ps_schedule_overrides s) \<and> bt_ok (ps_schedule_modes s) \<and> bt_ok (ps_profile_overrides s) \<and>
     (\<forall>ov\<in>snd ` set (ps_schedule_overrides s). bt_ok ov)"

lemma wf_settings_default [simp]: "wf_settings room_settings_default"
  by (simp add: wf_settings_def room_settings_default_def)

lemma snd_bt_insert: "snd ` set (bt_insert k v m) \<subseteq> {v} \<union> snd ` set m"
  by (induction k v m rule: bt_insert.induct) auto

lemma bt_merge_with_values:
  assumes "\<forall>v\<in>snd ` set loc. P v" and "\<forall>v\<in>snd ` set m. P v"
    and "\<And>a b. P a \<Longrightarrow> P b \<Longrightarrow> P (f a b)"
  shows "\<forall>v\<in>snd ` set (bt_merge_with f loc m). P v"
  using assms(1,2)
proof (induction loc arbitrary: m)
  case (Cons kv loc)
  obtain k v where kv: "kv = (k, v)" by fastforce
  let ?x = "case map_of m k of Some p \<Rightarrow> f v p | None \<Rightarrow> v"
  let ?m = "bt_insert k ?x m"
  have "P v" using Cons.prems(1) kv by simp
  moreover have "P p" if "map_of m k = Some p" for p
    using Cons.prems(2) map_of_SomeD [OF that] by (metis image_eqI snd_conv)
  ultimately have "P ?x"
    using assms(3) by (cases "map_of m k") auto
  then have "\<forall>v\<in>{?x} \<union> snd ` set m. P v"
    using Cons.prems(2) by blast
  then have "\<forall>v\<in>snd ` set ?m. P v"
    using snd_bt_insert [of k ?x m] by (meson subsetD)
  then have "\<forall>v\<in>snd ` set (bt_merge_with f loc ?m). P v"
    by (intro Cons.IH) (use Cons.prems(1) in auto)
  then show ?case by (simp only: kv bt_merge_with_Cons)
qed simp

lemma wf_merged_with_parent [wf_intros]:
  assumes "wf_settings s" and "wf_settings p"
  shows "wf_settings (merged_with_parent s p)"
proof -
  have "\<forall>ov\<in>snd ` set (ps_schedule_overrides (merged_with_parent s p)). bt_ok ov"
    unfolding merged_fields
    by (rule bt_merge_with_values)
      (use assms in \<open>auto simp: wf_settings_def merge_schedule_override_def intro: bt_ok_merge_with\<close>)
  then show ?thesis
    using assms by (simp only: wf_settings_def merged_fields bt_ok_merge_with bt_ok_extend)
qed

subsection \<open>Laws of the merge\<close>

lemma merged_profile_overrides:
  "wf_settings s \<Longrightarrow> wf_settings p \<Longrightarrow>
   map_of (ps_profile_overrides (merged_with_parent s p)) =
     map_of (ps_profile_overrides p) ++ map_of (ps_profile_overrides s)"
  by (simp add: wf_settings_def bt_get_extend)

lemma merged_local_authority:
  assumes "ps_light_schedule s \<noteq> None \<or> ps_room_schedule s \<noteq> None"
  shows "schedule_mode (merged_with_parent s p) g h = schedule_mode s g h"
  using assms by (auto simp: schedule_mode_def merged_schedule_def split: option.splits)

lemma merged_inherited_authority:
  assumes "ps_light_schedule s = None" and "ps_room_schedule s = None"
  shows "schedule_mode (merged_with_parent s p) g h =
    (case ps_light_schedule p of
       Some (Named i m) \<Rightarrow> unwrap_or (map_of (ps_schedule_modes s) i) m
     | _ \<Rightarrow> schedule_mode p g h)"
  using assms
  by (auto simp: schedule_mode_def merged_schedule_def
      split: option.splits schedule_assignment.splits)

subsection \<open>Properties\<close>

text \<open>Folding inherited settings into local ones keeps the settings well formed, gives the
  local profile override of each profile precedence over the inherited one, and never lets an
  inherited schedule decide the mode of a room that has a schedule of its own, whatever the
  global mode and the hour are.\<close>

theorem merged_settings_precedence:
  assumes "wf_settings s" and "wf_settings p"
  shows "wf_settings (merged_with_parent s p) \<and>
    map_of (ps_profile_overrides (merged_with_parent s p)) =
      map_of (ps_profile_overrides p) ++ map_of (ps_profile_overrides s) \<and>
    (ps_light_schedule s = None \<and> ps_room_schedule s = None \<or>
     schedule_mode (merged_with_parent s p) g h = schedule_mode s g h)"
  using wf_merged_with_parent [OF assms] merged_profile_overrides [OF assms]
    merged_local_authority [of s p g h] by blast

theorem merged_settings_precedence_witness:
  "schedule_mode
     (merged_with_parent (room_settings_default\<lparr>ps_light_schedule := Some (Unscheduled Day)\<rparr>)
        (room_settings_default\<lparr>ps_light_schedule := Some (Named ''s'' Sleep)\<rparr>)) Sleep (F_Fin 2) = Day"
  using merged_settings_precedence
      [of "room_settings_default\<lparr>ps_light_schedule := Some (Unscheduled Day)\<rparr>"
          "room_settings_default\<lparr>ps_light_schedule := Some (Named ''s'' Sleep)\<rparr>" Sleep "F_Fin 2"]
  by (simp add: wf_settings_def room_settings_default_def) (simp add: schedule_mode_def)

end
