(* ===== verification/Rooms.thy ===== *)
theory Rooms
  imports RoomSettings
begin

text \<open>
  Addressable nodes and their manager (\<open>rhythm-core/src/room.rs\<close>, second half): the
  \<open>Room\<close> record with its state changes, and \<open>RoomManager\<close> with the inheritance walk
  \<open>effective_state\<close>.
\<close>

section \<open>Nodes\<close>

datatype light_node_kind =
  NodeRoom | LightDevice | SwitchDevice | MotionSensor | Sensor | NodeButton | OtherDevice

definition is_room :: "light_node_kind \<Rightarrow> bool" where
  "is_room k \<longleftrightarrow> k = NodeRoom"

definition is_light_addressable :: "light_node_kind \<Rightarrow> bool" where
  "is_light_addressable k \<longleftrightarrow> k = NodeRoom \<or> k = LightDevice"

record room =
  r_id :: string
  r_name :: string
  r_kind :: light_node_kind
  r_parent_id :: "string option"
  r_rhythm_enabled :: bool
  r_disabled :: bool
  r_time_offset :: f32
  r_brightness_offset :: f32
  r_soft_off :: bool
  r_mood_active :: bool
  r_standby_enabled :: bool
  r_hard_off :: bool
  r_warning_active :: bool
  r_settings :: room_settings

definition room_new :: "string \<Rightarrow> string \<Rightarrow> room" where
  "room_new i n =
     \<lparr>r_id = i, r_name = n, r_kind = NodeRoom, r_parent_id = None, r_rhythm_enabled = False,
      r_disabled = False, r_time_offset = F_Fin 0, r_brightness_offset = F_Fin 0,
      r_soft_off = False, r_mood_active = False, r_standby_enabled = False, r_hard_off = False,
      r_warning_active = False, r_settings = room_settings_default\<rparr>"

definition room_new_node :: "string \<Rightarrow> string \<Rightarrow> light_node_kind \<Rightarrow> string option \<Rightarrow> room" where
  "room_new_node i n k p =
     (let node = (room_new i n)\<lparr>r_kind := k, r_parent_id := p\<rparr> in
      if p \<noteq> None then node\<lparr>r_rhythm_enabled := True\<rparr> else node)"

definition room_default :: room where
  "room_default = room_new ''default'' ''Default Room''"

definition enable_rhythm :: "room \<Rightarrow> room" where
  "enable_rhythm r = r\<lparr>r_rhythm_enabled := True\<rparr>"

definition disable_rhythm :: "room \<Rightarrow> room" where
  "disable_rhythm r = r\<lparr>r_rhythm_enabled := False\<rparr>"

definition toggle_rhythm :: "room \<Rightarrow> bool \<times> room" where
  "toggle_rhythm r =
     (let r' = r\<lparr>r_rhythm_enabled := \<not> r_rhythm_enabled r\<rparr> in (r_rhythm_enabled r', r'))"

definition reset_offsets :: "room \<Rightarrow> room" where
  "reset_offsets r = r\<lparr>r_time_offset := F_Fin 0, r_brightness_offset := F_Fin 0\<rparr>"

definition clear_off_states :: "room \<Rightarrow> room" where
  "clear_off_states r =
     r\<lparr>r_soft_off := False, r_mood_active := False, r_hard_off := False, r_warning_active := False\<rparr>"

definition set_mood :: "room \<Rightarrow> room" where
  "set_mood r = (clear_off_states r)\<lparr>r_mood_active := True\<rparr>"

definition set_standby :: "room \<Rightarrow> room" where
  "set_standby r = (clear_off_states r)\<lparr>r_soft_off := True\<rparr>"

definition set_soft_off :: "room \<Rightarrow> room" where
  "set_soft_off r = set_standby r"

definition set_hard_off :: "room \<Rightarrow> room" where
  "set_hard_off r = (clear_off_states r)\<lparr>r_hard_off := True\<rparr>"

definition clear_warning_state :: "room \<Rightarrow> room" where
  "clear_warning_state r = r\<lparr>r_warning_active := False\<rparr>"

definition sanitize_time_offset :: "f32 \<Rightarrow> f32" where
  "sanitize_time_offset x = (if is_finite x then fl_clamp (- 1440) 1440 x else F_Fin 0)"

definition apply_time_offset :: "f32 \<Rightarrow> room \<Rightarrow> room" where
  "apply_time_offset x r =
     r\<lparr>r_time_offset := sanitize_time_offset (fl_add f32_round (r_time_offset r) x)\<rparr>"

definition set_time_offset :: "f32 \<Rightarrow> room \<Rightarrow> room" where
  "set_time_offset x r = r\<lparr>r_time_offset := sanitize_time_offset x\<rparr>"

definition apply_brightness_offset :: "f32 \<Rightarrow> room \<Rightarrow> room" where
  "apply_brightness_offset x r =
     r\<lparr>r_brightness_offset :=
        fl_clamp (- 100) 100 (fl_add f32_round (r_brightness_offset r) x)\<rparr>"

definition set_disabled :: "bool \<Rightarrow> room \<Rightarrow> room" where
  "set_disabled b r = r\<lparr>r_disabled := b\<rparr>"

subsection \<open>State invariant\<close>

text \<open>The off states are mutually exclusive, and the offsets are bounded numbers.\<close>

definition off_states_exclusive :: "room \<Rightarrow> bool" where
  "off_states_exclusive r \<longleftrightarrow>
     length (filter id [r_soft_off r, r_mood_active r, r_hard_off r]) \<le> 1"

definition offsets_bounded :: "room \<Rightarrow> bool" where
  "offsets_bounded r \<longleftrightarrow>
     fl_between (- 1440) 1440 (r_time_offset r) \<and> fl_between (- 100) 100 (r_brightness_offset r)"

definition room_state :: "room \<Rightarrow> room_mode_state" where
  "room_state r = from_flags (r_hard_off r) (r_soft_off r) (r_mood_active r) (r_warning_active r)"

lemmas room_op_defs =
  enable_rhythm_def disable_rhythm_def toggle_rhythm_def reset_offsets_def clear_off_states_def
  set_mood_def set_standby_def set_soft_off_def set_hard_off_def clear_warning_state_def
  apply_time_offset_def set_time_offset_def apply_brightness_offset_def set_disabled_def

lemma sanitize_time_offset_between: "fl_between (- 1440) 1440 (sanitize_time_offset x)"
  using fl_clamp_between [of "- 1440" 1440 x]
  by (cases x) (auto simp: sanitize_time_offset_def)

text \<open>
  The operations of a room as one step function, so that a sequence of them is a run.
\<close>

datatype room_op =
    EnableRhythm | DisableRhythm | ToggleRhythm | ResetOffsets | ClearOffStates
  | SetMood | SetStandby | SetHardOff | ClearWarning
  | ApplyTimeOffset f32 | SetTimeOffset f32 | ApplyBrightnessOffset f32 | SetDisabled bool

fun room_step :: "room_op \<Rightarrow> room \<Rightarrow> room" where
  "room_step EnableRhythm r = enable_rhythm r"
| "room_step DisableRhythm r = disable_rhythm r"
| "room_step ToggleRhythm r = snd (toggle_rhythm r)"
| "room_step ResetOffsets r = reset_offsets r"
| "room_step ClearOffStates r = clear_off_states r"
| "room_step SetMood r = set_mood r"
| "room_step SetStandby r = set_standby r"
| "room_step SetHardOff r = set_hard_off r"
| "room_step ClearWarning r = clear_warning_state r"
| "room_step (ApplyTimeOffset x) r = apply_time_offset x r"
| "room_step (SetTimeOffset x) r = set_time_offset x r"
| "room_step (ApplyBrightnessOffset x) r = apply_brightness_offset x r"
| "room_step (SetDisabled b) r = set_disabled b r"

definition brightness_input_finite :: "room_op \<Rightarrow> bool" where
  "brightness_input_finite p \<longleftrightarrow> (case p of ApplyBrightnessOffset x \<Rightarrow> is_finite x | _ \<Rightarrow> True)"

lemma room_step_exclusive: "off_states_exclusive r \<Longrightarrow> off_states_exclusive (room_step p r)"
  by (cases p) (auto simp: room_op_defs off_states_exclusive_def Let_def split: if_splits)

lemma room_step_identity:
  "r_id (room_step p r) = r_id r" "r_kind (room_step p r) = r_kind r"
  "r_parent_id (room_step p r) = r_parent_id r" "r_settings (room_step p r) = r_settings r"
  by (cases p; simp add: room_op_defs Let_def)+

lemma room_step_time_bounded:
  "fl_between (- 1440) 1440 (r_time_offset r) \<Longrightarrow>
   fl_between (- 1440) 1440 (r_time_offset (room_step p r))"
  by (cases p) (simp_all add: room_op_defs Let_def sanitize_time_offset_between)

lemma room_step_brightness_bounded:
  assumes "fl_between (- 100) 100 (r_brightness_offset r)" and "brightness_input_finite p"
  shows "fl_between (- 100) 100 (r_brightness_offset (room_step p r))"
proof (cases p)
  case (ApplyBrightnessOffset x)
  with assms have "fl_add f32_round (r_brightness_offset r) x \<noteq> F_NaN"
    by (intro fl_add_finite_not_NaN) (auto simp: brightness_input_finite_def dest: fl_between_finite)
  with ApplyBrightnessOffset show ?thesis
    by (simp add: apply_brightness_offset_def fl_clamp_between)
qed (use assms in \<open>simp_all add: room_op_defs Let_def\<close>)

lemma room_step_bounded:
  "offsets_bounded r \<Longrightarrow> brightness_input_finite p \<Longrightarrow> offsets_bounded (room_step p r)"
  by (simp add: offsets_bounded_def room_step_time_bounded room_step_brightness_bounded)

text \<open>A NaN brightness offset is never repaired by later adjustments, only by a reset.\<close>

lemma room_step_brightness_NaN:
  "r_brightness_offset r = F_NaN \<Longrightarrow> p \<noteq> ResetOffsets \<Longrightarrow>
   r_brightness_offset (room_step p r) = F_NaN"
  by (cases p) (simp_all add: room_op_defs Let_def)

section \<open>Room manager\<close>

type_synonym room_manager = "(string, room) hmap"

definition manager_new :: room_manager where
  "manager_new = []"

definition add_room :: "room \<Rightarrow> room_manager \<Rightarrow> room_manager" where
  "add_room r m = AList.update (r_id r) r m"

definition manager_add :: "string \<Rightarrow> string \<Rightarrow> room_manager \<Rightarrow> room_manager" where
  "manager_add i n m = (let r = room_new i n in AList.update (r_id r) r m)"

definition add_node ::
    "string \<Rightarrow> string \<Rightarrow> light_node_kind \<Rightarrow> string option \<Rightarrow> room_manager \<Rightarrow> room_manager" where
  "add_node i n k p m = (let r = room_new_node i n k p in AList.update (r_id r) r m)"

definition remove_room :: "string \<Rightarrow> room_manager \<Rightarrow> room option \<times> room_manager" where
  "remove_room i m = (map_of m i, AList.delete i m)"

definition get_room :: "room_manager \<Rightarrow> string \<Rightarrow> room option" where
  "get_room m i = map_of m i"

text \<open>\<open>get_mut\<close> followed by an assignment through the reference.\<close>

definition modify_room :: "string \<Rightarrow> (room \<Rightarrow> room) \<Rightarrow> room_manager \<Rightarrow> room_manager" where
  "modify_room i f m = hm_modify i f m"

definition get_or_create :: "string \<Rightarrow> string \<Rightarrow> room_manager \<Rightarrow> room_manager" where
  "get_or_create i n m =
     (if map_of m i = None then AList.update i (room_new i n) m else m)"

definition get_or_create_node ::
    "string \<Rightarrow> string \<Rightarrow> light_node_kind \<Rightarrow> string option \<Rightarrow> room_manager \<Rightarrow> room_manager" where
  "get_or_create_node i n k p m =
     (if map_of m i = None then AList.update i (room_new_node i n k p) m else m)"

definition contains_room :: "room_manager \<Rightarrow> string \<Rightarrow> bool" where
  "contains_room m i \<longleftrightarrow> map_of m i \<noteq> None"

definition is_rhythm_enabled :: "room_manager \<Rightarrow> string \<Rightarrow> bool" where
  "is_rhythm_enabled m i = unwrap_or (map_option r_rhythm_enabled (map_of m i)) False"

definition manager_enable_rhythm :: "string \<Rightarrow> room_manager \<Rightarrow> bool \<times> room_manager" where
  "manager_enable_rhythm i m =
     (if map_of m i \<noteq> None then (True, hm_modify i enable_rhythm m) else (False, m))"

definition manager_disable_rhythm :: "string \<Rightarrow> room_manager \<Rightarrow> bool \<times> room_manager" where
  "manager_disable_rhythm i m =
     (if map_of m i \<noteq> None then (True, hm_modify i disable_rhythm m) else (False, m))"

definition all_rooms :: "room_manager \<Rightarrow> room list" where
  "all_rooms m = map snd m"

definition room_ids :: "room_manager \<Rightarrow> string list" where
  "room_ids m = map fst m"

definition rhythm_enabled_rooms :: "room_manager \<Rightarrow> room list" where
  "rhythm_enabled_rooms m = filter (\<lambda>r. is_room (r_kind r) \<and> r_rhythm_enabled r) (map snd m)"

definition rhythm_enabled_count :: "room_manager \<Rightarrow> nat" where
  "rhythm_enabled_count m = length (filter r_rhythm_enabled (map snd m))"

definition enabled_rooms :: "room_manager \<Rightarrow> room list" where
  "enabled_rooms m = filter (\<lambda>r. is_room (r_kind r) \<and> \<not> r_disabled r) (map snd m)"

definition room_iter :: "room_manager \<Rightarrow> room list" where
  "room_iter m = filter (\<lambda>r. is_room (r_kind r)) (map snd m)"

definition child_iter :: "room_manager \<Rightarrow> string \<Rightarrow> room list" where
  "child_iter m p = filter (\<lambda>r. r_parent_id r = Some p) (map snd m)"

subsection \<open>Invariant\<close>

definition manager_ok :: "room_manager \<Rightarrow> bool" where
  "manager_ok m \<longleftrightarrow> hm_ok m \<and> (\<forall>i r. map_of m i = Some r \<longrightarrow> r_id r = i)"

lemma room_new_id [simp]: "r_id (room_new i n) = i"
  by (simp add: room_new_def)

lemma room_new_node_id [simp]: "r_id (room_new_node i n k p) = i"
  by (simp add: room_new_node_def room_new_def Let_def)

lemma manager_ok_insert:
  "manager_ok m \<Longrightarrow> r_id r = i \<Longrightarrow> manager_ok (AList.update i r m)"
  by (auto simp: manager_ok_def hm.ok_insert update_conv' split: if_splits)

lemma manager_ok_new: "manager_ok manager_new"
  by (simp add: manager_ok_def manager_new_def)

lemma manager_ok_ops [wf_intros]:
  assumes "manager_ok m"
  shows "manager_ok (add_room r m)" "manager_ok (manager_add i n m)" "manager_ok (add_node i n k p m)"
    "manager_ok (snd (remove_room i m))" "manager_ok (get_or_create i n m)"
    "manager_ok (get_or_create_node i n k p m)"
  using assms
  by (simp_all add: add_room_def manager_add_def add_node_def remove_room_def get_or_create_def
      get_or_create_node_def manager_ok_insert Let_def)
    (auto simp: manager_ok_def hm.ok_remove delete_conv' split: if_splits)

lemma manager_ok_modify [wf_intros]:
  "manager_ok m \<Longrightarrow> (\<And>r. r_id (f r) = r_id r) \<Longrightarrow> manager_ok (modify_room i f m)"
  by (auto simp: manager_ok_def modify_room_def hm_get_modify split: if_splits)

interpretation exclusive_steps: guarded_steps "\<lambda>_ _. True" room_step off_states_exclusive
  by unfold_locales (rule room_step_exclusive)

interpretation time_steps: guarded_steps "\<lambda>_ _. True" room_step "\<lambda>r. fl_between (- 1440) 1440 (r_time_offset r)"
  by unfold_locales (rule room_step_time_bounded)

interpretation offset_steps: guarded_steps "\<lambda>e _. brightness_input_finite e" room_step offsets_bounded
  by unfold_locales (rule room_step_bounded)

section \<open>Properties\<close>

text \<open>C20: Whatever operations are applied to a new room, in whatever order and with whatever
  floating-point arguments (NaN and infinities included), at most one of Standby, Mood and
  HardOff is set and the time offset is a number within a day; when in addition the brightness
  adjustments are finite, the brightness offset stays within 100 points.\<close>

theorem room_run_invariant:
  "off_states_exclusive (fold room_step ops (room_new i n)) \<and>
   fl_between (- 1440) 1440 (r_time_offset (fold room_step ops (room_new i n))) \<and>
   (list_all brightness_input_finite ops \<longrightarrow>
      offsets_bounded (fold room_step ops (room_new i n)))"
proof -
  have "off_states_exclusive (room_new i n)" "offsets_bounded (room_new i n)"
    by (simp_all add: room_new_def off_states_exclusive_def offsets_bounded_def)
  then show ?thesis
    using exclusive_steps.free_run_keeps [of "room_new i n" ops] time_steps.free_run_keeps [of "room_new i n" ops]
      offset_steps.free_run_keeps [of "room_new i n" ops]
    by (auto simp: offsets_bounded_def list_all_iff)
qed

theorem room_run_invariant_witness:
  "offsets_bounded (fold room_step [SetMood, ApplyBrightnessOffset (F_Fin 250)] (room_new [] []))"
  using room_run_invariant [of "[SetMood, ApplyBrightnessOffset (F_Fin 250)]" "[]" "[]"]
  by (simp add: brightness_input_finite_def)

text \<open>A brightness adjustment that is not a number is not rejected (a time offset is): it
  makes the brightness offset NaN, and no later operation of the room but a reset repairs it.\<close>

theorem brightness_offset_NaN_persists:
  assumes "ResetOffsets \<notin> set ops"
  shows "r_brightness_offset (fold room_step ops (room_step (ApplyBrightnessOffset F_NaN) r)) = F_NaN"
proof -
  have start: "r_brightness_offset (room_step (ApplyBrightnessOffset F_NaN) r) = F_NaN"
    by (cases "r_brightness_offset r") (simp_all add: apply_brightness_offset_def)
  have "r_brightness_offset q = F_NaN \<Longrightarrow> r_brightness_offset (fold room_step ops q) = F_NaN" for q
    using assms
  proof (induction ops arbitrary: q)
    case (Cons p ops)
    from Cons.prems have "r_brightness_offset (room_step p q) = F_NaN"
      by (intro room_step_brightness_NaN) auto
    with Cons.prems show ?case by (simp only: fold_Cons o_apply) (rule Cons.IH, simp_all)
  qed simp
  from this [OF start] show ?thesis .
qed

theorem brightness_offset_NaN_persists_witness:
  "r_brightness_offset (fold room_step [ApplyBrightnessOffset (F_Fin 5), SetHardOff]
     (room_step (ApplyBrightnessOffset F_NaN) (room_new [] []))) = F_NaN"
  by (rule brightness_offset_NaN_persists) simp

end
