(* ===== verification/Inheritance.thy ===== *)
theory Inheritance
  imports Rooms
begin

text \<open>
  \<open>RoomManager::effective_state\<close>: the state of a node after walking its parents. The walk
  carries the set of identifiers it has seen, so it ends on every parent graph, cyclic ones
  and dangling parents included.
\<close>

section \<open>The walk\<close>

record effective_room_state =
  ef_rhythm_enabled :: bool
  ef_disabled :: bool
  ef_time_offset :: f32
  ef_brightness_offset :: f32
  ef_soft_off :: bool
  ef_mood_active :: bool
  ef_standby_enabled :: bool
  ef_hard_off :: bool
  ef_warning_active :: bool
  ef_settings :: room_settings

definition local_state :: "room \<Rightarrow> effective_room_state" where
  "local_state r =
     \<lparr>ef_rhythm_enabled = r_rhythm_enabled r, ef_disabled = r_disabled r,
      ef_time_offset = r_time_offset r, ef_brightness_offset = r_brightness_offset r,
      ef_soft_off = r_soft_off r, ef_mood_active = r_mood_active r,
      ef_standby_enabled = r_standby_enabled r, ef_hard_off = r_hard_off r,
      ef_warning_active = r_warning_active r, ef_settings = r_settings r\<rparr>"

definition inherit :: "room \<Rightarrow> effective_room_state \<Rightarrow> effective_room_state" where
  "inherit p s =
     s\<lparr>ef_rhythm_enabled := ef_rhythm_enabled s \<and> r_rhythm_enabled p,
       ef_disabled := ef_disabled s \<or> r_disabled p,
       ef_time_offset := fl_add f32_round (ef_time_offset s) (r_time_offset p),
       ef_brightness_offset := fl_add f32_round (ef_brightness_offset s) (r_brightness_offset p),
       ef_soft_off := ef_soft_off s \<or> r_soft_off p,
       ef_mood_active := ef_mood_active s \<or> r_mood_active p,
       ef_hard_off := ef_hard_off s \<or> r_hard_off p,
       ef_warning_active := ef_warning_active s \<or> r_warning_active p,
       ef_settings := merged_with_parent (ef_settings s) (r_settings p)\<rparr>"

lemma unseen_decreases:
  assumes "p \<notin> set seen" and "map_of m p = Some v"
  shows "card (fst ` set m - set (p # seen)) < card (fst ` set m - set seen)"
proof (rule psubset_card_mono)
  have "p \<in> fst ` set m" using assms(2) by (force dest: map_of_SomeD)
  with assms(1) show "fst ` set m - set (p # seen) \<subset> fst ` set m - set seen" by auto
qed simp

function effective_walk ::
    "room_manager \<Rightarrow> string list \<Rightarrow> string option \<Rightarrow> effective_room_state \<Rightarrow> effective_room_state"
where
  "effective_walk m seen None s = s"
| "effective_walk m seen (Some p) s =
     (if p \<in> set seen then s
      else case map_of m p of
        None \<Rightarrow> s
      | Some parent \<Rightarrow> effective_walk m (p # seen) (r_parent_id parent) (inherit parent s))"
  by pat_completeness auto
termination
  by (relation "measure (\<lambda>(m, seen, _, _). card (fst ` set m - set seen))")
    (auto dest: unseen_decreases)

definition effective_state :: "room_manager \<Rightarrow> string \<Rightarrow> effective_room_state option" where
  "effective_state m i =
     (case map_of m i of
        None \<Rightarrow> None
      | Some room \<Rightarrow>
          (let s = effective_walk m [r_id room] (r_parent_id room) (local_state room) in
           Some (if ef_hard_off s then s\<lparr>ef_soft_off := False, ef_mood_active := False\<rparr> else s)))"

section \<open>Specification\<close>

text \<open>The ancestors the walk visits, nearest first.\<close>

function ancestors :: "room_manager \<Rightarrow> string list \<Rightarrow> string option \<Rightarrow> room list" where
  "ancestors m seen None = []"
| "ancestors m seen (Some p) =
     (if p \<in> set seen then []
      else case map_of m p of
        None \<Rightarrow> []
      | Some parent \<Rightarrow> parent # ancestors m (p # seen) (r_parent_id parent))"
  by pat_completeness auto
termination
  by (relation "measure (\<lambda>(m, seen, _). card (fst ` set m - set seen))")
    (auto dest: unseen_decreases)

definition lineage :: "room_manager \<Rightarrow> string \<Rightarrow> room list" where
  "lineage m i =
     (case map_of m i of
        None \<Rightarrow> []
      | Some r \<Rightarrow> r # ancestors m [r_id r] (r_parent_id r))"

lemma effective_walk_fold:
  "effective_walk m seen p s = fold inherit (ancestors m seen p) s"
  by (induction m seen p s rule: effective_walk.induct) (auto split: option.splits)

lemma ancestors_fresh:
  "manager_ok m \<Longrightarrow> r_id ` set (ancestors m seen p) \<inter> set seen = {}"
  by (induction m seen p rule: ancestors.induct)
    (auto simp: manager_ok_def split: option.splits)

lemma ancestors_distinct: "manager_ok m \<Longrightarrow> distinct (map r_id (ancestors m seen p))"
proof (induction m seen p rule: ancestors.induct)
  case (2 m seen p)
  show ?case
  proof (cases "p \<in> set seen \<or> map_of m p = None")
    case False
    then obtain q where q: "p \<notin> set seen" "map_of m p = Some q" by auto
    then have "r_id q = p" using 2(2) by (simp add: manager_ok_def)
    moreover have "distinct (map r_id (ancestors m (p # seen) (r_parent_id q)))"
      using 2 q by simp
    ultimately show ?thesis
      using q ancestors_fresh [OF 2(2), of "p # seen" "r_parent_id q"] by auto
  qed auto
qed simp

lemma ancestors_stored: "r \<in> set (ancestors m seen p) \<Longrightarrow> r \<in> ran (map_of m)"
  by (induction m seen p rule: ancestors.induct)
    (auto intro: ranI split: option.splits if_splits)

lemma lineage_distinct: "manager_ok m \<Longrightarrow> distinct (map r_id (lineage m i))"
  using ancestors_distinct [of m] ancestors_fresh [of m]
  by (force simp: lineage_def split: option.splits)

lemma lineage_stored: "r \<in> set (lineage m i) \<Longrightarrow> r \<in> ran (map_of m)"
  by (auto simp: lineage_def intro: ranI ancestors_stored split: option.splits)

lemma fold_inherit_flags:
  "ef_rhythm_enabled (fold inherit ps s) \<longleftrightarrow> ef_rhythm_enabled s \<and> list_all r_rhythm_enabled ps"
  "ef_disabled (fold inherit ps s) \<longleftrightarrow> ef_disabled s \<or> list_ex r_disabled ps"
  "ef_soft_off (fold inherit ps s) \<longleftrightarrow> ef_soft_off s \<or> list_ex r_soft_off ps"
  "ef_mood_active (fold inherit ps s) \<longleftrightarrow> ef_mood_active s \<or> list_ex r_mood_active ps"
  "ef_hard_off (fold inherit ps s) \<longleftrightarrow> ef_hard_off s \<or> list_ex r_hard_off ps"
  "ef_warning_active (fold inherit ps s) \<longleftrightarrow> ef_warning_active s \<or> list_ex r_warning_active ps"
  "ef_standby_enabled (fold inherit ps s) = ef_standby_enabled s"
  by (induction ps arbitrary: s) (auto simp: inherit_def)

lemma fold_inherit_values:
  "ef_time_offset (fold inherit ps s) =
     foldl (fl_add f32_round) (ef_time_offset s) (map r_time_offset ps)"
  "ef_brightness_offset (fold inherit ps s) =
     foldl (fl_add f32_round) (ef_brightness_offset s) (map r_brightness_offset ps)"
  "ef_settings (fold inherit ps s) = foldl merged_with_parent (ef_settings s) (map r_settings ps)"
  by (induction ps arbitrary: s) (auto simp: inherit_def)

lemmas fold_inherit = fold_inherit_flags fold_inherit_values

lemma effective_state_lineage:
  assumes "effective_state m i = Some s" and "map_of m i = Some r"
  obtains ps t where "lineage m i = r # ps" and "t = fold inherit ps (local_state r)"
    and "s = (if ef_hard_off t then t\<lparr>ef_soft_off := False, ef_mood_active := False\<rparr> else t)"
  using assms by (auto simp: effective_state_def lineage_def effective_walk_fold Let_def)

lemma effective_state_Some_iff: "(\<exists>s. effective_state m i = Some s) \<longleftrightarrow> contains_room m i"
  by (auto simp: effective_state_def contains_room_def Let_def split: option.splits)

lemma effective_flags:
  assumes "effective_state m i = Some s"
  shows "ef_hard_off s \<longleftrightarrow> list_ex r_hard_off (lineage m i)"
    and "ef_disabled s \<longleftrightarrow> list_ex r_disabled (lineage m i)"
    and "ef_rhythm_enabled s \<longleftrightarrow> list_all r_rhythm_enabled (lineage m i)"
    and "ef_warning_active s \<longleftrightarrow> list_ex r_warning_active (lineage m i)"
    and "ef_soft_off s \<longleftrightarrow> list_ex r_soft_off (lineage m i) \<and> \<not> list_ex r_hard_off (lineage m i)"
    and "ef_mood_active s \<longleftrightarrow> list_ex r_mood_active (lineage m i) \<and> \<not> list_ex r_hard_off (lineage m i)"
proof -
  obtain r where r: "map_of m i = Some r"
    using assms by (auto simp: effective_state_def split: option.splits)
  obtain ps t where *: "lineage m i = r # ps" "t = fold inherit ps (local_state r)"
    "s = (if ef_hard_off t then t\<lparr>ef_soft_off := False, ef_mood_active := False\<rparr> else t)"
    using effective_state_lineage [OF assms r] by blast
  show "ef_hard_off s \<longleftrightarrow> list_ex r_hard_off (lineage m i)"
    and "ef_disabled s \<longleftrightarrow> list_ex r_disabled (lineage m i)"
    and "ef_rhythm_enabled s \<longleftrightarrow> list_all r_rhythm_enabled (lineage m i)"
    and "ef_warning_active s \<longleftrightarrow> list_ex r_warning_active (lineage m i)"
    and "ef_soft_off s \<longleftrightarrow> list_ex r_soft_off (lineage m i) \<and> \<not> list_ex r_hard_off (lineage m i)"
    and "ef_mood_active s \<longleftrightarrow> list_ex r_mood_active (lineage m i) \<and> \<not> list_ex r_hard_off (lineage m i)"
    by (auto simp: * fold_inherit local_state_def split: if_splits)
qed

text \<open>Identifiers the walk does not meet can be added to the seen ones without effect.\<close>

lemma ancestors_seen_irrelevant:
  "manager_ok m \<Longrightarrow> r_id ` set (ancestors m seen p) \<inter> set extra = {} \<Longrightarrow>
   set seen' = set seen \<union> set extra \<Longrightarrow> ancestors m seen' p = ancestors m seen p"
proof (induction m seen p arbitrary: seen' rule: ancestors.induct)
  case (2 m seen p)
  show ?case
  proof (cases "p \<in> set seen \<or> map_of m p = None")
    case False
    then obtain q where q: "p \<notin> set seen" "map_of m p = Some q" by auto
    then have id: "r_id q = p" using 2(2) by (simp add: manager_ok_def)
    have "p \<notin> set seen'" using 2(3,4) q id by auto
    moreover have "ancestors m (p # seen') (r_parent_id q) = ancestors m (p # seen) (r_parent_id q)"
      using q 2(2,3,4) by (intro 2(1)) auto
    ultimately show ?thesis using q by simp
  qed (use 2(4) in \<open>auto split: option.splits\<close>)
qed simp

lemma lineage_parent:
  assumes "manager_ok m" and "map_of m i = Some r" and "r_parent_id r = Some p"
    and "map_of m p = Some q" and "i \<notin> r_id ` set (lineage m p)"
  shows "lineage m i = r # lineage m p"
proof -
  have id: "r_id r = i" "r_id q = p" using assms(1,2,4) by (simp_all add: manager_ok_def)
  have ne: "i \<noteq> p" using assms(4,5) id by (auto simp: lineage_def)
  have "ancestors m [p, i] (r_parent_id q) = ancestors m [p] (r_parent_id q)"
    using assms(1,4,5) id by (intro ancestors_seen_irrelevant [where extra = "[i]"])
      (auto simp: lineage_def)
  then show ?thesis
    using assms(2-4) id ne by (simp add: lineage_def)
qed

section \<open>The chain of parents\<close>

text \<open>
  What the walk is meant to visit, without its set of identifiers: a chain of stored rooms from the node upwards, each
  the parent of the one before, none twice, that cannot be continued.
\<close>

fun linked :: "room_manager \<Rightarrow> room list \<Rightarrow> bool" where
  "linked m (r # q # rs) \<longleftrightarrow> Option.bind (r_parent_id r) (map_of m) = Some q \<and> linked m (q # rs)"
| "linked m _ \<longleftrightarrow> True"

definition chain_end :: "room_manager \<Rightarrow> string list \<Rightarrow> room \<Rightarrow> bool" where
  "chain_end m seen r \<longleftrightarrow> (case r_parent_id r of None \<Rightarrow> True | Some p \<Rightarrow> map_of m p = None \<or> p \<in> set seen)"

definition parent_chain :: "room_manager \<Rightarrow> string \<Rightarrow> room list \<Rightarrow> bool" where
  "parent_chain m i rs \<longleftrightarrow>
     rs \<noteq> [] \<and> map_of m i = Some (hd rs) \<and> linked m rs \<and> distinct (map r_id rs) \<and> chain_end m (map r_id rs) (last rs)"

lemma ancestors_chain:
  assumes "manager_ok m"
  shows "ancestors m seen (r_parent_id r) = ps \<longleftrightarrow>
    linked m (r # ps) \<and> distinct (map r_id ps) \<and> r_id ` set ps \<inter> set seen = {} \<and> chain_end m (seen @ map r_id ps) (last (r # ps))"
proof (induction ps arbitrary: seen r)
  case Nil
  then show ?case by (cases "r_parent_id r") (auto simp: chain_end_def split: option.splits)
next
  case (Cons q ps)
  show ?case
  proof (cases "Option.bind (r_parent_id r) (map_of m) = Some q")
    case True
    then obtain p where p: "r_parent_id r = Some p" "map_of m p = Some q" by (auto simp: bind_eq_Some_conv)
    then have id: "r_id q = p" using assms by (simp add: manager_ok_def)
    have "ancestors m seen (Some p) = q # ps \<longleftrightarrow> p \<notin> set seen \<and> ancestors m (p # seen) (r_parent_id q) = ps"
      using p by simp
    moreover have "chain_end m ((p # seen) @ map r_id ps) x = chain_end m (seen @ map r_id (q # ps)) x" for x
      by (auto simp: chain_end_def id split: option.split)
    ultimately show ?thesis unfolding p(1) Cons.IH using True id by auto
  next
    case False
    then have "ancestors m seen (r_parent_id r) \<noteq> q # ps"
      by (cases "r_parent_id r") (auto split: option.splits)
    then show ?thesis using False by simp
  qed
qed

lemma lineage_chain:
  assumes "manager_ok m" and "contains_room m i"
  shows "parent_chain m i rs \<longleftrightarrow> rs = lineage m i"
proof -
  obtain r where r: "map_of m i = Some r" using assms(2) by (auto simp: contains_room_def)
  have chain: "parent_chain m i (r # ps) \<longleftrightarrow> ps = ancestors m [r_id r] (r_parent_id r)" for ps
  proof -
    have "parent_chain m i (r # ps) \<longleftrightarrow> linked m (r # ps) \<and> distinct (map r_id ps) \<and> r_id ` set ps \<inter> set [r_id r] = {} \<and>
        chain_end m ([r_id r] @ map r_id ps) (last (r # ps))"
      unfolding parent_chain_def list.sel r list.map distinct.simps append_Cons append_Nil by auto
    then show ?thesis unfolding ancestors_chain [OF assms(1), symmetric] by (rule trans) (rule eq_commute)
  qed
  have l: "lineage m i = r # ancestors m [r_id r] (r_parent_id r)" using r by (simp add: lineage_def)
  show ?thesis
  proof (cases rs)
    case Nil
    then show ?thesis by (simp add: parent_chain_def l)
  next
    case (Cons a ps)
    have "a = r" if "parent_chain m i (a # ps)" using that r by (simp add: parent_chain_def)
    then show ?thesis unfolding Cons l list.inject using chain [of ps] by blast
  qed
qed

lemma chain_contained: "parent_chain m i rs \<Longrightarrow> contains_room m i"
  by (auto simp: parent_chain_def contains_room_def)

section \<open>Properties\<close>

text \<open>C12: The effective state of a stored node is determined by its chain of parents (the node first, then each parent
  that is stored and was not met before): disabled, hard off and warning hold when they hold somewhere in the chain,
  Rhythm is enabled only when it is enabled everywhere, Standby and Mood are inherited unless something in the chain is
  hard off, the Standby preference is the node's own, and the time offsets, the brightness offsets and the settings are
  accumulated from the node outwards. The rooms are filed under their own identifiers.\<close>

theorem effective_state_spec:
  assumes "manager_ok m" and "parent_chain m i (r # ps)"
  shows "\<exists>s. effective_state m i = Some s \<and>
    (ef_hard_off s \<longleftrightarrow> list_ex r_hard_off (r # ps)) \<and>
    (ef_disabled s \<longleftrightarrow> list_ex r_disabled (r # ps)) \<and>
    (ef_rhythm_enabled s \<longleftrightarrow> list_all r_rhythm_enabled (r # ps)) \<and>
    (ef_warning_active s \<longleftrightarrow> list_ex r_warning_active (r # ps)) \<and>
    (ef_soft_off s \<longleftrightarrow> list_ex r_soft_off (r # ps) \<and> \<not> ef_hard_off s) \<and>
    (ef_mood_active s \<longleftrightarrow> list_ex r_mood_active (r # ps) \<and> \<not> ef_hard_off s) \<and>
    ef_standby_enabled s = r_standby_enabled r \<and>
    ef_time_offset s = foldl (fl_add f32_round) (r_time_offset r) (map r_time_offset ps) \<and>
    ef_brightness_offset s = foldl (fl_add f32_round) (r_brightness_offset r) (map r_brightness_offset ps) \<and>
    ef_settings s = foldl merged_with_parent (r_settings r) (map r_settings ps)"
proof -
  have l: "lineage m i = r # ps" using lineage_chain [OF assms(1) chain_contained [OF assms(2)], of "r # ps"] assms(2) by simp
  have r: "map_of m i = Some r" using assms(2) by (simp add: parent_chain_def)
  obtain s where s: "effective_state m i = Some s"
    using chain_contained [OF assms(2)] unfolding effective_state_Some_iff [symmetric] by (elim exE)
  obtain qs t where *: "lineage m i = r # qs" "t = fold inherit qs (local_state r)"
    "s = (if ef_hard_off t then t\<lparr>ef_soft_off := False, ef_mood_active := False\<rparr> else t)"
    using effective_state_lineage [OF s r] by blast
  have "ef_standby_enabled s = r_standby_enabled r"
    "ef_time_offset s = foldl (fl_add f32_round) (r_time_offset r) (map r_time_offset ps)"
    "ef_brightness_offset s = foldl (fl_add f32_round) (r_brightness_offset r) (map r_brightness_offset ps)"
    "ef_settings s = foldl merged_with_parent (r_settings r) (map r_settings ps)"
    using *(1) l by (auto simp: *(2,3) fold_inherit local_state_def)
  then show ?thesis using s effective_flags [OF s] by (simp add: l)
qed

definition two_nodes :: room_manager where
  "two_nodes =
     add_room ((room_new ''house'' ''House'')\<lparr>r_hard_off := True\<rparr>)
       (add_room ((room_new_node ''lamp'' ''Lamp'' LightDevice (Some ''house''))\<lparr>r_mood_active := True\<rparr>)
         manager_new)"

lemma two_nodes_chain:
  "manager_ok two_nodes"
  "\<exists>lamp house. parent_chain two_nodes ''lamp'' [lamp, house] \<and> r_hard_off house \<and> r_mood_active lamp"
proof -
  show "manager_ok two_nodes" by (simp add: two_nodes_def wf_intros manager_ok_new)
  show "\<exists>lamp house. parent_chain two_nodes ''lamp'' [lamp, house] \<and> r_hard_off house \<and> r_mood_active lamp"
    by (intro exI [of _ "(room_new_node ''lamp'' ''Lamp'' LightDevice (Some ''house''))\<lparr>r_mood_active := True\<rparr>"]
        exI [of _ "(room_new ''house'' ''House'')\<lparr>r_hard_off := True\<rparr>"])
      (simp add: two_nodes_def add_room_def manager_new_def room_new_node_def room_new_def parent_chain_def chain_end_def)
qed

theorem effective_state_spec_witness:
  "\<exists>s. effective_state two_nodes ''lamp'' = Some s \<and> ef_hard_off s \<and> \<not> ef_mood_active s"
proof -
  obtain lamp house where c: "parent_chain two_nodes ''lamp'' [lamp, house]" "r_hard_off house"
    using two_nodes_chain(2) by blast
  then show ?thesis using effective_state_spec [OF two_nodes_chain(1) c(1)] by auto
qed

text \<open>C24: The inheritance walk ends on every store whose rooms are filed under their own identifiers, cyclic parent
  graphs and missing parents included, and visits exactly the chain of parents: a node that is not stored has no
  effective state; every stored node has exactly one chain, in which no room occurs twice and which is no longer than the
  store; and its effective state is its own, with the rooms of the chain after it inherited once each, nearest first.\<close>

theorem effective_state_total:
  assumes "manager_ok m"
  shows "(\<not> contains_room m i \<longrightarrow> effective_state m i = None) \<and>
    (contains_room m i \<longrightarrow>
       (\<exists>!rs. parent_chain m i rs) \<and>
       (\<forall>rs. parent_chain m i rs \<longrightarrow>
          length rs \<le> length m \<and> set rs \<subseteq> ran (map_of m) \<and>
          effective_state m i =
            (let t = fold inherit (tl rs) (local_state (hd rs)) in
             Some (if ef_hard_off t then t\<lparr>ef_soft_off := False, ef_mood_active := False\<rparr> else t))))"
proof -
  have "r_id ` set (lineage m i) \<subseteq> fst ` set m"
  proof
    fix x assume "x \<in> r_id ` set (lineage m i)"
    then obtain r where "r \<in> ran (map_of m)" "r_id r = x"
      using lineage_stored by blast
    then show "x \<in> fst ` set m"
      using assms by (auto simp: ran_def manager_ok_def) (metis map_of_SomeD fst_conv image_eqI)
  qed
  then have "card (r_id ` set (lineage m i)) \<le> card (fst ` set m)"
    by (simp add: card_mono)
  then have len: "length (lineage m i) \<le> length m"
    using distinct_card [OF lineage_distinct [OF assms, of i]]
      distinct_card [of "map fst m"] assms by (simp add: manager_ok_def)
  show ?thesis
  proof (cases "contains_room m i")
    case True
    then obtain r where r: "map_of m i = Some r" by (auto simp: contains_room_def)
    have "effective_state m i = (let t = fold inherit (tl (lineage m i)) (local_state (hd (lineage m i))) in
        Some (if ef_hard_off t then t\<lparr>ef_soft_off := False, ef_mood_active := False\<rparr> else t))"
      by (simp add: effective_state_def lineage_def r effective_walk_fold)
    then show ?thesis using True len lineage_stored [of _ m i] unfolding lineage_chain [OF assms True] by blast
  next
    case False
    then show ?thesis using effective_state_Some_iff [of m i] by auto
  qed
qed

definition cyclic_nodes :: room_manager where
  "cyclic_nodes =
     add_node ''a'' ''A'' NodeRoom (Some ''b'') (add_node ''b'' ''B'' NodeRoom (Some ''a'') manager_new)"

theorem effective_state_total_witness:
  "effective_state cyclic_nodes ''a'' \<noteq> None \<and> length (lineage cyclic_nodes ''a'') = 2 \<and>
   (\<exists>!rs. parent_chain cyclic_nodes ''a'' rs)"
proof -
  have "manager_ok cyclic_nodes"
    by (simp add: cyclic_nodes_def wf_intros manager_ok_new)
  moreover have "contains_room cyclic_nodes ''a''" "length (lineage cyclic_nodes ''a'') = 2"
    by code_simp+
  ultimately show ?thesis using effective_state_total [of cyclic_nodes "''a''"] effective_state_Some_iff by (auto simp: Let_def)
qed

text \<open>When the parent chain of a node does not come back to it, its effective flags are its
  own combined with the effective flags of its parent.\<close>

theorem effective_state_compositional:
  assumes "manager_ok m" and "map_of m i = Some r" and "r_parent_id r = Some p"
    and "i \<notin> r_id ` set (lineage m p)"
    and "effective_state m i = Some s" and "effective_state m p = Some t"
  shows "(ef_hard_off s \<longleftrightarrow> r_hard_off r \<or> ef_hard_off t) \<and>
    (ef_disabled s \<longleftrightarrow> r_disabled r \<or> ef_disabled t) \<and>
    (ef_rhythm_enabled s \<longleftrightarrow> r_rhythm_enabled r \<and> ef_rhythm_enabled t) \<and>
    (ef_warning_active s \<longleftrightarrow> r_warning_active r \<or> ef_warning_active t) \<and>
    (ef_soft_off s \<longleftrightarrow> (r_soft_off r \<or> ef_soft_off t) \<and> \<not> ef_hard_off s) \<and>
    (ef_mood_active s \<longleftrightarrow> (r_mood_active r \<or> ef_mood_active t) \<and> \<not> ef_hard_off s)"
proof -
  obtain q where "map_of m p = Some q"
    using assms(6) by (auto simp: effective_state_def split: option.splits)
  then have l: "lineage m i = r # lineage m p"
    using assms(1-4) by (intro lineage_parent)
  show ?thesis
    unfolding effective_flags [OF assms(5)] effective_flags [OF assms(6)] l by auto
qed

theorem effective_state_compositional_witness:
  "\<exists>s t. effective_state two_nodes ''lamp'' = Some s \<and> effective_state two_nodes ''house'' = Some t \<and>
     (ef_hard_off s \<longleftrightarrow> ef_hard_off t)"
proof -
  let ?lamp = "(room_new_node ''lamp'' ''Lamp'' LightDevice (Some ''house''))\<lparr>r_mood_active := True\<rparr>"
  have ok: "manager_ok two_nodes"
    by (simp add: two_nodes_def wf_intros manager_ok_new)
  have l: "map_of two_nodes ''lamp'' = Some ?lamp" "r_parent_id ?lamp = Some ''house''" "\<not> r_hard_off ?lamp"
    by (simp_all add: two_nodes_def add_room_def manager_new_def room_new_node_def room_new_def)
  have n: "''lamp'' \<notin> r_id ` set (lineage two_nodes ''house'')"
    by (simp add: two_nodes_def add_room_def manager_new_def room_new_node_def room_new_def lineage_def)
  obtain s t where st: "effective_state two_nodes ''lamp'' = Some s" "effective_state two_nodes ''house'' = Some t"
    using effective_state_Some_iff [of two_nodes "''lamp''"] effective_state_Some_iff [of two_nodes "''house''"]
    by (auto simp: contains_room_def two_nodes_def add_room_def manager_new_def room_new_node_def room_new_def)
  show ?thesis
    using effective_state_compositional [OF ok l(1,2) n st] l(3) st by blast
qed

definition nested_schedules :: room_manager where
  "nested_schedules =
     add_room ((room_new ''home'' [])\<lparr>r_settings :=
         room_settings_default\<lparr>ps_light_schedule := Some (Named ''s'' Sleep)\<rparr>\<rparr>)
       (add_room ((room_new_node ''floor'' [] NodeRoom (Some ''home''))\<lparr>r_settings :=
           room_settings_default\<lparr>ps_schedule_modes := [(''s'', Day)]\<rparr>\<rparr>)
         (add_node ''room'' [] NodeRoom (Some ''floor'') manager_new))"

text \<open>The settings are not compositional in the same way: with three nested rooms under a
  named schedule, where the middle room has materialised its own mode, the innermost room
  resolves the outermost room's mode and not the effective mode of its parent.\<close>

theorem nested_schedule_mode_skips_parent:
  "map_option (\<lambda>s. schedule_mode (ef_settings s) Day (F_Fin 0)) (effective_state nested_schedules ''floor'')
     = Some Day \<and>
   map_option (\<lambda>s. schedule_mode (ef_settings s) Day (F_Fin 0)) (effective_state nested_schedules ''room'')
     = Some Sleep"
  by (simp add: nested_schedules_def add_room_def add_node_def manager_new_def room_new_node_def
      room_new_def effective_state_def local_state_def inherit_def schedule_mode_def
      merged_schedule_def room_settings_default_def Let_def)

end
