(* ===== verification/Identity.thy ===== *)
theory Identity
  imports RustStr
begin

text \<open>
  Canonical device identity: \<open>rhythm-os/src/canonical/identity.rs\<close>, the normalisation of
  hardware addresses in \<open>rhythm-core/src/device/ieee.rs\<close> and the hub type of
  \<open>rhythm-os/src/hub.rs\<close>.

  Timestamps are \<open>u64\<close> seconds. The identifier of a new device comes from \<open>generate_uuid\<close>; here
  the clock, the counter and the thread are arguments of the generator, and the constructor of a
  device takes the generated identifier.
\<close>

unbundle bit_operations_syntax

section \<open>Hardware addresses\<close>

definition is_ascii_hexdigit :: "char \<Rightarrow> bool" where
  "is_ascii_hexdigit c \<longleftrightarrow> is_digit c \<or> c \<in> set ''abcdefABCDEF''"

text \<open>
  The lower-casing of the source is that of Unicode. No character outside ASCII has a lower-case
  form that contains an ASCII hexadecimal digit, so for the digits that are kept it is the
  lower-casing of ASCII.
\<close>

definition hex_only :: "string \<Rightarrow> string" where
  "hex_only s = filter is_ascii_hexdigit (map to_ascii_lowercase (trim s))"

fun chunks2 :: "string \<Rightarrow> string list" where
  "chunks2 (a # b # cs) = [a, b] # chunks2 cs"
| "chunks2 [a] = [[a]]"
| "chunks2 [] = []"

fun join_colon :: "string list \<Rightarrow> string" where
  "join_colon [] = []"
| "join_colon [s] = s"
| "join_colon (s # t # ts) = s @ CHR '':'' # join_colon (t # ts)"

definition normalize_ieee :: "string \<Rightarrow> string" where
  "normalize_ieee s =
     (if 2 \<le> length (hex_only s) then join_colon (chunks2 (hex_only s)) else hex_only s)"

datatype hardware_id = Mac string | Serial string | MatterId string

definition hw_mac :: "string \<Rightarrow> hardware_id" where
  "hw_mac addr = Mac (normalize_ieee addr)"

fun hw_value :: "hardware_id \<Rightarrow> string" where
  "hw_value (Mac v) = v"
| "hw_value (Serial v) = v"
| "hw_value (MatterId v) = v"

section \<open>Hubs and endpoints\<close>

type_synonym hub_type = string

record hub_key =
  hk_type :: hub_type
  hk_address :: string

definition hub_key_new :: "hub_type \<Rightarrow> string \<Rightarrow> hub_key" where
  "hub_key_new t a = \<lparr>hk_type = t, hk_address = a\<rparr>"

definition display_hub_key :: "hub_key \<Rightarrow> string" where
  "display_hub_key k = hk_type k @ ''@'' @ hk_address k"

datatype device_type = Light | Button | Motion | Contact

text \<open>The reserved \<open>capabilities\<close> value of an endpoint is never read and always absent.\<close>

record integration_endpoint =
  ep_hub_key :: hub_key
  ep_native_id :: string
  ep_preferred :: bool
  ep_active :: bool
  ep_last_seen :: u64
  ep_source_room_name :: "string option"

record merge_record =
  mr_merged_at :: u64
  mr_source_hub :: hub_key
  mr_source_native_id :: string
  mr_reason :: string

section \<open>Canonical devices\<close>

record canonical_device =
  cd_id :: string
  cd_name :: string
  cd_device_type :: device_type
  cd_hardware_ids :: "hardware_id list"
  cd_manufacturer :: "string option"
  cd_model :: "string option"
  cd_endpoints :: "integration_endpoint list"
  cd_room_id :: "string option"
  cd_merge_history :: "merge_record list"
  cd_removed_at :: "u64 option"
  cd_created_at :: u64

definition device_new ::
    "string \<Rightarrow> string \<Rightarrow> device_type \<Rightarrow> hardware_id list \<Rightarrow> u64 \<Rightarrow> canonical_device" where
  "device_new uuid nm ty hws now =
     \<lparr>cd_id = uuid, cd_name = nm, cd_device_type = ty, cd_hardware_ids = hws,
      cd_manufacturer = None, cd_model = None, cd_endpoints = [], cd_room_id = None,
      cd_merge_history = [], cd_removed_at = None, cd_created_at = now\<rparr>"

definition is_removed :: "canonical_device \<Rightarrow> bool" where
  "is_removed d \<longleftrightarrow> cd_removed_at d \<noteq> None"

definition endpoint_for_hub :: "hub_key \<Rightarrow> canonical_device \<Rightarrow> integration_endpoint option" where
  "endpoint_for_hub k d = find (\<lambda>e. ep_hub_key e = k) (cd_endpoints d)"

definition active_endpoints :: "canonical_device \<Rightarrow> integration_endpoint list" where
  "active_endpoints d = filter ep_active (cd_endpoints d)"

definition has_active_endpoint :: "canonical_device \<Rightarrow> bool" where
  "has_active_endpoint d \<longleftrightarrow> active_endpoints d \<noteq> []"

definition endpoint_by_native_id :: "string \<Rightarrow> canonical_device \<Rightarrow> integration_endpoint option" where
  "endpoint_by_native_id n d = find (\<lambda>e. ep_native_id e = n) (cd_endpoints d)"

definition preferred_endpoint :: "canonical_device \<Rightarrow> integration_endpoint option" where
  "preferred_endpoint d =
     opt_or (find (\<lambda>e. ep_active e \<and> ep_preferred e) (cd_endpoints d))
            (find ep_active (cd_endpoints d))"

text \<open>\<open>iter_mut().find(p)\<close> followed by an assignment: the first match is modified.\<close>

fun modify_first :: "('a \<Rightarrow> bool) \<Rightarrow> ('a \<Rightarrow> 'a) \<Rightarrow> 'a list \<Rightarrow> 'a list" where
  "modify_first p f [] = []"
| "modify_first p f (x # xs) = (if p x then f x # xs else x # modify_first p f xs)"

definition is_endpoint :: "hub_key \<Rightarrow> string \<Rightarrow> integration_endpoint \<Rightarrow> bool" where
  "is_endpoint k n e \<longleftrightarrow> ep_hub_key e = k \<and> ep_native_id e = n"

definition upsert_endpoint ::
    "hub_key \<Rightarrow> string \<Rightarrow> u64 \<Rightarrow> string option \<Rightarrow> canonical_device \<Rightarrow> canonical_device" where
  "upsert_endpoint k n now room d =
     (if list_ex (is_endpoint k n) (cd_endpoints d)
      then d\<lparr>cd_endpoints :=
              modify_first (is_endpoint k n)
                (\<lambda>e. e\<lparr>ep_active := True, ep_last_seen := now,
                        ep_source_room_name := (if room \<noteq> None then room else ep_source_room_name e)\<rparr>)
                (cd_endpoints d)\<rparr>
      else d\<lparr>cd_endpoints := cd_endpoints d @
              [\<lparr>ep_hub_key = k, ep_native_id = n, ep_preferred = (cd_endpoints d = []),
                ep_active = True, ep_last_seen = now, ep_source_room_name = room\<rparr>]\<rparr>)"

definition set_endpoint_active ::
    "hub_key \<Rightarrow> string \<Rightarrow> bool \<Rightarrow> canonical_device \<Rightarrow> bool \<times> canonical_device" where
  "set_endpoint_active k n active d =
     (case find (is_endpoint k n) (cd_endpoints d) of
        None \<Rightarrow> (False, d)
      | Some e \<Rightarrow>
          if ep_active e = active then (False, d)
          else (True, d\<lparr>cd_endpoints :=
                  modify_first (is_endpoint k n) (\<lambda>e. e\<lparr>ep_active := active\<rparr>) (cd_endpoints d)\<rparr>))"

definition record_merge :: "hub_key \<Rightarrow> string \<Rightarrow> string \<Rightarrow> u64 \<Rightarrow> canonical_device \<Rightarrow> canonical_device" where
  "record_merge k n reason now d =
     d\<lparr>cd_merge_history := cd_merge_history d @
         [\<lparr>mr_merged_at = now, mr_source_hub = k, mr_source_native_id = n, mr_reason = reason\<rparr>]\<rparr>"

definition has_hardware_id :: "hardware_id \<Rightarrow> canonical_device \<Rightarrow> bool" where
  "has_hardware_id h d \<longleftrightarrow> h \<in> set (cd_hardware_ids d)"

definition has_hardware_value :: "string \<Rightarrow> canonical_device \<Rightarrow> bool" where
  "has_hardware_value v d \<longleftrightarrow> v \<in> hw_value ` set (cd_hardware_ids d)"

record discovered_identity =
  di_native_id :: string
  di_room_id :: "string option"
  di_room_name :: "string option"
  di_name :: string
  di_device_type :: device_type
  di_hardware_ids :: "hardware_id list"
  di_manufacturer :: "string option"
  di_model :: "string option"

section \<open>Identifiers\<close>

definition xorshift :: "u128 \<Rightarrow> u128" where
  "xorshift s =
     (let s1 = s XOR push_bit 13 s;
          s2 = s1 XOR drop_bit 7 s1
      in s2 XOR push_bit 17 s2)"

fun uuid_bytes :: "nat \<Rightarrow> u128 \<Rightarrow> u8 list" where
  "uuid_bytes 0 s = []"
| "uuid_bytes (Suc n) s = (let s' = xorshift s in ucast (s' AND 0xFF) # uuid_bytes n s')"

definition hex_digit :: "nat \<Rightarrow> char" where
  "hex_digit n = ''0123456789abcdef'' ! n"

definition show_hex2 :: "u8 \<Rightarrow> string" where
  "show_hex2 b = [hex_digit (unat b div 16), hex_digit (unat b mod 16)]"

definition uuid_string :: "u8 list \<Rightarrow> string" where
  "uuid_string bs =
     concat (map show_hex2 (take 4 bs)) @ ''-'' @
     concat (map show_hex2 (take 2 (drop 4 bs))) @ ''-'' @
     concat (map show_hex2 (take 2 (drop 6 bs))) @ ''-'' @
     concat (map show_hex2 (take 2 (drop 8 bs))) @ ''-'' @
     concat (map show_hex2 (take 6 (drop 10 bs)))"

text \<open>The seed is the clock in nanoseconds; \<open>thread_hash\<close> is a length, shifted into the upper half.\<close>

definition generate_uuid :: "u128 \<Rightarrow> u32 \<Rightarrow> u128 \<Rightarrow> string" where
  "generate_uuid seed count thread_hash =
     (let s = seed XOR ucast count XOR push_bit 64 thread_hash;
          bs = uuid_bytes 16 s;
          bs = bs[6 := (bs ! 6 AND 0x0F) OR 0x40];
          bs = bs[8 := (bs ! 8 AND 0x3F) OR 0x80]
      in uuid_string bs)"

section \<open>Lemmas\<close>

subsection \<open>Addresses\<close>

lemma hexdigit_cases:
  "is_ascii_hexdigit c \<longleftrightarrow> c \<in> set ''0123456789abcdefABCDEF''"
proof -
  have "is_digit c \<longleftrightarrow> c \<in> set ''0123456789''"
  proof
    assume "is_digit c"
    then have "byte c \<in> {48..57}" by (simp add: is_digit_def)
    moreover have "n \<in> {48, 49, 50, 51, 52, 53, 54, 55, 56, 57}" if "n \<in> {48..57}" for n :: nat
      using that by simp presburger
    ultimately have "byte c \<in> {48, 49, 50, 51, 52, 53, 54, 55, 56, 57}" by blast
    then have "c \<in> char_of ` {48, 49, 50, 51, 52, 53, 54, 55, 56, 57 :: nat}"
      by (metis char_of_char image_eqI)
    then show "c \<in> set ''0123456789''" by (simp add: char_of_def bit_0)
  qed (auto simp: is_digit_def)
  then show ?thesis by (auto simp: is_ascii_hexdigit_def)
qed

definition lower_hex :: "char \<Rightarrow> bool" where
  "lower_hex c \<longleftrightarrow> is_ascii_hexdigit c \<and> to_ascii_lowercase c = c"

lemma hex_only_lower: "list_all lower_hex (hex_only s)"
  by (auto simp: hex_only_def list_all_iff lower_hex_def)

lemma lower_hex_filter: "list_all lower_hex s \<Longrightarrow> filter is_ascii_hexdigit (map to_ascii_lowercase s) = s"
  by (induction s) (auto simp: lower_hex_def)

lemma colon_not_hex: "\<not> is_ascii_hexdigit (to_ascii_lowercase CHR '':'')"
  by (simp add: to_ascii_lowercase_def hexdigit_cases)

lemma filter_join_chunks:
  "list_all lower_hex s \<Longrightarrow>
   filter is_ascii_hexdigit (map to_ascii_lowercase (join_colon (chunks2 s))) = s"
proof (induction s rule: chunks2.induct)
  case (1 a b cs)
  then show ?case
    by (cases "chunks2 cs") (auto simp: lower_hex_def colon_not_hex dest: arg_cong [of _ _ length])
qed (auto simp: lower_hex_def)

lemma join_chunks_ends:
  "s \<noteq> [] \<Longrightarrow> join_colon (chunks2 s) \<noteq> [] \<and> hd (join_colon (chunks2 s)) \<in> set s \<and>
     last (join_colon (chunks2 s)) \<in> set s"
proof (induction s rule: chunks2.induct)
  case (1 a b cs)
  then show ?case by (cases cs rule: chunks2.cases) auto
qed auto

lemma lower_hex_printable: "lower_hex c \<Longrightarrow> printable c"
  by (auto simp: lower_hex_def hexdigit_cases printable_def)

lemma hex_only_normalize: "hex_only (normalize_ieee s) = hex_only s"
proof -
  have l: "list_all lower_hex (hex_only s)" by (rule hex_only_lower)
  then have p: "\<forall>c\<in>set (hex_only s). printable c"
    by (auto simp: list_all_iff intro: lower_hex_printable)
  have "trim (normalize_ieee s) = normalize_ieee s"
  proof (cases "hex_only s = []")
    case True
    then show ?thesis by (simp add: normalize_ieee_def)
  next
    case False
    with p join_chunks_ends [OF False] show ?thesis
      by (auto simp: normalize_ieee_def intro!: trim_id)
  qed
  with l show ?thesis
    by (simp add: hex_only_def [of "normalize_ieee s"])
      (simp add: normalize_ieee_def filter_join_chunks lower_hex_filter)
qed

section \<open>Properties\<close>

text \<open>Two spellings of a hardware address get the same normal form exactly when they have the
  same hexadecimal digits, whatever the separators, the case and the surrounding white space are;
  so normalising twice is normalising once.\<close>

theorem normalize_ieee_canonical:
  "(normalize_ieee a = normalize_ieee b \<longleftrightarrow> hex_only a = hex_only b) \<and>
   normalize_ieee (normalize_ieee a) = normalize_ieee a"
proof -
  have "normalize_ieee a = normalize_ieee b" if "hex_only a = hex_only b" for a b
    using that by (simp add: normalize_ieee_def)
  then show ?thesis using hex_only_normalize by metis
qed

subsection \<open>Generated identifiers\<close>

lemma length_uuid_bytes [simp]: "length (uuid_bytes n s) = n"
  by (induction n arbitrary: s) (simp_all add: Let_def)


lemma high_nibble: "unat b div 16 = unat (drop_bit 4 b)" for b :: u8
  by (simp add: drop_bit_eq_div unat_div)

lemma high_nibble_version: "unat ((b AND 0x0F) OR 0x40) div 16 = 4" for b :: u8
  by (simp add: high_nibble)

lemma high_nibble_variant: "unat ((b AND 0x3F) OR 0x80) div 16 \<in> {8, 9, 10, 11}" for b :: u8
proof -
  let ?x = "drop_bit 4 b AND 3"
  have "?x = take_bit 2 (drop_bit 4 b)"
    by (simp add: take_bit_eq_mask mask_eq_exp_minus_1)
  then have "unat ?x < 4"
    by (simp add: unsigned_take_bit_eq take_bit_eq_mod unat_mod)
  then have "unat ?x \<in> {0, 1, 2, 3}" by auto
  then have "?x \<in> {0, 1, 2, 3}"
    by (auto simp: unat_eq_0 intro: word_unat_eq_iff [THEN iffD2])
  then show ?thesis by (auto simp: high_nibble)
qed

lemma list_16:
  assumes "length (xs :: 'a list) = 16"
  obtains a b c d e f g h i j k l m n p q where "xs = [a, b, c, d, e, f, g, h, i, j, k, l, m, n, p, q]"
  using assms by (auto simp: length_Suc_conv numeral_eq_Suc)

lemma hex_digit_set: "n < 16 \<Longrightarrow> hex_digit n \<in> set ''0123456789abcdef''"
  unfolding hex_digit_def by (rule nth_mem) simp

lemma unat_nibbles: "unat (b :: u8) div 16 < 16" "unat (b :: u8) mod 16 < 16"
proof -
  have "unat b < 2 ^ 8"
    using unsigned_less [of b] by simp
  then show "unat b div 16 < 16" "unat b mod 16 < 16" by simp_all
qed

lemma hex_digit_variant: "n \<in> {8, 9, 10, 11} \<Longrightarrow> hex_digit n \<in> set ''89ab''"
  by (auto simp: hex_digit_def)

lemma hex_digit_version: "hex_digit 4 = CHR ''4''"
  by (simp add: hex_digit_def)

text \<open>A template: x stands for a lower-case hexadecimal digit, y for one of 8, 9, a and b.\<close>

definition fits :: "char \<Rightarrow> char \<Rightarrow> bool" where
  "fits t c \<longleftrightarrow>
     (if t = CHR ''x'' then c \<in> set ''0123456789abcdef''
      else if t = CHR ''y'' then c \<in> set ''89ab'' else c = t)"

definition uuid_v4_shape :: "string \<Rightarrow> bool" where
  "uuid_v4_shape u \<longleftrightarrow> list_all2 fits ''xxxxxxxx-xxxx-4xxx-yxxx-xxxxxxxxxxxx'' u"

lemma fits_intros:
  "n < 16 \<Longrightarrow> fits CHR ''x'' (hex_digit n)"
  "n \<in> {8, 9, 10, 11} \<Longrightarrow> fits CHR ''y'' (hex_digit n)"
  "fits CHR ''-'' CHR ''-''" "n = 4 \<Longrightarrow> fits CHR ''4'' (hex_digit n)"
  using hex_digit_set [of n] hex_digit_variant [of n] hex_digit_version
  by (simp_all only: fits_def if_True if_False char.inject) (simp_all add: hex_digit_version)

lemma uuid_string_shape:
  fixes a b c d e f g h i j k l m n p q :: u8
  assumes "unat g div 16 = 4" and "unat i div 16 \<in> {8, 9, 10, 11}"
  shows "uuid_v4_shape (uuid_string [a, b, c, d, e, f, g, h, i, j, k, l, m, n, p, q])"
proof -
  have "uuid_string [a, b, c, d, e, f, g, h, i, j, k, l, m, n, p, q] =
      show_hex2 a @ show_hex2 b @ show_hex2 c @ show_hex2 d @ CHR ''-'' # show_hex2 e @ show_hex2 f @
      CHR ''-'' # show_hex2 g @ show_hex2 h @ CHR ''-'' # show_hex2 i @ show_hex2 j @
      CHR ''-'' # show_hex2 k @ show_hex2 l @ show_hex2 m @ show_hex2 n @ show_hex2 p @ show_hex2 q"
    by (simp add: uuid_string_def)
  then show ?thesis
    unfolding uuid_v4_shape_def show_hex2_def append_Cons append_Nil
    by (simp only:) (intro list.rel_intros fits_intros unat_nibbles assms)
qed

text \<open>Whatever the clock, the counter and the thread are, a generated identifier has the
  shape of a version 4 UUID: 36 characters, hyphens and lower-case hexadecimal digits at their
  places, the version and the variant digit set.\<close>

theorem generate_uuid_shape: "uuid_v4_shape (generate_uuid seed count thread_hash)"
proof -
  let ?s = "seed XOR ucast count XOR push_bit 64 thread_hash"
  obtain a b c d e f g h i j k l m n p q
    where u: "uuid_bytes 16 ?s = [a, b, c, d, e, f, g, h, i, j, k, l, m, n, p, q]"
    by (rule list_16 [OF length_uuid_bytes])
  have "generate_uuid seed count thread_hash =
      uuid_string [a, b, c, d, e, f, (g AND 0x0F) OR 0x40, h, (i AND 0x3F) OR 0x80, j, k, l, m, n, p, q]"
    by (simp add: generate_uuid_def Let_def u)
  then show ?thesis
    by (simp only: uuid_string_shape high_nibble_version high_nibble_variant)
qed

end
