(* ===== verification/Triage.thy ===== *)
theory Triage
  imports Identity
begin

text \<open>
  The triage queue of \<open>rhythm-os/src/canonical/triage.rs\<close>: proposals that wait for the decision
  of a user, the decisions that stay on record, and the reconciliation of pending room bindings
  with the topology.

  Of the topology (\<open>rhythm-os/src/topology.rs\<close>) the queue reads two things, the room a hub room
  is bound to and the name of a room; \<open>topology_view\<close> holds these two maps. The identifiers of
  replacement entries come from a sequence of generated UUIDs.
\<close>

section \<open>Entries\<close>

datatype triage_kind = DeviceMerge | RoomBinding | UnassignedDevice | HubConfigured

datatype match_reason =
    ExactHardware | ExactName | PartialName | SameManufacturer | SameModel
  | SameDeviceType | SameRoom

record candidate_match =
  cm_canonical_id :: string
  cm_name :: string
  cm_score :: u32
  cm_reasons :: "match_reason list"

datatype triage_status =
  Pending | AutoResolved | Confirmed | NewDevice | KeptSeparate | Dismissed

record triage_discovered =
  td_native_id :: string
  td_name :: string
  td_device_type :: device_type
  td_room_id :: string
  td_room_name :: string
  td_manufacturer :: "string option"
  td_model :: "string option"

record room_binding_proposal =
  rb_hub_room_id :: string
  rb_hub_room_name :: string
  rb_control_id :: string
  rb_light_device_ids :: "string list"
  rb_canonical_device_ids :: "string list"
  rb_target_id :: string
  rb_target_name :: string
  rb_candidates :: "(string \<times> string) list"

record triage_entry =
  te_id :: string
  te_kind :: triage_kind
  te_discovered :: triage_discovered
  te_hub_key :: hub_key
  te_candidates :: "candidate_match list"
  te_room_binding :: "room_binding_proposal option"
  te_confidence :: u32
  te_status :: triage_status
  te_resolved_by :: "string option"
  te_created_at :: u64
  te_resolved_at :: "u64 option"
  te_canonical_id :: "string option"

definition triage_discovered_default :: triage_discovered where
  "triage_discovered_default =
     \<lparr>td_native_id = [], td_name = [], td_device_type = Light, td_room_id = [],
      td_room_name = [], td_manufacturer = None, td_model = None\<rparr>"

definition triage_discovered_of :: "discovered_identity \<Rightarrow> triage_discovered" where
  "triage_discovered_of d =
     \<lparr>td_native_id = di_native_id d, td_name = di_name d, td_device_type = di_device_type d,
      td_room_id = unwrap_or (di_room_id d) [], td_room_name = unwrap_or (di_room_name d) [],
      td_manufacturer = di_manufacturer d, td_model = di_model d\<rparr>"

section \<open>The queue\<close>

type_synonym triage_queue = "triage_entry list"

definition queue_new :: triage_queue where
  "queue_new = []"

definition queue_add :: "triage_entry \<Rightarrow> triage_queue \<Rightarrow> triage_queue" where
  "queue_add e q = q @ [e]"

definition is_pending :: "triage_entry \<Rightarrow> bool" where
  "is_pending e \<longleftrightarrow> te_status e = Pending"

definition pending :: "triage_queue \<Rightarrow> triage_entry list" where
  "pending q = filter is_pending q"

definition queue_get :: "string \<Rightarrow> triage_queue \<Rightarrow> triage_entry option" where
  "queue_get i q = find (\<lambda>e. te_id e = i) q"

definition has_device :: "hub_key \<Rightarrow> string \<Rightarrow> triage_queue \<Rightarrow> bool" where
  "has_device k n q \<longleftrightarrow>
     list_ex (\<lambda>e. te_status e = Pending \<and> te_hub_key e = k \<and> td_native_id (te_discovered e) = n) q"

definition mark_resolved :: "triage_status \<Rightarrow> string \<Rightarrow> u64 \<Rightarrow> triage_entry \<Rightarrow> triage_entry" where
  "mark_resolved st who now e =
     e\<lparr>te_status := st, te_resolved_by := Some who, te_resolved_at := Some now\<rparr>"

definition resolve_entry ::
    "string \<Rightarrow> triage_status \<Rightarrow> string \<Rightarrow> u64 \<Rightarrow> triage_queue \<Rightarrow> bool \<times> triage_queue" where
  "resolve_entry i st who now q =
     (if list_ex (\<lambda>e. te_id e = i) q
      then (True, modify_first (\<lambda>e. te_id e = i) (mark_resolved st who now) q)
      else (False, q))"

definition resolve_new :: "string \<Rightarrow> u64 \<Rightarrow> triage_queue \<Rightarrow> bool \<times> triage_queue" where
  "resolve_new i now q = resolve_entry i NewDevice ''api'' now q"

definition resolve_keep_separate :: "string \<Rightarrow> u64 \<Rightarrow> triage_queue \<Rightarrow> bool \<times> triage_queue" where
  "resolve_keep_separate i now q = resolve_entry i KeptSeparate ''api'' now q"

definition dismiss :: "string \<Rightarrow> u64 \<Rightarrow> triage_queue \<Rightarrow> bool \<times> triage_queue" where
  "dismiss i now q = resolve_entry i Dismissed ''api'' now q"

fun durable_decision :: "triage_kind \<Rightarrow> triage_status \<Rightarrow> bool" where
  "durable_decision RoomBinding KeptSeparate = True"
| "durable_decision RoomBinding NewDevice = True"
| "durable_decision UnassignedDevice KeptSeparate = True"
| "durable_decision UnassignedDevice Dismissed = True"
| "durable_decision _ _ = False"

definition prune_resolved :: "u64 \<Rightarrow> triage_queue \<Rightarrow> triage_queue" where
  "prune_resolved before q =
     filter (\<lambda>e. te_status e = Pending \<or> durable_decision (te_kind e) (te_status e) \<or>
                 (case te_resolved_at e of Some t \<Rightarrow> before \<le> t | None \<Rightarrow> True)) q"

definition pending_count :: "triage_queue \<Rightarrow> nat" where
  "pending_count q = length (filter (\<lambda>e. te_status e = Pending) q)"

definition queue_references_hub_key :: "hub_key \<Rightarrow> triage_queue \<Rightarrow> bool" where
  "queue_references_hub_key k q \<longleftrightarrow> list_ex (\<lambda>e. te_hub_key e = k) q"

definition queue_referenced_hub_keys :: "triage_queue \<Rightarrow> hub_key list" where
  "queue_referenced_hub_keys q = map te_hub_key q"

definition queue_remap_hub_key :: "hub_key \<Rightarrow> hub_key \<Rightarrow> triage_queue \<Rightarrow> bool \<times> triage_queue" where
  "queue_remap_hub_key old new q =
     (if old = new then (False, q)
      else (list_ex (\<lambda>e. te_hub_key e = old) q,
            map (\<lambda>e. if te_hub_key e = old then e\<lparr>te_hub_key := new\<rparr> else e) q))"

definition pending_by_kind :: "triage_kind \<Rightarrow> triage_queue \<Rightarrow> triage_entry list" where
  "pending_by_kind kd q = filter (\<lambda>e. te_status e = Pending \<and> te_kind e = kd) q"

definition pending_device_count :: "triage_queue \<Rightarrow> nat" where
  "pending_device_count q = length (filter (\<lambda>e. te_status e = Pending \<and> te_kind e = DeviceMerge) q)"

definition pending_room_count :: "triage_queue \<Rightarrow> nat" where
  "pending_room_count q = length (filter (\<lambda>e. te_status e = Pending \<and> te_kind e = RoomBinding) q)"

definition pending_unassigned_count :: "triage_queue \<Rightarrow> nat" where
  "pending_unassigned_count q =
     length (filter (\<lambda>e. te_status e = Pending \<and> te_kind e = UnassignedDevice) q)"

definition pending_hub_configured_count :: "triage_queue \<Rightarrow> nat" where
  "pending_hub_configured_count q =
     length (filter (\<lambda>e. te_status e = Pending \<and> te_kind e = HubConfigured) q)"

subsection \<open>Unassigned devices\<close>

definition is_unassigned_for :: "string \<Rightarrow> triage_entry \<Rightarrow> bool" where
  "is_unassigned_for c e \<longleftrightarrow> te_kind e = UnassignedDevice \<and> te_canonical_id e = Some c"

definition has_unassigned_device :: "string \<Rightarrow> triage_queue \<Rightarrow> bool" where
  "has_unassigned_device c q \<longleftrightarrow> list_ex (\<lambda>e. te_status e = Pending \<and> is_unassigned_for c e) q"

definition has_unassigned_decision :: "string \<Rightarrow> triage_queue \<Rightarrow> bool" where
  "has_unassigned_decision c q \<longleftrightarrow>
     list_ex (\<lambda>e. is_unassigned_for c e \<and> te_status e \<in> {Pending, KeptSeparate, Dismissed}) q"

definition quarantines_unassigned_device :: "string \<Rightarrow> triage_queue \<Rightarrow> bool" where
  "quarantines_unassigned_device c q \<longleftrightarrow>
     list_ex (\<lambda>e. is_unassigned_for c e \<and> te_status e \<in> {Pending, Dismissed}) q"

definition resolve_unassigned_for_device :: "string \<Rightarrow> u64 \<Rightarrow> triage_queue \<Rightarrow> bool \<times> triage_queue" where
  "resolve_unassigned_for_device c now q =
     (let hit = (\<lambda>e. te_status e = Pending \<and> is_unassigned_for c e) in
      (list_ex hit q, map (\<lambda>e. if hit e then mark_resolved Confirmed ''auto'' now e else e) q))"

subsection \<open>Devices configured on their hub\<close>

definition is_hub_configured_for :: "hub_key \<Rightarrow> string \<Rightarrow> triage_entry \<Rightarrow> bool" where
  "is_hub_configured_for k n e \<longleftrightarrow>
     te_kind e = HubConfigured \<and> te_hub_key e = k \<and> td_native_id (te_discovered e) = n"

definition has_hub_configured :: "hub_key \<Rightarrow> string \<Rightarrow> triage_queue \<Rightarrow> bool" where
  "has_hub_configured k n q \<longleftrightarrow>
     list_ex (\<lambda>e. te_status e = Pending \<and> is_hub_configured_for k n e) q"

definition resolve_hub_configured_for_device ::
    "hub_key \<Rightarrow> string \<Rightarrow> u64 \<Rightarrow> triage_queue \<Rightarrow> bool \<times> triage_queue" where
  "resolve_hub_configured_for_device k n now q =
     (let hit = (\<lambda>e. te_status e = Pending \<and> is_hub_configured_for k n e) in
      (list_ex hit q, map (\<lambda>e. if hit e then mark_resolved Confirmed ''auto'' now e else e) q))"

definition has_room_binding :: "hub_key \<Rightarrow> string \<Rightarrow> triage_queue \<Rightarrow> bool" where
  "has_room_binding k r q \<longleftrightarrow>
     list_ex (\<lambda>e. te_status e \<noteq> Dismissed \<and> te_kind e = RoomBinding \<and> te_hub_key e = k \<and>
                  (case te_room_binding e of Some p \<Rightarrow> rb_hub_room_id p = r | None \<Rightarrow> False)) q"

section \<open>Reconciliation with the topology\<close>

record topology_view =
  tv_hub_room_index :: "((string \<times> string), string) hmap"
  tv_room_names :: "(string, string) hmap"

definition translate_room_id :: "topology_view \<Rightarrow> hub_key \<Rightarrow> string \<Rightarrow> string option" where
  "translate_room_id t k r = map_of (tv_hub_room_index t) (display_hub_key k, r)"

definition room_name :: "topology_view \<Rightarrow> string \<Rightarrow> string option" where
  "room_name t i = map_of (tv_room_names t) i"

fun collect_candidates ::
    "topology_view \<Rightarrow> string \<Rightarrow> string list \<Rightarrow> (string \<times> string) list \<Rightarrow> (string \<times> string) list" where
  "collect_candidates t source [] acc = acc"
| "collect_candidates t source (i # is) acc =
     (if i = source \<or> i \<in> fst ` set acc then collect_candidates t source is acc
      else (case room_name t i of
              Some n \<Rightarrow> collect_candidates t source is (acc @ [(i, n)])
            | None \<Rightarrow> collect_candidates t source is acc))"

definition reconcile_proposal ::
    "topology_view \<Rightarrow> hub_key \<Rightarrow> room_binding_proposal \<Rightarrow> room_binding_proposal option" where
  "reconcile_proposal t k p =
     (case opt_filter (\<lambda>i. room_name t i \<noteq> None) (translate_room_id t k (rb_hub_room_id p)) of
        None \<Rightarrow> None
      | Some source \<Rightarrow>
          if source = rb_target_id p then None
          else (case collect_candidates t source (rb_target_id p # map fst (rb_candidates p)) [] of
                  [] \<Rightarrow> None
                | (i, n) # cs \<Rightarrow>
                    Some (p\<lparr>rb_target_id := i, rb_target_name := n, rb_candidates := (i, n) # cs\<rparr>)))"

text \<open>What the loop decides for one entry.\<close>

datatype reconciliation =
  Keep | Expire | Refresh room_binding_proposal | Replace room_binding_proposal

definition reconcile_entry :: "topology_view \<Rightarrow> triage_entry \<Rightarrow> reconciliation" where
  "reconcile_entry t e =
     (if te_kind e \<noteq> RoomBinding \<or> te_status e \<noteq> Pending then Keep
      else (case te_room_binding e of
          None \<Rightarrow> Expire
        | Some before \<Rightarrow> (case reconcile_proposal t (te_hub_key e) before of
            None \<Rightarrow> Expire
          | Some p \<Rightarrow>
              if p = before then Keep
              else if rb_target_id p = rb_target_id before then Refresh p
              else Replace p)))"

text \<open>
  The loop keeps the number of changes, the entries in place and the replacements; \<open>fresh\<close> is the
  sequence of generated UUIDs and \<open>c\<close> how many were used.
\<close>

fun reconcile_loop ::
    "topology_view \<Rightarrow> (nat \<Rightarrow> string) \<Rightarrow> u64 \<Rightarrow> nat \<Rightarrow> triage_entry list \<Rightarrow>
     nat \<times> triage_entry list \<times> triage_entry list" where
  "reconcile_loop t fresh now c [] = (0, [], [])"
| "reconcile_loop t fresh now c (e # es) =
     (case reconcile_entry t e of
        Keep \<Rightarrow>
          (case reconcile_loop t fresh now c es of (n, es', rs) \<Rightarrow> (n, e # es', rs))
      | Expire \<Rightarrow>
          (case reconcile_loop t fresh now c es of
             (n, es', rs) \<Rightarrow> (n + 1, mark_resolved Dismissed ''topology'' now e # es', rs))
      | Refresh p \<Rightarrow>
          (case reconcile_loop t fresh now c es of
             (n, es', rs) \<Rightarrow> (n + 1, e\<lparr>te_room_binding := Some p\<rparr> # es', rs))
      | Replace p \<Rightarrow>
          (case reconcile_loop t fresh now (c + 1) es of
             (n, es', rs) \<Rightarrow>
               (n + 2, mark_resolved Dismissed ''topology'' now e # es',
                e\<lparr>te_id := ''room-triage-'' @ fresh c, te_room_binding := Some p,
                  te_created_at := now, te_resolved_by := None, te_resolved_at := None\<rparr> # rs)))"

definition reconcile_room_bindings ::
    "topology_view \<Rightarrow> (nat \<Rightarrow> string) \<Rightarrow> u64 \<Rightarrow> triage_queue \<Rightarrow> nat \<times> triage_queue" where
  "reconcile_room_bindings t fresh now q =
     (case reconcile_loop t fresh now 0 q of (n, es, rs) \<Rightarrow> (n, es @ rs))"

section \<open>Lemmas\<close>

subsection \<open>Candidates\<close>

text \<open>What a list of candidates of a source room promises.\<close>

definition candidates_ok :: "topology_view \<Rightarrow> string \<Rightarrow> (string \<times> string) list \<Rightarrow> bool" where
  "candidates_ok t source cs \<longleftrightarrow>
     distinct (map fst cs) \<and> source \<notin> fst ` set cs \<and> (\<forall>(i, n)\<in>set cs. room_name t i = Some n)"

lemma collect_candidates_ok:
  "candidates_ok t source acc \<Longrightarrow> candidates_ok t source (collect_candidates t source ids acc)"
proof (induction t source ids acc rule: collect_candidates.induct)
  case (2 t source i "is" acc)
  show ?case
  proof (cases "i = source \<or> i \<in> fst ` set acc")
    case False
    then have "candidates_ok t source (acc @ [(i, n)])" if "room_name t i = Some n" for n
      using 2(4) that by (auto simp: candidates_ok_def)
    with 2 False show ?thesis by (auto split: option.splits)
  qed (use 2 in simp)
qed simp

lemma collect_candidates_id:
  "candidates_ok t source (acc @ cs) \<Longrightarrow>
   collect_candidates t source (map fst cs) acc = acc @ cs"
proof (induction cs arbitrary: acc)
  case (Cons c cs)
  obtain i n where c: "c = (i, n)" by fastforce
  have "i \<noteq> source" "i \<notin> fst ` set acc" "room_name t i = Some n"
    using Cons.prems by (auto simp: candidates_ok_def c)
  with Cons show ?case by (simp add: c)
qed simp

lemma reconcile_proposal_SomeD:
  assumes "reconcile_proposal t k p = Some p'"
  shows "\<exists>source. translate_room_id t k (rb_hub_room_id p') = Some source \<and> room_name t source \<noteq> None \<and>
    candidates_ok t source (rb_candidates p') \<and> rb_candidates p' \<noteq> [] \<and>
    hd (rb_candidates p') = (rb_target_id p', rb_target_name p')"
proof -
  obtain source cs where s: "translate_room_id t k (rb_hub_room_id p) = Some source"
      "room_name t source \<noteq> None"
    and cs: "cs = collect_candidates t source (rb_target_id p # map fst (rb_candidates p)) []"
    and p': "cs \<noteq> []" "p' = p\<lparr>rb_target_id := fst (hd cs), rb_target_name := snd (hd cs), rb_candidates := cs\<rparr>"
    using assms unfolding reconcile_proposal_def opt_filter_def
    by (auto split: option.splits if_splits list.splits simp del: collect_candidates.simps)
  have "candidates_ok t source cs"
    unfolding cs by (rule collect_candidates_ok) (simp add: candidates_ok_def)
  with s p' show ?thesis by simp
qed

lemma reconcile_proposal_fixed:
  assumes "translate_room_id t k (rb_hub_room_id p) = Some source" and "room_name t source \<noteq> None"
    and "candidates_ok t source (rb_candidates p)" and "rb_candidates p \<noteq> []"
    and "hd (rb_candidates p) = (rb_target_id p, rb_target_name p)"
  shows "reconcile_proposal t k p = Some p"
proof -
  obtain cs where cs: "rb_candidates p = (rb_target_id p, rb_target_name p) # cs"
    using assms(4,5) by (cases "rb_candidates p") auto
  have c: "collect_candidates t source (rb_target_id p # map fst (rb_candidates p)) [] = rb_candidates p"
  proof -
    have "source \<noteq> rb_target_id p" "room_name t (rb_target_id p) = Some (rb_target_name p)"
      using assms(3) by (auto simp: candidates_ok_def cs)
    then have "collect_candidates t source (rb_target_id p # map fst (rb_candidates p)) [] =
        collect_candidates t source (map fst cs) [(rb_target_id p, rb_target_name p)]"
      by (simp add: cs)
    also have "\<dots> = rb_candidates p"
      using collect_candidates_id [of t source "[(rb_target_id p, rb_target_name p)]" cs] assms(3)
      by (simp add: cs)
    finally show ?thesis .
  qed
  have "source \<noteq> rb_target_id p"
    using assms(3) by (auto simp: candidates_ok_def cs)
  moreover have "p = p\<lparr>rb_target_id := rb_target_id p, rb_target_name := rb_target_name p,
      rb_candidates := (rb_target_id p, rb_target_name p) # cs\<rparr>"
    using cs by (cases p) simp
  ultimately show ?thesis
    using assms(1,2) c
    by (simp add: reconcile_proposal_def opt_filter_def cs del: collect_candidates.simps)
qed

text \<open>A pending binding that agrees with the topology.\<close>

definition binding_agrees :: "topology_view \<Rightarrow> triage_entry \<Rightarrow> bool" where
  "binding_agrees t e \<longleftrightarrow>
     (case te_room_binding e of
        None \<Rightarrow> False
      | Some p \<Rightarrow>
          (case translate_room_id t (te_hub_key e) (rb_hub_room_id p) of
             None \<Rightarrow> False
           | Some source \<Rightarrow>
               room_name t source \<noteq> None \<and> candidates_ok t source (rb_candidates p) \<and>
               rb_candidates p \<noteq> [] \<and> hd (rb_candidates p) = (rb_target_id p, rb_target_name p)))"

definition binding_pending :: "triage_entry \<Rightarrow> bool" where
  "binding_pending e \<longleftrightarrow> te_kind e = RoomBinding \<and> te_status e = Pending"

lemma binding_agrees_fixed:
  assumes "binding_agrees t e"
  obtains p where "te_room_binding e = Some p" "reconcile_proposal t (te_hub_key e) p = Some p"
  using assms reconcile_proposal_fixed by (auto simp: binding_agrees_def split: option.splits)

lemma reconcile_proposal_agrees:
  "te_room_binding e = Some p \<Longrightarrow> reconcile_proposal t (te_hub_key e) p0 = Some p \<Longrightarrow> binding_agrees t e"
  by (auto simp: binding_agrees_def dest!: reconcile_proposal_SomeD)

subsection \<open>The reconciliation loop\<close>

lemma reconcile_entry_Keep:
  assumes "reconcile_entry t e = Keep" and "binding_pending e"
  shows "binding_agrees t e"
  using assms reconcile_proposal_agrees
  by (auto simp: reconcile_entry_def binding_pending_def split: option.splits if_splits)

lemma reconcile_entry_agrees: "binding_agrees t e \<Longrightarrow> reconcile_entry t e = Keep"
  by (auto simp: reconcile_entry_def elim!: binding_agrees_fixed)

lemma reconcile_entry_proposal:
  assumes "reconcile_entry t e = Refresh p \<or> reconcile_entry t e = Replace p"
  shows "binding_pending e \<and> (\<exists>p0. reconcile_proposal t (te_hub_key e) p0 = Some p \<and>
    te_room_binding e = Some p0 \<and> (reconcile_entry t e = Refresh p \<longrightarrow> rb_target_id p = rb_target_id p0))"
  using assms
  by (auto simp: reconcile_entry_def binding_pending_def split: option.splits if_splits)

lemma agrees_with_proposal:
  assumes "reconcile_entry t e = Refresh p \<or> reconcile_entry t e = Replace p"
    and "te_room_binding e' = Some p" and "te_hub_key e' = te_hub_key e"
  shows "binding_agrees t e'"
  using reconcile_entry_proposal [OF assms(1)] assms(2,3) reconcile_proposal_agrees [of e' p t]
  by auto

lemma reconcile_loop_agrees:
  "reconcile_loop t fresh now c es = (n, es', rs) \<Longrightarrow>
   \<forall>e\<in>set (es' @ rs). binding_pending e \<longrightarrow> binding_agrees t e"
proof (induction t fresh now c es arbitrary: n es' rs rule: reconcile_loop.induct)
  case (2 t fresh now c e es)
  have dead: "\<not> binding_pending (mark_resolved Dismissed w now e)" for w
    by (simp add: binding_pending_def mark_resolved_def)
  show ?case
  proof (cases "reconcile_entry t e")
    case Keep
    with 2 show ?thesis by (auto split: prod.splits dest: reconcile_entry_Keep)
  next
    case Expire
    with 2 dead show ?thesis by (auto split: prod.splits)
  next
    case (Refresh p)
    then have "binding_agrees t (e\<lparr>te_room_binding := Some p\<rparr>)"
      by (intro agrees_with_proposal) auto
    with 2 Refresh show ?thesis by (auto split: prod.splits)
  next
    case (Replace p)
    then have "binding_agrees t (e\<lparr>te_id := ''room-triage-'' @ fresh c, te_room_binding := Some p,
        te_created_at := now, te_resolved_by := None, te_resolved_at := None\<rparr>)"
      by (intro agrees_with_proposal) auto
    with 2 Replace dead show ?thesis by (auto split: prod.splits)
  qed
qed simp

lemma reconcile_loop_fixed:
  "\<forall>e\<in>set es. binding_pending e \<longrightarrow> binding_agrees t e \<Longrightarrow>
   reconcile_loop t fresh now c es = (0, es, [])"
proof (induction es arbitrary: c)
  case (Cons e es)
  have "reconcile_entry t e = Keep" if "\<not> binding_pending e"
    using that by (auto simp: reconcile_entry_def binding_pending_def)
  then have "reconcile_entry t e = Keep"
    using Cons.prems reconcile_entry_agrees [of t e] by auto
  with Cons show ?case by simp
qed simp

text \<open>
  What may happen to an entry: nothing when it is not a pending binding; otherwise it keeps its
  identifier, and it keeps the target it was shown with or is dismissed.
\<close>

definition review_kept :: "triage_entry \<Rightarrow> triage_entry \<Rightarrow> bool" where
  "review_kept e e' \<longleftrightarrow>
     (if binding_pending e
      then te_id e' = te_id e \<and>
           (te_status e' = Dismissed \<and> te_room_binding e' = te_room_binding e \<or>
            te_status e' = Pending \<and>
            map_option rb_target_id (te_room_binding e') = map_option rb_target_id (te_room_binding e))
      else e' = e)"

lemma reconcile_loop_kept:
  "reconcile_loop t fresh now c es = (n, es', rs) \<Longrightarrow> list_all2 review_kept es es'"
proof (induction t fresh now c es arbitrary: n es' rs rule: reconcile_loop.induct)
  case (2 t fresh now c e es)
  have "review_kept e e"
    by (simp add: review_kept_def binding_pending_def)
  moreover have "review_kept e (mark_resolved Dismissed w now e)" if "reconcile_entry t e \<noteq> Keep" for w
    using that by (auto simp: review_kept_def mark_resolved_def reconcile_entry_def binding_pending_def)
  moreover have "review_kept e (e\<lparr>te_room_binding := Some p\<rparr>)" if "reconcile_entry t e = Refresh p" for p
    using that reconcile_entry_proposal [of t e p] by (auto simp: review_kept_def binding_pending_def)
  ultimately show ?case
    using 2 by (auto split: reconciliation.splits prod.splits)
qed simp

subsection \<open>Pruning\<close>

lemma list_ex_prune:
  "(\<And>e. P e \<Longrightarrow> te_status e = Pending \<or> durable_decision (te_kind e) (te_status e)) \<Longrightarrow>
   list_ex P (prune_resolved before q) = list_ex P q"
  by (auto simp: prune_resolved_def list_ex_iff)

section \<open>Properties\<close>

text \<open>C21: After a reconciliation every pending room binding agrees with the topology: its hub room
  is bound to an existing room, its candidates are distinct existing rooms other than that one
  with their current names, and its target is the first of them. Entries that are not pending
  bindings are not touched; a pending one keeps the target the user was shown or is dismissed.
  Reconciling again with the same topology changes nothing.\<close>

theorem reconcile_room_bindings_sound:
  assumes "reconcile_room_bindings t fresh now q = (n, q')"
  shows "(\<forall>e\<in>set q'. binding_pending e \<longrightarrow> binding_agrees t e) \<and>
    (\<exists>es rs. q' = es @ rs \<and> list_all2 review_kept q es) \<and>
    reconcile_room_bindings t fresh' now' q' = (0, q')"
proof -
  obtain es rs where r: "reconcile_loop t fresh now 0 q = (n, es, rs)" "q' = es @ rs"
    using assms by (auto simp: reconcile_room_bindings_def split: prod.splits)
  have "\<forall>e\<in>set q'. binding_pending e \<longrightarrow> binding_agrees t e"
    using reconcile_loop_agrees [OF r(1)] r(2) by simp
  then show ?thesis
    using reconcile_loop_kept [OF r(1)] r(2)
    by (auto simp: reconcile_room_bindings_def reconcile_loop_fixed)
qed

definition sample_topology :: topology_view where
  "sample_topology =
     \<lparr>tv_hub_room_index = [((''ha@h'', ''area''), ''r1'')],
      tv_room_names = [(''r1'', ''Kitchen''), (''r3'', ''Kitchen 3'')]\<rparr>"

definition sample_binding :: triage_entry where
  "sample_binding =
     \<lparr>te_id = ''t'', te_kind = RoomBinding, te_discovered = triage_discovered_default,
      te_hub_key = \<lparr>hk_type = ''ha'', hk_address = ''h''\<rparr>, te_candidates = [],
      te_room_binding = Some \<lparr>rb_hub_room_id = ''area'', rb_hub_room_name = ''Kitchen'',
        rb_control_id = [], rb_light_device_ids = [], rb_canonical_device_ids = [],
        rb_target_id = ''r2'', rb_target_name = ''Kitchen 2'',
        rb_candidates = [(''r2'', ''Kitchen 2''), (''r3'', ''Kitchen'')]\<rparr>,
      te_confidence = 80, te_status = Pending, te_resolved_by = None, te_created_at = 1,
      te_resolved_at = None, te_canonical_id = None\<rparr>"

theorem reconcile_room_bindings_sound_witness:
  "\<exists>q'. reconcile_room_bindings sample_topology (\<lambda>_. ''u'') 5 [sample_binding] = (2, q') \<and>
     (\<forall>e\<in>set q'. binding_pending e \<longrightarrow> binding_agrees sample_topology e)"
proof -
  have "fst (reconcile_room_bindings sample_topology (\<lambda>_. ''u'') 5 [sample_binding]) = 2"
    by (simp add: reconcile_room_bindings_def reconcile_entry_def reconcile_proposal_def opt_filter_def
        translate_room_id_def room_name_def display_hub_key_def sample_topology_def sample_binding_def)
  then obtain q' where q': "reconcile_room_bindings sample_topology (\<lambda>_. ''u'') 5 [sample_binding] = (2, q')"
    by (metis prod.collapse)
  then show ?thesis
    using reconcile_room_bindings_sound [OF q'] by blast
qed

text \<open>Pruning forgets only decisions that were made before the given time: every pending
  entry stays, and so does each answer of the queue about devices that wait for review, are
  quarantined, were left standalone or ignored, or are configured on their hub.\<close>

theorem prune_keeps_decisions:
  "pending (prune_resolved before q) = pending q \<and>
   has_device k n (prune_resolved before q) = has_device k n q \<and>
   has_unassigned_decision c (prune_resolved before q) = has_unassigned_decision c q \<and>
   quarantines_unassigned_device c (prune_resolved before q) = quarantines_unassigned_device c q \<and>
   has_hub_configured k n (prune_resolved before q) = has_hub_configured k n q \<and>
   (\<forall>e\<in>set q - set (prune_resolved before q).
      te_status e \<noteq> Pending \<and> (\<exists>t. te_resolved_at e = Some t \<and> t < before))"
proof (intro conjI)
  show "pending (prune_resolved before q) = pending q"
    by (auto simp: pending_def prune_resolved_def is_pending_def intro: filter_cong)
  show "has_device k n (prune_resolved before q) = has_device k n q"
    and "has_hub_configured k n (prune_resolved before q) = has_hub_configured k n q"
    unfolding has_device_def has_hub_configured_def by (rule list_ex_prune, simp)+
  show "has_unassigned_decision c (prune_resolved before q) = has_unassigned_decision c q"
    unfolding has_unassigned_decision_def by (rule list_ex_prune) (auto simp: is_unassigned_for_def)
  show "quarantines_unassigned_device c (prune_resolved before q) = quarantines_unassigned_device c q"
    unfolding quarantines_unassigned_device_def
    by (rule list_ex_prune) (auto simp: is_unassigned_for_def)
  show "\<forall>e\<in>set q - set (prune_resolved before q).
      te_status e \<noteq> Pending \<and> (\<exists>t. te_resolved_at e = Some t \<and> t < before)"
    by (auto simp: prune_resolved_def not_le split: option.splits)
qed

theorem prune_keeps_decisions_witness:
  "has_device \<lparr>hk_type = ''ha'', hk_address = ''h''\<rparr> [] (prune_resolved 9 [sample_binding])"
  using prune_keeps_decisions [of 9 "[sample_binding]" "\<lparr>hk_type = ''ha'', hk_address = ''h''\<rparr>" "[]" "[]"]
  by (simp add: has_device_def sample_binding_def triage_discovered_default_def)

text \<open>A confirmed room binding is not among the decisions that pruning keeps: once it is
  pruned, the queue no longer says that its hub room has a binding, so the room can be proposed
  again.\<close>

theorem prune_forgets_confirmed_binding:
  "let k = \<lparr>hk_type = ''ha'', hk_address = ''h''\<rparr>;
       q = snd (resolve_entry ''t'' Confirmed ''api'' 5 [sample_binding])
   in has_room_binding k ''area'' q \<and> \<not> has_room_binding k ''area'' (prune_resolved 9 q)"
  by (simp add: resolve_entry_def has_room_binding_def prune_resolved_def sample_binding_def
      mark_resolved_def)

end
