(* ===== verification/CanonicalRegistry.thy ===== *)
theory CanonicalRegistry
  imports Triage
begin

text \<open>
  The canonical device registry of \<open>rhythm-os/src/canonical/registry.rs\<close>: one record per
  physical device, two indices into them, the triage queue, and the resolution of discovered
  devices.

  A \<open>HashMap\<close> is an association list in its iteration order, so what is proved holds for every
  order. \<open>lower\<close> stands for \<open>str::to_lowercase\<close> of the standard library (the Unicode tables);
  \<open>uuid\<close> is the identifier that \<open>generate_uuid\<close> returned to the operation, and \<open>now\<close> the clock
  where the operation reads it.
\<close>

section \<open>State\<close>

datatype resolve_result =
    AlreadyKnown (resolved_id: string) | ReApproved (resolved_id: string)
  | Queued (queued_entry: string) | Created (resolved_id: string)

record visibility_report =
  vr_affected :: "string list"
  vr_hidden :: "string list"

datatype name_ownership = Automatic | User

record canonical_registry =
  cr_devices :: "(string, canonical_device) hmap"
  cr_triage :: triage_queue
  cr_names :: "(string, name_ownership) hmap"
  cr_hw :: "(string, string) hmap"
  cr_native :: "((string \<times> string), string) hmap"

definition registry_new :: canonical_registry where
  "registry_new = \<lparr>cr_devices = [], cr_triage = queue_new, cr_names = [], cr_hw = [], cr_native = []\<rparr>"

definition native_key :: "hub_key \<Rightarrow> string \<Rightarrow> string \<times> string" where
  "native_key k n = (display_hub_key k, n)"

definition index_device :: "string \<times> canonical_device \<Rightarrow> canonical_registry \<Rightarrow> canonical_registry" where
  "index_device kd reg =
     (case kd of (i, d) \<Rightarrow>
        reg\<lparr>cr_hw := fold (\<lambda>h. AList.update (hw_value h) i) (cd_hardware_ids d) (cr_hw reg),
            cr_native :=
              fold (\<lambda>e. AList.update (native_key (ep_hub_key e) (ep_native_id e)) i)
                (cd_endpoints d) (cr_native reg)\<rparr>)"

definition rebuild_indices :: "canonical_registry \<Rightarrow> canonical_registry" where
  "rebuild_indices reg = fold index_device (cr_devices reg) (reg\<lparr>cr_hw := [], cr_native := []\<rparr>)"

definition put_device :: "string \<Rightarrow> canonical_device \<Rightarrow> canonical_registry \<Rightarrow> canonical_registry" where
  "put_device i d reg = reg\<lparr>cr_devices := AList.update i d (cr_devices reg)\<rparr>"

section \<open>Resolution\<close>

text \<open>The loop that adds the hardware identifiers a device does not have yet.\<close>

fun add_hardware ::
    "string \<Rightarrow> hardware_id list \<Rightarrow> canonical_device \<times> (string, string) hmap \<Rightarrow>
     canonical_device \<times> (string, string) hmap" where
  "add_hardware i [] (d, hw) = (d, hw)"
| "add_hardware i (h # hs) (d, hw) =
     (if has_hardware_id h d then add_hardware i hs (d, hw)
      else add_hardware i hs
        (d\<lparr>cd_hardware_ids := cd_hardware_ids d @ [h]\<rparr>, AList.update (hw_value h) i hw))"

definition identity_room :: "discovered_identity \<Rightarrow> string option" where
  "identity_room ident = opt_filter (\<lambda>n. n \<noteq> []) (di_room_name ident)"

text \<open>Phase 1: the device is already registered on this hub.\<close>

definition resolve_known ::
    "discovered_identity \<Rightarrow> hub_key \<Rightarrow> u64 \<Rightarrow> canonical_registry \<Rightarrow>
     (resolve_result \<times> canonical_registry) option" where
  "resolve_known ident k now reg =
     (case map_of (cr_native reg) (native_key k (di_native_id ident)) of
        None \<Rightarrow> None
      | Some i \<Rightarrow> (case map_of (cr_devices reg) i of
          None \<Rightarrow> None
        | Some d \<Rightarrow>
            if cd_device_type d \<noteq> di_device_type ident then None
            else
              (let legacy = (map_of (cr_names reg) i = None);
                   d1 = (if is_removed d then d\<lparr>cd_removed_at := None\<rparr> else d);
                   matches = (legacy \<and> trim (cd_name d1) = trim (di_name ident));
                   d2 = upsert_endpoint k (di_native_id ident) now (identity_room ident) d1;
                   (d3, hw) = add_hardware i (di_hardware_ids ident) (d2, cr_hw reg);
                   reg1 = (put_device i d3 reg)\<lparr>cr_hw := hw\<rparr>
               in Some (AlreadyKnown i,
                    if matches then reg1\<lparr>cr_names := AList.update i Automatic (cr_names reg1)\<rparr>
                    else reg1))))"

text \<open>Phase 2: the first hardware identifier that leads to a live device of the same type.\<close>

fun hardware_match ::
    "discovered_identity \<Rightarrow> canonical_registry \<Rightarrow> hardware_id list \<Rightarrow>
     (string \<times> canonical_device) option" where
  "hardware_match ident reg [] = None"
| "hardware_match ident reg (h # hs) =
     (case map_of (cr_hw reg) (hw_value h) of
        None \<Rightarrow> hardware_match ident reg hs
      | Some i \<Rightarrow> (case map_of (cr_devices reg) i of
          None \<Rightarrow> hardware_match ident reg hs
        | Some d \<Rightarrow>
            if is_removed d \<or> cd_device_type d \<noteq> di_device_type ident
            then hardware_match ident reg hs
            else Some (i, d)))"

definition stale_native_id :: "discovered_identity \<Rightarrow> hub_key \<Rightarrow> canonical_device \<Rightarrow> string option" where
  "stale_native_id ident k d =
     map_option ep_native_id
       (find (\<lambda>e. ep_hub_key e = k \<and> ep_native_id e \<noteq> di_native_id ident) (cd_endpoints d))"

definition rekey_endpoint ::
    "discovered_identity \<Rightarrow> hub_key \<Rightarrow> u64 \<Rightarrow> string \<Rightarrow> canonical_device \<Rightarrow> canonical_device" where
  "rekey_endpoint ident k now stale d =
     d\<lparr>cd_endpoints :=
        modify_first (is_endpoint k stale)
          (\<lambda>e. e\<lparr>ep_native_id := di_native_id ident, ep_last_seen := now, ep_active := True,
                  ep_source_room_name :=
                    (if identity_room ident \<noteq> None then identity_room ident
                     else ep_source_room_name e)\<rparr>)
          (cd_endpoints d)\<rparr>"

definition previously_approved :: "discovered_identity \<Rightarrow> hub_key \<Rightarrow> canonical_device \<Rightarrow> bool" where
  "previously_approved ident k d \<longleftrightarrow>
     list_ex (\<lambda>m. mr_source_hub m = k \<and> mr_source_native_id m = di_native_id ident)
       (cd_merge_history d)"

definition merge_entry ::
    "discovered_identity \<Rightarrow> hub_key \<Rightarrow> u64 \<Rightarrow> candidate_match list \<Rightarrow> u32 \<Rightarrow> triage_entry" where
  "merge_entry ident k now cands conf =
     \<lparr>te_id = ''triage-'' @ show_nat (unat now) @ ''-'' @ di_native_id ident,
      te_kind = DeviceMerge, te_discovered = triage_discovered_of ident, te_hub_key = k,
      te_candidates = cands, te_room_binding = None, te_confidence = conf, te_status = Pending,
      te_resolved_by = None, te_created_at = now, te_resolved_at = None, te_canonical_id = None\<rparr>"

text \<open>
  Phase 2 ends the resolution with a re-keyed endpoint or a re-applied merge (left), or goes on
  with the registry in which the match is queued (right).
\<close>

definition resolve_hardware ::
    "discovered_identity \<Rightarrow> hub_key \<Rightarrow> u64 \<Rightarrow> canonical_registry \<Rightarrow>
     (resolve_result \<times> canonical_registry) + canonical_registry" where
  "resolve_hardware ident k now reg =
     (case hardware_match ident reg (di_hardware_ids ident) of
        None \<Rightarrow> Inr reg
      | Some (i, d) \<Rightarrow> (case stale_native_id ident k d of
          Some stale \<Rightarrow>
            (let (d', hw) = add_hardware i (di_hardware_ids ident)
                              (rekey_endpoint ident k now stale d, cr_hw reg)
             in Inl (AlreadyKnown i,
                  (put_device i d' reg)
                    \<lparr>cr_hw := hw,
                     cr_native := AList.update (native_key k (di_native_id ident)) i
                       (AList.delete (native_key k stale) (cr_native reg))\<rparr>))
        | None \<Rightarrow>
            if previously_approved ident k d then
              (let (d', hw) = add_hardware i (di_hardware_ids ident)
                     (upsert_endpoint k (di_native_id ident) now (identity_room ident) d, cr_hw reg)
               in Inl (ReApproved i,
                    (put_device i d' reg)
                      \<lparr>cr_hw := hw,
                       cr_native := AList.update (native_key k (di_native_id ident)) i (cr_native reg)\<rparr>))
            else if has_device k (di_native_id ident) (cr_triage reg) then Inr reg
            else Inr (reg\<lparr>cr_triage := queue_add
                   (merge_entry ident k now
                      [\<lparr>cm_canonical_id = i, cm_name = cd_name d, cm_score = 100,
                        cm_reasons = [ExactHardware]\<rparr>] 100) (cr_triage reg)\<rparr>)))"

subsection \<open>Heuristic candidates\<close>

definition name_score :: "(string \<Rightarrow> string) \<Rightarrow> string \<Rightarrow> string \<Rightarrow> u32 \<times> match_reason list" where
  "name_score lower a b =
     (if lower a = lower b then (4, [ExactName])
      else if sublist (lower b) (lower a) \<or> sublist (lower a) (lower b) then (2, [PartialName])
      else (0, []))"

definition same_text :: "(string \<Rightarrow> string) \<Rightarrow> string option \<Rightarrow> string option \<Rightarrow> bool" where
  "same_text lower a b \<longleftrightarrow>
     (case (a, b) of (Some x, Some y) \<Rightarrow> lower x = lower y | _ \<Rightarrow> False)"

definition candidate_for ::
    "(string \<Rightarrow> string) \<Rightarrow> discovered_identity \<Rightarrow> hub_key \<Rightarrow> string \<times> canonical_device \<Rightarrow>
     candidate_match option" where
  "candidate_for lower ident k kd =
     (case kd of (i, d) \<Rightarrow>
        if is_removed d \<or> cd_device_type d \<noteq> di_device_type ident \<or>
           \<not> list_ex (\<lambda>e. ep_hub_key e \<noteq> k) (cd_endpoints d)
        then None
        else
          (let room = unwrap_or (map_option lower (di_room_name ident)) [];
               room_match = (room \<noteq> [] \<and>
                 list_ex (\<lambda>e. map_option lower (ep_source_room_name e) = Some room) (cd_endpoints d));
               (name_points, name_reasons) = name_score lower (cd_name d) (di_name ident);
               maker = same_text lower (cd_manufacturer d) (di_manufacturer ident);
               model = same_text lower (cd_model d) (di_model ident);
               score = (if room_match then 3 else 0) + name_points +
                       (if maker then 2 else 0) + (if model then 2 else 0);
               reasons = [SameDeviceType] @ (if room_match then [SameRoom] else []) @ name_reasons @
                       (if maker then [SameManufacturer] else []) @ (if model then [SameModel] else [])
           in if 3 \<le> score
              then Some \<lparr>cm_canonical_id = i, cm_name = cd_name d, cm_score = score,
                         cm_reasons = reasons\<rparr>
              else None))"

text \<open>The sort by descending score is stable.\<close>

definition heuristic_candidates ::
    "(string \<Rightarrow> string) \<Rightarrow> discovered_identity \<Rightarrow> hub_key \<Rightarrow> canonical_registry \<Rightarrow>
     candidate_match list" where
  "heuristic_candidates lower ident k reg =
     sort_key (\<lambda>c. - uint (cm_score c)) (List.map_filter (candidate_for lower ident k) (cr_devices reg))"

text \<open>Phase 3, for devices that were discovered without a hardware identifier.\<close>

definition queue_heuristic ::
    "(string \<Rightarrow> string) \<Rightarrow> discovered_identity \<Rightarrow> hub_key \<Rightarrow> u64 \<Rightarrow> canonical_registry \<Rightarrow>
     canonical_registry" where
  "queue_heuristic lower ident k now reg =
     (if di_hardware_ids ident \<noteq> [] then reg
      else (case heuristic_candidates lower ident k reg of
          [] \<Rightarrow> reg
        | c # cs \<Rightarrow>
            if has_device k (di_native_id ident) (cr_triage reg) then reg
            else reg\<lparr>cr_triage :=
                   queue_add (merge_entry ident k now (c # cs) (cm_score c)) (cr_triage reg)\<rparr>))"

text \<open>Phase 4: a new device, usable at once.\<close>

definition create_device ::
    "string \<Rightarrow> discovered_identity \<Rightarrow> hub_key \<Rightarrow> u64 \<Rightarrow> canonical_registry \<Rightarrow>
     resolve_result \<times> canonical_registry" where
  "create_device uuid ident k now reg =
     (let d = (device_new uuid (di_name ident) (di_device_type ident) (di_hardware_ids ident) now)
                \<lparr>cd_manufacturer := di_manufacturer ident, cd_model := di_model ident\<rparr>;
          d' = upsert_endpoint k (di_native_id ident) now (identity_room ident) d
      in (Created uuid,
          (put_device uuid d' reg)
            \<lparr>cr_names := AList.update uuid Automatic (cr_names reg),
             cr_hw := fold (\<lambda>h. AList.update (hw_value h) uuid) (di_hardware_ids ident) (cr_hw reg),
             cr_native := AList.update (native_key k (di_native_id ident)) uuid (cr_native reg)\<rparr>))"

definition resolve ::
    "(string \<Rightarrow> string) \<Rightarrow> string \<Rightarrow> discovered_identity \<Rightarrow> hub_key \<Rightarrow> u64 \<Rightarrow> canonical_registry \<Rightarrow>
     resolve_result \<times> canonical_registry" where
  "resolve lower uuid ident k now reg =
     (case resolve_known ident k now reg of
        Some r \<Rightarrow> r
      | None \<Rightarrow> (case resolve_hardware ident k now reg of
          Inl r \<Rightarrow> r
        | Inr reg1 \<Rightarrow> create_device uuid ident k now (queue_heuristic lower ident k now reg1)))"

section \<open>Decisions of the user\<close>

definition discovered_room :: "triage_discovered \<Rightarrow> string option" where
  "discovered_room td = (if td_room_name td = [] then None else Some (td_room_name td))"

text \<open>A name the user gave the merged-away device survives unless the target has one too.\<close>

definition adopt_user_name ::
    "string \<Rightarrow> string \<times> string \<Rightarrow> canonical_device \<Rightarrow> canonical_registry \<Rightarrow>
     canonical_device \<times> (string, name_ownership) hmap" where
  "adopt_user_name cid key d reg =
     (let source_name =
            (case opt_filter (\<lambda>s. s \<noteq> cid) (map_of (cr_native reg) key) of
               None \<Rightarrow> None
             | Some s \<Rightarrow>
                 if map_of (cr_names reg) s = Some User
                 then map_option cd_name (map_of (cr_devices reg) s) else None);
          target_user = (map_of (cr_names reg) cid = Some User)
      in case source_name of
           Some nm \<Rightarrow>
             if target_user then (d, cr_names reg)
             else (d\<lparr>cd_name := nm\<rparr>, AList.update cid User (cr_names reg))
         | None \<Rightarrow> (d, cr_names reg))"

definition complete_merge ::
    "string \<Rightarrow> string \<Rightarrow> hub_key \<Rightarrow> u64 \<Rightarrow> canonical_registry \<Rightarrow> bool \<times> canonical_registry" where
  "complete_merge entry_id cid k now reg =
     (case queue_get entry_id (cr_triage reg) of
        None \<Rightarrow> (False, reg)
      | Some entry \<Rightarrow> (case map_of (cr_devices reg) cid of
          None \<Rightarrow> (False, reg)
        | Some d \<Rightarrow>
            if is_removed d then (False, reg)
            else
              (let native = td_native_id (te_discovered entry);
                   (d1, names) = adopt_user_name cid (native_key k native) d reg;
                   d2 = record_merge k native ''triage_confirmed'' now
                          (upsert_endpoint k native now (discovered_room (te_discovered entry)) d1)
               in (True,
                   (put_device cid d2 reg)
                     \<lparr>cr_names := names,
                      cr_native := AList.update (native_key k native) cid (cr_native reg),
                      cr_triage := snd (resolve_entry entry_id Confirmed ''api'' now (cr_triage reg))\<rparr>))))"

definition automatic_name_eligible :: "string \<Rightarrow> canonical_registry \<Rightarrow> bool" where
  "automatic_name_eligible i reg \<longleftrightarrow> map_of (cr_names reg) i = Some Automatic"

definition complete_new_device ::
    "string \<Rightarrow> string \<Rightarrow> hub_key \<Rightarrow> u64 \<Rightarrow> canonical_registry \<Rightarrow> string option \<times> canonical_registry" where
  "complete_new_device uuid entry_id k now reg =
     (case queue_get entry_id (cr_triage reg) of
        None \<Rightarrow> (None, reg)
      | Some entry \<Rightarrow>
          (let td = te_discovered entry;
               native = td_native_id td;
               room = discovered_room td;
               triage = snd (resolve_new entry_id now (cr_triage reg));
               existing =
                 (case map_of (cr_native reg) (native_key k native) of
                    None \<Rightarrow> None
                  | Some i \<Rightarrow> map_option (Pair i) (opt_filter (\<lambda>d. \<not> is_removed d) (map_of (cr_devices reg) i)))
           in case existing of
                Some (i, d) \<Rightarrow>
                  (let d1 = (if automatic_name_eligible i reg then d\<lparr>cd_name := td_name td\<rparr> else d);
                       d2 = d1\<lparr>cd_manufacturer := opt_or (cd_manufacturer d1) (td_manufacturer td),
                               cd_model := opt_or (cd_model d1) (td_model td)\<rparr>
                   in (Some i,
                       (put_device i (upsert_endpoint k native now room d2) reg)\<lparr>cr_triage := triage\<rparr>))
              | None \<Rightarrow>
                  (let d = (device_new uuid (td_name td) (td_device_type td) [] now)
                             \<lparr>cd_manufacturer := td_manufacturer td, cd_model := td_model td\<rparr>
                   in (Some uuid,
                       (put_device uuid (upsert_endpoint k native now room d) reg)
                         \<lparr>cr_native := AList.update (native_key k native) uuid (cr_native reg),
                          cr_names := AList.update uuid Automatic (cr_names reg),
                          cr_triage := triage\<rparr>))))"

definition soft_remove :: "string \<Rightarrow> u64 \<Rightarrow> canonical_registry \<Rightarrow> bool \<times> canonical_registry" where
  "soft_remove i now reg =
     (case map_of (cr_devices reg) i of
        None \<Rightarrow> (False, reg)
      | Some d \<Rightarrow>
          (True, (put_device i (d\<lparr>cd_removed_at := Some now\<rparr>) reg)
             \<lparr>cr_triage := snd (resolve_unassigned_for_device i now (cr_triage reg))\<rparr>))"

definition unassigned_entry :: "string \<Rightarrow> u64 \<Rightarrow> canonical_device \<Rightarrow> integration_endpoint \<Rightarrow> triage_entry" where
  "unassigned_entry i now d e =
     \<lparr>te_id = ''unassigned-'' @ i @ ''-'' @ show_nat (unat now), te_kind = UnassignedDevice,
      te_discovered =
        \<lparr>td_native_id = ep_native_id e, td_name = cd_name d, td_device_type = cd_device_type d,
         td_room_id = [], td_room_name = [], td_manufacturer = None, td_model = None\<rparr>,
      te_hub_key = ep_hub_key e, te_candidates = [], te_room_binding = None, te_confidence = 0,
      te_status = Pending, te_resolved_by = None, te_created_at = now, te_resolved_at = None,
      te_canonical_id = Some i\<rparr>"

definition queue_unassigned :: "string \<Rightarrow> u64 \<Rightarrow> canonical_registry \<Rightarrow> canonical_registry" where
  "queue_unassigned i now reg =
     (if has_unassigned_decision i (cr_triage reg) then reg
      else (case opt_filter (\<lambda>d. \<not> is_removed d) (map_of (cr_devices reg) i) of
          None \<Rightarrow> reg
        | Some d \<Rightarrow> (case active_endpoints d of
            [] \<Rightarrow> reg
          | e # _ \<Rightarrow> reg\<lparr>cr_triage := queue_add (unassigned_entry i now d e) (cr_triage reg)\<rparr>)))"

section \<open>Queries\<close>

definition registry_devices :: "canonical_registry \<Rightarrow> canonical_device list" where
  "registry_devices reg = filter (\<lambda>d. \<not> is_removed d) (map snd (cr_devices reg))"

definition device_references_hub :: "hub_key \<Rightarrow> canonical_device \<Rightarrow> bool" where
  "device_references_hub k d \<longleftrightarrow>
     list_ex (\<lambda>e. ep_hub_key e = k) (cd_endpoints d) \<or>
     list_ex (\<lambda>m. mr_source_hub m = k) (cd_merge_history d)"

definition references_hub_key :: "hub_key \<Rightarrow> canonical_registry \<Rightarrow> bool" where
  "references_hub_key k reg \<longleftrightarrow>
     list_ex (device_references_hub k) (map snd (cr_devices reg)) \<or>
     queue_references_hub_key k (cr_triage reg)"

definition referenced_hub_keys :: "canonical_registry \<Rightarrow> hub_key set" where
  "referenced_hub_keys reg =
     set (concat (map (\<lambda>d. map ep_hub_key (cd_endpoints d) @ map mr_source_hub (cd_merge_history d))
                   (map snd (cr_devices reg)))
          @ queue_referenced_hub_keys (cr_triage reg))"

definition remap_device :: "hub_key \<Rightarrow> hub_key \<Rightarrow> canonical_device \<Rightarrow> canonical_device" where
  "remap_device old new d =
     d\<lparr>cd_endpoints :=
          map (\<lambda>e. if ep_hub_key e = old then e\<lparr>ep_hub_key := new\<rparr> else e) (cd_endpoints d),
        cd_merge_history :=
          map (\<lambda>m. if mr_source_hub m = old then m\<lparr>mr_source_hub := new\<rparr> else m) (cd_merge_history d)\<rparr>"

definition remap_hub_key :: "hub_key \<Rightarrow> hub_key \<Rightarrow> canonical_registry \<Rightarrow> bool \<times> canonical_registry" where
  "remap_hub_key old new reg =
     (if old = new then (False, reg)
      else
        (let (triage_changed, q) = queue_remap_hub_key old new (cr_triage reg);
             changed = (list_ex (device_references_hub old) (map snd (cr_devices reg)) \<or> triage_changed);
             reg1 = reg\<lparr>cr_devices := hm_map (remap_device old new) (cr_devices reg), cr_triage := q\<rparr>
         in (changed, if changed then rebuild_indices reg1 else reg1)))"

definition registry_get :: "string \<Rightarrow> canonical_registry \<Rightarrow> canonical_device option" where
  "registry_get i reg = map_of (cr_devices reg) i"

definition rename_device_by_user :: "string \<Rightarrow> string \<Rightarrow> canonical_registry \<Rightarrow> bool \<times> canonical_registry" where
  "rename_device_by_user i nm reg =
     (case opt_filter (\<lambda>d. \<not> is_removed d) (map_of (cr_devices reg) i) of
        None \<Rightarrow> (False, reg)
      | Some d \<Rightarrow>
          (True, (put_device i (d\<lparr>cd_name := nm\<rparr>) reg)\<lparr>cr_names := AList.update i User (cr_names reg)\<rparr>))"

definition find_by_native_id :: "hub_key \<Rightarrow> string \<Rightarrow> canonical_registry \<Rightarrow> canonical_device option" where
  "find_by_native_id k n reg =
     (case map_of (cr_native reg) (native_key k n) of
        None \<Rightarrow> None | Some i \<Rightarrow> map_of (cr_devices reg) i)"

definition find_by_hardware_id :: "hardware_id \<Rightarrow> canonical_registry \<Rightarrow> canonical_device option" where
  "find_by_hardware_id h reg =
     (case map_of (cr_hw reg) (hw_value h) of
        None \<Rightarrow> None | Some i \<Rightarrow> map_of (cr_devices reg) i)"

definition has_active_endpoints_for_hub :: "hub_key \<Rightarrow> canonical_registry \<Rightarrow> bool" where
  "has_active_endpoints_for_hub k reg \<longleftrightarrow>
     list_ex (\<lambda>d. \<not> is_removed d \<and> list_ex (\<lambda>e. ep_hub_key e = k) (active_endpoints d))
       (map snd (cr_devices reg))"

definition devices_in_room :: "string \<Rightarrow> canonical_registry \<Rightarrow> canonical_device list" where
  "devices_in_room r reg = filter (\<lambda>d. cd_room_id d = Some r) (map snd (cr_devices reg))"

definition devices_by_type :: "device_type \<Rightarrow> canonical_registry \<Rightarrow> canonical_device list" where
  "devices_by_type ty reg = filter (\<lambda>d. cd_device_type d = ty) (map snd (cr_devices reg))"

definition device_count :: "canonical_registry \<Rightarrow> nat" where
  "device_count reg = length (cr_devices reg)"

section \<open>Mutations\<close>

definition assign_room :: "string \<Rightarrow> string option \<Rightarrow> u64 \<Rightarrow> canonical_registry \<Rightarrow> bool \<times> canonical_registry" where
  "assign_room i room now reg =
     (case map_of (cr_devices reg) i of
        None \<Rightarrow> (False, reg)
      | Some d \<Rightarrow>
          (let reg1 = put_device i (d\<lparr>cd_room_id := room\<rparr>) reg
           in (True,
               if room \<noteq> None
               then reg1\<lparr>cr_triage := snd (resolve_unassigned_for_device i now (cr_triage reg1))\<rparr>
               else queue_unassigned i now reg1)))"

definition set_preferred_endpoint ::
    "string \<Rightarrow> hub_key \<Rightarrow> string \<Rightarrow> canonical_registry \<Rightarrow> bool \<times> canonical_registry" where
  "set_preferred_endpoint i k n reg =
     (case map_of (cr_devices reg) i of
        None \<Rightarrow> (False, reg)
      | Some d \<Rightarrow>
          (True, put_device i
             (d\<lparr>cd_endpoints := map (\<lambda>e. e\<lparr>ep_preferred := is_endpoint k n e\<rparr>) (cd_endpoints d)\<rparr>) reg))"

definition is_missing :: "hub_key \<Rightarrow> string set \<Rightarrow> integration_endpoint \<Rightarrow> bool" where
  "is_missing k found e \<longleftrightarrow> ep_hub_key e = k \<and> ep_active e \<and> ep_native_id e \<notin> found"

definition deactivate_device :: "hub_key \<Rightarrow> string set \<Rightarrow> canonical_device \<Rightarrow> canonical_device" where
  "deactivate_device k found d =
     (if is_removed d then d
      else d\<lparr>cd_endpoints :=
             map (\<lambda>e. if is_missing k found e then e\<lparr>ep_active := False\<rparr> else e) (cd_endpoints d)\<rparr>)"

definition loses_endpoint :: "hub_key \<Rightarrow> string set \<Rightarrow> canonical_device \<Rightarrow> bool" where
  "loses_endpoint k found d \<longleftrightarrow> \<not> is_removed d \<and> list_ex (is_missing k found) (cd_endpoints d)"

definition deactivate_missing_endpoints_for_hub ::
    "hub_key \<Rightarrow> string set \<Rightarrow> canonical_registry \<Rightarrow> visibility_report \<times> canonical_registry" where
  "deactivate_missing_endpoints_for_hub k found reg =
     (let hit = filter (\<lambda>(i, d). loses_endpoint k found d) (cr_devices reg);
          hidden = filter (\<lambda>(i, d). \<not> has_active_endpoint (deactivate_device k found d)) hit
      in (\<lparr>vr_affected = sort (map fst hit), vr_hidden = sort (map fst hidden)\<rparr>,
          reg\<lparr>cr_devices := hm_map (deactivate_device k found) (cr_devices reg)\<rparr>))"

text \<open>The clean-up of an index: the entries of the device's own keys that lead to it.\<close>

definition drop_own :: "string \<Rightarrow> 'k list \<Rightarrow> ('k, string) hmap \<Rightarrow> ('k, string) hmap" where
  "drop_own i ks m = fold (\<lambda>k m. if map_of m k = Some i then AList.delete k m else m) ks m"

definition remove_device :: "string \<Rightarrow> u64 \<Rightarrow> canonical_registry \<Rightarrow> canonical_device option \<times> canonical_registry" where
  "remove_device i now reg =
     (case map_of (cr_devices reg) i of
        None \<Rightarrow> (None, reg)
      | Some d \<Rightarrow>
          (Some d,
           reg\<lparr>cr_devices := AList.delete i (cr_devices reg),
               cr_names := AList.delete i (cr_names reg),
               cr_triage := snd (resolve_unassigned_for_device i now (cr_triage reg)),
               cr_hw := drop_own (cd_id d) (map hw_value (cd_hardware_ids d)) (cr_hw reg),
               cr_native :=
                 drop_own (cd_id d)
                   (map (\<lambda>e. native_key (ep_hub_key e) (ep_native_id e)) (cd_endpoints d)) (cr_native reg)\<rparr>))"

text \<open>The last way to reach a device takes the device with it; else one endpoint stays preferred.\<close>

definition keep_preferred :: "integration_endpoint list \<Rightarrow> integration_endpoint list" where
  "keep_preferred es =
     (case es of
        [] \<Rightarrow> []
      | e # rest \<Rightarrow> if list_ex ep_preferred es then es else e\<lparr>ep_preferred := True\<rparr> # rest)"

definition remove_endpoint ::
    "hub_key \<Rightarrow> string \<Rightarrow> u64 \<Rightarrow> canonical_registry \<Rightarrow> (string \<times> bool) option \<times> canonical_registry" where
  "remove_endpoint k n now reg =
     (case map_of (cr_native reg) (native_key k n) of
        None \<Rightarrow> (None, reg)
      | Some i \<Rightarrow>
          (let reg1 = reg\<lparr>cr_native := AList.delete (native_key k n) (cr_native reg)\<rparr> in
           case map_of (cr_devices reg1) i of
             None \<Rightarrow> (None, reg1)
           | Some d \<Rightarrow>
               (let es = filter (\<lambda>e. \<not> is_endpoint k n e) (cd_endpoints d);
                    reg2 = put_device i (d\<lparr>cd_endpoints := keep_preferred es\<rparr>) reg1
                in (Some (i, es = []), if es = [] then snd (remove_device i now reg2) else reg2))))"

definition retire_endpoint_identity ::
    "hub_key \<Rightarrow> string \<Rightarrow> canonical_registry \<Rightarrow> string option \<times> canonical_registry" where
  "retire_endpoint_identity k n reg =
     (case map_of (cr_native reg) (native_key k n) of
        None \<Rightarrow> (None, reg)
      | Some i \<Rightarrow>
          (Some i,
           reg\<lparr>cr_native := AList.delete (native_key k n) (cr_native reg),
               cr_devices :=
                 hm_modify i (\<lambda>d. d\<lparr>cd_endpoints := filter (\<lambda>e. \<not> is_endpoint k n e) (cd_endpoints d)\<rparr>)
                   (cr_devices reg)\<rparr>))"

definition restore_proven_endpoint ::
    "string \<Rightarrow> integration_endpoint \<Rightarrow> string \<Rightarrow> canonical_registry \<Rightarrow> canonical_registry" where
  "restore_proven_endpoint i previous n reg =
     (let new_key = native_key (ep_hub_key previous) n;
          old_key = native_key (ep_hub_key previous) (ep_native_id previous);
          restored = previous\<lparr>ep_native_id := n\<rparr>;
          is_old = is_endpoint (ep_hub_key previous) (ep_native_id previous)
      in if (case map_of (cr_native reg) new_key of Some j \<Rightarrow> j \<noteq> i | None \<Rightarrow> False) then reg
         else (case opt_filter (\<lambda>d. \<not> is_removed d) (map_of (cr_devices reg) i) of
             None \<Rightarrow> reg
           | Some d \<Rightarrow>
               (let d' = d\<lparr>cd_endpoints :=
                      (if list_ex is_old (cd_endpoints d)
                       then modify_first is_old (\<lambda>_. restored) (cd_endpoints d)
                       else cd_endpoints d @ [restored])\<rparr>;
                    native = (if map_of (cr_native reg) old_key = Some i
                              then AList.delete old_key (cr_native reg) else cr_native reg)
                in (put_device i d' reg)\<lparr>cr_native := AList.update new_key i native\<rparr>)))"

definition backfill_unassigned_triage :: "u64 \<Rightarrow> canonical_registry \<Rightarrow> canonical_registry" where
  "backfill_unassigned_triage now reg =
     fold (\<lambda>(i, active) r.
             if active then queue_unassigned i now r
             else r\<lparr>cr_triage := snd (resolve_unassigned_for_device i now (cr_triage r))\<rparr>)
       (map (\<lambda>d. (cd_id d, has_active_endpoint d))
          (filter (\<lambda>d. cd_room_id d = None \<and> \<not> is_removed d) (map snd (cr_devices reg))))
       reg"

text \<open>
  \<open>do_triage_merge\<close> of \<open>rhythm-os/src/commands.rs\<close>, the part that acts on the registry: the silo
  device is looked up before the merge and removed after it.
\<close>

definition confirm_merge ::
    "string \<Rightarrow> string \<Rightarrow> u64 \<Rightarrow> canonical_registry \<Rightarrow> bool \<times> canonical_registry" where
  "confirm_merge entry_id cid now reg =
     (case queue_get entry_id (cr_triage reg) of
        None \<Rightarrow> (False, reg)
      | Some entry \<Rightarrow>
          if te_kind entry \<noteq> DeviceMerge then (False, reg)
          else
            (let k = te_hub_key entry;
                 n = td_native_id (te_discovered entry);
                 silo = map_option cd_id (opt_filter (\<lambda>d. cd_id d \<noteq> cid) (find_by_native_id k n reg));
                 (merged, reg1) = complete_merge entry_id cid k now reg
             in if \<not> merged then (False, reg1)
                else (True, case silo of Some s \<Rightarrow> snd (remove_device s now reg1) | None \<Rightarrow> reg1)))"

end
