(* ===== verification/RegistryInvariants.thy ===== *)
theory RegistryInvariants
  imports CanonicalRegistry
begin

text \<open>
  The invariant of the canonical registry: keys and identifiers agree, names belong to devices,
  and both indices are sound. Every operation keeps it; the last section says so for all runs.
\<close>

section \<open>Registry invariant\<close>

text \<open>
  An index is sound when each of its entries leads to a device that has the key. The indices are
  not complete: a device keeps an endpoint or a hardware identifier whose entry leads to another
  device.
\<close>

definition index_sound ::
    "('d \<Rightarrow> 'k set) \<Rightarrow> (string, 'd) hmap \<Rightarrow> ('k, string) hmap \<Rightarrow> bool" where
  "index_sound keys devs idx \<longleftrightarrow>
     (\<forall>k i. map_of idx k = Some i \<longrightarrow> (\<exists>d. map_of devs i = Some d \<and> k \<in> keys d))"

definition endpoint_keys :: "canonical_device \<Rightarrow> (string \<times> string) set" where
  "endpoint_keys d = (\<lambda>e. native_key (ep_hub_key e) (ep_native_id e)) ` set (cd_endpoints d)"

definition hardware_keys :: "canonical_device \<Rightarrow> string set" where
  "hardware_keys d = hw_value ` set (cd_hardware_ids d)"

definition registry_ok :: "canonical_registry \<Rightarrow> bool" where
  "registry_ok reg \<longleftrightarrow>
     hm_ok (cr_devices reg) \<and> hm_ok (cr_names reg) \<and>
     (\<forall>i d. map_of (cr_devices reg) i = Some d \<longrightarrow> cd_id d = i) \<and>
     dom (map_of (cr_names reg)) \<subseteq> dom (map_of (cr_devices reg)) \<and>
     index_sound endpoint_keys (cr_devices reg) (cr_native reg) \<and>
     index_sound hardware_keys (cr_devices reg) (cr_hw reg)"

subsection \<open>Sound indices\<close>

named_theorems index_intros

lemma index_sound_Nil [index_intros, simp]: "index_sound keys devs []"
  by (simp add: index_sound_def)

lemma index_soundD:
  "index_sound keys devs idx \<Longrightarrow> map_of idx k = Some i \<Longrightarrow> \<exists>d. map_of devs i = Some d \<and> k \<in> keys d"
  by (simp add: index_sound_def)

lemma index_sound_replace:
  assumes "index_sound keys devs idx"
    and "\<And>d0 k. map_of devs i = Some d0 \<Longrightarrow> k \<in> keys d0 \<Longrightarrow> k \<notin> keys d \<Longrightarrow> map_of idx k \<noteq> Some i"
  shows "index_sound keys (AList.update i d devs) idx"
  unfolding index_sound_def
proof (intro allI impI)
  fix k j assume j: "map_of idx k = Some j"
  then obtain d0 where d0: "map_of devs j = Some d0" "k \<in> keys d0"
    using index_soundD [OF assms(1)] by blast
  show "\<exists>d'. map_of (AList.update i d devs) j = Some d' \<and> k \<in> keys d'"
  proof (cases "j = i")
    case True
    with j d0 assms(2) have "k \<in> keys d" by blast
    with True show ?thesis by (simp add: update_conv')
  qed (use d0 in \<open>simp add: update_conv'\<close>)
qed

lemma index_sound_put:
  "index_sound keys devs idx \<Longrightarrow> (\<And>d0. map_of devs i = Some d0 \<Longrightarrow> keys d0 \<subseteq> keys d) \<Longrightarrow>
   index_sound keys (AList.update i d devs) idx"
  by (rule index_sound_replace) auto

lemma index_sound_insert [index_intros]:
  "index_sound keys devs idx \<Longrightarrow> map_of devs i = Some d \<Longrightarrow> k \<in> keys d \<Longrightarrow>
   index_sound keys devs (AList.update k i idx)"
  by (simp add: index_sound_def update_conv')

lemma index_sound_delete [index_intros]:
  "index_sound keys devs idx \<Longrightarrow> index_sound keys devs (AList.delete k idx)"
  by (simp add: index_sound_def delete_conv')

lemma index_sound_remove:
  "index_sound keys devs idx \<Longrightarrow> (\<And>k. map_of idx k \<noteq> Some i) \<Longrightarrow>
   index_sound keys (AList.delete i devs) idx"
  by (auto simp: index_sound_def delete_conv')

lemma index_sound_values:
  assumes "index_sound keys devs idx"
    and "\<And>i d. map_of devs i = Some d \<Longrightarrow> \<exists>d'. map_of devs' i = Some d' \<and> keys d \<subseteq> keys d'"
  shows "index_sound keys devs' idx"
  using assms by (meson index_sound_def subsetD)

lemma index_sound_fold_insert [index_intros]:
  "index_sound keys devs idx \<Longrightarrow> map_of devs i = Some d \<Longrightarrow> f ` set xs \<subseteq> keys d \<Longrightarrow>
   index_sound keys devs (fold (\<lambda>x. AList.update (f x) i) xs idx)"
  by (induction xs arbitrary: idx) (auto intro: index_sound_insert)

lemma drop_own_lookup:
  "map_of (drop_own i ks m) k =
     (if k \<in> set ks \<and> map_of m k = Some i then None else map_of m k)"
  unfolding drop_own_def
  by (induction ks arbitrary: m) (auto simp: delete_conv')

lemma index_sound_drop_own:
  assumes "index_sound keys devs idx" and "map_of devs i = Some d" and "keys d \<subseteq> set ks"
  shows "index_sound keys (AList.delete i devs) (drop_own i ks idx)"
proof (rule index_sound_remove)
  show "index_sound keys devs (drop_own i ks idx)"
    using assms(1) by (auto simp: index_sound_def drop_own_lookup)
  show "map_of (drop_own i ks idx) k \<noteq> Some i" for k
    using index_soundD [OF assms(1), of k i] assms(2,3) by (auto simp: drop_own_lookup)
qed

subsection \<open>Device updates\<close>

lemma modify_first_map: "(\<And>y. g (f y) = g y) \<Longrightarrow> map g (modify_first p f xs) = map g xs"
  by (induction xs) auto

lemma modify_first_image: "(\<And>y. g (f y) = g y) \<Longrightarrow> g ` set (modify_first p f xs) = g ` set xs"
proof -
  assume "\<And>y. g (f y) = g y"
  then have "set (map g (modify_first p f xs)) = set (map g xs)"
    by (simp only: modify_first_map)
  then show ?thesis by simp
qed

lemma modify_first_hit:
  "list_ex p xs \<Longrightarrow> \<exists>x\<in>set xs. p x \<and> f x \<in> set (modify_first p f xs)"
  by (induction xs) auto

lemma modify_first_set: "set (modify_first p f xs) \<subseteq> set xs \<union> f ` {x \<in> set xs. p x}"
  by (induction xs) auto

lemma modify_first_others: "x \<in> set xs \<Longrightarrow> \<not> p x \<Longrightarrow> x \<in> set (modify_first p f xs)"
  by (induction xs) auto

lemma upsert_endpoint_known:
  "list_ex (is_endpoint k n) (cd_endpoints d) \<Longrightarrow>
   cd_endpoints (upsert_endpoint k n now room d) =
     modify_first (is_endpoint k n)
       (\<lambda>e. e\<lparr>ep_active := True, ep_last_seen := now,
               ep_source_room_name := (if room \<noteq> None then room else ep_source_room_name e)\<rparr>)
       (cd_endpoints d)"
  by (simp add: upsert_endpoint_def)

lemma upsert_endpoint_keys [simp]:
  "endpoint_keys (upsert_endpoint k n now room d) = insert (native_key k n) (endpoint_keys d)"
proof (cases "list_ex (is_endpoint k n) (cd_endpoints d)")
  case True
  then have "native_key k n \<in> endpoint_keys d"
    by (auto simp: list_ex_iff is_endpoint_def endpoint_keys_def)
  moreover have "endpoint_keys (upsert_endpoint k n now room d) = endpoint_keys d"
    unfolding endpoint_keys_def upsert_endpoint_known [OF True] by (rule modify_first_image) simp
  ultimately show ?thesis by (simp only: insert_absorb)
qed (simp add: upsert_endpoint_def endpoint_keys_def)

lemma upsert_endpoint_fields [simp]:
  "cd_id (upsert_endpoint k n now room d) = cd_id d"
  "cd_hardware_ids (upsert_endpoint k n now room d) = cd_hardware_ids d"
  "cd_device_type (upsert_endpoint k n now room d) = cd_device_type d"
  "cd_removed_at (upsert_endpoint k n now room d) = cd_removed_at d"
  "cd_merge_history (upsert_endpoint k n now room d) = cd_merge_history d"
  "cd_name (upsert_endpoint k n now room d) = cd_name d"
  by (simp_all add: upsert_endpoint_def)

lemma add_hardware_fst:
  "add_hardware i hs (d, hw) = (d', hw') \<Longrightarrow>
   \<exists>ids. d' = d\<lparr>cd_hardware_ids := cd_hardware_ids d @ ids\<rparr>"
proof (induction i hs "(d, hw)" arbitrary: d hw rule: add_hardware.induct)
  case (1 i d hw)
  then show ?case by (auto intro: exI [of _ "[]"])
next
  case (2 i h hs d hw)
  then show ?case by (fastforce split: if_splits)
qed

lemma add_hardware_keys:
  assumes "add_hardware i hs (d, hw) = (d', hw')"
  shows "cd_id d' = cd_id d" "cd_device_type d' = cd_device_type d" "cd_removed_at d' = cd_removed_at d"
    "cd_endpoints d' = cd_endpoints d" "endpoint_keys d' = endpoint_keys d"
    "hardware_keys d \<subseteq> hardware_keys d'" "cd_merge_history d' = cd_merge_history d" "cd_name d' = cd_name d"
  using add_hardware_fst [OF assms] by (auto simp: endpoint_keys_def hardware_keys_def)

lemma add_hardware_sound:
  assumes "add_hardware i hs (d, hw) = (d', hw')"
    and "index_sound hardware_keys (AList.update i d devs) hw"
  shows "index_sound hardware_keys (AList.update i d' devs) hw'"
  using assms
proof (induction i hs "(d, hw)" arbitrary: d hw rule: add_hardware.induct)
  case (2 i h hs d hw)
  show ?case
  proof (cases "has_hardware_id h d")
    case False
    let ?d = "d\<lparr>cd_hardware_ids := cd_hardware_ids d @ [h]\<rparr>"
    have "index_sound hardware_keys (AList.update i ?d devs) hw"
      using 2(4) by (rule index_sound_values) (auto simp: update_conv' hardware_keys_def)
    then have "index_sound hardware_keys (AList.update i ?d devs) (AList.update (hw_value h) i hw)"
      by (rule index_sound_insert [where d = ?d]) (simp_all add: update_conv' hardware_keys_def)
    with 2 False show ?thesis by simp
  qed (use 2 in simp)
qed simp

subsection \<open>Preservation\<close>

lemma registry_okD:
  assumes "registry_ok reg"
  shows "hm_ok (cr_devices reg)" "hm_ok (cr_names reg)"
    "map_of (cr_devices reg) i = Some d \<Longrightarrow> cd_id d = i"
    "dom (map_of (cr_names reg)) \<subseteq> dom (map_of (cr_devices reg))"
    "index_sound endpoint_keys (cr_devices reg) (cr_native reg)"
    "index_sound hardware_keys (cr_devices reg) (cr_hw reg)"
  using assms by (auto simp: registry_ok_def)

lemma registry_ok_new: "registry_ok registry_new"
  by (simp add: registry_ok_def registry_new_def)

lemma registry_ok_triage [simp]: "registry_ok (reg\<lparr>cr_triage := q\<rparr>) = registry_ok reg"
  by (simp add: registry_ok_def)

text \<open>The shape all updates of one device have.\<close>

lemma registry_ok_updateI:
  assumes "registry_ok reg" and "cr_devices reg' = AList.update i d (cr_devices reg)" and "cd_id d = i"
    and "cr_names reg' = cr_names reg \<or> (\<exists>w. cr_names reg' = AList.update i w (cr_names reg))"
    and "index_sound endpoint_keys (AList.update i d (cr_devices reg)) (cr_native reg')"
    and "index_sound hardware_keys (AList.update i d (cr_devices reg)) (cr_hw reg')"
  shows "registry_ok reg'"
proof -
  have n: "hm_ok (cr_names reg')"
    using assms(4) registry_okD(2) [OF assms(1)] by (auto simp: distinct_update)
  have "fst ` set (cr_names reg') \<subseteq> {i} \<union> fst ` set (cr_names reg)"
    using assms(4) by (elim disjE exE) (simp_all only: dom_update Un_upper2 order_refl)
  moreover have "fst ` set (cr_names reg) \<subseteq> fst ` set (cr_devices reg)"
    using registry_okD(4) [OF assms(1)] by (simp only: dom_map_of_conv_image_fst)
  ultimately have "dom (map_of (cr_names reg')) \<subseteq> dom (map_of (cr_devices reg'))"
    unfolding dom_map_of_conv_image_fst assms(2) dom_update by blast
  moreover have "hm_ok (cr_devices reg')"
    using registry_okD(1) [OF assms(1)] by (simp add: assms(2) distinct_update)
  moreover have "\<forall>j d'. map_of (cr_devices reg') j = Some d' \<longrightarrow> cd_id d' = j"
    using registry_okD(3) [OF assms(1)] assms(3) by (auto simp: assms(2) update_conv')
  ultimately show ?thesis
    unfolding registry_ok_def using n assms(5,6) by (simp only: assms(2))
qed

text \<open>An update that adds keys, and index entries for keys of the device.\<close>

lemma registry_ok_extend:
  assumes "registry_ok reg" and "map_of (cr_devices reg) i = Some d0" and "cd_id d = cd_id d0"
    and "endpoint_keys d0 \<subseteq> endpoint_keys d" and "hardware_keys d0 \<subseteq> hardware_keys d"
  shows "cd_id d = i"
    and "index_sound endpoint_keys (AList.update i d (cr_devices reg)) (cr_native reg)"
    and "index_sound hardware_keys (AList.update i d (cr_devices reg)) (cr_hw reg)"
  using assms registry_okD [OF assms(1)]
  by (auto intro!: index_sound_put)

lemma registry_ok_same_keys:
  assumes "registry_ok reg" and "map_of (cr_devices reg) i = Some d0" and "cd_id d = cd_id d0"
    and "cd_endpoints d = cd_endpoints d0" and "cd_hardware_ids d = cd_hardware_ids d0"
    and "cr_devices reg' = AList.update i d (cr_devices reg)"
    and "cr_names reg' = cr_names reg \<or> (\<exists>w. cr_names reg' = AList.update i w (cr_names reg))"
    and "cr_native reg' = cr_native reg" and "cr_hw reg' = cr_hw reg"
  shows "registry_ok reg'"
proof -
  have k: "endpoint_keys d = endpoint_keys d0" "hardware_keys d = hardware_keys d0"
    using assms(4,5) by (simp_all add: endpoint_keys_def hardware_keys_def)
  note e = registry_ok_extend [OF assms(1-3)]
  show ?thesis
    by (rule registry_ok_updateI [OF assms(1,6) _ assms(7)]) (use e k assms(8,9) in auto)
qed

lemma map_of_update_same [simp]: "map_of (AList.update i d m) i = Some d"
  by (simp add: update_conv')

lemma hardware_keys_upsert [simp]: "hardware_keys (upsert_endpoint k n now room d) = hardware_keys d"
  by (simp add: hardware_keys_def)

lemma resolve_known_ok:
  assumes "registry_ok reg" and "resolve_known ident k now reg = Some (r, reg')"
  shows "registry_ok reg'"
proof -
  obtain i d where i: "map_of (cr_native reg) (native_key k (di_native_id ident)) = Some i"
    "map_of (cr_devices reg) i = Some d"
    using assms(2) by (auto simp: resolve_known_def split: option.splits)
  let ?d1 = "if is_removed d then d\<lparr>cd_removed_at := None\<rparr> else d"
  let ?d2 = "upsert_endpoint k (di_native_id ident) now (identity_room ident) ?d1"
  obtain d3 hw where a: "add_hardware i (di_hardware_ids ident) (?d2, cr_hw reg) = (d3, hw)"
    by fastforce
  have reg': "cr_devices reg' = AList.update i d3 (cr_devices reg)" "cr_hw reg' = hw"
    "cr_native reg' = cr_native reg"
    "cr_names reg' = cr_names reg \<or> (\<exists>w. cr_names reg' = AList.update i w (cr_names reg))"
    using assms(2) i a by (auto simp: resolve_known_def put_device_def Let_def split: if_splits)
  have k: "endpoint_keys ?d1 = endpoint_keys d" "hardware_keys ?d1 = hardware_keys d" "cd_id ?d1 = cd_id d"
    by (simp_all add: endpoint_keys_def hardware_keys_def)
  note e = registry_ok_extend [OF assms(1) i(2), of ?d2] and h = add_hardware_keys [OF a]
  have s: "index_sound hardware_keys (AList.update i d3 (cr_devices reg)) hw"
    by (rule add_hardware_sound [OF a e(3)]) (use k in auto)
  have n: "index_sound endpoint_keys (AList.update i d3 (cr_devices reg)) (cr_native reg)"
    by (rule registry_ok_extend(2) [OF assms(1) i(2)]) (use k h in auto)
  show ?thesis
    by (rule registry_ok_updateI [OF assms(1) reg'(1)]) (use reg' s n h e(1) k in auto)
qed

lemma hardware_match_SomeD:
  "hardware_match ident reg hs = Some (i, d) \<Longrightarrow>
   (\<exists>h\<in>set hs. map_of (cr_hw reg) (hw_value h) = Some i) \<and> map_of (cr_devices reg) i = Some d \<and>
   \<not> is_removed d \<and> cd_device_type d = di_device_type ident"
  by (induction hs) (auto split: option.splits if_splits)

lemma rekey_endpoint_keys:
  "endpoint_keys d \<subseteq> insert (native_key k stale) (endpoint_keys (rekey_endpoint ident k now stale d))"
proof
  fix key assume "key \<in> endpoint_keys d"
  then obtain e where e: "e \<in> set (cd_endpoints d)" "key = native_key (ep_hub_key e) (ep_native_id e)"
    by (auto simp: endpoint_keys_def)
  show "key \<in> insert (native_key k stale) (endpoint_keys (rekey_endpoint ident k now stale d))"
  proof (cases "is_endpoint k stale e")
    case False
    then have "e \<in> set (cd_endpoints (rekey_endpoint ident k now stale d))"
      using e(1) by (simp add: rekey_endpoint_def modify_first_others)
    with e(2) show ?thesis by (auto simp: endpoint_keys_def)
  qed (use e in \<open>simp add: is_endpoint_def\<close>)
qed

lemma stale_native_id_SomeD:
  "stale_native_id ident k d = Some stale \<Longrightarrow>
   list_ex (is_endpoint k stale) (cd_endpoints d) \<and> stale \<noteq> di_native_id ident"
  by (auto simp: stale_native_id_def find_Some_iff list_ex_iff is_endpoint_def intro: nth_mem)

lemma rekey_endpoint_new_key:
  assumes "list_ex (is_endpoint k stale) (cd_endpoints d)"
  shows "native_key k (di_native_id ident) \<in> endpoint_keys (rekey_endpoint ident k now stale d)"
  using modify_first_hit [OF assms]
  by (force simp: rekey_endpoint_def endpoint_keys_def is_endpoint_def)

lemma rekey_endpoint_fields [simp]:
  "cd_id (rekey_endpoint ident k now stale d) = cd_id d"
  "hardware_keys (rekey_endpoint ident k now stale d) = hardware_keys d"
  "cd_device_type (rekey_endpoint ident k now stale d) = cd_device_type d"
  "cd_removed_at (rekey_endpoint ident k now stale d) = cd_removed_at d"
  by (simp_all add: rekey_endpoint_def hardware_keys_def)

text \<open>Both ways Phase 2 ends replace one device and its index entries.\<close>

lemma resolve_hardware_Inl:
  assumes "resolve_hardware ident k now reg = Inl (r, reg')"
  obtains i d d2 d' hw native where
    "map_of (cr_devices reg) i = Some d" "\<not> is_removed d" "cd_device_type d = di_device_type ident"
    "add_hardware i (di_hardware_ids ident) (d2, cr_hw reg) = (d', hw)"
    "reg' = (put_device i d' reg)\<lparr>cr_hw := hw, cr_native := AList.update (native_key k (di_native_id ident)) i native\<rparr>"
    "resolved_id r = i"
    "(\<exists>stale. stale_native_id ident k d = Some stale \<and> r = AlreadyKnown i \<and>
        d2 = rekey_endpoint ident k now stale d \<and> native = AList.delete (native_key k stale) (cr_native reg)) \<or>
     (previously_approved ident k d \<and> r = ReApproved i \<and> native = cr_native reg \<and>
        d2 = upsert_endpoint k (di_native_id ident) now (identity_room ident) d)"
proof -
  obtain i d where m: "hardware_match ident reg (di_hardware_ids ident) = Some (i, d)"
    using assms by (auto simp: resolve_hardware_def split: option.splits)
  note hd = hardware_match_SomeD [OF m]
  show thesis
  proof (cases "stale_native_id ident k d")
    case (Some stale)
    obtain d' hw where a: "add_hardware i (di_hardware_ids ident)
        (rekey_endpoint ident k now stale d, cr_hw reg) = (d', hw)" by fastforce
    show thesis
      using assms m Some a hd
      by (intro that [OF _ _ _ a]) (auto simp: resolve_hardware_def)
  next
    case None
    obtain d' hw where a: "add_hardware i (di_hardware_ids ident)
        (upsert_endpoint k (di_native_id ident) now (identity_room ident) d, cr_hw reg) = (d', hw)"
      by fastforce
    show thesis
      using assms m None a hd
      by (intro that [OF _ _ _ a]) (auto simp: resolve_hardware_def split: if_splits)
  qed
qed

lemma resolve_hardware_ok:
  assumes ok: "registry_ok reg" and "resolve_hardware ident k now reg = Inl (r, reg')"
  shows "registry_ok reg'"
proof -
  obtain i d d2 d' hw native where i: "map_of (cr_devices reg) i = Some d"
    and a: "add_hardware i (di_hardware_ids ident) (d2, cr_hw reg) = (d', hw)"
    and reg': "reg' = (put_device i d' reg)\<lparr>cr_hw := hw,
        cr_native := AList.update (native_key k (di_native_id ident)) i native\<rparr>"
    and c: "(\<exists>stale. stale_native_id ident k d = Some stale \<and>
        d2 = rekey_endpoint ident k now stale d \<and> native = AList.delete (native_key k stale) (cr_native reg)) \<or>
     (native = cr_native reg \<and> d2 = upsert_endpoint k (di_native_id ident) now (identity_room ident) d)"
    using resolve_hardware_Inl [OF assms(2)] by metis
  note h = add_hardware_keys [OF a]
  have d2: "cd_id d2 = cd_id d" "hardware_keys d2 = hardware_keys d"
    "native_key k (di_native_id ident) \<in> endpoint_keys d2"
    using c by (auto dest!: stale_native_id_SomeD intro: rekey_endpoint_new_key)
  have n: "index_sound endpoint_keys (AList.update i d' (cr_devices reg)) native"
    using c
  proof
    assume "\<exists>stale. stale_native_id ident k d = Some stale \<and>
        d2 = rekey_endpoint ident k now stale d \<and> native = AList.delete (native_key k stale) (cr_native reg)"
    then obtain stale where s: "d2 = rekey_endpoint ident k now stale d"
      "native = AList.delete (native_key k stale) (cr_native reg)" by blast
    have "index_sound endpoint_keys (cr_devices reg) native"
      unfolding s(2) by (intro index_sound_delete registry_okD(5) ok)
    then show ?thesis
      by (rule index_sound_replace)
        (use rekey_endpoint_keys [of d k stale ident now] i s h(5) in \<open>auto simp: delete_conv'\<close>)
  next
    assume "native = cr_native reg \<and> d2 = upsert_endpoint k (di_native_id ident) now (identity_room ident) d"
    then have u: "native = cr_native reg" "endpoint_keys d \<subseteq> endpoint_keys d'"
      unfolding h(5) by (simp_all add: subset_insertI)
    show ?thesis
      unfolding u(1) by (rule index_sound_put [OF registry_okD(5) [OF ok]]) (use i u(2) in simp)
  qed
  have "index_sound hardware_keys (AList.update i d2 (cr_devices reg)) (cr_hw reg)"
    by (rule index_sound_put [OF registry_okD(6) [OF ok]]) (use i d2 in simp)
  then have s: "index_sound hardware_keys (AList.update i d' (cr_devices reg)) hw"
    by (rule add_hardware_sound [OF a])
  have "index_sound endpoint_keys (AList.update i d' (cr_devices reg))
      (AList.update (native_key k (di_native_id ident)) i native)"
    by (rule index_sound_insert [OF n map_of_update_same]) (use d2 h in simp)
  moreover have "cd_id d' = i"
    using registry_okD(3) [OF ok i] d2 h by simp
  ultimately show ?thesis
    using s by (intro registry_ok_updateI [OF ok, of reg' i d']) (simp_all add: reg' put_device_def)
qed

lemma queue_heuristic_fields [simp]:
  "cr_devices (queue_heuristic lower ident k now reg) = cr_devices reg"
  "cr_names (queue_heuristic lower ident k now reg) = cr_names reg"
  "cr_native (queue_heuristic lower ident k now reg) = cr_native reg"
  "cr_hw (queue_heuristic lower ident k now reg) = cr_hw reg"
  by (simp_all add: queue_heuristic_def split: list.splits)

lemma resolve_hardware_Inr:
  "resolve_hardware ident k now reg = Inr reg' \<Longrightarrow> \<exists>q. reg' = reg\<lparr>cr_triage := q\<rparr>"
  by (auto simp: resolve_hardware_def split: option.splits prod.splits if_splits intro: exI [of _ "cr_triage reg"])

lemma queue_heuristic_triage: "\<exists>q. queue_heuristic lower ident k now reg = reg\<lparr>cr_triage := q\<rparr>"
  by (auto simp: queue_heuristic_def split: list.splits intro: exI [of _ "cr_triage reg"])

text \<open>A device with a fresh identifier; by soundness no index leads to it yet.\<close>

lemma registry_ok_fresh:
  assumes "registry_ok reg" and "map_of (cr_devices reg) i = None"
  shows "index_sound endpoint_keys (AList.update i d (cr_devices reg)) (cr_native reg)"
    and "index_sound hardware_keys (AList.update i d (cr_devices reg)) (cr_hw reg)"
  using registry_okD(5,6) [OF assms(1)] assms(2) by (auto intro!: index_sound_put)

definition created_device ::
    "string \<Rightarrow> discovered_identity \<Rightarrow> hub_key \<Rightarrow> u64 \<Rightarrow> canonical_device" where
  "created_device uuid ident k now =
     upsert_endpoint k (di_native_id ident) now (identity_room ident)
       ((device_new uuid (di_name ident) (di_device_type ident) (di_hardware_ids ident) now)
          \<lparr>cd_manufacturer := di_manufacturer ident, cd_model := di_model ident\<rparr>)"

lemma created_device_fields [simp]:
  "cd_id (created_device uuid ident k now) = uuid"
  "cd_hardware_ids (created_device uuid ident k now) = di_hardware_ids ident"
  "cd_device_type (created_device uuid ident k now) = di_device_type ident"
  "cd_removed_at (created_device uuid ident k now) = None"
  "cd_endpoints (created_device uuid ident k now) =
     [\<lparr>ep_hub_key = k, ep_native_id = di_native_id ident, ep_preferred = True, ep_active = True,
       ep_last_seen = now, ep_source_room_name = identity_room ident\<rparr>]"
  by (simp_all add: created_device_def device_new_def upsert_endpoint_def)

lemma create_device_alt:
  "create_device uuid ident k now reg =
     (Created uuid,
      (put_device uuid (created_device uuid ident k now) reg)
        \<lparr>cr_names := AList.update uuid Automatic (cr_names reg),
         cr_hw := fold (\<lambda>h. AList.update (hw_value h) uuid) (di_hardware_ids ident) (cr_hw reg),
         cr_native := AList.update (native_key k (di_native_id ident)) uuid (cr_native reg)\<rparr>)"
  by (simp add: create_device_def created_device_def Let_def)

lemma create_device_ok:
  assumes "registry_ok reg" and "map_of (cr_devices reg) uuid = None"
  shows "registry_ok (snd (create_device uuid ident k now reg))"
  unfolding create_device_alt snd_conv
proof (rule registry_ok_updateI [OF assms(1), where i = uuid and d = "created_device uuid ident k now"])
  let ?d = "created_device uuid ident k now"
  show "index_sound endpoint_keys (AList.update uuid ?d (cr_devices reg))
     (cr_native ((put_device uuid ?d reg)
        \<lparr>cr_names := AList.update uuid Automatic (cr_names reg),
         cr_hw := fold (\<lambda>h. AList.update (hw_value h) uuid) (di_hardware_ids ident) (cr_hw reg),
         cr_native := AList.update (native_key k (di_native_id ident)) uuid (cr_native reg)\<rparr>))"
    using index_sound_insert [OF registry_ok_fresh(1) [OF assms] map_of_update_same]
    by (simp add: endpoint_keys_def)
  have "index_sound hardware_keys (AList.update uuid ?d (cr_devices reg))
      (fold (\<lambda>h. AList.update (hw_value h) uuid) (di_hardware_ids ident) (cr_hw reg))"
    by (rule index_sound_fold_insert [OF registry_ok_fresh(2) [OF assms] map_of_update_same])
      (simp add: hardware_keys_def)
  then show "index_sound hardware_keys (AList.update uuid ?d (cr_devices reg))
     (cr_hw ((put_device uuid ?d reg)
        \<lparr>cr_names := AList.update uuid Automatic (cr_names reg),
         cr_hw := fold (\<lambda>h. AList.update (hw_value h) uuid) (di_hardware_ids ident) (cr_hw reg),
         cr_native := AList.update (native_key k (di_native_id ident)) uuid (cr_native reg)\<rparr>))"
    by simp
qed (auto simp: put_device_def)

lemma resolve_ok:
  assumes "registry_ok reg" and "map_of (cr_devices reg) uuid = None"
  shows "registry_ok (snd (resolve lower uuid ident k now reg))"
proof (cases "resolve_known ident k now reg")
  case None
  show ?thesis
  proof (cases "resolve_hardware ident k now reg")
    case (Inl r)
    with None resolve_hardware_ok [OF assms(1), of ident k now "fst r" "snd r"]
    show ?thesis by (simp add: resolve_def)
  next
    case (Inr reg1)
    then obtain q where q: "queue_heuristic lower ident k now reg1 = reg\<lparr>cr_triage := q\<rparr>"
      using resolve_hardware_Inr [OF Inr] queue_heuristic_triage [of lower ident k now reg1] by auto
    with None Inr show ?thesis
      using create_device_ok [of "reg\<lparr>cr_triage := q\<rparr>" uuid ident k now] assms by (simp add: resolve_def)
  qed
qed (use resolve_known_ok [OF assms(1)] in \<open>auto simp: resolve_def split: prod.splits intro: prod.exhaust\<close>)

lemma record_merge_fields [simp]:
  "cd_id (record_merge k n w now d) = cd_id d"
  "cd_endpoints (record_merge k n w now d) = cd_endpoints d"
  "endpoint_keys (record_merge k n w now d) = endpoint_keys d"
  "hardware_keys (record_merge k n w now d) = hardware_keys d"
  "cd_removed_at (record_merge k n w now d) = cd_removed_at d"
  "cd_device_type (record_merge k n w now d) = cd_device_type d"
  by (simp_all add: record_merge_def endpoint_keys_def hardware_keys_def)

lemma adopt_user_name_cases:
  "\<exists>nm. fst (adopt_user_name cid key d reg) = d\<lparr>cd_name := nm\<rparr>"
  "snd (adopt_user_name cid key d reg) = cr_names reg \<or>
   snd (adopt_user_name cid key d reg) = AList.update cid User (cr_names reg)"
proof -
  have "\<exists>nm. d = d\<lparr>cd_name := nm\<rparr>" by (rule exI [of _ "cd_name d"]) simp
  then show "\<exists>nm. fst (adopt_user_name cid key d reg) = d\<lparr>cd_name := nm\<rparr>"
    unfolding adopt_user_name_def Let_def by (auto split: option.split)
  show "snd (adopt_user_name cid key d reg) = cr_names reg \<or>
      snd (adopt_user_name cid key d reg) = AList.update cid User (cr_names reg)"
    unfolding adopt_user_name_def Let_def by (auto split: option.split)
qed

definition merged_device ::
    "string \<Rightarrow> hub_key \<Rightarrow> u64 \<Rightarrow> triage_discovered \<Rightarrow> canonical_device \<Rightarrow> canonical_registry \<Rightarrow> canonical_device"
  where
  "merged_device cid k now td d reg =
     record_merge k (td_native_id td) ''triage_confirmed'' now
       (upsert_endpoint k (td_native_id td) now (discovered_room td)
          (fst (adopt_user_name cid (native_key k (td_native_id td)) d reg)))"

lemma merged_device_fields:
  "cd_id (merged_device cid k now td d reg) = cd_id d"
  "endpoint_keys (merged_device cid k now td d reg) = insert (native_key k (td_native_id td)) (endpoint_keys d)"
  "hardware_keys (merged_device cid k now td d reg) = hardware_keys d"
  "cd_removed_at (merged_device cid k now td d reg) = cd_removed_at d"
  "cd_device_type (merged_device cid k now td d reg) = cd_device_type d"
proof -
  obtain nm where "fst (adopt_user_name cid (native_key k (td_native_id td)) d reg) = d\<lparr>cd_name := nm\<rparr>"
    using adopt_user_name_cases(1) by blast
  then show "cd_id (merged_device cid k now td d reg) = cd_id d"
    "endpoint_keys (merged_device cid k now td d reg) = insert (native_key k (td_native_id td)) (endpoint_keys d)"
    "hardware_keys (merged_device cid k now td d reg) = hardware_keys d"
    "cd_removed_at (merged_device cid k now td d reg) = cd_removed_at d"
    "cd_device_type (merged_device cid k now td d reg) = cd_device_type d"
    by (simp_all add: merged_device_def) (simp_all add: endpoint_keys_def hardware_keys_def)
qed

lemma complete_merge_SomeD:
  assumes "complete_merge eid cid k now reg = (True, reg')"
  obtains entry d where
    "queue_get eid (cr_triage reg) = Some entry" "map_of (cr_devices reg) cid = Some d" "\<not> is_removed d"
    "reg' = (put_device cid (merged_device cid k now (te_discovered entry) d reg) reg)
      \<lparr>cr_names := snd (adopt_user_name cid (native_key k (td_native_id (te_discovered entry))) d reg),
       cr_native := AList.update (native_key k (td_native_id (te_discovered entry))) cid (cr_native reg),
       cr_triage := snd (resolve_entry eid Confirmed ''api'' now (cr_triage reg))\<rparr>"
  using assms
  by (auto simp: complete_merge_def merged_device_def Let_def split: option.splits if_splits prod.splits)

lemma complete_merge_eq:
  "queue_get eid (cr_triage reg) = Some entry \<Longrightarrow> map_of (cr_devices reg) cid = Some d \<Longrightarrow> \<not> is_removed d \<Longrightarrow>
   complete_merge eid cid k now reg =
     (True, (put_device cid (merged_device cid k now (te_discovered entry) d reg) reg)
      \<lparr>cr_names := snd (adopt_user_name cid (native_key k (td_native_id (te_discovered entry))) d reg),
       cr_native := AList.update (native_key k (td_native_id (te_discovered entry))) cid (cr_native reg),
       cr_triage := snd (resolve_entry eid Confirmed ''api'' now (cr_triage reg))\<rparr>)"
  by (simp add: complete_merge_def merged_device_def Let_def split: prod.splits)

lemma complete_merge_False: "complete_merge eid cid k now reg = (False, reg') \<Longrightarrow> reg' = reg"
  by (auto simp: complete_merge_def Let_def split: option.splits if_splits prod.splits)

lemma complete_merge_ok:
  assumes "registry_ok reg" and "complete_merge eid cid k now reg = (b, reg')"
  shows "registry_ok reg'"
proof (cases b)
  case True
  with assms(2) have "complete_merge eid cid k now reg = (True, reg')" by simp
  then obtain entry :: triage_entry and d where i: "map_of (cr_devices reg) cid = Some d"
    and reg': "reg' = (put_device cid (merged_device cid k now (te_discovered entry) d reg) reg)
      \<lparr>cr_names := snd (adopt_user_name cid (native_key k (td_native_id (te_discovered entry))) d reg),
       cr_native := AList.update (native_key k (td_native_id (te_discovered entry))) cid (cr_native reg),
       cr_triage := snd (resolve_entry eid Confirmed ''api'' now (cr_triage reg))\<rparr>"
    by (rule complete_merge_SomeD) (rule that)
  let ?d = "merged_device cid k now (te_discovered entry) d reg"
  note f = merged_device_fields [of cid k now "te_discovered entry" d reg]
  note e = registry_ok_extend [OF assms(1) i, of ?d]
  show ?thesis
  proof (rule registry_ok_updateI [OF assms(1), where i = cid and d = ?d])
    show "index_sound endpoint_keys (AList.update cid ?d (cr_devices reg)) (cr_native reg')"
      using index_sound_insert [OF e(2) map_of_update_same] f
      by (simp add: reg' put_device_def subset_insertI)
    show "cr_names reg' = cr_names reg \<or> (\<exists>w. cr_names reg' = AList.update cid w (cr_names reg))"
      unfolding reg' using adopt_user_name_cases(2) by fastforce
  qed (use e f in \<open>simp_all add: reg' put_device_def subset_insertI\<close>)
qed (use assms complete_merge_False [of eid cid k now reg reg'] in auto)

lemma complete_new_device_ok:
  assumes ok: "registry_ok reg" and "map_of (cr_devices reg) uuid = None"
  shows "registry_ok (snd (complete_new_device uuid eid k now reg))"
proof (cases "queue_get eid (cr_triage reg)")
  case (Some entry)
  let ?td = "te_discovered entry"
  let ?n = "td_native_id ?td"
  let ?ex = "case map_of (cr_native reg) (native_key k ?n) of
      None \<Rightarrow> None
    | Some i \<Rightarrow> map_option (Pair i) (opt_filter (\<lambda>d. \<not> is_removed d) (map_of (cr_devices reg) i))"
  show ?thesis
  proof (cases ?ex)
    case None
    let ?d = "upsert_endpoint k ?n now (discovered_room ?td)
       ((device_new uuid (td_name ?td) (td_device_type ?td) [] now)
          \<lparr>cd_manufacturer := td_manufacturer ?td, cd_model := td_model ?td\<rparr>)"
    have id: "cd_id ?d = uuid" by (simp add: device_new_def)
    show ?thesis
      by (rule registry_ok_updateI [OF ok _ id])
        (use Some None registry_ok_fresh [OF assms] in
          \<open>auto simp: complete_new_device_def put_device_def Let_def
             intro!: index_sound_insert [OF _ map_of_update_same]\<close>)
  next
    case (Some p)
    obtain i d where p: "p = (i, d)" by fastforce
    have i: "map_of (cr_devices reg) i = Some d"
      using Some p by (auto split: option.splits dest: opt_filter_SomeD)
    let ?d1 = "if automatic_name_eligible i reg then d\<lparr>cd_name := td_name ?td\<rparr> else d"
    let ?d2 = "?d1\<lparr>cd_manufacturer := opt_or (cd_manufacturer ?d1) (td_manufacturer ?td),
                    cd_model := opt_or (cd_model ?d1) (td_model ?td)\<rparr>"
    let ?d = "upsert_endpoint k ?n now (discovered_room ?td) ?d2"
    have k2: "endpoint_keys ?d2 = endpoint_keys d" "hardware_keys ?d2 = hardware_keys d" "cd_id ?d2 = cd_id d"
      by (simp_all add: endpoint_keys_def hardware_keys_def)
    have reg': "snd (complete_new_device uuid eid k now reg) =
        (put_device i ?d reg)\<lparr>cr_triage := snd (resolve_new eid now (cr_triage reg))\<rparr>"
      using \<open>queue_get eid (cr_triage reg) = Some entry\<close> Some p
      by (simp add: complete_new_device_def Let_def)
    note e = registry_ok_extend [OF ok i, of ?d]
    show ?thesis
      unfolding reg'
      by (rule registry_ok_updateI [OF ok, where i = i and d = ?d])
        (use e k2 in \<open>simp_all add: put_device_def subset_insertI\<close>)
  qed
qed (use ok in \<open>simp add: complete_new_device_def\<close>)

lemma queue_unassigned_triage: "\<exists>q. queue_unassigned i now reg = reg\<lparr>cr_triage := q\<rparr>"
  by (auto simp: queue_unassigned_def split: option.splits list.splits intro: exI [of _ "cr_triage reg"])

lemma queue_unassigned_ok [simp]: "registry_ok (queue_unassigned i now reg) = registry_ok reg"
  using queue_unassigned_triage [of i now reg] by auto

lemma soft_remove_ok:
  assumes "registry_ok reg"
  shows "registry_ok (snd (soft_remove i now reg))"
proof (cases "map_of (cr_devices reg) i")
  case (Some d)
  show ?thesis
    by (rule registry_ok_same_keys [OF assms Some, where d = "d\<lparr>cd_removed_at := Some now\<rparr>"])
      (use Some in \<open>simp_all add: soft_remove_def put_device_def\<close>)
qed (use assms in \<open>simp add: soft_remove_def\<close>)

lemma rename_device_by_user_ok:
  assumes "registry_ok reg"
  shows "registry_ok (snd (rename_device_by_user i nm reg))"
proof (cases "opt_filter (\<lambda>d. \<not> is_removed d) (map_of (cr_devices reg) i)")
  case (Some d)
  then have "map_of (cr_devices reg) i = Some d" by (auto dest: opt_filter_SomeD)
  then show ?thesis
    by (rule registry_ok_same_keys [OF assms, where d = "d\<lparr>cd_name := nm\<rparr>"])
      (use Some in \<open>auto simp: rename_device_by_user_def put_device_def\<close>)
qed (use assms in \<open>simp add: rename_device_by_user_def\<close>)

lemma assign_room_ok:
  assumes "registry_ok reg"
  shows "registry_ok (snd (assign_room i room now reg))"
proof (cases "map_of (cr_devices reg) i")
  case (Some d)
  have "registry_ok (put_device i (d\<lparr>cd_room_id := room\<rparr>) reg)"
    by (rule registry_ok_same_keys [OF assms Some, where d = "d\<lparr>cd_room_id := room\<rparr>"])
      (simp_all add: put_device_def)
  with Some show ?thesis by (cases room) (simp_all add: assign_room_def Let_def)
qed (use assms in \<open>simp add: assign_room_def\<close>)

lemma dom_hm_map: "dom (map_of (hm_map f m)) = dom (map_of m)"
  by (auto simp: hm_get_hm_map)

text \<open>Rewriting every device in place.\<close>

lemma registry_ok_hm_map:
  assumes "registry_ok reg"
    and "\<And>d. cd_id (f d) = cd_id d" "\<And>d. endpoint_keys (f d) = endpoint_keys d"
      "\<And>d. hardware_keys (f d) = hardware_keys d"
  shows "registry_ok (reg\<lparr>cr_devices := hm_map f (cr_devices reg)\<rparr>)"
proof -
  have s: "index_sound keys (hm_map f (cr_devices reg)) idx"
    if "index_sound keys (cr_devices reg) idx" "\<And>d. keys (f d) = keys d"
    for keys and idx :: "('k \<times> string) list"
    using that(1) by (rule index_sound_values) (simp add: hm_get_hm_map that(2))
  then show ?thesis
    using registry_okD [OF assms(1)] assms(2-4)
    by (auto simp: registry_ok_def hm_get_hm_map dom_hm_map intro!: s)
qed

lemma map_same_keys:
  "(\<And>e. ep_hub_key (g e) = ep_hub_key e \<and> ep_native_id (g e) = ep_native_id e) \<Longrightarrow>
   endpoint_keys (d\<lparr>cd_endpoints := map g (cd_endpoints d)\<rparr>) = endpoint_keys d"
  by (simp add: endpoint_keys_def image_image)

lemma deactivate_ok: "registry_ok reg \<Longrightarrow> registry_ok (snd (deactivate_missing_endpoints_for_hub k found reg))"
  unfolding deactivate_missing_endpoints_for_hub_def Let_def snd_conv
  by (rule registry_ok_hm_map)
    (auto simp: deactivate_device_def hardware_keys_def intro!: map_same_keys)

lemma set_preferred_endpoint_ok:
  assumes "registry_ok reg"
  shows "registry_ok (snd (set_preferred_endpoint i k n reg))"
proof (cases "map_of (cr_devices reg) i")
  case (Some d)
  let ?d = "d\<lparr>cd_endpoints := map (\<lambda>e. e\<lparr>ep_preferred := is_endpoint k n e\<rparr>) (cd_endpoints d)\<rparr>"
  have "endpoint_keys ?d = endpoint_keys d" "hardware_keys ?d = hardware_keys d"
    by (rule map_same_keys, simp) (simp add: hardware_keys_def)
  then show ?thesis
    using registry_ok_extend [OF assms Some, of ?d] Some
    by (auto simp: set_preferred_endpoint_def put_device_def intro!: registry_ok_updateI [OF assms, where i = i and d = ?d])
qed (use assms in \<open>simp add: set_preferred_endpoint_def\<close>)

lemma hm_ok_delete: "hm_ok m \<Longrightarrow> hm_ok (AList.delete k m)"
  by (rule hm.ok_remove)

lemma remove_device_ok:
  assumes "registry_ok reg"
  shows "registry_ok (snd (remove_device i now reg))"
proof (cases "map_of (cr_devices reg) i")
  case (Some d)
  note o = registry_okD [OF assms]
  have id: "cd_id d = i" using o(3) Some by simp
  have "dom (map_of (AList.delete i (cr_names reg))) \<subseteq> dom (map_of (AList.delete i (cr_devices reg)))"
    using o(4) by (auto simp only: delete_conv' dom_fun_upd if_True split: if_splits)
  moreover have "index_sound endpoint_keys (AList.delete i (cr_devices reg))
      (drop_own i (map (\<lambda>e. native_key (ep_hub_key e) (ep_native_id e)) (cd_endpoints d)) (cr_native reg))"
    by (rule index_sound_drop_own [OF o(5) Some]) (simp add: endpoint_keys_def)
  moreover have "index_sound hardware_keys (AList.delete i (cr_devices reg))
      (drop_own i (map hw_value (cd_hardware_ids d)) (cr_hw reg))"
    by (rule index_sound_drop_own [OF o(6) Some]) (simp add: hardware_keys_def)
  moreover have "\<forall>j d'. map_of (AList.delete i (cr_devices reg)) j = Some d' \<longrightarrow> cd_id d' = j"
    using o(3) by (auto simp: delete_conv' split: if_splits)
  ultimately show ?thesis
    using Some o(1,2) by (simp add: remove_device_def registry_ok_def id hm_ok_delete)
qed (use assms in \<open>simp add: remove_device_def\<close>)

lemma keep_preferred_keys [simp]:
  "(\<lambda>e. native_key (ep_hub_key e) (ep_native_id e)) ` set (keep_preferred es) =
   (\<lambda>e. native_key (ep_hub_key e) (ep_native_id e)) ` set es"
  by (cases es) (auto simp: keep_preferred_def)

lemma filtered_endpoint_keys:
  "endpoint_keys d \<subseteq> insert (native_key k n)
     ((\<lambda>e. native_key (ep_hub_key e) (ep_native_id e)) ` set (filter (\<lambda>e. \<not> is_endpoint k n e) (cd_endpoints d)))"
  by (auto simp: endpoint_keys_def is_endpoint_def)

text \<open>Taking an endpoint away, after its index entry.\<close>

lemma registry_ok_drop_endpoint:
  assumes "registry_ok reg" and "map_of (cr_devices reg) i = Some d"
    and "(\<lambda>e. native_key (ep_hub_key e) (ep_native_id e)) ` set es =
         (\<lambda>e. native_key (ep_hub_key e) (ep_native_id e)) ` set (filter (\<lambda>e. \<not> is_endpoint k n e) (cd_endpoints d))"
  shows "registry_ok (put_device i (d\<lparr>cd_endpoints := es\<rparr>)
           (reg\<lparr>cr_native := AList.delete (native_key k n) (cr_native reg)\<rparr>))"
proof -
  let ?d = "d\<lparr>cd_endpoints := es\<rparr>"
  have keys: "endpoint_keys d \<subseteq> insert (native_key k n) (endpoint_keys ?d)"
    using filtered_endpoint_keys [of d k n] assms(3) by (simp add: endpoint_keys_def)
  have "index_sound endpoint_keys (AList.update i ?d (cr_devices reg))
      (AList.delete (native_key k n) (cr_native reg))"
    by (rule index_sound_replace [OF index_sound_delete [OF registry_okD(5) [OF assms(1)]]])
      (use keys assms(2) in \<open>auto simp: delete_conv'\<close>)
  moreover have "index_sound hardware_keys (AList.update i ?d (cr_devices reg)) (cr_hw reg)"
    by (rule index_sound_put [OF registry_okD(6) [OF assms(1)]])
      (use assms(2) in \<open>simp add: hardware_keys_def\<close>)
  ultimately show ?thesis
    using registry_okD(3) [OF assms(1,2)]
    by (intro registry_ok_updateI [OF assms(1), of _ i ?d]) (simp_all add: put_device_def)
qed

lemma registry_ok_unindex:
  "registry_ok reg \<Longrightarrow> registry_ok (reg\<lparr>cr_native := AList.delete key (cr_native reg)\<rparr>)"
  by (auto simp: registry_ok_def intro: index_sound_delete)

lemma remove_endpoint_ok:
  assumes "registry_ok reg"
  shows "registry_ok (snd (remove_endpoint k n now reg))"
proof (cases "map_of (cr_native reg) (native_key k n)")
  case (Some i)
  then obtain d where d: "map_of (cr_devices reg) i = Some d"
    using index_soundD [OF registry_okD(5) [OF assms]] by blast
  let ?es = "filter (\<lambda>e. \<not> is_endpoint k n e) (cd_endpoints d)"
  have "registry_ok (put_device i (d\<lparr>cd_endpoints := keep_preferred ?es\<rparr>)
           (reg\<lparr>cr_native := AList.delete (native_key k n) (cr_native reg)\<rparr>))"
    by (rule registry_ok_drop_endpoint [OF assms d]) simp
  with Some d show ?thesis
    by (cases "?es = []") (simp_all add: remove_endpoint_def Let_def remove_device_ok)
qed (use assms in \<open>simp add: remove_endpoint_def\<close>)

lemma hm_modify_update:
  "hm_ok m \<Longrightarrow> map_of m k = Some v \<Longrightarrow> hm_modify k f m = AList.update k (f v) m"
proof (induction m)
  case (Cons kv m)
  obtain k' v' where kv: "kv = (k', v')" by fastforce
  show ?case
  proof (cases "k' = k")
    case True
    with Cons.prems kv have "k \<notin> fst ` set m" by auto
    then have "hm_modify k f m = m"
      by (auto simp: hm_modify_def intro!: map_idI) (metis fst_conv image_eqI)
    with True Cons.prems kv show ?thesis by (simp add: hm_modify_def)
  qed (use Cons kv in \<open>auto simp: hm_modify_def\<close>)
qed simp

lemma retire_endpoint_identity_ok:
  assumes "registry_ok reg"
  shows "registry_ok (snd (retire_endpoint_identity k n reg))"
proof (cases "map_of (cr_native reg) (native_key k n)")
  case (Some i)
  then obtain d where d: "map_of (cr_devices reg) i = Some d"
    using index_soundD [OF registry_okD(5) [OF assms]] by blast
  let ?es = "filter (\<lambda>e. \<not> is_endpoint k n e) (cd_endpoints d)"
  have "snd (retire_endpoint_identity k n reg) = put_device i (d\<lparr>cd_endpoints := ?es\<rparr>)
           (reg\<lparr>cr_native := AList.delete (native_key k n) (cr_native reg)\<rparr>)"
    using Some hm_modify_update [OF registry_okD(1) [OF assms] d]
    by (simp add: retire_endpoint_identity_def put_device_def)
  then show ?thesis
    using registry_ok_drop_endpoint [OF assms d, of ?es k n] by simp
qed (use assms in \<open>simp add: retire_endpoint_identity_def\<close>)

lemma restore_proven_endpoint_ok:
  assumes ok: "registry_ok reg"
  shows "registry_ok (restore_proven_endpoint i e n reg)"
proof (cases "(case map_of (cr_native reg) (native_key (ep_hub_key e) n) of Some j \<Rightarrow> j \<noteq> i | None \<Rightarrow> False) \<or>
    opt_filter (\<lambda>d. \<not> is_removed d) (map_of (cr_devices reg) i) = None")
  case False
  then obtain d where d: "opt_filter (\<lambda>d. \<not> is_removed d) (map_of (cr_devices reg) i) = Some d" by auto
  then have i: "map_of (cr_devices reg) i = Some d" by (auto dest: opt_filter_SomeD)
  let ?old = "native_key (ep_hub_key e) (ep_native_id e)"
  let ?new = "native_key (ep_hub_key e) n"
  let ?p = "is_endpoint (ep_hub_key e) (ep_native_id e)"
  let ?r = "e\<lparr>ep_native_id := n\<rparr>"
  let ?es = "if list_ex ?p (cd_endpoints d) then modify_first ?p (\<lambda>_. ?r) (cd_endpoints d)
             else cd_endpoints d @ [?r]"
  let ?d = "d\<lparr>cd_endpoints := ?es\<rparr>"
  let ?native = "if map_of (cr_native reg) ?old = Some i
                 then AList.delete ?old (cr_native reg) else cr_native reg"
  have r: "?r \<in> set ?es"
    using modify_first_hit [of ?p "cd_endpoints d" "\<lambda>_. ?r"] by auto
  have "endpoint_keys d \<subseteq> insert ?old (endpoint_keys ?d)"
  proof
    fix key assume "key \<in> endpoint_keys d"
    then obtain x where x: "x \<in> set (cd_endpoints d)" "key = native_key (ep_hub_key x) (ep_native_id x)"
      by (auto simp: endpoint_keys_def)
    show "key \<in> insert ?old (endpoint_keys ?d)"
    proof (cases "?p x")
      case False
      then have "x \<in> set ?es" using x(1) by (simp add: modify_first_others)
      with x(2) show ?thesis by (auto simp: endpoint_keys_def simp del: set_append)
    qed (use x in \<open>simp add: is_endpoint_def\<close>)
  qed
  then have "index_sound endpoint_keys (AList.update i ?d (cr_devices reg)) ?native"
    by (intro index_sound_replace)
      (use i in \<open>auto simp: delete_conv' registry_okD(5) [OF ok] intro: index_sound_delete split: if_splits\<close>)
  then have n: "index_sound endpoint_keys (AList.update i ?d (cr_devices reg)) (AList.update ?new i ?native)"
    by (rule index_sound_insert [OF _ map_of_update_same])
      (use r in \<open>force simp: endpoint_keys_def\<close>)
  have "index_sound hardware_keys (AList.update i ?d (cr_devices reg)) (cr_hw reg)"
    by (rule index_sound_put [OF registry_okD(6) [OF ok]]) (use i in \<open>simp add: hardware_keys_def\<close>)
  with n d False registry_okD(3) [OF ok i] show ?thesis
    by (intro registry_ok_updateI [OF ok, of _ i ?d]) (simp_all add: restore_proven_endpoint_def Let_def put_device_def)
qed (use ok in \<open>auto simp: restore_proven_endpoint_def Let_def\<close>)

subsection \<open>Rebuilding\<close>

lemma index_device_fields [simp]:
  "cr_devices (index_device kd reg) = cr_devices reg" "cr_names (index_device kd reg) = cr_names reg"
  "cr_triage (index_device kd reg) = cr_triage reg"
  by (simp_all add: index_device_def split: prod.splits)

lemma fold_index_device_fields [simp]:
  "cr_devices (fold index_device kds reg) = cr_devices reg"
  "cr_names (fold index_device kds reg) = cr_names reg"
  "cr_triage (fold index_device kds reg) = cr_triage reg"
  by (induction kds arbitrary: reg) simp_all

lemma index_device_sound:
  assumes "index_sound endpoint_keys (cr_devices reg) (cr_native reg)"
    and "index_sound hardware_keys (cr_devices reg) (cr_hw reg)"
    and "map_of (cr_devices reg) i = Some d"
  shows "index_sound endpoint_keys (cr_devices reg) (cr_native (index_device (i, d) reg)) \<and>
    index_sound hardware_keys (cr_devices reg) (cr_hw (index_device (i, d) reg))"
  unfolding index_device_def prod.case
  using index_sound_fold_insert [OF assms(1,3), of "\<lambda>e. native_key (ep_hub_key e) (ep_native_id e)" "cd_endpoints d"]
    index_sound_fold_insert [OF assms(2,3), of hw_value "cd_hardware_ids d"]
  by (simp add: endpoint_keys_def hardware_keys_def)

lemma fold_index_device_sound:
  assumes "\<forall>(i, d)\<in>set kds. map_of (cr_devices reg) i = Some d"
    and "index_sound endpoint_keys (cr_devices reg) (cr_native reg)"
    and "index_sound hardware_keys (cr_devices reg) (cr_hw reg)"
  shows "index_sound endpoint_keys (cr_devices reg) (cr_native (fold index_device kds reg)) \<and>
    index_sound hardware_keys (cr_devices reg) (cr_hw (fold index_device kds reg))"
  using assms
proof (induction kds arbitrary: reg)
  case (Cons kd kds)
  obtain i d where kd: "kd = (i, d)" by fastforce
  with Cons.prems have "map_of (cr_devices reg) i = Some d" by simp
  from index_device_sound [OF Cons.prems(2,3) this] Cons.prems(1) kd
  show ?case using Cons.IH [of "index_device kd reg"] by simp
qed simp

lemma rebuild_indices_fields [simp]:
  "cr_devices (rebuild_indices reg) = cr_devices reg" "cr_names (rebuild_indices reg) = cr_names reg"
  "cr_triage (rebuild_indices reg) = cr_triage reg"
  by (simp_all add: rebuild_indices_def)

lemma rebuild_indices_ok:
  assumes "hm_ok (cr_devices reg)" and "hm_ok (cr_names reg)"
    and "\<forall>i d. map_of (cr_devices reg) i = Some d \<longrightarrow> cd_id d = i"
    and "dom (map_of (cr_names reg)) \<subseteq> dom (map_of (cr_devices reg))"
  shows "registry_ok (rebuild_indices reg)"
proof -
  let ?r = "reg\<lparr>cr_hw := [], cr_native := []\<rparr>"
  have "\<forall>(i, d)\<in>set (cr_devices reg). map_of (cr_devices ?r) i = Some d"
    using assms(1) by auto
  from fold_index_device_sound [OF this]
  have "index_sound endpoint_keys (cr_devices reg) (cr_native (rebuild_indices reg)) \<and>
      index_sound hardware_keys (cr_devices reg) (cr_hw (rebuild_indices reg))"
    by (simp add: rebuild_indices_def)
  with assms show ?thesis by (simp add: registry_ok_def)
qed

lemma remap_device_fields [simp]:
  "cd_id (remap_device old new d) = cd_id d"
  "cd_removed_at (remap_device old new d) = cd_removed_at d"
  by (simp_all add: remap_device_def)

lemma remap_device_unreferenced: "\<not> device_references_hub old d \<Longrightarrow> remap_device old new d = d"
proof -
  assume "\<not> device_references_hub old d"
  then have "map (\<lambda>e. if ep_hub_key e = old then e\<lparr>ep_hub_key := new\<rparr> else e) (cd_endpoints d) = cd_endpoints d"
    "map (\<lambda>m. if mr_source_hub m = old then m\<lparr>mr_source_hub := new\<rparr> else m) (cd_merge_history d) = cd_merge_history d"
    by (auto simp: device_references_hub_def list_ex_iff intro!: map_idI)
  then show ?thesis by (simp add: remap_device_def)
qed

lemma hm_map_id: "(\<And>v. v \<in> snd ` set m \<Longrightarrow> f v = v) \<Longrightarrow> hm_map f m = m"
  by (force simp: hm_map_def intro!: map_idI)

lemma remap_hub_key_ok:
  assumes "registry_ok reg"
  shows "registry_ok (snd (remap_hub_key old new reg))"
proof -
  let ?r = "\<lambda>q. reg\<lparr>cr_devices := hm_map (remap_device old new) (cr_devices reg), cr_triage := q\<rparr>"
  note o = registry_okD [OF assms]
  have "registry_ok (rebuild_indices (?r q))" for q
  proof (rule rebuild_indices_ok)
    show "\<forall>i d. map_of (cr_devices (?r q)) i = Some d \<longrightarrow> cd_id d = i"
      using o(3) by (auto simp: hm_get_hm_map)
    show "dom (map_of (cr_names (?r q))) \<subseteq> dom (map_of (cr_devices (?r q)))"
      using o(4) by (simp add: dom_hm_map)
  qed (use o(1,2) in simp_all)
  moreover have "registry_ok (?r q)" if "\<not> list_ex (device_references_hub old) (map snd (cr_devices reg))" for q
  proof -
    have "hm_map (remap_device old new) (cr_devices reg) = cr_devices reg"
      by (rule hm_map_id) (use that in \<open>auto simp: list_ex_iff intro: remap_device_unreferenced\<close>)
    with assms show ?thesis by (simp add: registry_ok_def)
  qed
  ultimately show ?thesis
    using assms by (auto simp: remap_hub_key_def Let_def split: prod.splits)
qed

lemma fold_triage_ok:
  assumes "\<And>x r. \<exists>q. f x r = r\<lparr>cr_triage := q\<rparr>"
  shows "\<exists>q. fold f xs reg = reg\<lparr>cr_triage := q\<rparr>"
proof (induction xs arbitrary: reg)
  case Nil
  show ?case by (rule exI [of _ "cr_triage reg"]) simp
next
  case (Cons x xs)
  obtain q where "f x reg = reg\<lparr>cr_triage := q\<rparr>" using assms by blast
  moreover obtain q' where "fold f xs (reg\<lparr>cr_triage := q\<rparr>) = reg\<lparr>cr_triage := q'\<rparr>"
    using Cons.IH [of "reg\<lparr>cr_triage := q\<rparr>"] by auto
  ultimately show ?case by auto
qed

lemma backfill_unassigned_triage_ok:
  "registry_ok reg \<Longrightarrow> registry_ok (backfill_unassigned_triage now reg)"
proof -
  assume ok: "registry_ok reg"
  have "\<exists>q. backfill_unassigned_triage now reg = reg\<lparr>cr_triage := q\<rparr>"
    unfolding backfill_unassigned_triage_def
    by (rule fold_triage_ok) (use queue_unassigned_triage in \<open>auto split: prod.split\<close>)
  with ok show ?thesis by auto
qed

lemma confirm_merge_ok:
  assumes "registry_ok reg"
  shows "registry_ok (snd (confirm_merge eid cid now reg))"
  using assms complete_merge_ok [OF assms]
  by (auto simp: confirm_merge_def Let_def split: option.splits prod.splits intro: remove_device_ok)

section \<open>Runs of the registry\<close>

text \<open>
  The operations as one step relation. A step that creates a device takes an identifier that no
  device has. Triage entries may be changed in any way: the queue is handed out for mutation.
\<close>

inductive registry_step :: "canonical_registry \<Rightarrow> canonical_registry \<Rightarrow> bool" where
  "map_of (cr_devices reg) uuid = None \<Longrightarrow>
     registry_step reg (snd (resolve lower uuid ident k now reg))"
| "map_of (cr_devices reg) uuid = None \<Longrightarrow>
     registry_step reg (snd (complete_new_device uuid eid k now reg))"
| "registry_step reg (snd (complete_merge eid cid k now reg))"
| "registry_step reg (snd (confirm_merge eid cid now reg))"
| "registry_step reg (snd (soft_remove i now reg))"
| "registry_step reg (queue_unassigned i now reg)"
| "registry_step reg (snd (remap_hub_key old new reg))"
| "registry_step reg (snd (rename_device_by_user i nm reg))"
| "registry_step reg (snd (assign_room i room now reg))"
| "registry_step reg (snd (set_preferred_endpoint i k n reg))"
| "registry_step reg (snd (deactivate_missing_endpoints_for_hub k found reg))"
| "registry_step reg (snd (remove_device i now reg))"
| "registry_step reg (snd (remove_endpoint k n now reg))"
| "registry_step reg (snd (retire_endpoint_identity k n reg))"
| "registry_step reg (restore_proven_endpoint i e n reg)"
| "registry_step reg (backfill_unassigned_triage now reg)"
| "registry_step reg (rebuild_indices reg)"
| "registry_step reg (reg\<lparr>cr_triage := q\<rparr>)"

inductive reachable :: "canonical_registry \<Rightarrow> bool" where
  reachable_new: "reachable registry_new"
| reachable_step: "reachable reg \<Longrightarrow> registry_step reg reg' \<Longrightarrow> reachable reg'"

lemma registry_step_ok: "registry_step reg reg' \<Longrightarrow> registry_ok reg \<Longrightarrow> registry_ok reg'"
proof (induction rule: registry_step.induct)
  case (3 reg eid cid k now)
  then show ?case using complete_merge_ok [of reg eid cid k now] by (metis prod.collapse)
next
  case (17 reg)
  then show ?case using registry_okD [OF 17] by (intro rebuild_indices_ok) auto
qed (simp_all add: resolve_ok complete_new_device_ok confirm_merge_ok soft_remove_ok remap_hub_key_ok
    rename_device_by_user_ok assign_room_ok set_preferred_endpoint_ok deactivate_ok remove_device_ok
    remove_endpoint_ok retire_endpoint_identity_ok restore_proven_endpoint_ok backfill_unassigned_triage_ok)

lemma reachable_ok: "reachable reg \<Longrightarrow> registry_ok reg"
  by (induction rule: reachable.induct) (auto intro: registry_ok_new registry_step_ok)

end
