(* ===== verification/RegistryResolution.thy ===== *)
theory RegistryResolution
  imports RegistryInvariants
begin

text \<open>
  What the resolution of a discovered device and the confirmation of a merge achieve, and the
  properties of the registry.
\<close>

section \<open>Outcome of a resolution\<close>

definition serves :: "hub_key \<Rightarrow> string \<Rightarrow> u64 \<Rightarrow> canonical_device \<Rightarrow> bool" where
  "serves k n now d \<longleftrightarrow>
     list_ex (\<lambda>e. is_endpoint k n e \<and> ep_active e \<and> ep_last_seen e = now) (cd_endpoints d)"

lemma serves_upsert [simp]: "serves k n now (upsert_endpoint k n now room d)"
proof (cases "list_ex (is_endpoint k n) (cd_endpoints d)")
  case True
  let ?f = "\<lambda>e. e\<lparr>ep_active := True, ep_last_seen := now,
               ep_source_room_name := (if room \<noteq> None then room else ep_source_room_name e)\<rparr>"
  obtain x where "is_endpoint k n x" "?f x \<in> set (modify_first (is_endpoint k n) ?f (cd_endpoints d))"
    using modify_first_hit [OF True, of ?f] by blast
  then show ?thesis
    unfolding serves_def upsert_endpoint_known [OF True] list_ex_iff
    by (intro bexI [of _ "?f x"]) (simp_all add: is_endpoint_def)
qed (simp add: serves_def upsert_endpoint_def is_endpoint_def)

lemma serves_rekey:
  assumes "stale_native_id ident k d = Some stale"
  shows "serves k (di_native_id ident) now (rekey_endpoint ident k now stale d)"
proof -
  let ?f = "\<lambda>e. e\<lparr>ep_native_id := di_native_id ident, ep_last_seen := now, ep_active := True,
       ep_source_room_name :=
         (if identity_room ident \<noteq> None then identity_room ident else ep_source_room_name e)\<rparr>"
  have "list_ex (is_endpoint k stale) (cd_endpoints d)"
    using stale_native_id_SomeD [OF assms] by blast
  then obtain x where "is_endpoint k stale x"
      "?f x \<in> set (modify_first (is_endpoint k stale) ?f (cd_endpoints d))"
    using modify_first_hit [of _ _ ?f] by blast
  moreover have "cd_endpoints (rekey_endpoint ident k now stale d) =
      modify_first (is_endpoint k stale) ?f (cd_endpoints d)"
    by (simp add: rekey_endpoint_def)
  ultimately show ?thesis
    unfolding serves_def list_ex_iff by (intro bexI [of _ "?f x"]) (simp_all add: is_endpoint_def)
qed

lemma serves_endpoints: "cd_endpoints d = cd_endpoints d' \<Longrightarrow> serves k n now d = serves k n now d'"
  by (simp add: serves_def)

text \<open>
  What each way of resolving has in common: one device is written, the native index leads to it,
  and it serves the discovered endpoint. \<open>grown\<close> names the reason the endpoint may be new on it.
\<close>

definition resolved_as ::
    "discovered_identity \<Rightarrow> hub_key \<Rightarrow> u64 \<Rightarrow> canonical_registry \<Rightarrow> resolve_result \<Rightarrow>
     canonical_registry \<Rightarrow> canonical_device \<Rightarrow> bool" where
  "resolved_as ident k now reg r reg' d' \<longleftrightarrow>
     map_of (cr_devices reg') = (map_of (cr_devices reg))(resolved_id r \<mapsto> d') \<and>
     map_of (cr_native reg') (native_key k (di_native_id ident)) = Some (resolved_id r) \<and>
     cd_device_type d' = di_device_type ident \<and> \<not> is_removed d' \<and>
     serves k (di_native_id ident) now d' \<and>
     (case map_of (cr_devices reg) (resolved_id r) of
        None \<Rightarrow> r = Created (resolved_id r)
      | Some d \<Rightarrow>
          r \<noteq> Created (resolved_id r) \<and>
          endpoint_keys d' \<subseteq> insert (native_key k (di_native_id ident)) (endpoint_keys d) \<and>
          (native_key k (di_native_id ident) \<in> endpoint_keys d \<or>
           k \<in> ep_hub_key ` set (cd_endpoints d) \<or> previously_approved ident k d))"

lemma is_removed_cong: "cd_removed_at d = cd_removed_at d' \<Longrightarrow> is_removed d = is_removed d'"
  by (simp add: is_removed_def)

lemma resolve_known_as:
  assumes "registry_ok reg" and "resolve_known ident k now reg = Some (r, reg')"
  shows "\<exists>i d'. r = AlreadyKnown i \<and> resolved_as ident k now reg r reg' d'"
proof -
  obtain i d where i: "map_of (cr_native reg) (native_key k (di_native_id ident)) = Some i"
    "map_of (cr_devices reg) i = Some d" "cd_device_type d = di_device_type ident"
    using assms(2) by (auto simp: resolve_known_def split: option.splits if_splits)
  have key: "native_key k (di_native_id ident) \<in> endpoint_keys d"
    using index_soundD [OF registry_okD(5) [OF assms(1)] i(1)] i(2) by simp
  let ?d1 = "if is_removed d then d\<lparr>cd_removed_at := None\<rparr> else d"
  let ?d2 = "upsert_endpoint k (di_native_id ident) now (identity_room ident) ?d1"
  obtain d3 hw where a: "add_hardware i (di_hardware_ids ident) (?d2, cr_hw reg) = (d3, hw)"
    by fastforce
  have reg': "r = AlreadyKnown i" "cr_devices reg' = AList.update i d3 (cr_devices reg)"
    "cr_native reg' = cr_native reg"
    using assms(2) i a by (auto simp: resolve_known_def put_device_def Let_def split: if_splits)
  note h = add_hardware_keys [OF a]
  have "\<not> is_removed d3" "cd_device_type d3 = di_device_type ident"
    "endpoint_keys d3 = insert (native_key k (di_native_id ident)) (endpoint_keys d)"
    using i(3) h by (simp_all add: is_removed_def) (simp_all add: endpoint_keys_def)
  moreover have "serves k (di_native_id ident) now d3"
    using serves_endpoints [OF h(4)] by simp
  ultimately have "resolved_as ident k now reg r reg' d3"
    using reg' i key by (simp add: resolved_as_def update_conv')
  with reg'(1) show ?thesis by blast
qed

lemma resolve_known_hit:
  assumes "map_of (cr_native reg) (native_key k (di_native_id ident)) = Some i"
    and "map_of (cr_devices reg) i = Some d" and "cd_device_type d = di_device_type ident"
  shows "\<exists>reg'. resolve_known ident k now reg = Some (AlreadyKnown i, reg')"
proof -
  obtain d3 hw where "add_hardware i (di_hardware_ids ident)
      (upsert_endpoint k (di_native_id ident) now (identity_room ident)
         (if is_removed d then d\<lparr>cd_removed_at := None\<rparr> else d), cr_hw reg) = (d3, hw)"
    by fastforce
  with assms show ?thesis by (simp add: resolve_known_def Let_def)
qed

lemma resolve_hardware_as:
  assumes "registry_ok reg" and "resolve_hardware ident k now reg = Inl (r, reg')"
  shows "\<exists>i d'. (r = AlreadyKnown i \<or> r = ReApproved i) \<and> resolved_as ident k now reg r reg' d'"
proof -
  obtain i d d2 d' hw native where i: "map_of (cr_devices reg) i = Some d" "\<not> is_removed d"
      "cd_device_type d = di_device_type ident"
    and a: "add_hardware i (di_hardware_ids ident) (d2, cr_hw reg) = (d', hw)"
    and reg': "reg' = (put_device i d' reg)\<lparr>cr_hw := hw,
        cr_native := AList.update (native_key k (di_native_id ident)) i native\<rparr>"
    and r: "resolved_id r = i"
    and c: "(\<exists>stale. stale_native_id ident k d = Some stale \<and> r = AlreadyKnown i \<and>
        d2 = rekey_endpoint ident k now stale d \<and> native = AList.delete (native_key k stale) (cr_native reg)) \<or>
     (previously_approved ident k d \<and> r = ReApproved i \<and> native = cr_native reg \<and>
        d2 = upsert_endpoint k (di_native_id ident) now (identity_room ident) d)"
    by (rule resolve_hardware_Inl [OF assms(2)])
  note h = add_hardware_keys [OF a]
  have d2: "cd_device_type d2 = cd_device_type d" "cd_removed_at d2 = cd_removed_at d"
    "serves k (di_native_id ident) now d2"
    using c by (auto intro: serves_rekey)
  have grow: "endpoint_keys d2 \<subseteq> insert (native_key k (di_native_id ident)) (endpoint_keys d) \<and>
      (k \<in> ep_hub_key ` set (cd_endpoints d) \<or> previously_approved ident k d)"
    using c
  proof
    assume "\<exists>stale. stale_native_id ident k d = Some stale \<and> r = AlreadyKnown i \<and>
        d2 = rekey_endpoint ident k now stale d \<and> native = AList.delete (native_key k stale) (cr_native reg)"
    then obtain stale where s: "stale_native_id ident k d = Some stale"
      "d2 = rekey_endpoint ident k now stale d" by blast
    have "k \<in> ep_hub_key ` set (cd_endpoints d)"
      using stale_native_id_SomeD [OF s(1)] by (auto simp: list_ex_iff is_endpoint_def)
    moreover have "endpoint_keys d2 \<subseteq> insert (native_key k (di_native_id ident)) (endpoint_keys d)"
    proof
      fix key assume "key \<in> endpoint_keys d2"
      then show "key \<in> insert (native_key k (di_native_id ident)) (endpoint_keys d)"
        using modify_first_set [of "is_endpoint k stale" _ "cd_endpoints d"]
        by (force simp: s(2) rekey_endpoint_def endpoint_keys_def is_endpoint_def)
    qed
    ultimately show ?thesis by blast
  qed auto
  have t: "cd_device_type d' = di_device_type ident" "\<not> is_removed d'"
    "serves k (di_native_id ident) now d'" "endpoint_keys d' = endpoint_keys d2"
    using i(2,3) d2 h serves_endpoints [OF h(4)] is_removed_cong [of d' d] by simp_all
  have "r \<noteq> Created i" using c by auto
  then have "resolved_as ident k now reg r reg' d'"
    unfolding resolved_as_def reg' put_device_def
    using grow by (simp add: update_conv' r i(1) t)
  then show ?thesis using c by auto
qed

lemma create_device_as:
  assumes "map_of (cr_devices reg) uuid = None" and "create_device uuid ident k now reg = (r, reg')"
  shows "r = Created uuid \<and> (\<exists>d'. resolved_as ident k now reg r reg' d')"
proof -
  have "serves k (di_native_id ident) now (created_device uuid ident k now)"
    "\<not> is_removed (created_device uuid ident k now)"
    by (simp_all add: serves_def is_endpoint_def is_removed_def)
  then show ?thesis
    using assms by (auto simp: create_device_alt resolved_as_def put_device_def update_conv')
qed

lemma resolved_as_triage:
  "resolved_as ident k now (reg\<lparr>cr_triage := q\<rparr>) r reg' d' = resolved_as ident k now reg r reg' d'"
  by (simp add: resolved_as_def)

lemma resolve_as:
  assumes "registry_ok reg" and "map_of (cr_devices reg) uuid = None"
    and "resolve lower uuid ident k now reg = (r, reg')"
  shows "(\<exists>d'. resolved_as ident k now reg r reg' d') \<and>
    (\<forall>i. r \<noteq> Queued i) \<and> (r = Created (resolved_id r) \<longrightarrow> resolved_id r = uuid)"
proof (cases "resolve_known ident k now reg")
  case (Some p)
  with resolve_known_as [OF assms(1), of ident k now r reg'] assms(3) show ?thesis
    by (auto simp: resolve_def)
next
  case None
  show ?thesis
  proof (cases "resolve_hardware ident k now reg")
    case (Inl p)
    with None resolve_hardware_as [OF assms(1), of ident k now r reg'] assms(3) show ?thesis
      by (auto simp: resolve_def)
  next
    case (Inr reg1)
    then obtain q where q: "queue_heuristic lower ident k now reg1 = reg\<lparr>cr_triage := q\<rparr>"
      using resolve_hardware_Inr [OF Inr] queue_heuristic_triage [of lower ident k now reg1] by auto
    with None Inr assms create_device_as [of "reg\<lparr>cr_triage := q\<rparr>" uuid ident k now r reg']
    show ?thesis by (auto simp: resolve_def resolved_as_triage)
  qed
qed

section \<open>Properties\<close>

text \<open>C6: In every registry that the operations can reach, starting from the empty one, with
  fresh identifiers and whatever happens to the triage queue, a lookup never dangles: an index
  entry leads to a device that exists, is stored under its own identifier and has the endpoint or
  hardware value that was looked up.\<close>

theorem reachable_lookups_sound:
  assumes "reachable reg"
  shows "(\<forall>i d. registry_get i reg = Some d \<longrightarrow> cd_id d = i) \<and>
    (\<forall>key i. map_of (cr_native reg) key = Some i \<longrightarrow>
       (\<exists>d. registry_get i reg = Some d \<and> key \<in> endpoint_keys d)) \<and>
    (\<forall>v i. map_of (cr_hw reg) v = Some i \<longrightarrow>
       (\<exists>d. registry_get i reg = Some d \<and> has_hardware_value v d))"
  using registry_okD(3,5,6) [OF reachable_ok [OF assms]]
  by (simp add: registry_get_def has_hardware_value_def hardware_keys_def index_sound_def)

definition lamp_identity :: "string \<Rightarrow> discovered_identity" where
  "lamp_identity n =
     \<lparr>di_native_id = n, di_room_id = None, di_room_name = None, di_name = ''Lamp'',
      di_device_type = Light, di_hardware_ids = [Mac ''00:17''], di_manufacturer = None,
      di_model = None\<rparr>"

definition hue_hub :: hub_key where "hue_hub = \<lparr>hk_type = ''hue'', hk_address = ''h''\<rparr>"

definition ha_hub :: hub_key where "ha_hub = \<lparr>hk_type = ''ha'', hk_address = ''a''\<rparr>"

definition one_lamp :: canonical_registry where
  "one_lamp = snd (resolve id ''A'' (lamp_identity ''l1'') hue_hub 1 registry_new)"

lemmas sample_defs =
  one_lamp_def lamp_identity_def hue_hub_def ha_hub_def registry_new_def queue_new_def

lemma one_lamp_reachable: "reachable one_lamp"
  unfolding one_lamp_def
  by (rule reachable_step [OF reachable_new]) (rule registry_step.intros, simp add: registry_new_def)

lemma one_lamp_eq:
  "one_lamp =
     \<lparr>cr_devices = [(''A'', created_device ''A'' (lamp_identity ''l1'') hue_hub 1)], cr_triage = [],
      cr_names = [(''A'', Automatic)], cr_hw = [(''00:17'', ''A'')],
      cr_native = [((''hue@h'', ''l1''), ''A'')]\<rparr>"
  by (simp add: sample_defs resolve_def resolve_known_def resolve_hardware_def queue_heuristic_def
      create_device_alt put_device_def native_key_def display_hub_key_def)

theorem reachable_lookups_sound_witness:
  "map_of (cr_native one_lamp) (''hue@h'', ''l1'') = Some ''A'' \<and>
   (\<exists>d. registry_get ''A'' one_lamp = Some d \<and> (''hue@h'', ''l1'') \<in> endpoint_keys d)"
  using reachable_lookups_sound [OF one_lamp_reachable] by (simp add: one_lamp_eq)

text \<open>C14: Resolving a discovered device always ends with a device that serves it: the lookup of
  its hub and native identifier leads to a device of the discovered type that is not removed and
  has this endpoint, active and just seen. The result is never a mere place in the queue, and no
  device other than the resulting one changes.\<close>

theorem resolve_always_serves:
  assumes "registry_ok reg" and "map_of (cr_devices reg) uuid = None"
    and "resolve lower uuid ident k now reg = (r, reg')"
  shows "(\<exists>d. find_by_native_id k (di_native_id ident) reg' = Some d \<and> cd_id d = resolved_id r \<and>
      cd_device_type d = di_device_type ident \<and> \<not> is_removed d \<and> serves k (di_native_id ident) now d) \<and>
    (\<forall>i. r \<noteq> Queued i) \<and>
    (\<forall>i. i \<noteq> resolved_id r \<longrightarrow> registry_get i reg' = registry_get i reg)"
proof -
  obtain d where d: "resolved_as ident k now reg r reg' d"
    using resolve_as [OF assms] by blast
  have "registry_ok reg'"
    using resolve_ok [OF assms(1,2), of lower ident k now] assms(3) by simp
  then show ?thesis
    using d resolve_as [OF assms] registry_okD(3) [of reg' "resolved_id r" d]
    by (simp add: resolved_as_def find_by_native_id_def registry_get_def)
qed

theorem resolve_always_serves_witness:
  "\<exists>d. find_by_native_id ha_hub ''light.l1''
        (snd (resolve id ''B'' (lamp_identity ''light.l1'') ha_hub 2 one_lamp)) = Some d \<and>
      serves ha_hub ''light.l1'' 2 d"
proof -
  obtain r reg' where res: "resolve id ''B'' (lamp_identity ''light.l1'') ha_hub 2 one_lamp = (r, reg')"
    by fastforce
  have "map_of (cr_devices one_lamp) ''B'' = None" by (simp add: one_lamp_eq)
  from resolve_always_serves [OF reachable_ok [OF one_lamp_reachable] this res] show ?thesis
    by (auto simp: res) (auto simp: lamp_identity_def)
qed

text \<open>C11: Discovery never joins devices of different hubs on its own: a device that was there
  before gets at most the discovered endpoint, and it gets it only when it had it already, has
  another endpoint on the same hub, or a user approved this very merge before.\<close>

theorem resolve_joins_only_approved:
  assumes "registry_ok reg" and "map_of (cr_devices reg) uuid = None"
    and "resolve lower uuid ident k now reg = (r, reg')"
    and "registry_get i reg = Some d" and "registry_get i reg' = Some d'"
    and "key \<in> endpoint_keys d'" and "key \<notin> endpoint_keys d"
  shows "key = native_key k (di_native_id ident) \<and>
    (k \<in> ep_hub_key ` set (cd_endpoints d) \<or> previously_approved ident k d)"
proof -
  obtain e where e: "resolved_as ident k now reg r reg' e"
    using resolve_as [OF assms(1-3)] by blast
  have "i = resolved_id r"
    using e assms(4-7) by (auto simp: resolved_as_def registry_get_def split: if_splits)
  then have "d' = e" "map_of (cr_devices reg) (resolved_id r) = Some d"
    using e assms(4,5) by (simp_all add: resolved_as_def registry_get_def)
  with e assms(6,7) show ?thesis by (auto simp: resolved_as_def)
qed

theorem resolve_joins_only_approved_witness:
  "\<exists>d. registry_get ''A'' one_lamp = Some d \<and> (''hue@h'', ''l2'') \<notin> endpoint_keys d \<and>
     hue_hub \<in> ep_hub_key ` set (cd_endpoints d)"
proof -
  let ?d = "created_device ''A'' (lamp_identity ''l1'') hue_hub 1"
  let ?res = "resolve id ''B'' (lamp_identity ''l2'') hue_hub 2 one_lamp"
  have d: "registry_get ''A'' one_lamp = Some ?d" by (simp add: registry_get_def one_lamp_eq)
  have fresh: "map_of (cr_devices one_lamp) ''B'' = None" by (simp add: one_lamp_eq)
  have key: "(''hue@h'', ''l2'') \<notin> endpoint_keys ?d"
    by (simp add: endpoint_keys_def native_key_def lamp_identity_def)
  have "\<exists>d'. registry_get ''A'' (snd ?res) = Some d' \<and> (''hue@h'', ''l2'') \<in> endpoint_keys d'"
    by (simp add: resolve_def resolve_known_def resolve_hardware_def one_lamp_eq registry_get_def
        put_device_def lamp_identity_def native_key_def display_hub_key_def hue_hub_def is_removed_def
        stale_native_id_def rekey_endpoint_def is_endpoint_def has_hardware_id_def
        created_device_def device_new_def upsert_endpoint_def endpoint_keys_def identity_room_def)
  then obtain d' where d': "registry_get ''A'' (snd ?res) = Some d'" "(''hue@h'', ''l2'') \<in> endpoint_keys d'"
    by blast
  have "\<not> previously_approved (lamp_identity ''l2'') hue_hub ?d"
    by (simp add: previously_approved_def created_device_def device_new_def upsert_endpoint_def)
  with resolve_joins_only_approved [OF reachable_ok [OF one_lamp_reachable] fresh prod.collapse [symmetric]
      d d' key] d key
  show ?thesis by blast
qed

text \<open>Discovering the same device again, with no change in between, finds it: no device is
  created and the result is the one of the first discovery.\<close>

theorem resolve_again_known:
  assumes "registry_ok reg" and "map_of (cr_devices reg) uuid = None"
    and "resolve lower uuid ident k now reg = (r, reg')"
    and "resolve lower uuid' ident k now' reg' = (r', reg'')"
  shows "r' = AlreadyKnown (resolved_id r) \<and> dom (map_of (cr_devices reg'')) = dom (map_of (cr_devices reg'))"
proof -
  obtain d where d: "resolved_as ident k now reg r reg' d"
    using resolve_as [OF assms(1-3)] by blast
  have ok: "registry_ok reg'"
    using resolve_ok [OF assms(1,2), of lower ident k now] assms(3) by simp
  have k: "map_of (cr_native reg') (native_key k (di_native_id ident)) = Some (resolved_id r)"
    "map_of (cr_devices reg') (resolved_id r) = Some d" "cd_device_type d = di_device_type ident"
    using d by (simp_all add: resolved_as_def)
  then obtain reg1 where p: "resolve_known ident k now' reg' = Some (AlreadyKnown (resolved_id r), reg1)"
    using resolve_known_hit by blast
  then have r': "r' = AlreadyKnown (resolved_id r)" "reg'' = reg1"
    using assms(4) by (simp_all add: resolve_def)
  obtain d'' where "resolved_as ident k now' reg' r' reg'' d''"
    using resolve_known_as [OF ok] p r' by blast
  then have "map_of (cr_devices reg'') = (map_of (cr_devices reg'))(resolved_id r \<mapsto> d'')"
    by (simp add: resolved_as_def r'(1))
  with r'(1) k(2) show ?thesis by auto
qed

theorem resolve_again_known_witness:
  "fst (resolve id ''B'' (lamp_identity ''l1'') hue_hub 9 one_lamp) = AlreadyKnown ''A''"
proof -
  have new: "map_of (cr_devices registry_new) ''A'' = None" by (simp add: registry_new_def)
  have "fst (resolve id ''A'' (lamp_identity ''l1'') hue_hub 1 registry_new) = Created ''A''"
    by (simp add: sample_defs resolve_def resolve_known_def resolve_hardware_def create_device_alt)
  then have one: "resolve id ''A'' (lamp_identity ''l1'') hue_hub 1 registry_new = (Created ''A'', one_lamp)"
    unfolding one_lamp_def by (metis prod.collapse)
  obtain r reg' where res: "resolve id ''B'' (lamp_identity ''l1'') hue_hub 9 one_lamp = (r, reg')"
    by fastforce
  from resolve_again_known [OF registry_ok_new new one res] show ?thesis by (simp add: res)
qed

lemma queue_get_resolved:
  assumes "queue_get i q = Some e"
  shows "queue_get i (snd (resolve_entry i st who now q)) = Some (mark_resolved st who now e)"
proof -
  have "find (\<lambda>e. te_id e = i) (modify_first (\<lambda>e. te_id e = i) (mark_resolved st who now) q) = Some (mark_resolved st who now e)"
    using assms unfolding queue_get_def by (induction q) (auto simp: mark_resolved_def split: if_splits)
  moreover have "list_ex (\<lambda>e. te_id e = i) q"
    using assms unfolding queue_get_def by (induction q) (auto split: if_splits)
  ultimately show ?thesis by (simp add: resolve_entry_def queue_get_def)
qed

lemma queue_get_unassigned:
  assumes "queue_get i q = Some e" and "te_status e \<noteq> Pending"
  shows "queue_get i (snd (resolve_unassigned_for_device c now q)) = Some e"
proof -
  have "find (\<lambda>e. te_id e = i) (map (\<lambda>e. if te_status e = Pending \<and> is_unassigned_for c e then mark_resolved Confirmed ''auto'' now e else e) q) = Some e"
    using assms unfolding queue_get_def by (induction q) (auto simp: mark_resolved_def split: if_splits)
  then show ?thesis by (simp add: resolve_unassigned_for_device_def Let_def queue_get_def)
qed

text \<open>C23: Confirming a merge moves the endpoint: afterwards the lookup of the discovered endpoint
  leads to the chosen device, which is live and has the merge on record, the device that was
  created for the endpoint meanwhile is gone, and the entry is confirmed, by the request and at its time.\<close>

theorem confirm_merge_moves_endpoint:
  assumes "registry_ok reg" and "queue_get eid (cr_triage reg) = Some entry"
    and "confirm_merge eid cid now reg = (True, reg')"
  shows "(\<exists>d. find_by_native_id (te_hub_key entry) (td_native_id (te_discovered entry)) reg' = Some d \<and>
      cd_id d = cid \<and> \<not> is_removed d \<and>
      list_ex (\<lambda>m. mr_source_hub m = te_hub_key entry \<and>
                   mr_source_native_id m = td_native_id (te_discovered entry)) (cd_merge_history d)) \<and>
    (\<forall>s. find_by_native_id (te_hub_key entry) (td_native_id (te_discovered entry)) reg = Some s \<and>
         cd_id s \<noteq> cid \<longrightarrow> registry_get (cd_id s) reg' = None) \<and>
    (\<exists>e. queue_get eid (cr_triage reg') = Some e \<and> te_status e = Confirmed \<and>
       te_resolved_by e = Some ''api'' \<and> te_resolved_at e = Some now)"
proof -
  let ?k = "te_hub_key entry" and ?n = "td_native_id (te_discovered entry)"
  let ?silo = "map_option cd_id (opt_filter (\<lambda>d. cd_id d \<noteq> cid) (find_by_native_id ?k ?n reg))"
  obtain reg1 where m: "complete_merge eid cid ?k now reg = (True, reg1)"
    and reg': "reg' = (case ?silo of Some s \<Rightarrow> snd (remove_device s now reg1) | None \<Rightarrow> reg1)"
    using assms(2,3) by (auto simp: confirm_merge_def Let_def split: if_splits prod.splits)
  from m obtain d where d: "map_of (cr_devices reg) cid = Some d" "\<not> is_removed d"
    and reg1: "reg1 = (put_device cid (merged_device cid ?k now (te_discovered entry) d reg) reg)
      \<lparr>cr_names := snd (adopt_user_name cid (native_key ?k ?n) d reg),
       cr_native := AList.update (native_key ?k ?n) cid (cr_native reg),
       cr_triage := snd (resolve_entry eid Confirmed ''api'' now (cr_triage reg))\<rparr>"
    by (rule complete_merge_SomeD) (use assms(2) that in simp)
  let ?d = "merged_device cid ?k now (te_discovered entry) d reg"
  note f = merged_device_fields [of cid ?k now "te_discovered entry" d reg]
  have hist: "list_ex (\<lambda>m. mr_source_hub m = ?k \<and> mr_source_native_id m = ?n) (cd_merge_history ?d)"
    by (simp add: merged_device_def record_merge_def)
  have id: "cd_id ?d = cid" using registry_okD(3) [OF assms(1) d(1)] f(1) by simp
  have live: "\<not> is_removed ?d" using d(2) is_removed_cong [OF f(4)] by simp
  have one: "map_of (cr_native reg1) (native_key ?k ?n) = Some cid" "map_of (cr_devices reg1) cid = Some ?d"
    by (simp_all add: reg1 put_device_def)
  have kept: "map_of (cr_native reg') (native_key ?k ?n) = Some cid \<and> map_of (cr_devices reg') cid = Some ?d"
  proof (cases ?silo)
    case (Some s)
    then have "s \<noteq> cid" by (auto dest: opt_filter_SomeD)
    moreover have "registry_ok reg1" using complete_merge_ok [OF assms(1) m] .
    ultimately show ?thesis
      using one Some by (auto simp: reg' remove_device_def drop_own_lookup delete_conv' registry_okD(3)
          split: option.splits)
  qed (use one reg' in simp)
  have gone: "registry_get (cd_id s) reg' = None"
    if "find_by_native_id ?k ?n reg = Some s" "cd_id s \<noteq> cid" for s
    using that by (simp add: reg' registry_get_def remove_device_def delete_conv' split: option.split)
  let ?e = "mark_resolved Confirmed ''api'' now entry"
  have "queue_get eid (cr_triage reg1) = Some ?e" by (simp add: reg1 queue_get_resolved [OF assms(2)])
  then have "queue_get eid (cr_triage reg') = Some ?e"
    by (auto simp: reg' remove_device_def mark_resolved_def intro: queue_get_unassigned split: option.split)
  then have "\<exists>e. queue_get eid (cr_triage reg') = Some e \<and> te_status e = Confirmed \<and>
      te_resolved_by e = Some ''api'' \<and> te_resolved_at e = Some now"
    by (simp add: mark_resolved_def)
  then show ?thesis
    using kept hist id live gone by (simp add: find_by_native_id_def)
qed

definition two_lamps :: canonical_registry where
  "two_lamps = snd (resolve id ''B'' (lamp_identity ''light.l1'') ha_hub 2 one_lamp)"

definition merged_lamp :: "bool \<times> canonical_registry" where
  "merged_lamp = confirm_merge ''triage-2-light.l1'' ''A'' 3 two_lamps"

lemma two_lamps_eq:
  "two_lamps =
     \<lparr>cr_devices = [(''A'', created_device ''A'' (lamp_identity ''l1'') hue_hub 1),
                     (''B'', created_device ''B'' (lamp_identity ''light.l1'') ha_hub 2)],
      cr_triage = [merge_entry (lamp_identity ''light.l1'') ha_hub 2
         [\<lparr>cm_canonical_id = ''A'', cm_name = ''Lamp'', cm_score = 100, cm_reasons = [ExactHardware]\<rparr>] 100],
      cr_names = [(''A'', Automatic), (''B'', Automatic)], cr_hw = [(''00:17'', ''B'')],
      cr_native = [((''hue@h'', ''l1''), ''A''), ((''ha@a'', ''light.l1''), ''B'')]\<rparr>"
  by (simp add: two_lamps_def one_lamp_eq resolve_def resolve_known_def resolve_hardware_def
      queue_heuristic_def create_device_alt put_device_def native_key_def display_hub_key_def
      lamp_identity_def hue_hub_def ha_hub_def is_removed_def stale_native_id_def
      previously_approved_def has_device_def queue_add_def)
    (simp add: created_device_def device_new_def upsert_endpoint_def)

lemma two_lamps_entry:
  "queue_get ''triage-2-light.l1'' (cr_triage two_lamps) = Some (hd (cr_triage two_lamps))"
  "te_kind (hd (cr_triage two_lamps)) = DeviceMerge" "te_hub_key (hd (cr_triage two_lamps)) = ha_hub"
  "td_native_id (te_discovered (hd (cr_triage two_lamps))) = ''light.l1''"
  by (simp_all add: two_lamps_eq queue_get_def merge_entry_def triage_discovered_of_def
      lamp_identity_def show_nat.simps digit_char_def char_of_def bit_0)

lemma merged_lamp_eq:
  "fst merged_lamp" "cr_hw (snd merged_lamp) = []"
  "\<exists>d. cr_devices (snd merged_lamp) = [(''A'', d)] \<and> hardware_keys d = {''00:17''} \<and> \<not> is_removed d"
proof -
  note q = two_lamps_entry(1) and td = two_lamps_entry(2-4)
  let ?d = "merged_device ''A'' ha_hub 3 (te_discovered (hd (cr_triage two_lamps)))
      (created_device ''A'' (lamp_identity ''l1'') hue_hub 1) two_lamps"
  have m: "complete_merge ''triage-2-light.l1'' ''A'' ha_hub 3 two_lamps =
     (True, (put_device ''A'' ?d two_lamps)
      \<lparr>cr_names := snd (adopt_user_name ''A'' (native_key ha_hub ''light.l1'')
          (created_device ''A'' (lamp_identity ''l1'') hue_hub 1) two_lamps),
       cr_native := AList.update (native_key ha_hub ''light.l1'') ''A'' (cr_native two_lamps),
       cr_triage := snd (resolve_entry ''triage-2-light.l1'' Confirmed ''api'' 3 (cr_triage two_lamps))\<rparr>)"
    by (rule complete_merge_eq [OF q, unfolded td])
      (simp_all add: two_lamps_eq is_removed_def)
  have f: "find_by_native_id ha_hub ''light.l1'' two_lamps =
      Some (created_device ''B'' (lamp_identity ''light.l1'') ha_hub 2)"
    by (simp add: find_by_native_id_def two_lamps_eq native_key_def display_hub_key_def ha_hub_def)
  have c: "merged_lamp = (True, snd (remove_device ''B'' 3 (snd (complete_merge ''triage-2-light.l1'' ''A'' ha_hub 3 two_lamps))))"
    unfolding merged_lamp_def confirm_merge_def q option.case td by (simp add: m Let_def f)
  have d: "cr_devices (snd merged_lamp) = [(''A'', ?d)]" "cr_hw (snd merged_lamp) = []"
    unfolding c m by (simp_all add: remove_device_def put_device_def two_lamps_eq)
      (simp_all add: drop_own_def lamp_identity_def)
  then show "cr_hw (snd merged_lamp) = []" by simp
  have "hardware_keys ?d = {''00:17''}"
    unfolding merged_device_fields by (simp add: hardware_keys_def lamp_identity_def)
  moreover have "\<not> is_removed ?d"
    by (simp add: is_removed_def merged_device_fields)
  ultimately show "\<exists>d. cr_devices (snd merged_lamp) = [(''A'', d)] \<and> hardware_keys d = {''00:17''} \<and> \<not> is_removed d"
    using d by blast
  show "fst merged_lamp" by (simp add: c)
qed

theorem confirm_merge_moves_endpoint_witness:
  "registry_get ''B'' (snd merged_lamp) = None \<and>
   (\<exists>d. find_by_native_id ha_hub ''light.l1'' (snd merged_lamp) = Some d \<and> cd_id d = ''A'')"
proof -
  have "map_of (cr_devices one_lamp) ''B'' = None" by (simp add: one_lamp_eq)
  then have ok: "registry_ok two_lamps"
    unfolding two_lamps_def by (rule resolve_ok [OF reachable_ok [OF one_lamp_reachable]])
  have c: "confirm_merge ''triage-2-light.l1'' ''A'' 3 two_lamps = (True, snd merged_lamp)"
    using merged_lamp_eq(1) by (metis merged_lamp_def prod.collapse)
  have f: "find_by_native_id ha_hub ''light.l1'' two_lamps =
      Some (created_device ''B'' (lamp_identity ''light.l1'') ha_hub 2)"
    by (simp add: find_by_native_id_def two_lamps_eq native_key_def display_hub_key_def ha_hub_def)
  from confirm_merge_moves_endpoint [OF ok two_lamps_entry(1) c] show ?thesis
    unfolding two_lamps_entry f by auto
qed

text \<open>A confirmed merge loses the hardware index entry of the merged device: discovering the
  lamp on a second hub redirected it to the silo device, and removing the silo device deletes it.
  Until the indices are rebuilt, the hardware value of the lamp finds nothing, though the lamp is
  there and has it.\<close>

theorem confirm_merge_loses_hardware_index:
  "fst merged_lamp \<and>
   find_by_hardware_id (Mac ''00:17'') one_lamp \<noteq> None \<and>
   find_by_hardware_id (Mac ''00:17'') (snd merged_lamp) = None \<and>
   list_ex (has_hardware_value ''00:17'') (registry_devices (snd merged_lamp)) \<and>
   find_by_hardware_id (Mac ''00:17'') (rebuild_indices (snd merged_lamp)) \<noteq> None"
proof -
  obtain d where d: "cr_devices (snd merged_lamp) = [(''A'', d)]" "hardware_keys d = {''00:17''}" "\<not> is_removed d"
    using merged_lamp_eq(3) by blast
  have v: "has_hardware_value ''00:17'' d"
    using d(2) by (simp add: has_hardware_value_def hardware_keys_def)
  have "map_of (fold (\<lambda>h. AList.update (hw_value h) ''A'') hs m) v = 
      (if v \<in> hw_value ` set hs then Some ''A'' else map_of m v)" for hs m v
    by (induction hs arbitrary: m) (auto simp: update_conv')
  then have "find_by_hardware_id (Mac ''00:17'') (rebuild_indices (snd merged_lamp)) = Some d"
    using v by (simp add: find_by_hardware_id_def rebuild_indices_def d(1) index_device_def has_hardware_value_def)
  then show ?thesis
    using merged_lamp_eq(1,2) d v
    by (simp add: find_by_hardware_id_def one_lamp_eq registry_devices_def)
qed

end
