(* ===== verification/FlightRing.thy ===== *)
theory FlightRing
  imports RustStr
begin

text \<open>
  The on-disk ring of the host flight recorder, \<open>ring.rs\<close> of \<open>rhythm-host-recorder\<close>: a fixed
  number of append-only segment files of JSON lines, the oldest of which is truncated when the
  active one is full, and the reader that recovers the records after a crash.

  The JSON codec is the \<open>serde_json\<close> crate and is an argument: \<open>enc\<close> gives the bytes of a record or
  the error, \<open>dec\<close> the record of a line, if it is one. The file system is a directory of files; what
  its calls answer is an argument too (\<open>io_faults\<close>), so that every error branch is a branch of the
  model. A time stamp is the text the clock gives.
\<close>

section \<open>Data\<close>

type_synonym io_error = string

definition SCHEMA_VERSION :: u32 where "SCHEMA_VERSION = 1"

definition DEFAULT_SEGMENT_COUNT :: nat where "DEFAULT_SEGMENT_COUNT = 8"

definition DEFAULT_SEGMENT_BYTES_LIMIT :: nat where "DEFAULT_SEGMENT_BYTES_LIMIT = 248 * 1024"

definition MAX_RECORD_BYTES :: nat where "MAX_RECORD_BYTES = 64 * 1024"

definition SUMMARY_RECORD_BYTES_LIMIT :: nat where "SUMMARY_RECORD_BYTES_LIMIT = 8 * 1024"

definition DETAIL_RECORD_BYTES_LIMIT :: nat where "DETAIL_RECORD_BYTES_LIMIT = 16 * 1024"

definition ESCALATION_RECORD_BYTES_LIMIT :: nat where
  "ESCALATION_RECORD_BYTES_LIMIT = MAX_RECORD_BYTES"

record 'p envelope =
  en_schema :: u32
  en_sequence :: u64
  en_boot_id :: string
  en_wall_time :: string
  en_monotonic_ms :: u64
  en_kind :: string
  en_payload :: 'p

record recorder_health =
  rh_dropped_samples :: u64
  rh_late_cycles :: u64
  rh_write_failures :: u64
  rh_sync_failures :: u64
  rh_rotations :: u64
  rh_recovered_segments :: u64
  rh_torn_records :: u64
  rh_corrupt_records :: u64
  rh_truncated_sources :: u64
  rh_timed_out_sources :: u64
  rh_last_error :: "string option"

definition health_default :: recorder_health where
  "health_default =
     \<lparr>rh_dropped_samples = 0, rh_late_cycles = 0, rh_write_failures = 0, rh_sync_failures = 0,
      rh_rotations = 0, rh_recovered_segments = 0, rh_torn_records = 0, rh_corrupt_records = 0,
      rh_truncated_sources = 0, rh_timed_out_sources = 0, rh_last_error = None\<rparr>"

record recorder_manifest =
  mf_schema :: u32
  mf_boot_id :: string
  mf_next_sequence :: u64
  mf_active_segment :: nat
  mf_segment_count :: nat
  mf_segment_bytes_limit :: u64
  mf_summary_interval :: u64
  mf_detail_interval :: u64
  mf_sync_interval :: u64
  mf_health :: recorder_health
  mf_last_sync_at :: "string option"

record 'p ring_report =
  rr_records :: "'p envelope list"
  rr_valid :: u64
  rr_torn :: u64
  rr_corrupt :: u64
  rr_bytes_read :: u64

definition report_default :: "'p ring_report" where
  "report_default = \<lparr>rr_records = [], rr_valid = 0, rr_torn = 0, rr_corrupt = 0, rr_bytes_read = 0\<rparr>"

record ring_config =
  rc_segment_count :: nat
  rc_segment_bytes_limit :: u64
  rc_summary_interval :: u64
  rc_detail_interval :: u64
  rc_sync_interval :: u64

definition ring_config_default :: ring_config where
  "ring_config_default =
     \<lparr>rc_segment_count = DEFAULT_SEGMENT_COUNT,
      rc_segment_bytes_limit = of_nat DEFAULT_SEGMENT_BYTES_LIMIT,
      rc_summary_interval = 30, rc_detail_interval = 300, rc_sync_interval = 60\<rparr>"

text \<open>
  A ring directory: its files by name, and what \<open>read_json\<close> makes of the file \<open>manifest.json\<close>,
  \<open>None\<close> when it is missing or does not parse.
\<close>

record ring_dir =
  rd_files :: "(string, string) hmap"
  rd_manifest :: "recorder_manifest option"

definition empty_dir :: ring_dir where
  "empty_dir = \<lparr>rd_files = [], rd_manifest = None\<rparr>"

record ring_writer =
  rw_path :: string
  rw_manifest :: recorder_manifest
  rw_disk :: ring_dir

text \<open>
  What the calls of one operation answer. A failed write may leave the first bytes in the file; a
  failed atomic write of the manifest may have renamed the file already (the failure is then that
  of the directory sync) or not.
\<close>

record io_faults =
  io_metadata_ok :: bool
  io_sync_old :: "io_error option"
  io_truncate :: "io_error option"
  io_sync_new :: "io_error option"
  io_rotate_manifest :: "(bool \<times> io_error) option"
  io_open :: "io_error option"
  io_write :: "(nat \<times> io_error) option"
  io_sync :: "string \<Rightarrow> io_error option"
  io_manifest :: "(bool \<times> io_error) option"

definition no_faults :: io_faults where
  "no_faults =
     \<lparr>io_metadata_ok = True, io_sync_old = None, io_truncate = None, io_sync_new = None,
      io_rotate_manifest = None, io_open = None, io_write = None, io_sync = (\<lambda>_. None),
      io_manifest = None\<rparr>"

section \<open>Reading a ring\<close>

definition newline :: char where "newline = CHR 0x0A"

text \<open>\<open>format!("segment-{index:03}.ndjson")\<close>.\<close>

definition segment_name :: "nat \<Rightarrow> string" where
  "segment_name i =
     ''segment-'' @ replicate (3 - length (show_nat i)) CHR ''0'' @ show_nat i @ ''.ndjson''"

definition is_segment_name :: "string \<Rightarrow> bool" where
  "is_segment_name n \<longleftrightarrow> prefix ''segment-'' n \<and> suffix ''.ndjson'' n"

definition add_torn :: "'p ring_report \<Rightarrow> 'p ring_report" where
  "add_torn r = r\<lparr>rr_torn := sat_add (rr_torn r) 1\<rparr>"

definition add_corrupt :: "'p ring_report \<Rightarrow> 'p ring_report" where
  "add_corrupt r = r\<lparr>rr_corrupt := sat_add (rr_corrupt r) 1\<rparr>"

definition add_record :: "'p envelope \<Rightarrow> 'p ring_report \<Rightarrow> 'p ring_report" where
  "add_record e r = r\<lparr>rr_records := rr_records r @ [e], rr_valid := sat_add (rr_valid r) 1\<rparr>"

text \<open>The loop over the lines of one file; \<open>ended\<close>: the file ends with a newline.\<close>

fun read_lines ::
    "(string \<Rightarrow> 'p envelope option) \<Rightarrow> bool \<Rightarrow> string list \<Rightarrow> 'p ring_report \<Rightarrow> 'p ring_report" where
  "read_lines dec ended [] r = r"
| "read_lines dec ended (line # rest) r = read_lines dec ended rest
     (if line = [] then r
      else if rest = [] \<and> \<not> ended then add_torn r
      else if MAX_RECORD_BYTES < length line then add_corrupt r
      else case dec line of
          Some e \<Rightarrow> if en_schema e = SCHEMA_VERSION then add_record e r else add_corrupt r
        | None \<Rightarrow> add_corrupt r)"

definition read_file :: "(string \<Rightarrow> 'p envelope option) \<Rightarrow> string \<Rightarrow> 'p ring_report \<Rightarrow> 'p ring_report" where
  "read_file dec contents r =
     (let bytes = take (DEFAULT_SEGMENT_BYTES_LIMIT + 1) contents;
          r1 = r\<lparr>rr_bytes_read := sat_add (rr_bytes_read r) (of_nat (length bytes))\<rparr>
      in read_lines dec (suffix [newline] bytes) (split_on newline bytes) r1)"

fun dedup_sequence :: "'p envelope list \<Rightarrow> 'p envelope list" where
  "dedup_sequence (a # b # es) =
     (if en_sequence a = en_sequence b then dedup_sequence (a # es) else a # dedup_sequence (b # es))"
| "dedup_sequence es = es"

definition segment_paths :: "ring_dir \<Rightarrow> string list" where
  "segment_paths d = sort (filter is_segment_name (map fst (rd_files d)))"

text \<open>\<open>read_ring\<close>; \<open>unreadable\<close> tells which file cannot be opened or read, and why.\<close>

definition read_ring ::
    "(string \<Rightarrow> 'p envelope option) \<Rightarrow> (string \<Rightarrow> io_error option) \<Rightarrow> ring_dir option \<Rightarrow>
     io_error + 'p ring_report" where
  "read_ring dec unreadable dir =
     (case dir of
        None \<Rightarrow> Inr report_default
      | Some d \<Rightarrow>
          (case find (\<lambda>p. unreadable p \<noteq> None) (segment_paths d) of
             Some p \<Rightarrow> Inl (the (unreadable p))
           | None \<Rightarrow>
               let r = fold (\<lambda>p. read_file dec (the (map_of (rd_files d) p))) (segment_paths d) report_default;
                   es = dedup_sequence (sort_key en_sequence (rr_records r))
               in Inr (r\<lparr>rr_records := es, rr_valid := of_nat (length es)\<rparr>)))"

section \<open>Writing a ring\<close>

definition write_manifest :: "(bool \<times> io_error) option \<Rightarrow> ring_writer \<Rightarrow> (io_error + unit) \<times> ring_writer" where
  "write_manifest fault w =
     (case fault of
        None \<Rightarrow> (Inr (), w\<lparr>rw_disk := (rw_disk w)\<lparr>rd_manifest := Some (rw_manifest w)\<rparr>\<rparr>)
      | Some (renamed, e) \<Rightarrow>
          (Inl e, if renamed then w\<lparr>rw_disk := (rw_disk w)\<lparr>rd_manifest := Some (rw_manifest w)\<rparr>\<rparr> else w))"

definition upd_health :: "(recorder_health \<Rightarrow> recorder_health) \<Rightarrow> ring_writer \<Rightarrow> ring_writer" where
  "upd_health f w = w\<lparr>rw_manifest := (rw_manifest w)\<lparr>mf_health := f (mf_health (rw_manifest w))\<rparr>\<rparr>"

definition record_failure :: "string \<Rightarrow> ring_writer \<Rightarrow> ring_writer" where
  "record_failure detail = upd_health (\<lambda>h. h
     \<lparr>rh_write_failures := sat_add (rh_write_failures h) 1,
      rh_dropped_samples := sat_add (rh_dropped_samples h) 1,
      rh_last_error := Some detail\<rparr>)"

definition record_bytes_limit :: "string \<Rightarrow> nat" where
  "record_bytes_limit kind =
     (if kind = ''summary'' then SUMMARY_RECORD_BYTES_LIMIT
      else if kind = ''detail'' then DETAIL_RECORD_BYTES_LIMIT
      else if kind = ''escalation'' then ESCALATION_RECORD_BYTES_LIMIT
      else MAX_RECORD_BYTES)"

definition active_segment :: "ring_writer \<Rightarrow> string" where
  "active_segment w = segment_name (mf_active_segment (rw_manifest w))"

definition display_path :: "ring_writer \<Rightarrow> string \<Rightarrow> string" where
  "display_path w name = rw_path w @ ''/'' @ name"

definition disk_file :: "ring_writer \<Rightarrow> string \<Rightarrow> string option" where
  "disk_file w name = map_of (rd_files (rw_disk w)) name"

definition write_disk :: "string \<Rightarrow> string \<Rightarrow> ring_writer \<Rightarrow> ring_writer" where
  "write_disk name contents w =
     w\<lparr>rw_disk := (rw_disk w)\<lparr>rd_files := AList.update name contents (rd_files (rw_disk w))\<rparr>\<rparr>"

definition advance_active :: "ring_writer \<Rightarrow> ring_writer" where
  "advance_active w =
     w\<lparr>rw_manifest := (rw_manifest w)\<lparr>mf_active_segment :=
         (mf_active_segment (rw_manifest w) + 1) mod mf_segment_count (rw_manifest w)\<rparr>\<rparr>"

definition rotate_ring :: "io_faults \<Rightarrow> ring_writer \<Rightarrow> (io_error + unit) \<times> ring_writer" where
  "rotate_ring io w =
     (if disk_file w (active_segment w) \<noteq> None \<and> io_sync_old io \<noteq> None then (Inl (the (io_sync_old io)), w)
      else let w1 = advance_active w in
        case io_truncate io of
          Some e \<Rightarrow> (Inl e, w1)
        | None \<Rightarrow>
            let w2 = write_disk (active_segment w1) [] w1 in
            case io_sync_new io of
              Some e \<Rightarrow> (Inl e, w2)
            | None \<Rightarrow> write_manifest (io_rotate_manifest io)
                (upd_health (\<lambda>h. h\<lparr>rh_rotations := sat_add (rh_rotations h) 1\<rparr>) w2))"

fun sync_segments :: "(string \<Rightarrow> io_error option) \<Rightarrow> ring_writer \<Rightarrow> nat list \<Rightarrow> (string \<times> io_error) option" where
  "sync_segments io w [] = None"
| "sync_segments io w (i # is) =
     (if disk_file w (segment_name i) = None then sync_segments io w is
      else case io (segment_name i) of
          Some e \<Rightarrow> Some (segment_name i, e)
        | None \<Rightarrow> sync_segments io w is)"

definition sync_ring :: "io_faults \<Rightarrow> string \<Rightarrow> ring_writer \<Rightarrow> (io_error + unit) \<times> ring_writer" where
  "sync_ring io now w =
     (case sync_segments (io_sync io) w [0..<mf_segment_count (rw_manifest w)] of
        Some (name, e) \<Rightarrow>
          let w1 = upd_health (\<lambda>h. h\<lparr>rh_sync_failures := sat_add (rh_sync_failures h) 1,
                rh_last_error := Some (''sync '' @ display_path w name @ '': '' @ e)\<rparr>) w
          in (Inl e, snd (write_manifest (io_manifest io) w1))
      | None \<Rightarrow> write_manifest (io_manifest io) (w\<lparr>rw_manifest := (rw_manifest w)\<lparr>mf_last_sync_at := Some now\<rparr>\<rparr>))"

text \<open>
  Appending the bytes of a line to the active file: \<open>create(true).append(true)\<close>, then \<open>write_all\<close>.
\<close>

definition append_bytes :: "io_faults \<Rightarrow> string \<Rightarrow> ring_writer \<Rightarrow> (io_error + unit) \<times> ring_writer" where
  "append_bytes io bytes w =
     (let name = active_segment w; old = unwrap_or (disk_file w name) [] in
      case io_open io of
        Some e \<Rightarrow> (Inl e, w)
      | None \<Rightarrow>
          (case io_write io of
             Some (k, e) \<Rightarrow> (Inl e, write_disk name (old @ take k bytes) w)
           | None \<Rightarrow> (Inr (), write_disk name (old @ bytes) w)))"

definition bump_sequence :: "ring_writer \<Rightarrow> ring_writer" where
  "bump_sequence w =
     w\<lparr>rw_manifest := (rw_manifest w)\<lparr>mf_next_sequence := sat_add (mf_next_sequence (rw_manifest w)) 1\<rparr>\<rparr>"

definition next_record :: "string \<Rightarrow> string \<Rightarrow> u64 \<Rightarrow> string \<Rightarrow> 'p \<Rightarrow> ring_writer \<Rightarrow> 'p envelope" where
  "next_record boot now ms kind payload w =
     \<lparr>en_schema = SCHEMA_VERSION, en_sequence = mf_next_sequence (rw_manifest w), en_boot_id = boot,
      en_wall_time = now, en_monotonic_ms = ms, en_kind = kind, en_payload = payload\<rparr>"

definition oversize_health :: "string \<Rightarrow> recorder_health \<Rightarrow> recorder_health" where
  "oversize_health kind h = h
     \<lparr>rh_dropped_samples := sat_add (rh_dropped_samples h) 1,
      rh_truncated_sources := sat_add (rh_truncated_sources h) 1,
      rh_last_error := Some (''record '' @ kind @ '' exceeded '' @
         show_nat (record_bytes_limit kind) @ '' byte limit'')\<rparr>"

text \<open>The part of \<open>append\<close> after the choice of the segment.\<close>

definition append_line ::
    "io_faults \<Rightarrow> string \<Rightarrow> string \<Rightarrow> bool \<Rightarrow> ring_writer \<Rightarrow> (io_error + u64 option) \<times> ring_writer" where
  "append_line io now bytes sync_now w =
     (case append_bytes io bytes w of
        (Inl e, w1) \<Rightarrow>
          (Inl e, snd (write_manifest (io_manifest io)
             (record_failure (''append '' @ display_path w1 (active_segment w1) @ '': '' @ e) w1)))
      | (Inr _, w1) \<Rightarrow>
          let sequence = mf_next_sequence (rw_manifest w1); w2 = bump_sequence w1 in
          if sync_now then
            (case sync_ring io now w2 of
               (Inl e, w3) \<Rightarrow> (Inl e, w3)
             | (Inr _, w3) \<Rightarrow> (Inr (Some sequence), w3))
          else (Inr (Some sequence), w2))"

definition segment_full :: "io_faults \<Rightarrow> nat \<Rightarrow> ring_writer \<Rightarrow> bool" where
  "segment_full io n w \<longleftrightarrow>
     (let len = (if io_metadata_ok io then length (unwrap_or (disk_file w (active_segment w)) []) else 0)
      in unat (mf_segment_bytes_limit (rw_manifest w)) < min (len + n) (2 ^ 64 - 1))"

definition ring_append ::
    "('p envelope \<Rightarrow> string + string) \<Rightarrow> io_faults \<Rightarrow> string \<Rightarrow> string \<Rightarrow> u64 \<Rightarrow> string \<Rightarrow> string + 'p \<Rightarrow>
     bool \<Rightarrow> ring_writer \<Rightarrow> (io_error + u64 option) \<times> ring_writer" where
  "ring_append enc io now boot ms kind payload sync_now w =
     (case payload of
        Inl e \<Rightarrow> (Inr None, record_failure (''serialize '' @ kind @ '': '' @ e) w)
      | Inr p \<Rightarrow>
          (case enc (next_record boot now ms kind p w) of
             Inl e \<Rightarrow> (Inr None, record_failure (''encode '' @ kind @ '': '' @ e) w)
           | Inr bytes \<Rightarrow>
               if record_bytes_limit kind < length bytes + 1 then
                 (case write_manifest (io_manifest io) (upd_health (oversize_health kind) w) of
                    (Inl e, w1) \<Rightarrow> (Inl e, w1)
                  | (Inr _, w1) \<Rightarrow> (Inr None, w1))
               else
                 let line = bytes @ [newline] in
                 if segment_full io (length line) w then
                   (case rotate_ring io w of
                      (Inl e, w1) \<Rightarrow> (Inl e, w1)
                    | (Inr _, w1) \<Rightarrow> append_line io now line sync_now w1)
                 else append_line io now line sync_now w))"

section \<open>Opening a ring\<close>

definition recovered_health :: "recorder_health \<Rightarrow> 'p ring_report \<Rightarrow> recorder_health" where
  "recovered_health h r = h
     \<lparr>rh_recovered_segments := sat_add (rh_recovered_segments h) (if 0 < rr_valid r then 1 else 0),
      rh_torn_records := sat_add (rh_torn_records h) (rr_torn r),
      rh_corrupt_records := sat_add (rh_corrupt_records h) (rr_corrupt r)\<rparr>"

text \<open>\<open>RingWriter::open\<close> on a directory that exists or could be created.\<close>

definition ring_open ::
    "(string \<Rightarrow> 'p envelope option) \<Rightarrow> (string \<Rightarrow> io_error option) \<Rightarrow> (bool \<times> io_error) option \<Rightarrow>
     string \<Rightarrow> string \<Rightarrow> ring_config \<Rightarrow> ring_dir \<Rightarrow> io_error + ring_writer" where
  "ring_open dec unreadable fault path boot config d =
     (if rc_segment_count config = 0 \<or> unat (rc_segment_bytes_limit config) < MAX_RECORD_BYTES then
        Inl ''invalid ring segment configuration''
      else case read_ring dec unreadable (Some d) of
        Inl e \<Rightarrow> Inl e
      | Inr report \<Rightarrow>
          let existing = opt_filter (\<lambda>m. mf_boot_id m = boot) (rd_manifest d);
              records = rr_records report;
              next = (if records = [] then 0 else sat_add (en_sequence (last records)) 1);
              health = (case existing of Some m \<Rightarrow> mf_health m | None \<Rightarrow> health_default);
              active = (case existing of Some m \<Rightarrow> mf_active_segment m mod rc_segment_count config | None \<Rightarrow> 0);
              manifest =
                \<lparr>mf_schema = SCHEMA_VERSION, mf_boot_id = boot, mf_next_sequence = next,
                 mf_active_segment = active, mf_segment_count = rc_segment_count config,
                 mf_segment_bytes_limit = rc_segment_bytes_limit config,
                 mf_summary_interval = rc_summary_interval config,
                 mf_detail_interval = rc_detail_interval config,
                 mf_sync_interval = rc_sync_interval config,
                 mf_health = recovered_health health report, mf_last_sync_at = None\<rparr>
          in (case write_manifest fault \<lparr>rw_path = path, rw_manifest = manifest, rw_disk = d\<rparr> of
                (Inl e, _) \<Rightarrow> Inl e
              | (Inr _, w) \<Rightarrow> Inr w))"

section \<open>Archiving the ring of the previous boot\<close>

datatype source_status = Status_Ok | Unsupported | Unavailable | PermissionDenied | TimedOut | Truncated

record archive_result =
  ar_status :: source_status
  ar_boot_id :: "string option"
  ar_valid :: u64
  ar_torn :: u64
  ar_corrupt :: u64
  ar_detail :: "string option"

text \<open>The recorder's directory with the ring directories it may hold.\<close>

record recorder_root =
  ro_current :: "ring_dir option"
  ro_previous :: "ring_dir option"
  ro_pending :: "ring_dir option"

text \<open>
  The changes an archive makes, each a system call (\<open>remove_dir_all\<close> of \<open>previous\<close>, the renames to and
  from \<open>previous.next\<close>); the directory syncs between them change nothing that can be read.
\<close>

datatype archive_op = RemovePrevious | PendingToPrevious | CurrentToPending

fun exec_op :: "archive_op \<Rightarrow> recorder_root \<Rightarrow> recorder_root" where
  "exec_op RemovePrevious r = r\<lparr>ro_previous := None\<rparr>"
| "exec_op PendingToPrevious r = r\<lparr>ro_previous := ro_pending r, ro_pending := None\<rparr>"
| "exec_op CurrentToPending r = r\<lparr>ro_pending := ro_current r, ro_current := None\<rparr>"

abbreviation exec_ops :: "archive_op list \<Rightarrow> recorder_root \<Rightarrow> recorder_root" where
  "exec_ops ops r \<equiv> fold exec_op ops r"

text \<open>Emptying \<open>previous\<close> and moving the pending directory there.\<close>

definition install_ops :: "recorder_root \<Rightarrow> archive_op list" where
  "install_ops r = (if ro_previous r \<noteq> None then [RemovePrevious] else []) @ [PendingToPrevious]"

definition recovery_ops :: "recorder_root \<Rightarrow> archive_op list" where
  "recovery_ops r = (if ro_pending r \<noteq> None then install_ops r else [])"

definition ring_boot_id :: "ring_dir option \<Rightarrow> 'p ring_report \<Rightarrow> string option" where
  "ring_boot_id d report =
     (case rr_records report of
        e # _ \<Rightarrow> Some (en_boot_id e)
      | [] \<Rightarrow> (case d of Some d' \<Rightarrow> map_option mf_boot_id (rd_manifest d') | None \<Rightarrow> None))"

definition archived :: "string option \<Rightarrow> 'p ring_report \<Rightarrow> string option \<Rightarrow> archive_result" where
  "archived boot report detail =
     \<lparr>ar_status = Status_Ok, ar_boot_id = boot, ar_valid = rr_valid report, ar_torn = rr_torn report,
      ar_corrupt = rr_corrupt report, ar_detail = detail\<rparr>"

text \<open>
  \<open>archive_current_boot_for_new_boot\<close>: the calls it makes, in order, and its result.
\<close>

definition archive_boot ::
    "(string \<Rightarrow> 'p envelope option) \<Rightarrow> (string \<Rightarrow> io_error option) \<Rightarrow> string option \<Rightarrow> recorder_root \<Rightarrow>
     archive_op list \<times> (io_error + archive_result)" where
  "archive_boot dec unreadable boot ro =
     (let ops = recovery_ops ro; r = exec_ops ops ro in
      if ro_current r = None then
        (ops, Inr \<lparr>ar_status = Unavailable, ar_boot_id = None, ar_valid = 0, ar_torn = 0, ar_corrupt = 0,
                   ar_detail = Some ''no current ring existed''\<rparr>)
      else case read_ring dec unreadable (ro_current r) of
        Inl e \<Rightarrow> (ops, Inl e)
      | Inr report \<Rightarrow>
          let archived_boot = ring_boot_id (ro_current r) report in
          if boot \<noteq> None \<and> archived_boot = boot then
            (case read_ring dec unreadable (ro_previous r) of
               Inl e \<Rightarrow> (ops, Inl e)
             | Inr prev \<Rightarrow>
                 (ops, Inr (archived (ring_boot_id (ro_previous r) prev) prev
                    (Some ''current ring already belongs to this boot; preserved previous-boot evidence''))))
          else (ops @ CurrentToPending # install_ops r, Inr (archived archived_boot report None)))"

definition run_archive ::
    "(string \<Rightarrow> 'p envelope option) \<Rightarrow> (string \<Rightarrow> io_error option) \<Rightarrow> string option \<Rightarrow> recorder_root \<Rightarrow>
     recorder_root" where
  "run_archive dec unreadable boot ro = exec_ops (fst (archive_boot dec unreadable boot ro)) ro"

definition current_ring_boot_id ::
    "(string \<Rightarrow> 'p envelope option) \<Rightarrow> (string \<Rightarrow> io_error option) \<Rightarrow> recorder_root \<Rightarrow> string option" where
  "current_ring_boot_id dec unreadable ro =
     (case read_ring dec unreadable (ro_current ro) of
        Inl _ \<Rightarrow> None
      | Inr report \<Rightarrow> ring_boot_id (ro_current ro) report)"

end
