(* ===== verification/FlightRingLog.thy ===== *)
theory FlightRingLog
  imports FlightRing "HOL-Library.Multiset"
begin

text \<open>
  What the flight recorder's ring promises: it is a bounded log. The abstract log is the list of the
  segments, oldest first, each a list of records; the ring on the disk refines it.
\<close>

section \<open>The abstract segs\<close>

type_synonym 'p ring_log = "'p envelope list list"

definition record_line :: "('p envelope \<Rightarrow> string + string) \<Rightarrow> 'p envelope \<Rightarrow> string" where
  "record_line enc e = (case enc e of Inl _ \<Rightarrow> [] | Inr b \<Rightarrow> b @ [newline])"

definition segment_text :: "('p envelope \<Rightarrow> string + string) \<Rightarrow> 'p envelope list \<Rightarrow> string" where
  "segment_text enc es = concat (map (record_line enc) es)"

text \<open>
  A record joins the youngest segment if it fits there; otherwise the oldest segment is forgotten and
  the record starts a new one.
\<close>

definition log_append :: "('p envelope \<Rightarrow> string + string) \<Rightarrow> nat \<Rightarrow> 'p envelope \<Rightarrow> 'p ring_log \<Rightarrow> 'p ring_log" where
  "log_append enc limit e segs =
     (if limit < length (segment_text enc (last segs)) + length (record_line enc e) then tl segs @ [[e]]
      else butlast segs @ [last segs @ [e]])"

text \<open>What \<open>serde_json\<close> documents: a record that was encoded is decoded from its one line.\<close>

definition codec_ok :: "('p envelope \<Rightarrow> string + string) \<Rightarrow> (string \<Rightarrow> 'p envelope option) \<Rightarrow> bool" where
  "codec_ok enc dec \<longleftrightarrow>
     (\<forall>e b. enc e = Inr b \<longrightarrow> dec b = Some e \<and> b \<noteq> [] \<and> newline \<notin> set b)"

definition storable :: "('p envelope \<Rightarrow> string + string) \<Rightarrow> 'p envelope \<Rightarrow> bool" where
  "storable enc e \<longleftrightarrow>
     (\<exists>b. enc e = Inr b \<and> length b < MAX_RECORD_BYTES) \<and> en_schema e = SCHEMA_VERSION"

lemma segment_text_simps [simp]:
  "segment_text enc [] = []"
  "segment_text enc (es @ [e]) = segment_text enc es @ record_line enc e"
  by (simp_all add: segment_text_def)

lemma segment_text_empty: "segment_text enc es = [] \<Longrightarrow> \<forall>e \<in> set es. storable enc e \<Longrightarrow> es = []"
  by (cases es) (auto simp: segment_text_def record_line_def storable_def)

section \<open>Segment names\<close>

lemma digits_val_zeros [simp]: "digits_val (replicate k CHR ''0'' @ s) = digits_val s"
proof (induction k)
  case (Suc k)
  then show ?case
    using foldl_digits_zero [of "replicate k CHR ''0'' @ s"] by (simp add: digits_val_def del: foldl_append)
qed simp

lemma segment_name_inject [simp]: "segment_name i = segment_name j \<longleftrightarrow> i = j"
proof
  assume "segment_name i = segment_name j"
  then have "replicate (3 - length (show_nat i)) CHR ''0'' @ show_nat i =
      replicate (3 - length (show_nat j)) CHR ''0'' @ show_nat j"
    by (simp add: segment_name_def del: append_assoc add: append_assoc [symmetric])
  then show "i = j" by (metis digits_val_zeros digits_val_show_nat)
qed simp

lemma is_segment_name [simp]: "is_segment_name (segment_name i)"
  by (simp add: is_segment_name_def segment_name_def suffix_def prefix_def)

text \<open>The name of the segment of age \<open>i\<close>: 0 is the oldest.\<close>

definition slot :: "nat \<Rightarrow> nat \<Rightarrow> nat \<Rightarrow> string" where
  "slot n active i = segment_name ((active + 1 + i) mod n)"

lemma mod_shift_inject: "i < n \<Longrightarrow> j < n \<Longrightarrow> (c + i) mod n = (c + j) mod n \<longleftrightarrow> i = j" for i j n c :: nat
proof (induction i j rule: linorder_wlog)
  case (le i j)
  have "n dvd c + j - (c + i)" if "(c + i) mod n = (c + j) mod n"
    using that le mod_eq_dvd_iff_nat [of "c + i" "c + j" n] by simp
  moreover have "\<not> n dvd j - i" if "i < j"
    using that le.prems by (intro nat_dvd_not_less) auto
  ultimately show ?case using le by (cases "i = j") auto
qed auto

lemma slot_inject [simp]: "i < n \<Longrightarrow> j < n \<Longrightarrow> slot n a i = slot n a j \<longleftrightarrow> i = j"
  using mod_shift_inject [of i n j "a + 1"] by (simp add: slot_def)

lemma slot_last [simp]: "a < n \<Longrightarrow> slot n a (n - Suc 0) = segment_name a"
  by (simp add: slot_def)

lemma slot_advance: "slot n ((a + 1) mod n) i = slot n a (Suc i)"
proof -
  have "((a + 1) mod n + (1 + i)) mod n = (a + 1 + (1 + i)) mod n" by (rule mod_add_left_eq)
  then show ?thesis by (simp add: slot_def add.assoc)
qed

lemma slot_image: "slot n a ` {..<n} = segment_name ` {..<n}"
proof -
  let ?f = "\<lambda>i. (a + 1 + i) mod n"
  have "inj_on ?f {..<n}"
    using mod_shift_inject [of _ n _ "a + 1"] by (auto simp: inj_on_def)
  then have "?f ` {..<n} = {..<n}"
    by (intro endo_inj_surj) auto
  then have "segment_name ` (?f ` {..<n}) = segment_name ` {..<n}" by simp
  then show ?thesis by (simp add: slot_def image_image)
qed

section \<open>Reading back\<close>

lemma split_lines:
  assumes "codec_ok enc dec" and "\<forall>e \<in> set es. storable enc e"
  shows "\<exists>bs. split_on newline (segment_text enc es) = bs @ [[]] \<and> list_all2 (\<lambda>e b. enc e = Inr b) es bs"
  using assms(2)
proof (induction es)
  case (Cons e es)
  then obtain bs where bs: "split_on newline (segment_text enc es) = bs @ [[]]"
    "list_all2 (\<lambda>e b. enc e = Inr b) es bs" by auto
  obtain b where b: "enc e = Inr b" using Cons.prems by (auto simp: storable_def)
  then have "newline \<notin> set b" using assms(1) by (auto simp: codec_ok_def)
  then have "split_on newline (segment_text enc (e # es)) = (b # bs) @ [[]]"
    using b bs(1) by (simp add: segment_text_def record_line_def)
  with b bs(2) show ?case by blast
qed simp

lemma read_lines_all:
  assumes "codec_ok enc dec" and "list_all2 (\<lambda>e b. enc e = Inr b) es bs" and "\<forall>e \<in> set es. storable enc e"
  shows "rr_records (read_lines dec ended (bs @ [[]]) r) = rr_records r @ es \<and>
    rr_torn (read_lines dec ended (bs @ [[]]) r) = rr_torn r \<and>
    rr_corrupt (read_lines dec ended (bs @ [[]]) r) = rr_corrupt r"
  using assms(2,3)
proof (induction es bs arbitrary: r rule: list_all2_induct)
  case (Cons e es b bs)
  then have "dec b = Some e" "b \<noteq> []" "length b < MAX_RECORD_BYTES" "en_schema e = SCHEMA_VERSION"
    using assms(1) by (auto simp: codec_ok_def storable_def)
  with Cons show ?case by (simp add: add_record_def)
qed simp

lemma read_file_all:
  assumes "codec_ok enc dec" and "\<forall>e \<in> set es. storable enc e"
    and "length (segment_text enc es) \<le> DEFAULT_SEGMENT_BYTES_LIMIT"
  shows "rr_records (read_file dec (segment_text enc es) r) = rr_records r @ es"
    "rr_torn (read_file dec (segment_text enc es) r) = rr_torn r"
    "rr_corrupt (read_file dec (segment_text enc es) r) = rr_corrupt r"
proof -
  obtain bs where "split_on newline (segment_text enc es) = bs @ [[]]"
    "list_all2 (\<lambda>e b. enc e = Inr b) es bs"
    using split_lines [OF assms(1,2)] by blast
  with read_lines_all [OF assms(1) _ assms(2)] show
    "rr_records (read_file dec (segment_text enc es) r) = rr_records r @ es"
    "rr_torn (read_file dec (segment_text enc es) r) = rr_torn r"
    "rr_corrupt (read_file dec (segment_text enc es) r) = rr_corrupt r"
    using assms(3) by (simp_all add: read_file_def Let_def)
qed

lemma dedup_distinct: "distinct (map en_sequence es) \<Longrightarrow> dedup_sequence es = es"
  by (induction es rule: dedup_sequence.induct) auto

lemma sort_records:
  assumes "mset xs = mset ys" and "sorted_wrt (<) (map en_sequence ys)"
  shows "dedup_sequence (sort_key en_sequence xs) = ys"
proof -
  have d: "distinct (map en_sequence ys)" "sorted (map en_sequence ys)"
    using assms(2) by (simp_all add: strict_sorted_iff)
  have "inj_on en_sequence (set xs)"
    using d(1) mset_eq_setD [OF assms(1)] by (simp add: distinct_map)
  then have "sort_key en_sequence xs = ys"
    using sort_key_inj_key_eq [OF assms(1) _ d(2)] by blast
  with d(1) show ?thesis by (simp add: dedup_distinct)
qed

section \<open>The refinement relation\<close>

text \<open>
  The writer represents a log: segment by segment the files hold its records, line by line, no other
  segment file is there, the sequence numbers increase, and the next one is new.
\<close>

definition represents :: "('p envelope \<Rightarrow> string + string) \<Rightarrow> ring_writer \<Rightarrow> 'p ring_log \<Rightarrow> bool" where
  "represents enc w segs \<longleftrightarrow>
     (let m = rw_manifest w; n = mf_segment_count m; files = rd_files (rw_disk w) in
      length segs = n \<and> mf_active_segment m < n \<and> hm_ok files \<and>
      MAX_RECORD_BYTES \<le> unat (mf_segment_bytes_limit m) \<and>
      unat (mf_segment_bytes_limit m) \<le> DEFAULT_SEGMENT_BYTES_LIMIT \<and>
      (\<forall>p \<in> set (map fst files). is_segment_name p \<longrightarrow> p \<in> segment_name ` {..<n}) \<and>
      (\<forall>i < n. unwrap_or (map_of files (slot n (mf_active_segment m) i)) [] = segment_text enc (segs ! i) \<and>
         length (segment_text enc (segs ! i)) \<le> unat (mf_segment_bytes_limit m)) \<and>
      (\<forall>e \<in> set (concat segs). storable enc e \<and> en_sequence e < mf_next_sequence m) \<and>
      sorted_wrt (<) (map en_sequence (concat segs)))"

lemma representsD:
  assumes "represents enc w segs"
  defines "n \<equiv> mf_segment_count (rw_manifest w)" and "a \<equiv> mf_active_segment (rw_manifest w)"
    and "limit \<equiv> unat (mf_segment_bytes_limit (rw_manifest w))" and "files \<equiv> rd_files (rw_disk w)"
  shows "length segs = n" "a < n" "hm_ok files" "MAX_RECORD_BYTES \<le> limit"
    "limit \<le> DEFAULT_SEGMENT_BYTES_LIMIT"
    "p \<in> set (map fst files) \<Longrightarrow> is_segment_name p \<Longrightarrow> p \<in> slot n a ` {..<n}"
    "i < n \<Longrightarrow> unwrap_or (map_of files (slot n a i)) [] = segment_text enc (segs ! i)"
    "i < n \<Longrightarrow> length (segment_text enc (segs ! i)) \<le> limit"
    "e \<in> set (concat segs) \<Longrightarrow> storable enc e"
    "e \<in> set (concat segs) \<Longrightarrow> en_sequence e < mf_next_sequence (rw_manifest w)"
    "sorted_wrt (<) (map en_sequence (concat segs))"
  using assms(1) unfolding represents_def Let_def n_def a_def limit_def files_def slot_image
  by blast+

lemma represents_nth:
  assumes "represents enc w segs" and "i < mf_segment_count (rw_manifest w)"
  shows "\<forall>e \<in> set (segs ! i). storable enc e"
proof
  fix e assume "e \<in> set (segs ! i)"
  then show "storable enc e"
    using representsD(9) [OF assms(1), of e] representsD(1) [OF assms(1)] assms(2)
    by (metis nth_mem UnionI imageI set_concat)
qed

lemma fold_read_files:
  assumes "\<forall>p \<in> set ps. \<forall>r. rr_records (f p r) = rr_records r @ recs p \<and>
      rr_torn (f p r) = rr_torn r \<and> rr_corrupt (f p r) = rr_corrupt r"
  shows "rr_records (fold f ps r) = rr_records r @ concat (map recs ps) \<and>
    rr_torn (fold f ps r) = rr_torn r \<and> rr_corrupt (fold f ps r) = rr_corrupt r"
  using assms by (induction ps arbitrary: r) auto

lemma mset_concat_by_slot:
  assumes "distinct ps" and "set ps \<subseteq> g ` {..<n}" and "inj_on g {..<n}" and "length segs = n"
    and "\<forall>i < n. recs (g i) = segs ! i" and "\<forall>i < n. g i \<notin> set ps \<longrightarrow> segs ! i = []"
  shows "mset (concat (map recs ps)) = mset (concat segs)"
proof -
  have "mset (concat (map recs ps)) = (\<Sum>p \<in> set ps. mset (recs p))"
    using assms(1) by (simp add: mset_concat sum_list_distinct_conv_sum_set comp_def)
  also have "\<dots> = (\<Sum>p \<in> g ` {..<n}. mset (recs p))"
    using assms(2,5,6) by (intro sum.mono_neutral_left) auto
  also have "\<dots> = (\<Sum>i < n. mset (segs ! i))"
    using assms(5) by (simp add: sum.reindex [OF assms(3)])
  also have "\<dots> = mset (concat segs)"
    using assms(4) by (simp add: mset_concat sum_list_sum_nth atLeast0LessThan)
  finally show ?thesis .
qed

lemma find_none_const [simp]: "find (\<lambda>p. False) ps = None"
  by (simp add: find_None_iff)

text \<open>Reading a ring that represents a log gives the records of the log, in their order.\<close>

lemma read_represented:
  assumes codec: "codec_ok enc dec" and rep: "represents enc w segs"
  shows "\<exists>r. read_ring dec (\<lambda>_. None) (Some (rw_disk w)) = Inr r \<and> rr_records r = concat segs \<and>
    rr_valid r = of_nat (length (concat segs)) \<and> rr_torn r = 0 \<and> rr_corrupt r = 0"
proof -
  let ?files = "rd_files (rw_disk w)" and ?ps = "segment_paths (rw_disk w)"
  define n a where "n = mf_segment_count (rw_manifest w)" and "a = mf_active_segment (rw_manifest w)"
  note R = representsD [OF rep, folded n_def a_def]
  have ps: "set ?ps = {p \<in> set (map fst ?files). is_segment_name p}" by (auto simp: segment_paths_def)
  have dist: "distinct ?ps" using R(3) by (simp add: segment_paths_def)
  have inj: "inj_on (slot n a) {..<n}" by (auto simp: inj_on_def)
  define recs where "recs = (\<lambda>p. segs ! the_inv_into {..<n} (slot n a) p)"
  have recs: "recs (slot n a i) = segs ! i" if "i < n" for i
    using that inj by (simp add: recs_def the_inv_into_f_f)
  have one: "rr_records (read_file dec (the (map_of ?files p)) r) = rr_records r @ recs p \<and>
      rr_torn (read_file dec (the (map_of ?files p)) r) = rr_torn r \<and>
      rr_corrupt (read_file dec (the (map_of ?files p)) r) = rr_corrupt r" if p: "p \<in> set ?ps" for p r
  proof -
    obtain i where i: "i < n" "p = slot n a i" using R(6) [of p] p ps by auto
    obtain c where "map_of ?files p = Some c"
      using p ps by (metis (no_types, lifting) map_of_eq_None_iff mem_Collect_eq not_None_eq set_map)
    then have c: "the (map_of ?files p) = segment_text enc (recs p)"
      using R(7) [OF i(1)] recs [OF i(1)] i(2) by simp
    have "\<forall>e \<in> set (recs p). storable enc e"
      using represents_nth [OF rep, of i] i recs by (simp add: n_def)
    then show ?thesis
      using read_file_all [OF codec, of "recs p"] R(8) [OF i(1)] R(5) recs i c by simp
  qed
  have gone: "\<forall>i < n. slot n a i \<notin> set ?ps \<longrightarrow> segs ! i = []"
  proof (intro allI impI)
    fix i assume i: "i < n" "slot n a i \<notin> set ?ps"
    then have "map_of ?files (slot n a i) = None"
      by (simp add: ps map_of_eq_None_iff slot_def)
    with R(7) [OF i(1)] have "segment_text enc (segs ! i) = []" by simp
    moreover have "\<forall>e \<in> set (segs ! i). storable enc e"
      using represents_nth [OF rep, of i] i(1) by (simp add: n_def)
    ultimately show "segs ! i = []" by (rule segment_text_empty)
  qed
  have "mset (concat (map recs ?ps)) = mset (concat segs)"
    by (rule mset_concat_by_slot [OF dist _ inj R(1) _ gone]) (use R(6) ps recs in auto)
  then have es: "dedup_sequence (sort_key en_sequence (concat (map recs ?ps))) = concat segs"
    using sort_records R(11) by blast
  show ?thesis
    using fold_read_files [of ?ps "\<lambda>p. read_file dec (the (map_of ?files p))" recs report_default] one es
    by (simp add: read_ring_def Let_def report_default_def)
qed

section \<open>Appending\<close>

lemma represents_active:
  assumes "represents enc w segs"
  shows "unwrap_or (disk_file w (active_segment w)) [] = segment_text enc (last segs)" "segs \<noteq> []"
proof -
  note R = representsD [OF assms]
  show "segs \<noteq> []" using R(1,2) by auto
  then show "unwrap_or (disk_file w (active_segment w)) [] = segment_text enc (last segs)"
    using R(7) [of "length segs - 1"] R(1,2) by (simp add: disk_file_def active_segment_def last_conv_nth)
qed

text \<open>
  The records of a step that appends \<open>e\<close> and keeps the youngest records \<open>xs\<close>.
\<close>

lemma records_snoc:
  assumes rep: "represents enc w segs" and "suffix xs (concat segs)" and "storable enc e"
    and "en_sequence e = mf_next_sequence (rw_manifest w)" and "mf_next_sequence (rw_manifest w) < next"
  shows "\<forall>x \<in> set (xs @ [e]). storable enc x \<and> en_sequence x < next"
    and "sorted_wrt (<) (map en_sequence (xs @ [e]))"
proof -
  note R = representsD [OF rep]
  obtain ys where ys: "concat segs = ys @ xs" using assms(2) by (auto simp: suffix_def)
  then have xs: "x \<in> set xs \<Longrightarrow> x \<in> set (concat segs)" for x by simp
  show "\<forall>x \<in> set (xs @ [e]). storable enc x \<and> en_sequence x < next"
    using R(9,10) [OF xs] assms(3-5) by fastforce
  show "sorted_wrt (<) (map en_sequence (xs @ [e]))"
    using R(10) [OF xs] R(11) assms(4) unfolding ys by (simp add: sorted_wrt_append)
qed

text \<open>
  A step of the writer: it puts the text of segment \<open>es\<close> into the active file of the new manifest, and
  the other files hold the other segments.
\<close>

lemma represents_step:
  assumes rep: "represents enc w segs" and rep': "concat (kept @ [es]) = xs @ [e]" "suffix xs (concat segs)"
    and e: "storable enc e" "en_sequence e = mf_next_sequence (rw_manifest w)"
      "mf_next_sequence (rw_manifest w) < mf_next_sequence m'"
    and m': "mf_segment_count m' = mf_segment_count (rw_manifest w)"
      "mf_segment_bytes_limit m' = mf_segment_bytes_limit (rw_manifest w)"
      "mf_active_segment m' < mf_segment_count (rw_manifest w)"
    and size: "length (segment_text enc es) \<le> unat (mf_segment_bytes_limit (rw_manifest w))"
    and kept: "length kept = mf_segment_count (rw_manifest w) - 1"
      "\<And>i. i < length kept \<Longrightarrow>
         unwrap_or (disk_file w (slot (mf_segment_count m') (mf_active_segment m') i)) [] = segment_text enc (kept ! i) \<and>
         length (segment_text enc (kept ! i)) \<le> unat (mf_segment_bytes_limit m')"
    and w': "rw_manifest w' = m'" "rd_files (rw_disk w') =
        AList.update (segment_name (mf_active_segment m')) (segment_text enc es) (rd_files (rw_disk w))"
  shows "represents enc w' (kept @ [es])"
proof -
  note R = representsD [OF rep]
  let ?n = "mf_segment_count (rw_manifest w)" and ?a = "mf_active_segment m'" and ?segs = "kept @ [es]"
  have slots: "unwrap_or (map_of (rd_files (rw_disk w')) (slot ?n ?a i)) [] = segment_text enc (?segs ! i) \<and>
      length (segment_text enc (?segs ! i)) \<le> unat (mf_segment_bytes_limit m')" if i: "i < ?n" for i
  proof (cases "i = ?n - 1")
    case True
    then show ?thesis
      using m'(2,3) size kept(1) by (simp add: w'(2) update_conv' nth_append)
  next
    case False
    then have "slot ?n ?a i \<noteq> slot ?n ?a (?n - 1)" and "i < length kept" using i kept(1) by auto
    then show ?thesis
      using kept(2) [of i] m' by (simp add: w'(2) update_conv' nth_append disk_file_def)
  qed
  have names: "\<forall>p \<in> set (map fst (rd_files (rw_disk w'))). is_segment_name p \<longrightarrow> p \<in> segment_name ` {..<?n}"
    using R(6) m'(3) unfolding slot_image by (auto simp: w'(2) dom_update)
  have "hm_ok (rd_files (rw_disk w'))"
    using R(3) by (simp add: w'(2) distinct_update)
  then show ?thesis
    unfolding represents_def Let_def w'(1) m'(1) rep'(1)
    using R(1,4,5) m'(2,3) slots names kept(1) records_snoc [OF rep rep'(2) e] by simp
qed

lemma represents_extend:
  assumes rep: "represents enc w segs" and e: "storable enc e" "en_sequence e = mf_next_sequence (rw_manifest w)"
      "mf_next_sequence (rw_manifest w) < mf_next_sequence m'"
    and m': "mf_segment_count m' = mf_segment_count (rw_manifest w)"
      "mf_segment_bytes_limit m' = mf_segment_bytes_limit (rw_manifest w)"
      "mf_active_segment m' = mf_active_segment (rw_manifest w)"
    and size: "length (segment_text enc (last segs @ [e])) \<le> unat (mf_segment_bytes_limit (rw_manifest w))"
    and w': "rw_manifest w' = m'" "rd_files (rw_disk w') =
        AList.update (active_segment w) (segment_text enc (last segs @ [e])) (rd_files (rw_disk w))"
  shows "represents enc w' (butlast segs @ [last segs @ [e]])"
proof (rule represents_step [OF rep _ _ e m'(1,2) _ size _ _ w'(1)])
  note R = representsD [OF rep]
  have ne: "segs \<noteq> []" using R(1,2) by auto
  then show "concat (butlast segs @ [last segs @ [e]]) = concat segs @ [e]"
    by (metis append.assoc append_butlast_last_id concat.simps concat_append append_Nil2)
  show "length (butlast segs) = mf_segment_count (rw_manifest w) - 1" using R(1) by simp
  show "mf_active_segment m' < mf_segment_count (rw_manifest w)" using R(2) m' by simp
  fix i assume "i < length (butlast segs)"
  then show "unwrap_or (disk_file w (slot (mf_segment_count m') (mf_active_segment m') i)) [] =
      segment_text enc (butlast segs ! i) \<and>
    length (segment_text enc (butlast segs ! i)) \<le> unat (mf_segment_bytes_limit m')"
    using R(7,8) [of i] R(1) by (simp add: m' disk_file_def nth_butlast)
qed (simp_all add: w'(2) active_segment_def m')

lemma represents_rotate:
  assumes rep: "represents enc w segs" and e: "storable enc e" "en_sequence e = mf_next_sequence (rw_manifest w)"
      "mf_next_sequence (rw_manifest w) < mf_next_sequence m'"
    and m': "mf_segment_count m' = mf_segment_count (rw_manifest w)"
      "mf_segment_bytes_limit m' = mf_segment_bytes_limit (rw_manifest w)"
      "mf_active_segment m' = (mf_active_segment (rw_manifest w) + 1) mod mf_segment_count (rw_manifest w)"
    and size: "length (record_line enc e) \<le> unat (mf_segment_bytes_limit (rw_manifest w))"
    and w': "rw_manifest w' = m'" "rd_files (rw_disk w') =
        AList.update (segment_name (mf_active_segment m')) (record_line enc e) (rd_files (rw_disk w))"
  shows "represents enc w' (tl segs @ [[e]])"
proof (rule represents_step [OF rep _ _ e m'(1,2) _ _ _ _ w'(1)])
  note R = representsD [OF rep]
  have ne: "segs \<noteq> []" using R(1,2) by auto
  show "concat (tl segs @ [[e]]) = concat (tl segs) @ [e]" by simp
  show "suffix (concat (tl segs)) (concat segs)" using ne by (cases segs) (auto simp: suffix_def)
  show "length (tl segs) = mf_segment_count (rw_manifest w) - 1" using R(1) by simp
  show "mf_active_segment m' < mf_segment_count (rw_manifest w)" using R(2) m' by simp
  fix i assume i: "i < length (tl segs)"
  then show "unwrap_or (disk_file w (slot (mf_segment_count m') (mf_active_segment m') i)) [] =
      segment_text enc (tl segs ! i) \<and>
    length (segment_text enc (tl segs ! i)) \<le> unat (mf_segment_bytes_limit m')"
    using R(7,8) [of "Suc i"] R(1) unfolding m' slot_advance by (simp add: disk_file_def nth_tl)
qed (use size in \<open>simp_all add: w'(2) segment_text_def m'\<close>)

text \<open>Without faults, what a sync, a rotation and an append leave of the writer.\<close>

lemma sync_segments_ok [simp]: "sync_segments (\<lambda>_. None) w is = None"
  by (induction "is") auto

lemma sync_no_faults:
  "\<exists>w'. sync_ring no_faults now w = (Inr (), w') \<and> rd_files (rw_disk w') = rd_files (rw_disk w) \<and>
     mf_next_sequence (rw_manifest w') = mf_next_sequence (rw_manifest w) \<and>
     mf_segment_count (rw_manifest w') = mf_segment_count (rw_manifest w) \<and>
     mf_segment_bytes_limit (rw_manifest w') = mf_segment_bytes_limit (rw_manifest w) \<and>
     mf_active_segment (rw_manifest w') = mf_active_segment (rw_manifest w)"
  by (simp add: sync_ring_def no_faults_def write_manifest_def)

lemma append_line_no_faults:
  "\<exists>w'. append_line no_faults now bytes sync w = (Inr (Some (mf_next_sequence (rw_manifest w))), w') \<and>
     rd_files (rw_disk w') = AList.update (active_segment w)
       (unwrap_or (disk_file w (active_segment w)) [] @ bytes) (rd_files (rw_disk w)) \<and>
     mf_next_sequence (rw_manifest w') = sat_add (mf_next_sequence (rw_manifest w)) 1 \<and>
     mf_segment_count (rw_manifest w') = mf_segment_count (rw_manifest w) \<and>
     mf_segment_bytes_limit (rw_manifest w') = mf_segment_bytes_limit (rw_manifest w) \<and>
     mf_active_segment (rw_manifest w') = mf_active_segment (rw_manifest w)"
proof -
  let ?w1 = "bump_sequence (write_disk (active_segment w)
      (unwrap_or (disk_file w (active_segment w)) [] @ bytes) w)"
  have "append_bytes no_faults bytes w = (Inr (), write_disk (active_segment w)
      (unwrap_or (disk_file w (active_segment w)) [] @ bytes) w)"
    by (simp add: append_bytes_def no_faults_def Let_def)
  moreover obtain w' where "sync_ring no_faults now ?w1 = (Inr (), w')"
    "rd_files (rw_disk w') = rd_files (rw_disk ?w1)"
    "mf_next_sequence (rw_manifest w') = mf_next_sequence (rw_manifest ?w1)"
    "mf_segment_count (rw_manifest w') = mf_segment_count (rw_manifest ?w1)"
    "mf_segment_bytes_limit (rw_manifest w') = mf_segment_bytes_limit (rw_manifest ?w1)"
    "mf_active_segment (rw_manifest w') = mf_active_segment (rw_manifest ?w1)"
    using sync_no_faults [of now ?w1] by blast
  ultimately show ?thesis
    by (cases sync) (simp_all add: append_line_def Let_def write_disk_def bump_sequence_def)
qed

lemma rotate_no_faults:
  "\<exists>w'. rotate_ring no_faults w = (Inr (), w') \<and>
     active_segment w' = active_segment (advance_active w) \<and>
     rd_files (rw_disk w') = AList.update (active_segment (advance_active w)) [] (rd_files (rw_disk w)) \<and>
     mf_next_sequence (rw_manifest w') = mf_next_sequence (rw_manifest w) \<and>
     mf_segment_count (rw_manifest w') = mf_segment_count (rw_manifest w) \<and>
     mf_segment_bytes_limit (rw_manifest w') = mf_segment_bytes_limit (rw_manifest w) \<and>
     mf_active_segment (rw_manifest w') = mf_active_segment (rw_manifest (advance_active w))"
  by (simp add: rotate_ring_def no_faults_def write_manifest_def Let_def write_disk_def upd_health_def
      active_segment_def advance_active_def)

lemma segment_full_represented:
  assumes "represents enc w segs" and "io_metadata_ok io"
  shows "segment_full io n w \<longleftrightarrow>
    unat (mf_segment_bytes_limit (rw_manifest w)) < length (segment_text enc (last segs)) + n"
  using representsD(5) [OF assms(1)] assms(2) represents_active [OF assms(1)]
  by (simp add: segment_full_def DEFAULT_SEGMENT_BYTES_LIMIT_def)

lemma update_same_key: "AList.update k a (AList.update k b m) = AList.update k a m"
  by (induction m) auto

lemma append_refines:
  assumes rep: "represents enc w segs"
    and rec: "e = next_record boot now ms kind p w" "enc e = Inr b" "length b < record_bytes_limit kind"
    and room: "mf_next_sequence (rw_manifest w) \<noteq> - 1"
  shows "\<exists>w'. ring_append enc no_faults now boot ms kind (Inr p) sync w =
        (Inr (Some (mf_next_sequence (rw_manifest w))), w') \<and>
      mf_next_sequence (rw_manifest w') = mf_next_sequence (rw_manifest w) + 1 \<and>
      represents enc w' (log_append enc (unat (mf_segment_bytes_limit (rw_manifest w))) e segs) \<and>
      mf_segment_count (rw_manifest w') = mf_segment_count (rw_manifest w) \<and>
      mf_segment_bytes_limit (rw_manifest w') = mf_segment_bytes_limit (rw_manifest w)"
proof -
  note R = representsD [OF rep] and A = represents_active [OF rep]
  let ?m = "rw_manifest w" and ?line = "b @ [newline]"
  let ?limit = "unat (mf_segment_bytes_limit ?m)"
  have line: "record_line enc e = ?line" by (simp add: record_line_def rec(2))
  have "record_bytes_limit kind \<le> MAX_RECORD_BYTES"
    by (simp add: record_bytes_limit_def SUMMARY_RECORD_BYTES_LIMIT_def DETAIL_RECORD_BYTES_LIMIT_def
        ESCALATION_RECORD_BYTES_LIMIT_def MAX_RECORD_BYTES_def)
  then have e: "storable enc e" "en_sequence e = mf_next_sequence ?m" and small: "length ?line \<le> ?limit"
    using rec R(4) by (simp_all add: storable_def next_record_def)
  have bump: "sat_add (mf_next_sequence ?m) 1 = mf_next_sequence ?m + 1"
    by (rule sat_add_1 [OF room])
  have less: "mf_next_sequence ?m < mf_next_sequence ?m + 1"
    using sat_add_less [OF room] by (simp add: bump)
  show ?thesis
  proof (cases "segment_full no_faults (length ?line) w")
    case True
    obtain w1 where w1: "rotate_ring no_faults w = (Inr (), w1)"
      "active_segment w1 = active_segment (advance_active w)"
      "rd_files (rw_disk w1) = AList.update (active_segment (advance_active w)) [] (rd_files (rw_disk w))"
      "mf_next_sequence (rw_manifest w1) = mf_next_sequence ?m"
      "mf_segment_count (rw_manifest w1) = mf_segment_count ?m"
      "mf_segment_bytes_limit (rw_manifest w1) = mf_segment_bytes_limit ?m"
      "mf_active_segment (rw_manifest w1) = mf_active_segment (rw_manifest (advance_active w))"
      using rotate_no_faults [of w] by blast
    have empty: "unwrap_or (disk_file w1 (active_segment w1)) [] = []"
      by (simp add: disk_file_def w1(2,3) update_conv')
    obtain w' where w': "append_line no_faults now ?line sync w1 = (Inr (Some (mf_next_sequence (rw_manifest w1))), w')"
      "rd_files (rw_disk w') = AList.update (active_segment w1) ?line (rd_files (rw_disk w1))"
      "mf_next_sequence (rw_manifest w') = mf_next_sequence ?m + 1"
      "mf_segment_count (rw_manifest w') = mf_segment_count ?m"
      "mf_segment_bytes_limit (rw_manifest w') = mf_segment_bytes_limit ?m"
      "mf_active_segment (rw_manifest w') = mf_active_segment (rw_manifest (advance_active w))"
      using append_line_no_faults [of now ?line sync w1] unfolding empty w1(4-7) bump by auto
    have a: "mf_active_segment (rw_manifest w') = (mf_active_segment ?m + 1) mod mf_segment_count ?m"
      by (simp add: w'(6) advance_active_def)
    have "active_segment (advance_active w) = segment_name (mf_active_segment (rw_manifest w'))"
      by (simp add: active_segment_def w'(6))
    then have f: "rd_files (rw_disk w') =
        AList.update (segment_name (mf_active_segment (rw_manifest w'))) (record_line enc e) (rd_files (rw_disk w))"
      by (simp add: w'(2) w1(2,3) line update_same_key)
    have "represents enc w' (tl segs @ [[e]])"
      by (rule represents_rotate [OF rep e _ w'(4,5) a _ refl f])
        (use less small in \<open>simp_all add: w'(3) line\<close>)
    moreover have "log_append enc ?limit e segs = tl segs @ [[e]]"
      using True segment_full_represented [OF rep, of no_faults] by (simp add: log_append_def line no_faults_def)
    ultimately show ?thesis
      using rec True w1(1) w'(1,3-5) by (simp add: ring_append_def w1(4) Let_def)
  next
    case False
    then have fits: "length (segment_text enc (last segs)) + length ?line \<le> ?limit"
      using segment_full_represented [OF rep, of no_faults "length ?line"] by (simp add: no_faults_def)
    obtain w' where w': "append_line no_faults now ?line sync w = (Inr (Some (mf_next_sequence ?m)), w')"
      "rd_files (rw_disk w') = AList.update (active_segment w) (segment_text enc (last segs) @ ?line) (rd_files (rw_disk w))"
      "mf_next_sequence (rw_manifest w') = mf_next_sequence ?m + 1"
      "mf_segment_count (rw_manifest w') = mf_segment_count ?m"
      "mf_segment_bytes_limit (rw_manifest w') = mf_segment_bytes_limit ?m"
      "mf_active_segment (rw_manifest w') = mf_active_segment ?m"
      using append_line_no_faults [of now ?line sync w] unfolding A(1) bump by auto
    have "represents enc w' (butlast segs @ [last segs @ [e]])"
      by (rule represents_extend [OF rep e _ w'(4-6)])
        (use less fits in \<open>simp_all add: w'(2,3) line\<close>)
    moreover have "log_append enc ?limit e segs = butlast segs @ [last segs @ [e]]"
      using fits by (simp add: log_append_def line)
    ultimately show ?thesis
      using rec False w'(1,3-5) by (simp add: ring_append_def Let_def)
  qed
qed

section \<open>Runs with restarts\<close>

text \<open>
  What happens to the ring of one boot: the collector appends samples, and the recorder may be
  restarted, which opens the directory again. A restart between two appends is meant: the crash in
  the middle of a write is treated below.
\<close>

datatype 'p ring_event = Sample string u64 string 'p bool | Restart

fun run_event ::
    "('p envelope \<Rightarrow> string + string) \<Rightarrow> (string \<Rightarrow> 'p envelope option) \<Rightarrow> string \<Rightarrow> ring_config \<Rightarrow>
     'p ring_event \<Rightarrow> ring_writer \<Rightarrow> ring_writer" where
  "run_event enc dec boot config (Sample now ms kind p sync) w =
     snd (ring_append enc no_faults now boot ms kind (Inr p) sync w)"
| "run_event enc dec boot config Restart w =
     (case ring_open dec (\<lambda>_. None) None (rw_path w) boot config (rw_disk w) of
        Inl _ \<Rightarrow> w | Inr w' \<Rightarrow> w')"

text \<open>The specification: a counter and the bounded log; a restart does nothing.\<close>

definition numbered :: "string \<Rightarrow> string \<Rightarrow> u64 \<Rightarrow> string \<Rightarrow> 'p \<Rightarrow> nat \<Rightarrow> 'p envelope" where
  "numbered boot now ms kind p k =
     \<lparr>en_schema = SCHEMA_VERSION, en_sequence = of_nat k, en_boot_id = boot, en_wall_time = now,
      en_monotonic_ms = ms, en_kind = kind, en_payload = p\<rparr>"

fun spec_event ::
    "('p envelope \<Rightarrow> string + string) \<Rightarrow> string \<Rightarrow> nat \<Rightarrow> 'p ring_event \<Rightarrow> 'p ring_log \<times> nat \<Rightarrow>
     'p ring_log \<times> nat" where
  "spec_event enc boot limit (Sample now ms kind p sync) (segs, k) =
     (log_append enc limit (numbered boot now ms kind p k) segs, k + 1)"
| "spec_event enc boot limit Restart s = s"

definition event_fits :: "('p envelope \<Rightarrow> string + string) \<Rightarrow> string \<Rightarrow> 'p ring_event \<Rightarrow> bool" where
  "event_fits enc boot ev \<longleftrightarrow>
     (case ev of Restart \<Rightarrow> True
      | Sample now ms kind p _ \<Rightarrow>
          \<forall>k. \<exists>b. enc (numbered boot now ms kind p k) = Inr b \<and> length b < record_bytes_limit kind)"

definition manifest_current :: "ring_writer \<Rightarrow> bool" where
  "manifest_current w \<longleftrightarrow>
     (case rd_manifest (rw_disk w) of None \<Rightarrow> False
      | Some m \<Rightarrow> mf_boot_id m = mf_boot_id (rw_manifest w) \<and>
          mf_active_segment m = mf_active_segment (rw_manifest w))"

lemma append_line_current:
  assumes "manifest_current w"
  shows "manifest_current (snd (append_line no_faults now bytes sync w)) \<and>
    mf_boot_id (rw_manifest (snd (append_line no_faults now bytes sync w))) = mf_boot_id (rw_manifest w)"
  using assms
  by (auto simp: append_line_def append_bytes_def no_faults_def Let_def write_disk_def bump_sequence_def
      sync_ring_def write_manifest_def manifest_current_def split: option.splits)

lemma rotate_current:
  "rotate_ring no_faults w = (Inr (), w') \<Longrightarrow>
   manifest_current w' \<and> mf_boot_id (rw_manifest w') = mf_boot_id (rw_manifest w)"
  by (auto simp: rotate_ring_def no_faults_def write_manifest_def Let_def write_disk_def upd_health_def
      manifest_current_def advance_active_def)

lemma ring_append_current:
  assumes "manifest_current w"
  shows "manifest_current (snd (ring_append enc no_faults now boot ms kind (Inr p) sync w)) \<and>
    mf_boot_id (rw_manifest (snd (ring_append enc no_faults now boot ms kind (Inr p) sync w))) =
      mf_boot_id (rw_manifest w)"
proof -
  obtain w1 where w1: "rotate_ring no_faults w = (Inr (), w1)"
    using rotate_no_faults [of w] by blast
  have "manifest_current (snd (write_manifest None (upd_health f w))) \<and>
      mf_boot_id (rw_manifest (snd (write_manifest None (upd_health f w)))) = mf_boot_id (rw_manifest w)"
    and "manifest_current (record_failure msg w) \<and>
      mf_boot_id (rw_manifest (record_failure msg w)) = mf_boot_id (rw_manifest w)" for f msg
    using assms by (auto simp: manifest_current_def write_manifest_def upd_health_def record_failure_def
        split: option.splits)
  then show ?thesis
    using append_line_current [OF assms] rotate_current [OF w1] append_line_current [of w1] w1
    by (auto simp: ring_append_def Let_def no_faults_def write_manifest_def split: sum.splits)
qed

text \<open>What ties the writer to the specification along a run.\<close>

definition tracks ::
    "('p envelope \<Rightarrow> string + string) \<Rightarrow> string \<Rightarrow> ring_config \<Rightarrow> ring_writer \<Rightarrow> 'p ring_log \<times> nat \<Rightarrow> bool" where
  "tracks enc boot config w s \<longleftrightarrow>
     represents enc w (fst s) \<and> manifest_current w \<and> mf_boot_id (rw_manifest w) = boot \<and>
     mf_segment_count (rw_manifest w) = rc_segment_count config \<and>
     mf_segment_bytes_limit (rw_manifest w) = rc_segment_bytes_limit config \<and>
     mf_next_sequence (rw_manifest w) = of_nat (snd s) \<and>
     (if concat (fst s) = [] then snd s = 0
      else en_sequence (last (concat (fst s))) + 1 = of_nat (snd s) \<and> 0 < snd s)"

lemma last_log_append:
  "segs \<noteq> [] \<Longrightarrow> concat (log_append enc limit e segs) \<noteq> [] \<and> last (concat (log_append enc limit e segs)) = e"
  by (simp add: log_append_def)

lemma of_nat_not_max: "k < 2 ^ 64 - 1 \<Longrightarrow> (of_nat k :: u64) \<noteq> - 1"
proof
  assume k: "k < 2 ^ 64 - 1" and "(of_nat k :: u64) = - 1"
  then have "unat (of_nat k :: u64) = 2 ^ 64 - 1"
    by (simp add: unsigned_minus_1_eq_mask mask_eq_exp_minus_1)
  then show False using k by (simp add: unsigned_of_nat take_bit_nat_eq_self)
qed

lemma tracks_sample:
  assumes "tracks enc boot config w (segs, k)" and "event_fits enc boot (Sample now ms kind p sync)"
    and "k < 2 ^ 64 - 1"
  shows "tracks enc boot config (run_event enc dec boot config (Sample now ms kind p sync) w)
     (spec_event enc boot (unat (rc_segment_bytes_limit config)) (Sample now ms kind p sync) (segs, k))"
proof -
  let ?e = "next_record boot now ms kind p w"
  note T = assms(1) [unfolded tracks_def fst_conv snd_conv]
  have e: "?e = numbered boot now ms kind p k"
    using T by (simp add: next_record_def numbered_def)
  obtain b where b: "enc ?e = Inr b" "length b < record_bytes_limit kind"
    using assms(2) by (auto simp: event_fits_def e)
  have room: "mf_next_sequence (rw_manifest w) \<noteq> - 1"
    using T of_nat_not_max [OF assms(3)] by simp
  obtain w' where w': "ring_append enc no_faults now boot ms kind (Inr p) sync w =
        (Inr (Some (mf_next_sequence (rw_manifest w))), w')"
    "mf_next_sequence (rw_manifest w') = mf_next_sequence (rw_manifest w) + 1"
    "represents enc w' (log_append enc (unat (mf_segment_bytes_limit (rw_manifest w))) ?e segs)"
    "mf_segment_count (rw_manifest w') = mf_segment_count (rw_manifest w)"
    "mf_segment_bytes_limit (rw_manifest w') = mf_segment_bytes_limit (rw_manifest w)"
    using append_refines [of enc w segs ?e, OF _ refl b room] T by blast
  have "segs \<noteq> []" using T represents_active(2) by blast
  then show ?thesis
    using T w' ring_append_current [of w enc now boot ms kind p sync]
      last_log_append [of segs enc "unat (rc_segment_bytes_limit config)" ?e]
    by (simp add: tracks_def e numbered_def)
qed

lemma represents_cong:
  assumes "rd_files (rw_disk w') = rd_files (rw_disk w)"
    and "mf_segment_count (rw_manifest w') = mf_segment_count (rw_manifest w)"
    and "mf_active_segment (rw_manifest w') = mf_active_segment (rw_manifest w)"
    and "mf_segment_bytes_limit (rw_manifest w') = mf_segment_bytes_limit (rw_manifest w)"
    and "mf_next_sequence (rw_manifest w') = mf_next_sequence (rw_manifest w)"
  shows "represents enc w' segs = represents enc w segs"
  by (simp add: represents_def Let_def assms)

lemma last_sequence:
  assumes "tracks enc boot config w s" and "snd s < 2 ^ 64"
  shows "(if concat (fst s) = [] then 0 else sat_add (en_sequence (last (concat (fst s)))) 1) = of_nat (snd s)"
proof (cases "concat (fst s) = []")
  case False
  let ?x = "en_sequence (last (concat (fst s)))"
  have x: "?x + 1 = of_nat (snd s)" "0 < snd s"
    using assms(1) False by (simp_all add: tracks_def)
  have "?x \<noteq> - 1"
  proof
    assume "?x = - 1"
    then have "(of_nat (snd s) :: u64) = 0" using x(1) by simp
    then have "snd s = 0"
      using assms(2) unat_of_nat_id [of "snd s", where 'a = 64] by simp
    with x(2) show False by simp
  qed
  with x False show ?thesis by (simp add: sat_add_1 del: concat_eq_Nil_conv)
qed (use assms in \<open>auto simp: tracks_def split: if_splits\<close>)

lemma config_ok:
  "tracks enc boot config w s \<Longrightarrow>
   rc_segment_count config \<noteq> 0 \<and> MAX_RECORD_BYTES \<le> unat (rc_segment_bytes_limit config)"
  using representsD(2,4) [of enc w "fst s"] by (auto simp: tracks_def)

lemma tracks_restart:
  assumes "codec_ok enc dec" and T: "tracks enc boot config w s" and "snd s < 2 ^ 64"
  shows "tracks enc boot config (run_event enc dec boot config Restart w) s"
proof -
  obtain r where r: "read_ring dec (\<lambda>_. None) (Some (rw_disk w)) = Inr r" "rr_records r = concat (fst s)"
    using read_represented [OF assms(1), of w "fst s"] T by (auto simp: tracks_def)
  obtain m where m: "rd_manifest (rw_disk w) = Some m" "mf_boot_id m = boot"
    "mf_active_segment m = mf_active_segment (rw_manifest w)"
    using T by (auto simp: tracks_def manifest_current_def split: option.splits)
  have a: "mf_active_segment m mod rc_segment_count config = mf_active_segment (rw_manifest w)"
    using T representsD(2) [of enc w "fst s"] m(3) by (simp add: tracks_def)
  obtain w' where w': "ring_open dec (\<lambda>_. None) None (rw_path w) boot config (rw_disk w) = Inr w'"
    "rd_files (rw_disk w') = rd_files (rw_disk w)" "manifest_current w'"
    "mf_boot_id (rw_manifest w') = boot" "mf_segment_count (rw_manifest w') = rc_segment_count config"
    "mf_segment_bytes_limit (rw_manifest w') = rc_segment_bytes_limit config"
    "mf_active_segment (rw_manifest w') = mf_active_segment (rw_manifest w)"
    "mf_next_sequence (rw_manifest w') = of_nat (snd s)"
    using config_ok [OF T] last_sequence [OF T assms(3)] r m a
    by (simp add: ring_open_def write_manifest_def Let_def manifest_current_def not_less del: concat_eq_Nil_conv)
  have "represents enc w' (fst s)"
    using T w' represents_cong [of w' w enc "fst s"] by (simp add: tracks_def)
  then show ?thesis using T w' by (simp add: tracks_def)
qed

lemma open_empty:
  assumes "0 < rc_segment_count config" "MAX_RECORD_BYTES \<le> unat (rc_segment_bytes_limit config)"
    "unat (rc_segment_bytes_limit config) \<le> DEFAULT_SEGMENT_BYTES_LIMIT"
  shows "\<exists>w. ring_open dec (\<lambda>_. None) None path boot config empty_dir = Inr w \<and>
    tracks enc boot config w (replicate (rc_segment_count config) [], 0)"
  using assms
  by (simp add: ring_open_def read_ring_def empty_dir_def segment_paths_def Let_def report_default_def
      write_manifest_def tracks_def represents_def manifest_current_def)

lemma run_tracks:
  assumes "codec_ok enc dec" and "list_all (event_fits enc boot) evs"
    and "tracks enc boot config w s" and "snd s + length evs < 2 ^ 64"
  shows "tracks enc boot config (fold (run_event enc dec boot config) evs w)
     (fold (spec_event enc boot (unat (rc_segment_bytes_limit config))) evs s)"
  using assms(2-4)
proof (induction evs arbitrary: w s)
  case (Cons ev evs)
  let ?s = "spec_event enc boot (unat (rc_segment_bytes_limit config)) ev s"
  obtain segs k where s: "s = (segs, k)" by fastforce
  have "tracks enc boot config (run_event enc dec boot config ev w) ?s"
    using Cons.prems tracks_sample [of enc boot config w segs k] tracks_restart [OF assms(1), of boot config w s]
    by (cases ev) (simp_all add: s del: run_event.simps)
  moreover have "snd ?s + length evs < 2 ^ 64" using Cons.prems(3) by (cases ev) (simp_all add: s)
  ultimately show ?case using Cons.IH Cons.prems(1) by simp
qed simp

end
