(* ===== verification/FlightRecorder.thy ===== *)
theory FlightRecorder
  imports FlightRingLog
begin

text \<open>
  The properties of the host flight recorder: the ring is a bounded log across restarts, faults of
  the file system cost at most the oldest segment, the disk usage is bounded, and the ring of the
  previous boot survives interrupted attempts to archive it.
\<close>

section \<open>A codec for the examples\<close>

text \<open>Records that differ in their number only, written as this number in braces.\<close>

definition sample_record :: "nat \<Rightarrow> unit envelope" where
  "sample_record k = numbered ''b'' ''t'' 0 ''summary'' () k"

definition sample_text :: "nat \<Rightarrow> string" where
  "sample_text k = CHR ''{'' # show_nat k @ ''}''"

definition sample_enc :: "unit envelope \<Rightarrow> string + string" where
  "sample_enc e =
     (if e = sample_record (unat (en_sequence e)) then Inr (sample_text (unat (en_sequence e)))
      else Inl ''other record'')"

definition sample_dec :: "string \<Rightarrow> unit envelope option" where
  "sample_dec s =
     (let k = digits_val (butlast (tl s)) in
      if s = sample_text k \<and> k < 2 ^ 64 then Some (sample_record k) else None)"

lemma sample_sequence [simp]: "en_sequence (sample_record k) = of_nat k"
  by (simp add: sample_record_def numbered_def)

lemma sample_record_unat [simp]: "sample_record (unat (of_nat k :: u64)) = sample_record k"
  by (simp add: sample_record_def numbered_def)

lemma sample_enc_record: "sample_enc (sample_record k) = Inr (sample_text (unat (of_nat k :: u64)))"
  by (simp add: sample_enc_def)

lemma sample_text_dec: "k < 2 ^ 64 \<Longrightarrow> sample_dec (sample_text k) = Some (sample_record k)"
  by (simp add: sample_dec_def sample_text_def butlast_append)

lemma sample_text_newline: "newline \<notin> set (sample_text k)"
  using digits_no_sep [OF show_nat_digits, of newline k]
  by (auto simp: sample_text_def is_digit_def newline_def)

lemma sample_codec: "codec_ok sample_enc sample_dec"
  unfolding codec_ok_def
proof (intro allI impI)
  fix e b assume "sample_enc e = Inr b"
  then have e: "e = sample_record (unat (en_sequence e))" and b: "b = sample_text (unat (en_sequence e))"
    by (simp_all add: sample_enc_def split: if_splits)
  have "unat (en_sequence e) < 2 ^ LENGTH(64)" by (rule unsigned_less)
  then have "sample_dec b = Some e" using e by (simp add: b sample_text_dec)
  then show "sample_dec b = Some e \<and> b \<noteq> [] \<and> newline \<notin> set b"
    using sample_text_newline by (simp add: b sample_text_def)
qed

lemma length_show_nat: "n < 10 ^ Suc j \<Longrightarrow> length (show_nat n) \<le> Suc j"
proof (induction j arbitrary: n)
  case (Suc j)
  then show ?case
    by (subst show_nat.simps) (auto simp: less_mult_imp_div_less)
qed (simp add: show_nat.simps)

lemma length_sample_text: "length (sample_text (unat (x :: u64))) \<le> 22"
proof -
  have "unat x < 2 ^ LENGTH(64)" by (rule unsigned_less)
  then show ?thesis using length_show_nat [of "unat x" 19] by (simp add: sample_text_def)
qed

lemma sample_fits: "event_fits sample_enc ''b'' (Sample ''t'' 0 ''summary'' () sync)"
proof -
  have "length (sample_text (unat (x :: u64))) < record_bytes_limit ''summary''" for x
    using length_sample_text [of x]
    by (simp add: record_bytes_limit_def SUMMARY_RECORD_BYTES_LIMIT_def)
  then show ?thesis
    by (simp add: event_fits_def sample_enc_record sample_record_def [symmetric])
qed

section \<open>Properties of the ring\<close>

text \<open>C13: The ring is a bounded log, across restarts: started on an empty directory and run for any
  sequence of appends of records within their limits and of restarts between them, the reader
  gives, in order and each once, the records of the abstract log, which forgets only its oldest
  segment when a record no longer fits the youngest; nothing is torn or corrupt, and the records
  are numbered in the order of their appends.\<close>

theorem ring_run_refines_log:
  assumes "codec_ok enc dec" and "list_all (event_fits enc boot) evs" and "length evs < 2 ^ 64"
    and "0 < rc_segment_count config" and "MAX_RECORD_BYTES \<le> unat (rc_segment_bytes_limit config)"
    and "unat (rc_segment_bytes_limit config) \<le> DEFAULT_SEGMENT_BYTES_LIMIT"
  shows "\<exists>w r. ring_open dec (\<lambda>_. None) None path boot config empty_dir = Inr w \<and>
    read_ring dec (\<lambda>_. None) (Some (rw_disk (fold (run_event enc dec boot config) evs w))) = Inr r \<and>
    rr_records r = concat (fst (fold (spec_event enc boot (unat (rc_segment_bytes_limit config))) evs
      (replicate (rc_segment_count config) [], 0))) \<and>
    rr_torn r = 0 \<and> rr_corrupt r = 0 \<and> sorted_wrt (<) (map en_sequence (rr_records r))"
proof -
  obtain w where w: "ring_open dec (\<lambda>_. None) None path boot config empty_dir = Inr w"
    "tracks enc boot config w (replicate (rc_segment_count config) [], 0)"
    using open_empty [OF assms(4-6)] by blast
  let ?w = "fold (run_event enc dec boot config) evs w"
  let ?s = "fold (spec_event enc boot (unat (rc_segment_bytes_limit config))) evs
      (replicate (rc_segment_count config) [], 0)"
  have rep: "represents enc ?w (fst ?s)"
    using run_tracks [OF assms(1,2) w(2)] assms(3) by (simp add: tracks_def)
  then obtain r where r: "read_ring dec (\<lambda>_. None) (Some (rw_disk ?w)) = Inr r"
    "rr_records r = concat (fst ?s)" "rr_torn r = 0" "rr_corrupt r = 0"
    using read_represented [OF assms(1)] by blast
  with w(1) representsD(11) [OF rep] show ?thesis by auto
qed

definition sample_config :: ring_config where
  "sample_config = ring_config_default\<lparr>rc_segment_count := 2\<rparr>"

theorem ring_run_refines_log_witness:
  "\<exists>w r. ring_open sample_dec (\<lambda>_. None) None ''/d'' ''b'' sample_config empty_dir = Inr w \<and>
     read_ring sample_dec (\<lambda>_. None) (Some (rw_disk (fold (run_event sample_enc sample_dec ''b'' sample_config)
        [Sample ''t'' 0 ''summary'' () False, Restart, Sample ''t'' 0 ''summary'' () True] w))) = Inr r \<and>
     rr_records r = [sample_record 0, sample_record 1]"
proof -
  let ?evs = "[Sample ''t'' 0 ''summary'' () False, Restart, Sample ''t'' 0 ''summary'' () True]"
  have c: "0 < rc_segment_count sample_config"
    "MAX_RECORD_BYTES \<le> unat (rc_segment_bytes_limit sample_config)"
    "unat (rc_segment_bytes_limit sample_config) \<le> DEFAULT_SEGMENT_BYTES_LIMIT"
    "rc_segment_count sample_config = 2" "unat (rc_segment_bytes_limit sample_config) = 253952"
    by (simp_all add: sample_config_def ring_config_default_def MAX_RECORD_BYTES_def
        DEFAULT_SEGMENT_BYTES_LIMIT_def)
  have "fst (fold (spec_event sample_enc ''b'' 253952) ?evs (replicate 2 [], 0)) =
      [[], [sample_record 0, sample_record 1]]"
    by (simp add: log_append_def segment_text_def record_line_def sample_enc_record
        sample_record_def [symmetric] sample_text_def show_nat.simps numeral_2_eq_2)
  with ring_run_refines_log [OF sample_codec _ _ c(1-3), of "''b''" ?evs "''/d''"] show ?thesis
    unfolding c(4,5) by (auto simp: sample_fits event_fits_def [of _ _ Restart])
qed

section \<open>Faults of the file system\<close>

definition content :: "ring_writer \<Rightarrow> string \<Rightarrow> string" where
  "content w p = unwrap_or (disk_file w p) []"

lemma content_update:
  "rd_files (rw_disk w') = AList.update p c (rd_files (rw_disk w)) \<Longrightarrow>
   content w' q = (if q = p then c else content w q) \<and>
   disk_file w' q = (if q = p then Some c else disk_file w q)"
  by (simp add: content_def disk_file_def update_conv')

lemma content_same:
  "rd_files (rw_disk w') = rd_files (rw_disk w) \<Longrightarrow> content w' = content w \<and> disk_file w' = disk_file w"
  by (simp add: content_def disk_file_def fun_eq_iff)

definition same_shape :: "ring_writer \<Rightarrow> ring_writer \<Rightarrow> bool" where
  "same_shape w' w \<longleftrightarrow>
     mf_segment_count (rw_manifest w') = mf_segment_count (rw_manifest w) \<and>
     mf_segment_bytes_limit (rw_manifest w') = mf_segment_bytes_limit (rw_manifest w)"

lemma write_manifest_effect:
  assumes "write_manifest f w = (res, w')"
  shows "rd_files (rw_disk w') = rd_files (rw_disk w)" "rw_manifest w' = rw_manifest w"
  using assms by (auto simp: write_manifest_def split: option.splits if_splits)

lemma upd_health_effect [simp]:
  "rd_files (rw_disk (upd_health f w)) = rd_files (rw_disk w)"
  "mf_next_sequence (rw_manifest (upd_health f w)) = mf_next_sequence (rw_manifest w)"
  "mf_active_segment (rw_manifest (upd_health f w)) = mf_active_segment (rw_manifest w)"
  "same_shape (upd_health f w) w" "same_shape (upd_health f w) v = same_shape w v"
  by (simp_all add: upd_health_def same_shape_def)

lemma sync_effect:
  assumes "sync_ring io now w = (res, w')"
  shows "rd_files (rw_disk w') = rd_files (rw_disk w) \<and>
    mf_next_sequence (rw_manifest w') = mf_next_sequence (rw_manifest w) \<and>
    mf_active_segment (rw_manifest w') = mf_active_segment (rw_manifest w) \<and> same_shape w' w"
proof -
  obtain w1 r where w1: "write_manifest (io_manifest io) w1 = (r, w')"
    and m: "rd_files (rw_disk w1) = rd_files (rw_disk w)"
      "mf_next_sequence (rw_manifest w1) = mf_next_sequence (rw_manifest w)"
      "mf_active_segment (rw_manifest w1) = mf_active_segment (rw_manifest w)" "same_shape w1 w"
  proof (cases "sync_segments (io_sync io) w [0..<mf_segment_count (rw_manifest w)]")
    case None
    then show ?thesis
      using assms that [of "w\<lparr>rw_manifest := (rw_manifest w)\<lparr>mf_last_sync_at := Some now\<rparr>\<rparr>" res]
      by (simp add: sync_ring_def same_shape_def)
  next
    case (Some f)
    obtain name e where f: "f = (name, e)" by fastforce
    let ?w1 = "upd_health (\<lambda>h. h\<lparr>rh_sync_failures := sat_add (rh_sync_failures h) 1,
                rh_last_error := Some (''sync '' @ display_path w name @ '': '' @ e)\<rparr>) w"
    have "w' = snd (write_manifest (io_manifest io) ?w1)"
      using assms Some f by (simp add: sync_ring_def)
    then show ?thesis
      using that [of ?w1 "fst (write_manifest (io_manifest io) ?w1)"] by (simp add: prod_eq_iff)
  qed
  then show ?thesis
    using write_manifest_effect [OF w1] by (simp add: same_shape_def)
qed

text \<open>
  After an append of \<open>bytes\<close> to the active segment, which may have stopped early unless \<open>ok\<close>.
\<close>

definition appended :: "ring_writer \<Rightarrow> string \<Rightarrow> bool \<Rightarrow> ring_writer \<Rightarrow> bool" where
  "appended w bytes ok w' \<longleftrightarrow>
     rd_files (rw_disk w') = rd_files (rw_disk w) \<and> \<not> ok \<or>
     (\<exists>k. rd_files (rw_disk w') =
         AList.update (active_segment w) (content w (active_segment w) @ take k bytes) (rd_files (rw_disk w)) \<and>
       (ok \<longrightarrow> take k bytes = bytes))"

lemma appended_weaken:
  "appended w bytes ok w1 \<Longrightarrow> rd_files (rw_disk w2) = rd_files (rw_disk w1) \<Longrightarrow> (ok' \<Longrightarrow> ok) \<Longrightarrow>
   appended w bytes ok' w2"
  by (auto simp: appended_def)

lemma append_bytes_effect:
  assumes "append_bytes io bytes w = (res, w')"
  shows "appended w bytes (\<not> isl res) w' \<and> rw_manifest w' = rw_manifest w"
proof -
  have upd: "appended w bytes ok (write_disk (active_segment w) (unwrap_or (disk_file w (active_segment w)) [] @ take k bytes) w)"
    if "ok \<Longrightarrow> take k bytes = bytes" for k ok
    using that by (auto simp: appended_def write_disk_def content_def)
  show ?thesis
    using assms upd [of "\<not> isl res" "length bytes"]
    by (auto simp: append_bytes_def Let_def upd split: option.splits)
      (auto simp: appended_def write_disk_def)
qed

lemma appended_content:
  assumes "appended w bytes ok w'"
  shows "prefix (content w q) (content w' q) \<and> (q \<noteq> active_segment w \<longrightarrow> disk_file w' q = disk_file w q)"
    and "ok \<Longrightarrow> suffix bytes (content w' (active_segment w))"
proof -
  have "rd_files (rw_disk w') = rd_files (rw_disk w) \<and> \<not> ok \<or>
     (\<exists>k. rd_files (rw_disk w') =
         AList.update (active_segment w) (content w (active_segment w) @ take k bytes) (rd_files (rw_disk w)) \<and>
       (ok \<longrightarrow> take k bytes = bytes))"
    using assms by (simp add: appended_def)
  then have "(prefix (content w q) (content w' q) \<and> (q \<noteq> active_segment w \<longrightarrow> disk_file w' q = disk_file w q)) \<and>
    (ok \<longrightarrow> suffix bytes (content w' (active_segment w)))"
  proof (elim disjE exE conjE)
    fix k
    assume u: "rd_files (rw_disk w') =
        AList.update (active_segment w) (content w (active_segment w) @ take k bytes) (rd_files (rw_disk w))"
      and "ok \<longrightarrow> take k bytes = bytes"
    then show ?thesis
      using content_update [OF u, of q] content_update [OF u, of "active_segment w"] by (auto simp: suffix_def)
  qed (use content_same [of w' w] in auto)
  then show "prefix (content w q) (content w' q) \<and> (q \<noteq> active_segment w \<longrightarrow> disk_file w' q = disk_file w q)"
    and "ok \<Longrightarrow> suffix bytes (content w' (active_segment w))" by blast+
qed

lemma append_line_effect:
  assumes "append_line io now bytes sync w = (res, w')"
  shows "appended w bytes (\<not> isl res) w' \<and> same_shape w' w \<and>
    mf_active_segment (rw_manifest w') = mf_active_segment (rw_manifest w) \<and>
    mf_next_sequence (rw_manifest w') \<in>
      {mf_next_sequence (rw_manifest w), sat_add (mf_next_sequence (rw_manifest w)) 1} \<and>
    (\<forall>r. res = Inr r \<longrightarrow> r = Some (mf_next_sequence (rw_manifest w)) \<and>
      mf_next_sequence (rw_manifest w') = sat_add (mf_next_sequence (rw_manifest w)) 1)"
proof -
  obtain ra w1 where a: "append_bytes io bytes w = (ra, w1)" by fastforce
  note A = append_bytes_effect [OF a]
  show ?thesis
  proof (cases ra)
    case (Inl e)
    obtain rm w2 where m: "write_manifest (io_manifest io)
        (record_failure (''append '' @ display_path w1 (active_segment w1) @ '': '' @ e) w1) = (rm, w2)"
      by fastforce
    have "res = Inl e" "w' = w2" using assms a Inl m by (simp_all add: append_line_def)
    then show ?thesis
      using A write_manifest_effect [OF m] Inl appended_weaken [of w bytes False w1 w2]
      by (auto simp: record_failure_def same_shape_def upd_health_def)
  next
    case (Inr u)
    let ?w2 = "bump_sequence w1"
    obtain rs w3 where s: "sync_ring io now ?w2 = (rs, w3)" by fastforce
    have w': "(w' = w3 \<or> w' = ?w2) \<and> (isl res \<or> res = Inr (Some (mf_next_sequence (rw_manifest w1))))"
      using assms a Inr s by (auto simp: append_line_def Let_def split: if_splits sum.splits)
    have "appended w bytes (\<not> isl res) w'"
      using appended_weaken [of w bytes True w1 w'] A Inr w' sync_effect [OF s]
      by (auto simp: bump_sequence_def)
    then show ?thesis
      using A sync_effect [OF s] w' by (auto simp: same_shape_def bump_sequence_def)
  qed
qed

text \<open>A line is stored and numbered, whatever the sync after it answers, or it is neither.\<close>

lemma append_line_outcome:
  assumes "append_line io now bytes sync w = (res, w')"
  obtains (stored) "io_open io = None" "io_write io = None"
      "mf_next_sequence (rw_manifest w') = sat_add (mf_next_sequence (rw_manifest w)) 1"
      "content w' (active_segment w') = content w (active_segment w) @ bytes"
      "res = Inr (Some (mf_next_sequence (rw_manifest w))) \<or> sync \<and> isl res"
  | (refused) "isl res" "mf_next_sequence (rw_manifest w') = mf_next_sequence (rw_manifest w)"
      "io_write io = None \<Longrightarrow> rd_files (rw_disk w') = rd_files (rw_disk w)"
proof -
  obtain ra w1 where a: "append_bytes io bytes w = (ra, w1)" by fastforce
  show ?thesis
  proof (cases ra)
    case (Inl e)
    obtain rm w2 where m: "write_manifest (io_manifest io)
        (record_failure (''append '' @ display_path w1 (active_segment w1) @ '': '' @ e) w1) = (rm, w2)"
      by fastforce
    have r: "res = Inl e" "w' = w2" using assms a Inl m by (simp_all add: append_line_def)
    moreover have "rw_manifest w1 = rw_manifest w" using append_bytes_effect [OF a] by simp
    moreover have "io_write io = None \<Longrightarrow> rd_files (rw_disk w1) = rd_files (rw_disk w)"
      using a Inl by (simp add: append_bytes_def Let_def split: option.splits)
    ultimately show ?thesis
      using write_manifest_effect [OF m] by (intro refused) (simp_all add: r record_failure_def upd_health_def)
  next
    case (Inr u)
    let ?w2 = "bump_sequence w1"
    obtain rs w3 where s: "sync_ring io now ?w2 = (rs, w3)" by fastforce
    note S = sync_effect [OF s] and A = append_bytes_effect [OF a]
    have faults: "io_open io = None" "io_write io = None" and
      files: "rd_files (rw_disk w1) = AList.update (active_segment w) (content w (active_segment w) @ bytes) (rd_files (rw_disk w))"
      using a Inr by (auto simp: append_bytes_def content_def write_disk_def Let_def split: option.splits)
    have w': "w' = w3 \<or> w' = ?w2" and res: "res = Inr (Some (mf_next_sequence (rw_manifest w))) \<or> sync \<and> isl res"
      using assms a Inr s A by (auto simp: append_line_def Let_def split: if_splits sum.splits)
    have "rd_files (rw_disk w') = rd_files (rw_disk w1)" "active_segment w' = active_segment w"
      using w' S A by (auto simp: bump_sequence_def active_segment_def)
    then have "content w' (active_segment w') = content w (active_segment w) @ bytes"
      using files content_update [of w' "active_segment w" "content w (active_segment w) @ bytes" w] by simp
    moreover have "mf_next_sequence (rw_manifest w') = sat_add (mf_next_sequence (rw_manifest w)) 1"
      using w' S A by (auto simp: bump_sequence_def)
    ultimately show ?thesis using faults res by (intro stored)
  qed
qed

lemma rotate_effect:
  assumes "rotate_ring io w = (res, w')"
  shows "mf_next_sequence (rw_manifest w') = mf_next_sequence (rw_manifest w) \<and> same_shape w' w"
    and "mf_active_segment (rw_manifest w') = mf_active_segment (rw_manifest w) \<and>
        rd_files (rw_disk w') = rd_files (rw_disk w) \<and> isl res \<or>
      mf_active_segment (rw_manifest w') = mf_active_segment (rw_manifest (advance_active w)) \<and>
        (rd_files (rw_disk w') = rd_files (rw_disk w) \<and> isl res \<or>
         rd_files (rw_disk w') = AList.update (active_segment (advance_active w)) [] (rd_files (rw_disk w)))"
proof -
  let ?w1 = "advance_active w"
  let ?w2 = "write_disk (active_segment ?w1) [] ?w1"
  let ?w3 = "upd_health (\<lambda>h. h\<lparr>rh_rotations := sat_add (rh_rotations h) 1\<rparr>) ?w2"
  obtain rm w4 where m: "write_manifest (io_rotate_manifest io) ?w3 = (rm, w4)" by fastforce
  have "w' = w \<and> isl res \<or> w' = ?w1 \<and> isl res \<or> w' = ?w2 \<or> w' = w4"
    using assms m by (auto simp: rotate_ring_def Let_def split: if_splits option.splits)
  then show "mf_next_sequence (rw_manifest w') = mf_next_sequence (rw_manifest w) \<and> same_shape w' w"
    and "mf_active_segment (rw_manifest w') = mf_active_segment (rw_manifest w) \<and>
        rd_files (rw_disk w') = rd_files (rw_disk w) \<and> isl res \<or>
      mf_active_segment (rw_manifest w') = mf_active_segment (rw_manifest (advance_active w)) \<and>
        (rd_files (rw_disk w') = rd_files (rw_disk w) \<and> isl res \<or>
         rd_files (rw_disk w') = AList.update (active_segment (advance_active w)) [] (rd_files (rw_disk w)))"
    using write_manifest_effect [OF m]
    by (auto simp: same_shape_def advance_active_def write_disk_def upd_health_def)
qed

lemma same_shape_trans: "same_shape w2 w1 \<Longrightarrow> same_shape w1 w \<Longrightarrow> same_shape w2 w"
  by (simp add: same_shape_def)

text \<open>
  The two ways an append goes: it stops before the files are touched, or it appends to the active
  segment, possibly after a rotation.
\<close>

lemma ring_append_cases:
  assumes "ring_append enc io now boot ms kind payload sync w = (res, w')"
  obtains (none) "rd_files (rw_disk w') = rd_files (rw_disk w)" "same_shape w' w"
      "mf_active_segment (rw_manifest w') \<in>
        {mf_active_segment (rw_manifest w), mf_active_segment (rw_manifest (advance_active w))}"
      "mf_next_sequence (rw_manifest w') = mf_next_sequence (rw_manifest w)" "isl res \<or> res = Inr None"
  | (emptied) "rd_files (rw_disk w') = AList.update (active_segment (advance_active w)) [] (rd_files (rw_disk w))"
      "same_shape w' w" "mf_active_segment (rw_manifest w') = mf_active_segment (rw_manifest (advance_active w))"
      "mf_next_sequence (rw_manifest w') = mf_next_sequence (rw_manifest w)" "isl res"
  | (plain) p b where "payload = Inr p" "enc (next_record boot now ms kind p w) = Inr b"
      "length b < record_bytes_limit kind" "\<not> segment_full io (length b + 1) w"
      "append_line io now (b @ [newline]) sync w = (res, w')"
  | (rotated) p b w1 where "payload = Inr p" "enc (next_record boot now ms kind p w) = Inr b"
      "length b < record_bytes_limit kind"
      "rotate_ring io w = (Inr (), w1)" "append_line io now (b @ [newline]) sync w1 = (res, w')"
proof (cases payload)
  case (Inl e)
  then have "\<exists>msg. w' = record_failure msg w" "res = Inr None"
    using assms by (auto simp: ring_append_def)
  then show ?thesis using none by (auto simp: record_failure_def)
next
  case p: (Inr p)
  show ?thesis
  proof (cases "enc (next_record boot now ms kind p w)")
    case (Inl e)
    then have "\<exists>msg. w' = record_failure msg w" "res = Inr None"
      using assms p by (auto simp: ring_append_def)
    then show ?thesis using none by (auto simp: record_failure_def)
  next
    case b: (Inr b)
    obtain rm w1 where m: "write_manifest (io_manifest io) (upd_health (oversize_health kind) w) = (rm, w1)"
      by fastforce
    obtain rr w2 where r: "rotate_ring io w = (rr, w2)" by fastforce
    note M = write_manifest_effect [OF m] and R = rotate_effect [OF r]
    consider "record_bytes_limit kind \<le> length b" | "length b < record_bytes_limit kind"
        "\<not> segment_full io (length b + 1) w"
      | e where "length b < record_bytes_limit kind" "segment_full io (length b + 1) w" "rr = Inl e"
      | "length b < record_bytes_limit kind" "segment_full io (length b + 1) w" "rr = Inr ()"
      by (metis (full_types) linorder_not_less obj_sumE old.unit.exhaust)
    then show ?thesis
    proof cases
      case 1
      then have w': "w' = w1" and "isl res \<or> res = Inr None"
        using assms p b m by (auto simp: ring_append_def split: sum.splits)
      then show ?thesis using none M by (simp add: same_shape_def upd_health_def)
    next
      case 2
      then show ?thesis using assms p b plain by (simp add: ring_append_def)
    next
      case 3
      then have "w' = w2" "isl res" using assms p b r by (auto simp: ring_append_def)
      then show ?thesis using R none emptied by auto
    next
      case 4
      then show ?thesis using assms p b r rotated by (simp add: ring_append_def)
    qed
  qed
qed

text \<open>How the number, the line and the answer of an append belong together.\<close>

definition numbered_soundly ::
    "('p envelope \<Rightarrow> string + string) \<Rightarrow> io_faults \<Rightarrow> string \<Rightarrow> string \<Rightarrow> u64 \<Rightarrow> string \<Rightarrow> string + 'p \<Rightarrow> bool \<Rightarrow>
     ring_writer \<Rightarrow> io_error + u64 option \<Rightarrow> ring_writer \<Rightarrow> bool" where
  "numbered_soundly enc io now boot ms kind payload sync w res w' \<longleftrightarrow>
     (let n = mf_next_sequence (rw_manifest w); n' = mf_next_sequence (rw_manifest w') in
      (io_open io = None \<and> io_write io = None \<and> n' = sat_add n 1 \<and> (res = Inr (Some n) \<or> sync \<and> isl res) \<and>
         (\<exists>p b. payload = Inr p \<and> enc (next_record boot now ms kind p w) = Inr b \<and>
            suffix (b @ [newline]) (content w' (active_segment w')))) \<or>
      (isl res \<and> n' = n \<and> (io_write io = None \<longrightarrow> (\<forall>q. content w' q \<in> {content w q, []}))) \<or>
      (res = Inr None \<and> n' = n \<and> disk_file w' = disk_file w))"

lemma ring_append_numbered:
  assumes "ring_append enc io now boot ms kind payload sync w = (res, w')"
  shows "numbered_soundly enc io now boot ms kind payload sync w res w'"
  using assms
proof (cases rule: ring_append_cases)
  case none
  then show ?thesis using content_same [of w' w] by (auto simp: numbered_soundly_def Let_def)
next
  case emptied
  then show ?thesis using content_update [OF emptied(1)] by (auto simp: numbered_soundly_def Let_def)
next
  case (plain p b)
  from plain(5) show ?thesis
  proof (cases rule: append_line_outcome)
    case stored
    then have "suffix (b @ [newline]) (content w' (active_segment w'))" by (simp add: suffix_def)
    then show ?thesis using stored plain(1,2) unfolding numbered_soundly_def Let_def by blast
  next
    case refused
    then show ?thesis using content_same [of w' w] by (auto simp: numbered_soundly_def Let_def)
  qed
next
  case (rotated p b w1)
  have n: "mf_next_sequence (rw_manifest w1) = mf_next_sequence (rw_manifest w)" using rotate_effect(1) [OF rotated(4)] by simp
  from rotated(5) show ?thesis
  proof (cases rule: append_line_outcome)
    case stored
    then have "suffix (b @ [newline]) (content w' (active_segment w'))" by (simp add: suffix_def)
    then show ?thesis using stored rotated(1,2) unfolding numbered_soundly_def Let_def n by blast
  next
    case refused
    have "content w1 q \<in> {content w q, []}" for q
      using rotate_effect(2) [OF rotated(4)] content_same [of w1 w] content_update [of w1 _ "[]" w q] by auto
    then show ?thesis using refused content_same [of w' w1] by (auto simp: numbered_soundly_def Let_def n)
  qed
qed

text \<open>C18: Whatever the file system answers, an append costs no evidence but that of the oldest
  segment: every other file keeps its bytes, and only the active and the oldest segment are touched.
  It ends in one of three ways. The whole line ends the active segment: then the number is used up, and the
  append returns it, or fails because the sync it was asked for failed. Or it fails, uses up no number, and no file has
  grown unless the write itself failed. Or the record is dropped: no number is used up and no file is changed.\<close>

theorem ring_append_under_faults:
  assumes "ring_append enc io now boot ms kind payload sync w = (res, w')"
  shows "(\<forall>p. p \<noteq> active_segment (advance_active w) \<longrightarrow> prefix (content w p) (content w' p)) \<and>
    (\<forall>p. p \<noteq> active_segment w \<longrightarrow> p \<noteq> active_segment (advance_active w) \<longrightarrow> disk_file w' p = disk_file w p) \<and>
    numbered_soundly enc io now boot ms kind payload sync w res w'"
  using assms
proof (cases rule: ring_append_cases)
  case none
  then show ?thesis using content_same [of w' w] ring_append_numbered [OF assms] by auto
next
  case emptied
  then show ?thesis using content_update [OF emptied(1)] ring_append_numbered [OF assms] by auto
next
  case (plain p b)
  note c = appended_content [of w "b @ [newline]" "\<not> isl res" w', OF conjunct1 [OF append_line_effect [OF plain(5)]]]
  show ?thesis using c(1) ring_append_numbered [OF assms] by auto
next
  case (rotated p b w1)
  note L = append_line_effect [OF rotated(5)] and R = rotate_effect [OF rotated(4)]
  have a: "active_segment (advance_active w) = active_segment w1"
    using L R by (simp add: active_segment_def)
  have w1: "rd_files (rw_disk w1) = AList.update (active_segment w1) [] (rd_files (rw_disk w))"
    using R by (simp add: a)
  note c = appended_content [of w1 "b @ [newline]" "\<not> isl res" w', OF conjunct1 [OF L]]
  have o: "content w1 q = content w q \<and> disk_file w1 q = disk_file w q" if "q \<noteq> active_segment w1" for q
    using content_update [OF w1, of q] that by simp
  have "prefix (content w q) (content w' q) \<and> disk_file w' q = disk_file w q" if "q \<noteq> active_segment w1" for q
    using o [OF that] c(1) [of q] that by simp
  then show ?thesis using ring_append_numbered [OF assms] by (simp add: a)
qed

definition sample_writer :: ring_writer where
  "sample_writer =
     (case ring_open sample_dec (\<lambda>_. None) None ''/d'' ''b'' sample_config empty_dir of Inr w \<Rightarrow> w)"

definition disk_full :: io_faults where
  "disk_full = no_faults\<lparr>io_write := Some (1, ''no space'')\<rparr>"

lemma sample_writer_open:
  "ring_open sample_dec (\<lambda>_. None) None ''/d'' ''b'' sample_config empty_dir = Inr sample_writer"
  "mf_next_sequence (rw_manifest sample_writer) = 0" "rd_files (rw_disk sample_writer) = []"
  "mf_segment_bytes_limit (rw_manifest sample_writer) = 253952"
  by (simp_all add: sample_writer_def ring_open_def read_ring_def segment_paths_def empty_dir_def Let_def
      report_default_def write_manifest_def sample_config_def ring_config_default_def MAX_RECORD_BYTES_def
      DEFAULT_SEGMENT_COUNT_def DEFAULT_SEGMENT_BYTES_LIMIT_def)

theorem ring_append_under_faults_witness:
  "\<exists>w'. ring_append sample_enc disk_full ''t'' ''b'' 0 ''summary'' (Inr ()) False sample_writer =
       (Inl ''no space'', w') \<and>
     mf_next_sequence (rw_manifest w') = 0 \<and>
     (\<forall>p. p \<noteq> active_segment sample_writer \<longrightarrow> p \<noteq> active_segment (advance_active sample_writer) \<longrightarrow>
        disk_file w' p = None)"
proof -
  let ?a = "ring_append sample_enc disk_full ''t'' ''b'' 0 ''summary'' (Inr ()) False sample_writer"
  have e: "next_record ''b'' ''t'' 0 ''summary'' () sample_writer = sample_record 0"
    by (simp add: next_record_def sample_record_def numbered_def sample_writer_open)
  have "fst ?a = Inl ''no space''" "mf_next_sequence (rw_manifest (snd ?a)) = 0"
    by (simp_all add: ring_append_def e sample_enc_record segment_full_def disk_full_def no_faults_def Let_def
        sample_writer_open disk_file_def sample_text_def show_nat.simps record_bytes_limit_def SUMMARY_RECORD_BYTES_LIMIT_def
        append_line_def append_bytes_def write_manifest_def record_failure_def upd_health_def write_disk_def)
  with ring_append_under_faults [of sample_enc disk_full "''t''" "''b''" 0 "''summary''" "Inr ()" False
      sample_writer "fst ?a" "snd ?a"]
  show ?thesis by (simp add: sample_writer_open disk_file_def prod_eq_iff)
qed

section \<open>Disk usage\<close>

text \<open>The files of the ring are its segments, each within its limit.\<close>

definition bounded_ring :: "ring_writer \<Rightarrow> bool" where
  "bounded_ring w \<longleftrightarrow>
     (let m = rw_manifest w; files = rd_files (rw_disk w) in
      mf_active_segment m < mf_segment_count m \<and> hm_ok files \<and>
      MAX_RECORD_BYTES \<le> unat (mf_segment_bytes_limit m) \<and> unat (mf_segment_bytes_limit m) < 2 ^ 64 - 1 \<and>
      (\<forall>f \<in> set files. fst f \<in> segment_name ` {..<mf_segment_count m} \<and>
         length (snd f) \<le> unat (mf_segment_bytes_limit m)))"

lemma bounded_ringI:
  assumes "bounded_ring w" and "same_shape w' w"
    and "mf_active_segment (rw_manifest w') < mf_segment_count (rw_manifest w)"
    and "rd_files (rw_disk w') = rd_files (rw_disk w) \<or>
      (\<exists>i c. i < mf_segment_count (rw_manifest w) \<and> length c \<le> unat (mf_segment_bytes_limit (rw_manifest w)) \<and>
         rd_files (rw_disk w') = AList.update (segment_name i) c (rd_files (rw_disk w)))"
  shows "bounded_ring w'"
proof -
  have "set (AList.update k c fs) \<subseteq> insert (k, c) (set fs)" for k :: string and c fs
    by (induction fs) auto
  then show ?thesis
    using assms by (fastforce simp: bounded_ring_def Let_def same_shape_def distinct_update)
qed

lemma bounded_content: "bounded_ring w \<Longrightarrow> length (content w q) \<le> unat (mf_segment_bytes_limit (rw_manifest w))"
  by (cases "disk_file w q") (auto simp: bounded_ring_def Let_def content_def disk_file_def dest!: map_of_SomeD)

lemma bounded_append_line:
  assumes "bounded_ring w" and "append_line io now bytes sync w = (res, w')"
    and "length (content w (active_segment w)) + length bytes \<le> unat (mf_segment_bytes_limit (rw_manifest w))"
  shows "bounded_ring w'"
proof (rule bounded_ringI [OF assms(1)])
  note L = append_line_effect [OF assms(2)]
  have a: "mf_active_segment (rw_manifest w) < mf_segment_count (rw_manifest w)"
    using assms(1) by (simp add: bounded_ring_def Let_def)
  with L show "same_shape w' w" "mf_active_segment (rw_manifest w') < mf_segment_count (rw_manifest w)" by simp_all
  have "length (content w (active_segment w) @ take k bytes) \<le> unat (mf_segment_bytes_limit (rw_manifest w))" for k
    using assms(3) by simp
  with L a show "rd_files (rw_disk w') = rd_files (rw_disk w) \<or>
      (\<exists>i c. i < mf_segment_count (rw_manifest w) \<and> length c \<le> unat (mf_segment_bytes_limit (rw_manifest w)) \<and>
         rd_files (rw_disk w') = AList.update (segment_name i) c (rd_files (rw_disk w)))"
    unfolding appended_def active_segment_def by blast
qed

lemma bounded_advance:
  assumes "bounded_ring w" and "same_shape w' w"
    and "mf_active_segment (rw_manifest w') \<in>
        {mf_active_segment (rw_manifest w), mf_active_segment (rw_manifest (advance_active w))}"
    and "rd_files (rw_disk w') = rd_files (rw_disk w) \<or>
      rd_files (rw_disk w') = AList.update (active_segment (advance_active w)) [] (rd_files (rw_disk w))"
  shows "bounded_ring w'"
proof (rule bounded_ringI [OF assms(1,2)])
  have a: "mf_active_segment (rw_manifest w) < mf_segment_count (rw_manifest w)"
    using assms(1) by (simp add: bounded_ring_def Let_def)
  then have b: "mf_active_segment (rw_manifest (advance_active w)) < mf_segment_count (rw_manifest w)"
    by (simp add: advance_active_def)
  show "mf_active_segment (rw_manifest w') < mf_segment_count (rw_manifest w)" using assms(3) a b by auto
  have "length ([] :: string) \<le> unat (mf_segment_bytes_limit (rw_manifest w))" by simp
  with assms(4) b show "rd_files (rw_disk w') = rd_files (rw_disk w) \<or>
      (\<exists>i c. i < mf_segment_count (rw_manifest w) \<and> length c \<le> unat (mf_segment_bytes_limit (rw_manifest w)) \<and>
         rd_files (rw_disk w') = AList.update (segment_name i) c (rd_files (rw_disk w)))"
    unfolding active_segment_def by blast
qed

lemma record_limit_max: "record_bytes_limit kind \<le> MAX_RECORD_BYTES"
  by (simp add: record_bytes_limit_def SUMMARY_RECORD_BYTES_LIMIT_def DETAIL_RECORD_BYTES_LIMIT_def
      ESCALATION_RECORD_BYTES_LIMIT_def MAX_RECORD_BYTES_def)

lemma bounded_append:
  assumes "bounded_ring w" and "io_metadata_ok io"
    and "ring_append enc io now boot ms kind payload sync w = (res, w')"
  shows "bounded_ring w' \<and> same_shape w' w"
  using assms(3)
proof (cases rule: ring_append_cases)
  case none
  then show ?thesis using bounded_advance [OF assms(1)] by blast
next
  case emptied
  then show ?thesis using bounded_advance [OF assms(1)] by blast
next
  case (plain p b)
  have "unat (mf_segment_bytes_limit (rw_manifest w)) < 2 ^ 64 - 1"
    using assms(1) by (simp add: bounded_ring_def Let_def)
  then have "length (content w (active_segment w)) + length (b @ [newline]) \<le> unat (mf_segment_bytes_limit (rw_manifest w))"
    using plain(4) assms(2) by (auto simp: segment_full_def content_def Let_def)
  then show ?thesis
    using bounded_append_line [OF assms(1) plain(5)] append_line_effect [OF plain(5)] by simp
next
  case (rotated p b w1)
  note R = rotate_effect [OF rotated(4)]
  have w1: "bounded_ring w1" using R bounded_advance [OF assms(1)] by blast
  have u: "rd_files (rw_disk w1) = AList.update (active_segment w1) [] (rd_files (rw_disk w))"
    using R by (simp add: active_segment_def)
  have "content w1 (active_segment w1) = []" using content_update [OF u, of "active_segment w1"] by simp
  moreover have "length (b @ [newline]) \<le> unat (mf_segment_bytes_limit (rw_manifest w1))"
    using w1 rotated(3) record_limit_max [of kind] by (simp add: bounded_ring_def Let_def)
  ultimately have "bounded_ring w'" using bounded_append_line [OF w1 rotated(5)] by simp
  then show ?thesis
    using same_shape_trans append_line_effect [OF rotated(5)] R by blast
qed

lemma bounded_total:
  assumes "bounded_ring w"
  shows "sum_list (map (length \<circ> snd) (rd_files (rw_disk w))) \<le>
    mf_segment_count (rw_manifest w) * unat (mf_segment_bytes_limit (rw_manifest w))"
proof -
  let ?fs = "rd_files (rw_disk w)" and ?n = "mf_segment_count (rw_manifest w)"
  let ?limit = "unat (mf_segment_bytes_limit (rw_manifest w))"
  have "sum_list (map (length \<circ> snd) ?fs) \<le> sum_list (map (\<lambda>_. ?limit) ?fs)"
    using assms by (intro sum_list_mono) (auto simp: bounded_ring_def Let_def)
  also have "\<dots> = length (map fst ?fs) * ?limit" by (simp add: sum_list_triv)
  also have "length (map fst ?fs) = card (fst ` set ?fs)"
    using assms distinct_card [of "map fst ?fs"] by (simp add: bounded_ring_def Let_def)
  also have "\<dots> \<le> card (segment_name ` {..<?n})"
    using assms by (intro card_mono) (auto simp: bounded_ring_def Let_def)
  also have "\<dots> \<le> ?n" using card_image_le [of "{..<?n}" segment_name] by simp
  finally show ?thesis by (simp add: comp_def)
qed

type_synonym 'p append_call = "io_faults \<times> string \<times> string \<times> u64 \<times> string \<times> (string + 'p) \<times> bool"

definition run_append :: "('p envelope \<Rightarrow> string + string) \<Rightarrow> 'p append_call \<Rightarrow> ring_writer \<Rightarrow> ring_writer" where
  "run_append enc c w =
     (case c of (io, now, boot, ms, kind, payload, sync) \<Rightarrow>
        snd (ring_append enc io now boot ms kind payload sync w))"

text \<open>C19: The disk usage of a ring is bounded, whatever is appended and whatever fails: opened on an
  empty directory, its segment files together never exceed the number of segments times the limit
  of one, as long as the length of a file can be read.\<close>

theorem ring_bytes_bounded:
  assumes "ring_open dec (\<lambda>_. None) None path boot config empty_dir = Inr w"
    and "unat (rc_segment_bytes_limit config) < 2 ^ 64 - 1"
    and "list_all (\<lambda>c. io_metadata_ok (fst c)) calls"
  shows "sum_list (map (length \<circ> snd) (rd_files (rw_disk (fold (run_append enc) calls w)))) \<le>
    rc_segment_count config * unat (rc_segment_bytes_limit config)"
proof -
  have shape: "mf_segment_count (rw_manifest w) = rc_segment_count config"
    "mf_segment_bytes_limit (rw_manifest w) = rc_segment_bytes_limit config" and w: "bounded_ring w"
    using assms(1,2)
    by (auto simp: ring_open_def read_ring_def empty_dir_def segment_paths_def Let_def report_default_def
        write_manifest_def bounded_ring_def not_less split: if_splits)
  have "bounded_ring (fold (run_append enc) calls w) \<and> same_shape (fold (run_append enc) calls w) w"
    using assms(3) w
  proof (induction calls arbitrary: w)
    case (Cons c calls)
    have "bounded_ring (run_append enc c w) \<and> same_shape (run_append enc c w) w"
      using Cons.prems(1) bounded_append [OF Cons.prems(2) _ prod.collapse [symmetric], of _ enc]
      by (cases c) (simp add: run_append_def)
    then show ?case
      using Cons.IH [of "run_append enc c w"] Cons.prems same_shape_trans by auto
  qed (simp add: same_shape_def)
  then show ?thesis
    using bounded_total [of "fold (run_append enc) calls w"] shape by (simp add: same_shape_def)
qed

theorem ring_bytes_bounded_witness:
  "sum_list (map (length \<circ> snd) (rd_files (rw_disk (fold (run_append sample_enc)
     [(disk_full, ''t'', ''b'', 0, ''summary'', Inr (), False), (no_faults, ''t'', ''b'', 0, ''summary'', Inr (), True)]
     sample_writer)))) \<le> 2 * 253952"
proof -
  have "unat (rc_segment_bytes_limit sample_config) = 253952" "rc_segment_count sample_config = 2"
    by (simp_all add: sample_config_def ring_config_default_def DEFAULT_SEGMENT_BYTES_LIMIT_def)
  then show ?thesis
    using ring_bytes_bounded [OF sample_writer_open(1), of
        "[(disk_full, ''t'', ''b'', 0, ''summary'', Inr (), False), (no_faults, ''t'', ''b'', 0, ''summary'', Inr (), True)]"
        sample_enc]
    by (simp add: disk_full_def no_faults_def)
qed

section \<open>A torn tail\<close>

text \<open>The records a file contributes, whatever was read before it.\<close>

fun line_records :: "(string \<Rightarrow> 'p envelope option) \<Rightarrow> bool \<Rightarrow> string list \<Rightarrow> 'p envelope list" where
  "line_records dec ended [] = []"
| "line_records dec ended (line # rest) =
     (if line = [] \<or> rest = [] \<and> \<not> ended \<or> MAX_RECORD_BYTES < length line then []
      else case dec line of
          Some e \<Rightarrow> if en_schema e = SCHEMA_VERSION then [e] else []
        | None \<Rightarrow> []) @ line_records dec ended rest"

definition file_records :: "(string \<Rightarrow> 'p envelope option) \<Rightarrow> string \<Rightarrow> 'p envelope list" where
  "file_records dec c =
     (let bytes = take (DEFAULT_SEGMENT_BYTES_LIMIT + 1) c
      in line_records dec (suffix [newline] bytes) (split_on newline bytes))"

lemma add_records [simp]:
  "rr_records (add_torn r) = rr_records r" "rr_records (add_corrupt r) = rr_records r"
  "rr_records (add_record e r) = rr_records r @ [e]"
  by (simp_all add: add_torn_def add_corrupt_def add_record_def)

lemma read_lines_records: "rr_records (read_lines dec ended ls r) = rr_records r @ line_records dec ended ls"
  by (induction dec ended ls r rule: read_lines.induct) (auto split: option.splits)

lemma read_file_records: "rr_records (read_file dec c r) = rr_records r @ file_records dec c"
  by (simp add: read_file_def file_records_def Let_def read_lines_records)

lemma fold_records:
  "rr_records (fold (\<lambda>p. read_file dec (f p)) ps r) = rr_records r @ concat (map (\<lambda>p. file_records dec (f p)) ps)"
  by (induction ps arbitrary: r) (simp_all add: read_file_records)

lemma read_ring_records:
  assumes "read_ring dec unreadable (Some d) = Inr r"
  shows "rr_records r = dedup_sequence (sort_key en_sequence
     (concat (map (\<lambda>p. file_records dec (the (map_of (rd_files d) p))) (segment_paths d))))"
  using assms by (auto simp: read_ring_def Let_def report_default_def fold_records split: option.splits)

lemma split_on_snoc_part:
  "d \<notin> set t \<Longrightarrow> split_on d (s @ d # t) = split_on d s @ [t]"
proof (induction s)
  case (Cons a s)
  obtain p ps where "split_on d s = p # ps" by (meson split_on_nonempty neq_Nil_conv)
  with Cons show ?case by simp
qed simp

lemma line_records_append:
  "line_records dec ended (ls @ l # ms) = line_records dec True ls @ line_records dec ended (l # ms)"
  by (induction ls) auto

text \<open>What a file contributes that ends in a line that is no record, torn or ended.\<close>

lemma torn_file_records:
  assumes "newline \<notin> set t" and "dec t = None" and "length (s @ newline # t) < DEFAULT_SEGMENT_BYTES_LIMIT"
  shows "file_records dec (s @ newline # t) = line_records dec True (split_on newline s)"
    and "file_records dec (s @ newline # t @ [newline]) = line_records dec True (split_on newline s)"
proof -
  show "file_records dec (s @ newline # t) = line_records dec True (split_on newline s)"
    using assms by (simp add: file_records_def split_on_snoc_part line_records_append [of _ _ _ _ "[]"])
  have "split_on newline ((s @ newline # t) @ [newline]) = (split_on newline s @ [t]) @ [[]]"
    using assms(1) split_on_snoc_part [of newline "[]" "s @ newline # t"] by (simp add: split_on_snoc_part)
  with assms show "file_records dec (s @ newline # t @ [newline]) = line_records dec True (split_on newline s)"
    by (simp add: file_records_def line_records_append [of _ _ _ _ "[[]]"])
qed

text \<open>A crash in the middle of a write costs two records, not one: the torn line has no newline,
  the recorder does not cut it off when it opens the ring again, and the next append continues
  that line. The append reports success and consumes a number, but the reader finds the same records
  as before it.\<close>

theorem append_after_torn_line_lost:
  assumes active: "disk_file w (active_segment w) = Some (s @ newline # t)"
    and torn: "newline \<notin> set t" "dec t = None"
    and rec: "enc (next_record boot now ms kind p w) = Inr b" "newline \<notin> set b" "dec (t @ b) = None"
      "length b < record_bytes_limit kind"
    and room: "length (s @ newline # t @ b @ [newline]) \<le> unat (mf_segment_bytes_limit (rw_manifest w))"
      "unat (mf_segment_bytes_limit (rw_manifest w)) \<le> DEFAULT_SEGMENT_BYTES_LIMIT"
    and before: "read_ring dec (\<lambda>_. None) (Some (rw_disk w)) = Inr r"
  shows "\<exists>w' r'. ring_append enc no_faults now boot ms kind (Inr p) sync w =
        (Inr (Some (mf_next_sequence (rw_manifest w))), w') \<and>
      mf_next_sequence (rw_manifest w') = sat_add (mf_next_sequence (rw_manifest w)) 1 \<and>
      read_ring dec (\<lambda>_. None) (Some (rw_disk w')) = Inr r' \<and> rr_records r' = rr_records r"
proof -
  let ?line = "b @ [newline]" and ?new = "s @ newline # t @ b @ [newline]"
  obtain w' where w': "append_line no_faults now ?line sync w = (Inr (Some (mf_next_sequence (rw_manifest w))), w')"
    "rd_files (rw_disk w') = AList.update (active_segment w) ?new (rd_files (rw_disk w))"
    "mf_next_sequence (rw_manifest w') = sat_add (mf_next_sequence (rw_manifest w)) 1"
    using append_line_no_faults [of now ?line sync w] active by auto
  have "\<not> segment_full no_faults (length ?line) w"
    using room active by (auto simp: segment_full_def no_faults_def Let_def)
  then have a: "ring_append enc no_faults now boot ms kind (Inr p) sync w =
      (Inr (Some (mf_next_sequence (rw_manifest w))), w')"
    using rec(1,4) w'(1) by (simp add: ring_append_def Let_def)
  let ?old = "rd_files (rw_disk w)" and ?files = "rd_files (rw_disk w')"
  have "active_segment w \<in> fst ` set ?old"
    using active by (metis disk_file_def domI dom_map_of_conv_image_fst)
  then have paths: "segment_paths (rw_disk w') = segment_paths (rw_disk w)"
    by (simp add: segment_paths_def w'(2) update_keys)
  have same: "file_records dec (the (map_of ?files q)) = file_records dec (the (map_of ?old q))" for q
    using torn_file_records(1) [of t dec s] torn_file_records(2) [of "t @ b" dec s] torn rec(2,3) room active
    by (simp add: w'(2) update_conv' disk_file_def)
  obtain r' where r': "read_ring dec (\<lambda>_. None) (Some (rw_disk w')) = Inr r'"
    by (simp add: read_ring_def Let_def)
  show ?thesis
    using a w'(3) r' read_ring_records [OF r'] read_ring_records [OF before] by (simp add: paths same)
qed

text \<open>The ring after a crash that tore the second record, opened again.\<close>

definition torn_dir :: ring_dir where
  "torn_dir = \<lparr>rd_files = [(segment_name 0, sample_text 0 @ newline # ''{1'')], rd_manifest = None\<rparr>"

definition torn_writer :: ring_writer where
  "torn_writer =
     (case ring_open sample_dec (\<lambda>_. None) None ''/d'' ''b'' sample_config torn_dir of Inr w \<Rightarrow> w)"

lemma sample_dec_None:
  "\<not> list_all is_digit (butlast (tl s)) \<or> s = [] \<or> last s \<noteq> CHR ''}'' \<Longrightarrow> sample_dec s = None"
proof -
  have "list_all is_digit (butlast (tl (sample_text k))) \<and> last (sample_text k) = CHR ''}'' \<and> sample_text k \<noteq> []" for k
    using show_nat_digits [of k] by (simp add: sample_text_def butlast_append)
  moreover assume "\<not> list_all is_digit (butlast (tl s)) \<or> s = [] \<or> last s \<noteq> CHR ''}''"
  ultimately have "s \<noteq> sample_text k" for k by metis
  then show ?thesis by (simp add: sample_dec_def Let_def)
qed

lemma torn_lines:
  "newline \<notin> set ''{1''" "sample_dec ''{1'' = None" "sample_dec (''{1'' @ sample_text 1) = None"
  by (simp_all add: newline_def sample_dec_None sample_text_def butlast_append is_digit_def)

lemma torn_dir_read:
  "\<exists>r. read_ring sample_dec (\<lambda>_. None) (Some torn_dir) = Inr r \<and> rr_records r = [sample_record 0]"
proof -
  obtain r where r: "read_ring sample_dec (\<lambda>_. None) (Some torn_dir) = Inr r"
    by (simp add: read_ring_def Let_def)
  have "length (sample_text 0) \<le> 22" using length_sample_text [of 0] by simp
  then have "file_records sample_dec (sample_text 0 @ newline # ''{1'') = [sample_record 0]"
    using torn_file_records(1) [of "''{1''" sample_dec "sample_text 0"] torn_lines sample_text_dec [of 0]
    by (simp add: sample_text_newline DEFAULT_SEGMENT_BYTES_LIMIT_def MAX_RECORD_BYTES_def)
      (simp add: sample_text_def sample_record_def numbered_def)
  then have "rr_records r = [sample_record 0]"
    by (simp add: read_ring_records [OF r] torn_dir_def segment_paths_def)
  with r show ?thesis by blast
qed

lemma torn_writer_open:
  "ring_open sample_dec (\<lambda>_. None) None ''/d'' ''b'' sample_config torn_dir = Inr torn_writer"
  "mf_next_sequence (rw_manifest torn_writer) = 1" "rd_files (rw_disk torn_writer) = rd_files torn_dir"
  "mf_segment_bytes_limit (rw_manifest torn_writer) = 253952"
  "mf_active_segment (rw_manifest torn_writer) = 0"
proof -
  obtain r where r: "read_ring sample_dec (\<lambda>_. None) (Some torn_dir) = Inr r" "rr_records r = [sample_record 0]"
    using torn_dir_read by blast
  have "(0 :: u64) \<noteq> - 1" by simp
  then show "ring_open sample_dec (\<lambda>_. None) None ''/d'' ''b'' sample_config torn_dir = Inr torn_writer"
  "mf_next_sequence (rw_manifest torn_writer) = 1" "rd_files (rw_disk torn_writer) = rd_files torn_dir"
  "mf_segment_bytes_limit (rw_manifest torn_writer) = 253952"
  "mf_active_segment (rw_manifest torn_writer) = 0"
    using r sat_add_1 [of "0 :: u64"]
    by (simp_all add: torn_writer_def ring_open_def Let_def write_manifest_def sample_config_def
        ring_config_default_def MAX_RECORD_BYTES_def DEFAULT_SEGMENT_COUNT_def DEFAULT_SEGMENT_BYTES_LIMIT_def
        torn_dir_def)
qed

theorem append_after_torn_line_lost_witness:
  "\<exists>w' r'. ring_append sample_enc no_faults ''t'' ''b'' 0 ''summary'' (Inr ()) True torn_writer = (Inr (Some 1), w') \<and>
     read_ring sample_dec (\<lambda>_. None) (Some (rw_disk w')) = Inr r' \<and> rr_records r' = [sample_record 0]"
proof -
  have active: "disk_file torn_writer (active_segment torn_writer) = Some (sample_text 0 @ newline # ''{1'')"
    by (simp add: disk_file_def active_segment_def torn_writer_open torn_dir_def)
  have "next_record ''b'' ''t'' 0 ''summary'' () torn_writer = sample_record 1"
    by (simp add: next_record_def sample_record_def numbered_def torn_writer_open)
  then have rec: "sample_enc (next_record ''b'' ''t'' 0 ''summary'' () torn_writer) = Inr (sample_text 1)"
    by (simp add: sample_enc_record)
  have len: "length (sample_text 0) \<le> 22" "length (sample_text 1) \<le> 22"
    using length_sample_text [of 0] length_sample_text [of 1] by simp_all
  obtain r where r: "read_ring sample_dec (\<lambda>_. None) (Some torn_dir) = Inr r" "rr_records r = [sample_record 0]"
    using torn_dir_read by blast
  obtain r0 where r0: "read_ring sample_dec (\<lambda>_. None) (Some (rw_disk torn_writer)) = Inr r0"
    by (simp add: read_ring_def Let_def)
  then have "rr_records r0 = [sample_record 0]"
    using read_ring_records [OF r0] read_ring_records [OF r(1)] r(2)
    by (simp add: segment_paths_def torn_writer_open)
  show ?thesis
    using append_after_torn_line_lost [where s = "sample_text 0" and t = "''{1''" and dec = sample_dec and enc = sample_enc
        and b = "sample_text 1" and w = torn_writer and p = "()", OF active torn_lines(1,2) rec sample_text_newline torn_lines(3) _ _ _ r0, of True]
      len \<open>rr_records r0 = [sample_record 0]\<close>
    by (auto simp: torn_writer_open record_bytes_limit_def SUMMARY_RECORD_BYTES_LIMIT_def DEFAULT_SEGMENT_BYTES_LIMIT_def)
qed

end
