(* ===== verification/FlightArchive.thy ===== *)
theory FlightArchive
  imports FlightRecorder
begin

text \<open>
  Archiving the ring of the previous boot, interrupted at any system call and tried again: a
  transition system whose steps are interrupted attempts, and what every reachable state keeps.
\<close>

section \<open>Interrupted attempts\<close>

text \<open>
  An attempt that is stopped after some of its calls; a stop in the middle of the removal of
  \<open>previous\<close> leaves any part of it.
\<close>

fun stopped :: "archive_op list \<Rightarrow> recorder_root \<Rightarrow> recorder_root \<Rightarrow> bool" where
  "stopped [] r r' \<longleftrightarrow> r' = r"
| "stopped (op # ops) r r' \<longleftrightarrow>
     r' = r \<or> op = RemovePrevious \<and> (\<exists>junk. r' = r\<lparr>ro_previous := junk\<rparr>) \<or> stopped ops (exec_op op r) r'"

lemma stopped_self [simp]: "stopped ops r r"
  by (cases ops) auto

lemma stopped_append: "stopped (ops @ ops') r r' \<longleftrightarrow> stopped ops r r' \<or> stopped ops' (exec_ops ops r) r'"
  by (induction ops arbitrary: r) auto

lemma stopped_done: "stopped ops r (exec_ops ops r)"
  by (induction ops arbitrary: r) auto

inductive archive_step ::
    "(string \<Rightarrow> 'p envelope option) \<Rightarrow> string set \<Rightarrow> recorder_root \<Rightarrow> recorder_root \<Rightarrow> bool"
  for dec boots where
  attempt: "boot \<in> boots \<Longrightarrow> stopped (fst (archive_boot dec (\<lambda>_. None) (Some boot) r)) r r' \<Longrightarrow>
     archive_step dec boots r r'"

abbreviation archive_steps ::
    "(string \<Rightarrow> 'p envelope option) \<Rightarrow> string set \<Rightarrow> recorder_root \<Rightarrow> recorder_root \<Rightarrow> bool" where
  "archive_steps dec boots \<equiv> (archive_step dec boots)\<^sup>*\<^sup>*"

inductive_cases archive_stepE: "archive_step dec boots r r'"

text \<open>The ring is where it was, on its way, or archived.\<close>

definition holds_ring :: "ring_dir \<Rightarrow> recorder_root \<Rightarrow> bool" where
  "holds_ring d r \<longleftrightarrow>
     ro_current r = Some d \<or>
     ro_current r = None \<and> (ro_pending r = Some d \<or> ro_pending r = None \<and> ro_previous r = Some d)"

definition archived_ring :: "ring_dir \<Rightarrow> recorder_root \<Rightarrow> bool" where
  "archived_ring d r \<longleftrightarrow> ro_current r = None \<and> ro_pending r = None \<and> ro_previous r = Some d"

definition of_other_boot :: "(string \<Rightarrow> 'p envelope option) \<Rightarrow> string set \<Rightarrow> ring_dir \<Rightarrow> bool" where
  "of_other_boot dec boots d \<longleftrightarrow>
     (case read_ring dec (\<lambda>_. None) (Some d) of
        Inl _ \<Rightarrow> False
      | Inr report \<Rightarrow> \<forall>b \<in> boots. ring_boot_id (Some d) report \<noteq> Some b)"

lemma stopped_install:
  assumes "stopped (install_ops r) r r'" and "ro_pending r = Some p"
  shows "ro_current r' = ro_current r \<and>
    (ro_pending r' = Some p \<or> ro_pending r' = None \<and> ro_previous r' = Some p)"
  using assms by (auto simp: install_ops_def split: if_splits)

lemma exec_install:
  "ro_pending r = Some p \<Longrightarrow>
   exec_ops (install_ops r) r = r\<lparr>ro_previous := Some p, ro_pending := None\<rparr>"
  by (simp add: install_ops_def)

lemma exec_recovery:
  "exec_ops (recovery_ops r) r =
     (case ro_pending r of None \<Rightarrow> r | Some p \<Rightarrow> r\<lparr>ro_previous := Some p, ro_pending := None\<rparr>)"
  by (auto simp: recovery_ops_def exec_install split: option.split)

lemma stopped_recovery:
  assumes "stopped (recovery_ops r) r r'" and "holds_ring d r"
  shows "holds_ring d r'"
proof (cases "ro_pending r")
  case (Some p)
  then show ?thesis
    using assms stopped_install [of r r' p] by (auto simp: recovery_ops_def holds_ring_def)
qed (use assms in \<open>simp add: recovery_ops_def\<close>)

text \<open>The calls of an attempt by a boot the ring does not belong to.\<close>

lemma archive_ops_other:
  assumes "holds_ring d r" and "of_other_boot dec boots d" and "boot \<in> boots"
  shows "fst (archive_boot dec (\<lambda>_. None) (Some boot) r) =
    recovery_ops r @ (if ro_current r = None then []
      else CurrentToPending # install_ops (exec_ops (recovery_ops r) r))"
proof -
  have c: "ro_current (exec_ops (recovery_ops r) r) = ro_current r"
    by (simp add: exec_recovery split: option.split)
  have "ro_current r = None \<or> ro_current r = Some d" using assms(1) by (auto simp: holds_ring_def)
  then show ?thesis
    using assms(2,3) by (auto simp: archive_boot_def Let_def c of_other_boot_def split: sum.splits)
qed

lemma step_holds_ring:
  assumes "archive_step dec boots r r'" and "holds_ring d r" and "of_other_boot dec boots d"
  shows "holds_ring d r'"
proof -
  let ?r1 = "exec_ops (recovery_ops r) r" and ?r2 = "exec_op CurrentToPending (exec_ops (recovery_ops r) r)"
  obtain boot where "boot \<in> boots"
    and s: "stopped (fst (archive_boot dec (\<lambda>_. None) (Some boot) r)) r r'"
    using assms(1) by (rule archive_stepE) blast
  note ops = archive_ops_other [OF assms(2,3) this(1)]
  have h1: "holds_ring d ?r1" by (rule stopped_recovery [OF stopped_done assms(2)])
  have c1: "ro_current ?r1 = ro_current r" by (simp add: exec_recovery split: option.split)
  have i: "install_ops ?r1 = install_ops ?r2" by (simp add: install_ops_def)
  consider "stopped (recovery_ops r) r r'" | "ro_current r \<noteq> None" "r' = ?r1 \<or> stopped (install_ops ?r2) ?r2 r'"
    using s stopped_done [of "recovery_ops r" r] unfolding ops
    by (cases "ro_current r = None") (auto simp: stopped_append i)
  then show ?thesis
  proof cases
    case 1
    then show ?thesis using stopped_recovery assms(2) by blast
  next
    case 2
    then have "ro_current ?r1 = Some d" using assms(2) c1 by (auto simp: holds_ring_def)
    then have "ro_pending ?r2 = Some d" "ro_current ?r2 = None" by simp_all
    with 2(2) h1 stopped_install [of ?r2 r' d] show ?thesis by (auto simp: holds_ring_def)
  qed
qed

lemma completed_archives:
  assumes "holds_ring d r" and "of_other_boot dec boots d" and "boot \<in> boots"
  shows "archived_ring d (run_archive dec (\<lambda>_. None) (Some boot) r)"
proof -
  let ?r1 = "exec_ops (recovery_ops r) r"
  have "ro_pending ?r1 = None" "ro_current ?r1 = ro_current r" and
    "ro_current r = None \<Longrightarrow> ro_previous ?r1 = Some d"
    using assms(1) by (auto simp: exec_recovery holds_ring_def split: option.split)
  moreover have "install_ops ?r1 = install_ops (exec_op CurrentToPending ?r1)" by (simp add: install_ops_def)
  moreover have "ro_current r = None \<or> ro_current r = Some d" using assms(1) by (auto simp: holds_ring_def)
  ultimately show ?thesis
    by (auto simp: run_archive_def archive_ops_other [OF assms] archived_ring_def exec_install)
qed

section \<open>Property\<close>

text \<open>C17: Archiving survives crashes: however often the attempts of later boots are stopped, at any
  system call and even in the middle of removing the previous ring, the ring of the crashed boot is
  never lost, and the first attempt that completes leaves exactly this ring as the previous one.\<close>

theorem archive_survives_crashes:
  assumes "archive_steps dec boots r r'" and "ro_current r = Some d" and "of_other_boot dec boots d"
    and "boot \<in> boots"
  shows "holds_ring d r' \<and> archived_ring d (run_archive dec (\<lambda>_. None) (Some boot) r')"
proof -
  have "holds_ring d r'"
    using assms(1)
  proof (induction rule: rtranclp_induct)
    case base
    then show ?case by (simp add: holds_ring_def assms(2))
  next
    case (step r1 r2)
    then show ?case using step_holds_ring assms(3) by blast
  qed
  then show ?thesis using completed_archives assms(3,4) by blast
qed

text \<open>A boot whose archive was stopped while it removed the previous ring.\<close>

definition half_archived :: recorder_root where
  "half_archived = \<lparr>ro_current = None, ro_previous = Some empty_dir, ro_pending = Some torn_dir\<rparr>"

theorem archive_survives_crashes_witness:
  "archived_ring torn_dir (run_archive sample_dec (\<lambda>_. None) (Some ''c'') half_archived)"
proof -
  let ?r = "\<lparr>ro_current = Some torn_dir, ro_previous = Some torn_dir, ro_pending = None\<rparr>"
  obtain rep where rep: "read_ring sample_dec (\<lambda>_. None) (Some torn_dir) = Inr rep"
    "rr_records rep = [sample_record 0]" using torn_dir_read by blast
  then have other: "of_other_boot sample_dec {''c''} torn_dir"
    by (simp add: of_other_boot_def ring_boot_id_def sample_record_def numbered_def)
  have "fst (archive_boot sample_dec (\<lambda>_. None) (Some ''c'') ?r) =
      [CurrentToPending, RemovePrevious, PendingToPrevious]"
    using archive_ops_other [OF _ other, of ?r "''c''"]
    by (simp add: holds_ring_def recovery_ops_def install_ops_def)
  then have "stopped (fst (archive_boot sample_dec (\<lambda>_. None) (Some ''c'') ?r)) ?r half_archived"
    by (simp add: half_archived_def)
  then have "archive_steps sample_dec {''c''} ?r half_archived"
    by (intro r_into_rtranclp archive_step.intros) simp_all
  from archive_survives_crashes [OF this _ other] show ?thesis by simp
qed

end
