(* ===== verification/HubRegistry.thy ===== *)
theory HubRegistry
  imports Identity Rooms
begin

text \<open>
  The registry of one hub's resources, \<open>HubDeviceRegistry\<close> of \<open>rhythm-os/src/registry.rs\<close>: rooms
  with their group of lights, devices with their room and type, buttons with their owner. It routes
  the events of the hub, is fed incrementally by the integrations, with a check that saves writes
  of what is known already, and is stored as a compact snapshot.

  Every table is a \<open>HashMap\<close>; logging is left out.
\<close>

section \<open>Data\<close>

record hub_registry =
  hr_buttons :: "(string, string \<times> u8) hmap"
  hr_device_rooms :: "(string, string) hmap"
  hr_grouped :: "(string, string) hmap"
  hr_names :: "(string, string) hmap"
  hr_types :: "(string, device_type) hmap"
  hr_area_lights :: "(string, string list) hmap"
  hr_default_to_room :: bool
  hr_dirty :: bool

definition hub_registry_new :: hub_registry where
  "hub_registry_new =
     \<lparr>hr_buttons = [], hr_device_rooms = [], hr_grouped = [], hr_names = [], hr_types = [],
      hr_area_lights = [], hr_default_to_room = False, hr_dirty = False\<rparr>"

definition with_options :: "bool \<Rightarrow> hub_registry" where
  "with_options b = hub_registry_new\<lparr>hr_default_to_room := b\<rparr>"

record snapshot_room =
  sr_id :: string
  sr_name :: string
  sr_grouped :: string

record snapshot_device =
  sd_id :: string
  sd_room :: "string option"
  sd_type :: device_type

record registry_snapshot =
  sn_rooms :: "snapshot_room list"
  sn_devices :: "snapshot_device list"
  sn_buttons :: "(string, string \<times> u8) hmap"
  sn_area_lights :: "(string, string list) hmap"

section \<open>Light entities\<close>

definition set_area_lights :: "string \<Rightarrow> string list \<Rightarrow> hub_registry \<Rightarrow> hub_registry" where
  "set_area_lights area entities r = r\<lparr>hr_area_lights := AList.update area entities (hr_area_lights r)\<rparr>"

definition get_light_entities :: "string \<Rightarrow> hub_registry \<Rightarrow> string list" where
  "get_light_entities room r = unwrap_or (map_of (hr_area_lights r) room) []"

definition find_room_for_exact_lights :: "string list \<Rightarrow> hub_registry \<Rightarrow> string option" where
  "find_room_for_exact_lights ids r =
     (if ids = [] then None
      else case sort (map fst (filter (\<lambda>(_, lights). set lights = set ids) (hr_area_lights r))) of
          [] \<Rightarrow> None
        | room # _ \<Rightarrow> Some room)"

section \<open>Deduplication checks\<close>

definition managed :: "hub_registry \<Rightarrow> string \<Rightarrow> bool" where
  "managed r d \<longleftrightarrow> d \<in> fst ` set (hr_types r)"

text \<open>The lights of a room: its devices that are no managed ones.\<close>

definition room_lights :: "string \<Rightarrow> hub_registry \<Rightarrow> string list" where
  "room_lights room r = map fst (filter (\<lambda>(d, rm). rm = room \<and> \<not> managed r d) (hr_device_rooms r))"

definition room_matches :: "string \<Rightarrow> string \<Rightarrow> string \<Rightarrow> string list \<Rightarrow> hub_registry \<Rightarrow> bool" where
  "room_matches room name grouped devices r \<longleftrightarrow>
     (if map_of (hr_names r) room \<noteq> Some name then False
      else if grouped \<noteq> [] \<and> map_of (hr_grouped r) room \<noteq> Some grouped then False
      else set (room_lights room r) = set devices)"

definition device_buttons :: "string \<Rightarrow> hub_registry \<Rightarrow> (string \<times> u8) list" where
  "device_buttons d r = map (\<lambda>(b, _, c). (b, c)) (filter (\<lambda>(_, owner, _). owner = d) (hr_buttons r))"

definition device_matches ::
    "string \<Rightarrow> string option \<Rightarrow> (string \<times> u8) list \<Rightarrow> device_type \<Rightarrow> hub_registry \<Rightarrow> bool" where
  "device_matches d room buttons ty r \<longleftrightarrow>
     (if map_of (hr_device_rooms r) d \<noteq> room then False
      else if map_of (hr_types r) d \<noteq> Some ty then False
      else set (device_buttons d r) = set buttons)"

section \<open>Updates\<close>

definition upsert_room :: "string \<Rightarrow> string \<Rightarrow> string \<Rightarrow> string list \<Rightarrow> hub_registry \<Rightarrow> hub_registry" where
  "upsert_room room name grouped devices r = r
     \<lparr>hr_names := AList.update room name (hr_names r),
      hr_grouped :=
        (if grouped \<noteq> [] then AList.update room grouped (hr_grouped r)
         else if map_of (hr_grouped r) room = None then
           AList.update room (if hr_default_to_room r then room else []) (hr_grouped r)
         else hr_grouped r),
      hr_device_rooms :=
        fold (\<lambda>d. AList.update d room) devices
          (filter (\<lambda>(d, rm). rm \<noteq> room \<or> managed r d) (hr_device_rooms r)),
      hr_area_lights := AList.update room devices (hr_area_lights r)\<rparr>"

definition remove_hub_room :: "string \<Rightarrow> hub_registry \<Rightarrow> hub_registry" where
  "remove_hub_room room r =
     (let removed = map fst (filter (\<lambda>(_, rm). rm = room) (hr_device_rooms r)) in r
     \<lparr>hr_names := AList.delete room (hr_names r),
      hr_grouped := AList.delete room (hr_grouped r),
      hr_device_rooms := filter (\<lambda>(_, rm). rm \<noteq> room) (hr_device_rooms r),
      hr_types := fold AList.delete removed (hr_types r),
      hr_area_lights := AList.delete room (hr_area_lights r)\<rparr>)"

definition remove_room_preserving_typed :: "string \<Rightarrow> hub_registry \<Rightarrow> hub_registry" where
  "remove_room_preserving_typed room r = r
     \<lparr>hr_names := AList.delete room (hr_names r),
      hr_grouped := AList.delete room (hr_grouped r),
      hr_device_rooms := filter (\<lambda>(_, rm). rm \<noteq> room) (hr_device_rooms r),
      hr_area_lights := AList.delete room (hr_area_lights r),
      hr_dirty := True\<rparr>"

definition upsert_device ::
    "string \<Rightarrow> string option \<Rightarrow> (string \<times> u8) list \<Rightarrow> device_type \<Rightarrow> hub_registry \<Rightarrow> hub_registry" where
  "upsert_device d room buttons ty r = r
     \<lparr>hr_device_rooms :=
        (case room of Some rm \<Rightarrow> AList.update d rm (hr_device_rooms r) | None \<Rightarrow> AList.delete d (hr_device_rooms r)),
      hr_types := AList.update d ty (hr_types r),
      hr_buttons := fold (\<lambda>(b, c). AList.update b (d, c)) buttons (hr_buttons r),
      hr_dirty := True\<rparr>"

definition set_device_room :: "string \<Rightarrow> string \<Rightarrow> hub_registry \<Rightarrow> hub_registry" where
  "set_device_room d room r =
     r\<lparr>hr_device_rooms := AList.update d room (hr_device_rooms r), hr_dirty := True\<rparr>"

definition clear_device_room :: "string \<Rightarrow> hub_registry \<Rightarrow> hub_registry" where
  "clear_device_room d r =
     (if map_of (hr_device_rooms r) d = None then r
      else r\<lparr>hr_device_rooms := AList.delete d (hr_device_rooms r), hr_dirty := True\<rparr>)"

definition has_hub_device :: "string \<Rightarrow> hub_registry \<Rightarrow> bool" where
  "has_hub_device d r \<longleftrightarrow> map_of (hr_types r) d \<noteq> None"

definition remove_hub_device :: "string \<Rightarrow> hub_registry \<Rightarrow> hub_registry" where
  "remove_hub_device d r = r
     \<lparr>hr_device_rooms := AList.delete d (hr_device_rooms r),
      hr_types := AList.delete d (hr_types r),
      hr_buttons := filter (\<lambda>(_, owner, _). owner \<noteq> d) (hr_buttons r)\<rparr>"

definition register_device :: "string \<Rightarrow> string \<Rightarrow> hub_registry \<Rightarrow> hub_registry" where
  "register_device d room r = r
     \<lparr>hr_device_rooms := AList.update d room (hr_device_rooms r),
      hr_names := (if map_of (hr_names r) room = None then AList.update room room (hr_names r) else hr_names r)\<rparr>"

definition unregister_device :: "string \<Rightarrow> hub_registry \<Rightarrow> hub_registry" where
  "unregister_device d r = r\<lparr>hr_device_rooms := AList.delete d (hr_device_rooms r)\<rparr>"

definition take_dirty :: "hub_registry \<Rightarrow> bool \<times> hub_registry" where
  "take_dirty r = (hr_dirty r, r\<lparr>hr_dirty := False\<rparr>)"

section \<open>Queries\<close>

definition get_room_for_button :: "string \<Rightarrow> hub_registry \<Rightarrow> string option" where
  "get_room_for_button b r =
     (case map_of (hr_buttons r) b of None \<Rightarrow> None | Some (d, _) \<Rightarrow> map_of (hr_device_rooms r) d)"

definition get_control_id :: "string \<Rightarrow> hub_registry \<Rightarrow> u8 option" where
  "get_control_id b r = map_option snd (map_of (hr_buttons r) b)"

definition get_device_for_button :: "string \<Rightarrow> hub_registry \<Rightarrow> string option" where
  "get_device_for_button b r = map_option fst (map_of (hr_buttons r) b)"

definition get_grouped_light_id :: "string \<Rightarrow> hub_registry \<Rightarrow> string option" where
  "get_grouped_light_id room r = opt_filter (\<lambda>g. g \<noteq> []) (map_of (hr_grouped r) room)"

definition get_room_for_grouped_light :: "string \<Rightarrow> hub_registry \<Rightarrow> string option" where
  "get_room_for_grouped_light g r = map_option fst (find (\<lambda>(_, g'). g' = g) (hr_grouped r))"

definition room_for_typed :: "device_type \<Rightarrow> string \<Rightarrow> hub_registry \<Rightarrow> string option" where
  "room_for_typed ty d r =
     (if map_of (hr_types r) d = Some ty then map_of (hr_device_rooms r) d else None)"

definition get_room_for_motion_sensor :: "string \<Rightarrow> hub_registry \<Rightarrow> string option" where
  "get_room_for_motion_sensor = room_for_typed Motion"

definition get_room_for_contact_sensor :: "string \<Rightarrow> hub_registry \<Rightarrow> string option" where
  "get_room_for_contact_sensor = room_for_typed Contact"

text \<open>The code collects a \<open>HashSet\<close>; the list here has its elements, in some order.\<close>

definition rooms_with_motion_sensors :: "hub_registry \<Rightarrow> string list" where
  "rooms_with_motion_sensors r =
     remdups (List.map_filter (\<lambda>(d, ty). if ty = Motion then map_of (hr_device_rooms r) d else None) (hr_types r))"

definition devices_for_room :: "string \<Rightarrow> hub_registry \<Rightarrow> string list" where
  "devices_for_room room r = map fst (filter (\<lambda>(_, rm). rm = room) (hr_device_rooms r))"

definition devices_for_room_typed :: "string \<Rightarrow> hub_registry \<Rightarrow> (string \<times> device_type) list" where
  "devices_for_room_typed room r =
     List.map_filter (\<lambda>d. map_option (Pair d) (map_of (hr_types r) d)) (devices_for_room room r)"

definition has_rooms :: "hub_registry \<Rightarrow> bool" where
  "has_rooms r \<longleftrightarrow> hr_names r \<noteq> []"

definition hub_room_name :: "string \<Rightarrow> hub_registry \<Rightarrow> string option" where
  "hub_room_name room r = map_of (hr_names r) room"

definition hub_rooms :: "hub_registry \<Rightarrow> room list" where
  "hub_rooms r = map (\<lambda>(i, n). room_new i n) (hr_names r)"

definition list_rooms :: "hub_registry \<Rightarrow> string list" where
  "list_rooms r = sort (map fst (hr_names r))"

section \<open>Persistence\<close>

definition snapshot :: "hub_registry \<Rightarrow> registry_snapshot" where
  "snapshot r =
     \<lparr>sn_rooms = map (\<lambda>(i, n). \<lparr>sr_id = i, sr_name = n, sr_grouped = unwrap_or (map_of (hr_grouped r) i) []\<rparr>)
        (hr_names r),
      sn_devices = map (\<lambda>(d, ty). \<lparr>sd_id = d, sd_room = map_of (hr_device_rooms r) d, sd_type = ty\<rparr>) (hr_types r),
      sn_buttons = hr_buttons r, sn_area_lights = hr_area_lights r\<rparr>"

text \<open>What reading the stored form does to a device: an empty room id becomes no room.\<close>

definition deserialize_optional_room_id :: "string option \<Rightarrow> string option" where
  "deserialize_optional_room_id room = opt_filter (\<lambda>s. s \<noteq> []) room"

definition reload :: "registry_snapshot \<Rightarrow> registry_snapshot" where
  "reload s = s\<lparr>sn_devices := map (\<lambda>d. d\<lparr>sd_room := deserialize_optional_room_id (sd_room d)\<rparr>) (sn_devices s)\<rparr>"

definition restore_from_snapshot :: "registry_snapshot \<Rightarrow> hub_registry \<Rightarrow> hub_registry" where
  "restore_from_snapshot s r = r
     \<lparr>hr_names := fold (\<lambda>rm. AList.update (sr_id rm) (sr_name rm)) (sn_rooms s) [],
      hr_grouped := fold (\<lambda>rm. AList.update (sr_id rm) (sr_grouped rm)) (sn_rooms s) [],
      hr_buttons := sn_buttons s,
      hr_area_lights := sn_area_lights s,
      hr_device_rooms :=
        fold (\<lambda>d m. case sd_room d of Some rm \<Rightarrow> AList.update (sd_id d) rm m | None \<Rightarrow> m) (sn_devices s) [],
      hr_types := fold (\<lambda>d. AList.update (sd_id d) (sd_type d)) (sn_devices s) [],
      hr_dirty := False\<rparr>"

section \<open>Tables\<close>

lemma map_of_filter: "hm_ok m \<Longrightarrow> map_of (filter (\<lambda>(k, v). P k v) m) k = opt_filter (P k) (map_of m k)"
  by (induction m) (auto simp: map_of_eq_None_iff[symmetric] opt_filter_def split: option.splits)

lemma map_of_fold_update_const:
  "map_of (fold (\<lambda>d. AList.update d v) ds m) k = (if k \<in> set ds then Some v else map_of m k)"
  by (induction ds arbitrary: m) (auto simp: update_conv')

lemma hm_ok_fold_const: "hm_ok m \<Longrightarrow> hm_ok (fold (\<lambda>d. AList.update d v) ds m)"
  by (induction ds arbitrary: m) (auto simp: distinct_update)

lemma hm_ok_fold_update: "hm_ok m \<Longrightarrow> hm_ok (fold (\<lambda>x. AList.update (f x) (g x)) xs m)"
  by (induction xs arbitrary: m) (auto simp: distinct_update)

lemma map_of_fold_update:
  "map_of (fold (\<lambda>x. AList.update (f x) (g x)) xs m) = map_of m ++ map_of (rev (map (\<lambda>x. (f x, g x)) xs))"
  by (induction xs arbitrary: m) (simp_all add: update_conv')

lemma map_of_fold_delete: "map_of (fold AList.delete ks m) k = (if k \<in> set ks then None else map_of m k)"
  by (induction ks arbitrary: m) (auto simp: delete_conv')

lemma hm_ok_fold_delete: "hm_ok m \<Longrightarrow> hm_ok (fold AList.delete ks m)"
  by (induction ks arbitrary: m) (auto simp: distinct_delete)

lemma managed_iff: "managed r d \<longleftrightarrow> map_of (hr_types r) d \<noteq> None"
  by (simp add: managed_def map_of_eq_None_iff)

section \<open>Invariant\<close>

text \<open>Every table is a map, and only known rooms have a group of lights.\<close>

definition hub_registry_ok :: "hub_registry \<Rightarrow> bool" where
  "hub_registry_ok r \<longleftrightarrow>
     hm_ok (hr_buttons r) \<and> hm_ok (hr_device_rooms r) \<and> hm_ok (hr_grouped r) \<and> hm_ok (hr_names r) \<and>
     hm_ok (hr_types r) \<and> hm_ok (hr_area_lights r) \<and>
     dom (map_of (hr_grouped r)) \<subseteq> dom (map_of (hr_names r))"

lemma hub_registry_ok_new: "hub_registry_ok (with_options b)"
  by (simp add: hub_registry_ok_def with_options_def hub_registry_new_def)

lemma distinct_filter_fst: "hm_ok m \<Longrightarrow> hm_ok (filter P m)"
  by (simp add: distinct_map_filter)

lemma hm_ok_buttons: "hm_ok m \<Longrightarrow> hm_ok (fold (\<lambda>(b, c). AList.update b (d, c)) bs m)"
  by (induction bs arbitrary: m) (auto simp: distinct_update)

text \<open>The changes of the registry, one event each.\<close>

datatype hub_event =
    UpsertRoom string string string "string list"
  | RemoveRoom string
  | RemoveRoomPreserving string
  | UpsertDevice string "string option" "(string \<times> u8) list" device_type
  | SetDeviceRoom string string
  | ClearDeviceRoom string
  | RemoveDevice string
  | RegisterDevice string string
  | UnregisterDevice string
  | SetAreaLights string "string list"
  | Restore

fun hub_step :: "hub_event \<Rightarrow> hub_registry \<Rightarrow> hub_registry" where
  "hub_step (UpsertRoom room name grouped devices) r = upsert_room room name grouped devices r"
| "hub_step (RemoveRoom room) r = remove_hub_room room r"
| "hub_step (RemoveRoomPreserving room) r = remove_room_preserving_typed room r"
| "hub_step (UpsertDevice d room buttons ty) r = upsert_device d room buttons ty r"
| "hub_step (SetDeviceRoom d room) r = set_device_room d room r"
| "hub_step (ClearDeviceRoom d) r = clear_device_room d r"
| "hub_step (RemoveDevice d) r = remove_hub_device d r"
| "hub_step (RegisterDevice d room) r = register_device d room r"
| "hub_step (UnregisterDevice d) r = unregister_device d r"
| "hub_step (SetAreaLights area lights) r = set_area_lights area lights r"
| "hub_step Restore r = restore_from_snapshot (reload (snapshot r)) r"

lemma hm_ok_fold_rooms:
  "hm_ok m \<Longrightarrow>
   hm_ok (fold (\<lambda>d m. case sd_room d of Some rm \<Rightarrow> AList.update (sd_id d) rm m | None \<Rightarrow> m) ds m)"
  by (induction ds arbitrary: m) (auto simp: distinct_update split: option.split)

lemma dom_fold_update: "dom (map_of (fold (\<lambda>x. AList.update (f x) (g x)) xs m)) = dom (map_of m) \<union> f ` set xs"
  by (induction xs arbitrary: m) (auto simp: update_conv')

lemma hub_step_ok: "hub_registry_ok r \<Longrightarrow> hub_registry_ok (hub_step ev r)"
proof (cases ev)
  case (UpsertRoom room name grouped devices)
  assume "hub_registry_ok r"
  then show ?thesis
    by (auto simp: UpsertRoom hub_registry_ok_def upsert_room_def distinct_update hm_ok_fold_const
        distinct_filter_fst update_conv' domIff split: if_splits)
next
  case (RemoveRoom room)
  assume "hub_registry_ok r"
  then show ?thesis
    by (auto simp: RemoveRoom hub_registry_ok_def remove_hub_room_def Let_def distinct_delete hm_ok_fold_delete
        distinct_filter_fst delete_conv' domIff split: if_splits)
next
  case Restore
  assume "hub_registry_ok r"
  then show ?thesis
    by (simp add: Restore hub_registry_ok_def restore_from_snapshot_def reload_def snapshot_def
        hm_ok_fold_update hm_ok_fold_rooms dom_fold_update)
qed (auto simp: hub_registry_ok_def remove_room_preserving_typed_def upsert_device_def set_device_room_def
    clear_device_room_def remove_hub_device_def register_device_def unregister_device_def set_area_lights_def
    distinct_update distinct_delete hm_ok_buttons distinct_filter_fst update_conv' delete_conv' domIff
    split: option.splits if_splits)

lemma hub_run_ok: "hub_registry_ok r \<Longrightarrow> hub_registry_ok (fold hub_step evs r)"
  by (induction evs arbitrary: r) (auto simp: hub_step_ok)

section \<open>Deduplication\<close>

text \<open>Two registries that route and answer the same, but for the light entities.\<close>

definition same_tables :: "hub_registry \<Rightarrow> hub_registry \<Rightarrow> bool" where
  "same_tables r r' \<longleftrightarrow>
     map_of (hr_names r) = map_of (hr_names r') \<and> map_of (hr_grouped r) = map_of (hr_grouped r') \<and>
     map_of (hr_device_rooms r) = map_of (hr_device_rooms r') \<and> map_of (hr_types r) = map_of (hr_types r') \<and>
     map_of (hr_buttons r) = map_of (hr_buttons r')"

lemma room_lights_iff:
  "hub_registry_ok r \<Longrightarrow>
   d \<in> set (room_lights room r) \<longleftrightarrow> map_of (hr_device_rooms r) d = Some room \<and> \<not> managed r d"
  by (force simp: room_lights_def hub_registry_ok_def map_of_eq_Some_iff)

lemma upsert_room_device_rooms:
  assumes "hub_registry_ok r"
  shows "map_of (hr_device_rooms (upsert_room room name grouped devices r)) d =
    (if d \<in> set devices then Some room
     else opt_filter (\<lambda>rm. rm \<noteq> room \<or> managed r d) (map_of (hr_device_rooms r) d))"
  using assms
  by (simp add: upsert_room_def map_of_fold_update_const hub_registry_ok_def
      map_of_filter [of _ "\<lambda>d rm. rm = room \<longrightarrow> managed r d"])

lemma device_buttons_iff:
  "hub_registry_ok r \<Longrightarrow> (b, c) \<in> set (device_buttons d r) \<longleftrightarrow> map_of (hr_buttons r) b = Some (d, c)"
  by (force simp: device_buttons_def hub_registry_ok_def map_of_eq_Some_iff)

lemma upsert_buttons:
  "map_of (fold (\<lambda>(b, c). AList.update b (d, c)) bs m) b =
     (case map_of (rev bs) b of Some c \<Rightarrow> Some (d, c) | None \<Rightarrow> map_of m b)"
  by (induction bs arbitrary: m) (auto simp: update_conv' map_add_def split: option.split)

lemma room_matches_iff:
  "room_matches room name grouped devices r \<longleftrightarrow>
     map_of (hr_names r) room = Some name \<and> (grouped = [] \<or> map_of (hr_grouped r) room = Some grouped) \<and>
     set (room_lights room r) = set devices"
  by (auto simp: room_matches_def)

lemma device_matches_iff:
  "device_matches d room buttons ty r \<longleftrightarrow>
     map_of (hr_device_rooms r) d = room \<and> map_of (hr_types r) d = Some ty \<and>
     set (device_buttons d r) = set buttons"
  by (auto simp: device_matches_def)

lemma room_match_same:
  assumes ok: "hub_registry_ok r" and m: "room_matches room name grouped devices r"
    and g: "grouped \<noteq> [] \<or> map_of (hr_grouped r) room \<noteq> None"
  shows "same_tables (upsert_room room name grouped devices r) r"
proof -
  have "map_of (hr_device_rooms (upsert_room room name grouped devices r)) d = map_of (hr_device_rooms r) d" for d
    using m room_lights_iff [OF ok, of d room] unfolding upsert_room_device_rooms [OF ok]
    by (auto simp: room_matches_iff opt_filter_def split: option.split)
  then show ?thesis
    using m g by (auto simp: same_tables_def upsert_room_def room_matches_iff update_conv' fun_upd_idem_iff)
qed

lemma device_match_same:
  assumes ok: "hub_registry_ok r" and m: "device_matches d room buttons ty r"
  shows "same_tables (upsert_device d room buttons ty r) r"
proof -
  have b: "map_of (hr_buttons r) b = Some (d, c)" if "(b, c) \<in> set buttons" for b c
    using m that device_buttons_iff [OF ok] by (auto simp: device_matches_iff)
  have "map_of (fold (\<lambda>(b, c). AList.update b (d, c)) buttons (hr_buttons r)) b = map_of (hr_buttons r) b" for b
    unfolding upsert_buttons using b by (auto dest: map_of_SomeD split: option.split)
  moreover have "(map_of (hr_device_rooms r))(d := None) = map_of (hr_device_rooms r)" if "room = None"
    using m that by (simp add: device_matches_iff fun_upd_idem)
  ultimately show ?thesis
    using m by (auto simp: same_tables_def upsert_device_def device_matches_iff update_conv' delete_conv'
        fun_upd_idem_iff split: option.split)
qed

lemma room_match_after:
  assumes ok: "hub_registry_ok r"
  shows "room_matches room name grouped devices (upsert_room room name grouped devices r) \<longleftrightarrow>
    (\<forall>d \<in> set devices. \<not> managed r d)"
proof -
  let ?r = "upsert_room room name grouped devices r"
  have ok': "hub_registry_ok ?r" using hub_step_ok [OF ok, of "UpsertRoom room name grouped devices"] by simp
  have m: "managed ?r d = managed r d" for d by (simp add: managed_def upsert_room_def)
  have n: "map_of (hr_names ?r) room = Some name" "grouped = [] \<or> map_of (hr_grouped ?r) room = Some grouped"
    by (simp_all add: upsert_room_def update_conv')
  have lights: "d \<in> set (room_lights room ?r) \<longleftrightarrow> d \<in> set devices \<and> \<not> managed r d" for d
    unfolding room_lights_iff [OF ok'] upsert_room_device_rooms [OF ok] m by (auto dest: opt_filter_SomeD)
  then show ?thesis unfolding room_matches_iff using n by blast
qed

lemma device_match_after:
  assumes ok: "hub_registry_ok r" and dist: "distinct (map fst buttons)"
  shows "device_matches d room buttons ty (upsert_device d room buttons ty r) \<longleftrightarrow>
    fst ` set (device_buttons d r) \<subseteq> fst ` set buttons"
proof -
  let ?r = "upsert_device d room buttons ty r"
  have ok': "hub_registry_ok ?r" using hub_step_ok [OF ok, of "UpsertDevice d room buttons ty"] by simp
  have t: "map_of (hr_device_rooms ?r) d = room" "map_of (hr_types ?r) d = Some ty"
    by (simp_all add: upsert_device_def update_conv' delete_conv' split: option.split)
  have b: "(b, c) \<in> set (device_buttons d ?r) \<longleftrightarrow>
      (b, c) \<in> set buttons \<or> b \<notin> fst ` set buttons \<and> (b, c) \<in> set (device_buttons d r)" for b c
  proof (cases "map_of buttons b")
    case None
    then have "b \<notin> fst ` set buttons" by (simp add: map_of_eq_None_iff)
    moreover from this have "(b, c) \<notin> set buttons" by force
    ultimately show ?thesis
      using None unfolding device_buttons_iff [OF ok'] device_buttons_iff [OF ok]
      by (auto simp: upsert_device_def upsert_buttons map_of_rev_distinct [OF dist])
  next
    case (Some c')
    then have "b \<in> fst ` set buttons" "(b, c) \<in> set buttons \<longleftrightarrow> c = c'"
      using dist by (metis image_eqI fst_conv map_of_SomeD, metis map_of_SomeD map_of_is_SomeI option.inject)
    with Some show ?thesis
      unfolding device_buttons_iff [OF ok'] device_buttons_iff [OF ok]
      by (auto simp: upsert_device_def upsert_buttons map_of_rev_distinct [OF dist])
  qed
  then have "set (device_buttons d ?r) = set buttons \<longleftrightarrow> fst ` set (device_buttons d r) \<subseteq> fst ` set buttons"
    by (auto simp: set_eq_iff) (metis fst_conv image_eqI subsetD)+
  then show ?thesis using t by (simp add: device_matches_iff)
qed

section \<open>Properties\<close>

text \<open>Skipping an update because the registry matches already is safe: whatever events led to the
  registry, if a room or a device matches the incoming data, storing the data would change no
  name, no group, no room of a device, no type and no button. A room must have its group recorded
  when none comes in, which every room has that was ever stored.\<close>

theorem matching_updates_are_redundant:
  assumes "r = fold hub_step evs (with_options b)"
  shows "(room_matches room name grouped devices r \<longrightarrow> grouped \<noteq> [] \<or> map_of (hr_grouped r) room \<noteq> None \<longrightarrow>
      same_tables (upsert_room room name grouped devices r) r) \<and>
    (device_matches d rm buttons ty r \<longrightarrow> same_tables (upsert_device d rm buttons ty r) r)"
  using hub_run_ok [OF hub_registry_ok_new, of evs b] room_match_same device_match_same
  unfolding assms by blast

theorem matching_updates_are_redundant_witness:
  "same_tables (upsert_device ''d'' (Some ''r'') [(''b'', 1)] Button
     (fold hub_step [UpsertDevice ''d'' (Some ''r'') [(''b'', 1)] Button] (with_options False)))
   (fold hub_step [UpsertDevice ''d'' (Some ''r'') [(''b'', 1)] Button] (with_options False))"
  using matching_updates_are_redundant [OF refl, of "''r''" "''n''" "[]" "[]"
      "[UpsertDevice ''d'' (Some ''r'') [(''b'', 1)] Button]" False "''d''" "Some ''r''" "[(''b'', 1)]" Button]
  by (simp add: upsert_device_def with_options_def hub_registry_new_def device_matches_def device_buttons_def)

text \<open>C33: When stored data is recognised again: a room matches what was just stored for it exactly when
  none of its lights is a managed device, and a device exactly when it had no other button before,
  for buttons of one device are only ever added. A device that lost a button never matches again and
  is written at every sync.\<close>

theorem stored_data_matches_iff:
  assumes "r = fold hub_step evs (with_options b)" and "distinct (map fst buttons)"
  shows "(room_matches room name grouped devices (upsert_room room name grouped devices r) \<longleftrightarrow>
      (\<forall>d \<in> set devices. \<not> has_hub_device d r)) \<and>
    (device_matches d rm buttons ty (upsert_device d rm buttons ty r) \<longleftrightarrow>
      (\<forall>x. get_device_for_button x r = Some d \<longrightarrow> x \<in> fst ` set buttons))"
proof -
  have ok: "hub_registry_ok r" unfolding assms(1) by (rule hub_run_ok [OF hub_registry_ok_new])
  have "fst ` set (device_buttons d r) = {x. get_device_for_button x r = Some d}"
    using device_buttons_iff [OF ok, of _ _ d] by (force simp: get_device_for_button_def image_iff)
  then show ?thesis
    using room_match_after [OF ok] device_match_after [OF ok assms(2)]
    by (auto simp: has_hub_device_def managed_iff)
qed

theorem stored_data_matches_iff_witness:
  "\<not> device_matches ''d'' None [(''new'', 1)] Button
     (upsert_device ''d'' None [(''new'', 1)] Button
       (fold hub_step [UpsertDevice ''d'' None [(''old'', 1)] Button] (with_options False)))"
  using stored_data_matches_iff [OF refl, of "[(''new'', 1)]" "''r''" "''n''" "[]" "[]"
      "[UpsertDevice ''d'' None [(''old'', 1)] Button]" False "''d''" None Button]
  by (simp add: get_device_for_button_def upsert_device_def with_options_def hub_registry_new_def)

section \<open>Restoring a snapshot\<close>

lemma map_of_fold_rooms:
  "distinct (map sd_id ds) \<Longrightarrow>
   map_of (fold (\<lambda>d m. case sd_room d of Some rm \<Rightarrow> AList.update (sd_id d) rm m | None \<Rightarrow> m) ds m) k =
     (case map_of (map (\<lambda>d. (sd_id d, sd_room d)) ds) k of Some (Some rm) \<Rightarrow> Some rm | _ \<Rightarrow> map_of m k)"
proof (induction ds arbitrary: m)
  case (Cons d ds)
  have "map_of (map (\<lambda>d. (sd_id d, sd_room d)) ds) (sd_id d) = None"
    using Cons.prems by (auto simp: map_of_eq_None_iff)
  with Cons show ?case by (auto simp: update_conv' split: option.split)
qed simp

lemma map_of_map_pair: "map_of (map (\<lambda>(k, v). (k, f k v)) m) k = map_option (f k) (map_of m k)"
  by (induction m) auto

lemma restored_tables:
  assumes "hub_registry_ok r" and r'_def: "r' = restore_from_snapshot (reload (snapshot r)) r0"
  shows "map_of (hr_names r') = map_of (hr_names r)" "map_of (hr_types r') = map_of (hr_types r)"
    "hr_buttons r' = hr_buttons r" "hr_area_lights r' = hr_area_lights r"
    "map_of (hr_grouped r') room = map_option (\<lambda>_. unwrap_or (map_of (hr_grouped r) room) []) (map_of (hr_names r) room)"
    "map_of (hr_device_rooms r') d =
       (if has_hub_device d r then opt_filter (\<lambda>s. s \<noteq> []) (map_of (hr_device_rooms r) d) else None)"
proof -
  have d: "hm_ok (hr_names r)" "hm_ok (hr_types r)" using assms(1) by (simp_all add: hub_registry_ok_def)
  have fst_pair: "(\<lambda>(i, n). i) = fst" by auto
  show "map_of (hr_names r') = map_of (hr_names r)"
    using map_of_rev_distinct [OF d(1)]
    by (simp add: r'_def restore_from_snapshot_def reload_def snapshot_def map_of_fold_update comp_def case_prod_unfold)
  show "map_of (hr_types r') = map_of (hr_types r)"
    using map_of_rev_distinct [OF d(2)]
    by (simp add: r'_def restore_from_snapshot_def reload_def snapshot_def map_of_fold_update comp_def case_prod_unfold)
  show "hr_buttons r' = hr_buttons r" "hr_area_lights r' = hr_area_lights r"
    by (simp_all add: r'_def restore_from_snapshot_def reload_def snapshot_def)
  have "distinct (map fst (map (\<lambda>(i, n). (i, unwrap_or (map_of (hr_grouped r) i) [])) (hr_names r)))"
    using d(1) by (simp add: comp_def case_prod_unfold)
  from map_of_rev_distinct [OF this]
  show "map_of (hr_grouped r') room = map_option (\<lambda>_. unwrap_or (map_of (hr_grouped r) room) []) (map_of (hr_names r) room)"
    by (simp add: r'_def restore_from_snapshot_def reload_def snapshot_def map_of_fold_update comp_def
        case_prod_unfold map_of_map_pair [where f = "\<lambda>i _. unwrap_or (map_of (hr_grouped r) i) []", unfolded case_prod_unfold])
  let ?room = "\<lambda>i _. deserialize_optional_room_id (map_of (hr_device_rooms r) i)"
  have room: "map_of (map (\<lambda>(i, ty). (i, ?room i ty)) (hr_types r)) d = map_option (?room d) (map_of (hr_types r) d)"
    by (rule map_of_map_pair)
  have "map_of (hr_device_rooms r') d =
      (case map_of (map (\<lambda>(i, ty). (i, ?room i ty)) (hr_types r)) d of Some (Some rm) \<Rightarrow> Some rm | _ \<Rightarrow> None)"
    using d(2)
    by (simp add: r'_def restore_from_snapshot_def reload_def snapshot_def map_of_fold_rooms comp_def case_prod_unfold
        split: option.split)
  then show "map_of (hr_device_rooms r') d =
       (if has_hub_device d r then opt_filter (\<lambda>s. s \<noteq> []) (map_of (hr_device_rooms r) d) else None)"
    unfolding room by (simp add: has_hub_device_def deserialize_optional_room_id_def split: option.split)
qed

text \<open>C30: A restart keeps the routing: the registry restored from its stored snapshot, whatever it was
  before, has the same rooms, groups of lights, light entities, buttons and typed devices, and the
  events of buttons and sensors of typed devices reach the same rooms. Only the room mapping of
  devices that are no managed ones is left to the next sync.\<close>

theorem snapshot_restores_routing:
  assumes "r = fold hub_step evs (with_options b)" and "r' = restore_from_snapshot (reload (snapshot r)) r0"
  shows "(\<forall>room. hub_room_name room r' = hub_room_name room r \<and>
      get_grouped_light_id room r' = get_grouped_light_id room r \<and>
      get_light_entities room r' = get_light_entities room r) \<and>
    (\<forall>x. get_control_id x r' = get_control_id x r \<and> get_device_for_button x r' = get_device_for_button x r) \<and>
    (\<forall>d. has_hub_device d r' = has_hub_device d r) \<and>
    (\<forall>ty d. room_for_typed ty d r' = opt_filter (\<lambda>s. s \<noteq> []) (room_for_typed ty d r)) \<and>
    (\<forall>x d. get_device_for_button x r = Some d \<longrightarrow> has_hub_device d r \<longrightarrow>
       get_room_for_button x r' = opt_filter (\<lambda>s. s \<noteq> []) (get_room_for_button x r))"
proof -
  have ok: "hub_registry_ok r" unfolding assms(1) by (rule hub_run_ok [OF hub_registry_ok_new])
  note t = restored_tables [OF ok assms(2)]
  have g: "map_of (hr_grouped r) room = None" if "map_of (hr_names r) room = None" for room
    using ok that by (auto simp: hub_registry_ok_def)
  show ?thesis
  proof (intro conjI allI impI)
    fix room
    show "get_grouped_light_id room r' = get_grouped_light_id room r"
      using g [of room] by (cases "map_of (hr_names r) room"; cases "map_of (hr_grouped r) room")
        (simp_all add: get_grouped_light_id_def t)
  next
    fix x d assume "get_device_for_button x r = Some d" "has_hub_device d r"
    then show "get_room_for_button x r' = opt_filter (\<lambda>s. s \<noteq> []) (get_room_for_button x r)"
      by (auto simp: get_room_for_button_def get_device_for_button_def t)
  qed (simp_all add: hub_room_name_def get_light_entities_def get_control_id_def get_device_for_button_def
      has_hub_device_def room_for_typed_def t)
qed

theorem snapshot_restores_routing_witness:
  "get_room_for_button ''b'' (restore_from_snapshot (reload (snapshot
     (fold hub_step [UpsertDevice ''d'' (Some ''r'') [(''b'', 1)] Button] (with_options False)))) (with_options True)) = Some ''r''"
proof -
  let ?r = "fold hub_step [UpsertDevice ''d'' (Some ''r'') [(''b'', 1)] Button] (with_options False)"
  have "get_device_for_button ''b'' ?r = Some ''d''" "has_hub_device ''d'' ?r" "get_room_for_button ''b'' ?r = Some ''r''"
    by (simp_all add: get_device_for_button_def has_hub_device_def get_room_for_button_def upsert_device_def
        with_options_def hub_registry_new_def)
  moreover have "get_room_for_button ''b'' (restore_from_snapshot (reload (snapshot ?r)) (with_options True)) =
      opt_filter (\<lambda>s. s \<noteq> []) (get_room_for_button ''b'' ?r)"
    using snapshot_restores_routing [OF refl refl, of _ False] calculation(1,2) by blast
  ultimately show ?thesis by simp
qed

end
