(* ===== verification/TopologyRoom.thy ===== *)
theory TopologyRoom
  imports CanonicalRegistry "HOL-Library.Product_Lexorder"
begin

text \<open>
  Rooms of the topology, the first part of \<open>rhythm-os/src/topology.rs\<close>: devices placed in a room, the
  source rooms of the hubs bound to it, and the dispatch plan, which decides for each hub whether
  the lights of the room are addressed as one group of the hub or one by one.

  A \<open>HashSet\<close> is a set. A \<open>HashMap\<close> is an association list in its iteration order.
\<close>

section \<open>Placement\<close>

datatype device_placement = HubDefault | UserOverride | Standalone

definition effective_placement_for :: "string option \<Rightarrow> device_placement \<Rightarrow> device_placement" where
  "effective_placement_for parent p =
     (if parent \<noteq> None then p else if p = UserOverride then UserOverride else Standalone)"

text \<open>
  The one endpoint that may control a light in a room: that of the only hub that requires grouped
  control, or the preferred one if there is none; two such hubs are ambiguous.
\<close>

definition endpoint_order :: "integration_endpoint \<Rightarrow> string \<times> string" where
  "endpoint_order e = (display_hub_key (ep_hub_key e), ep_native_id e)"

definition room_bound_light_control_endpoint ::
    "string set \<Rightarrow> canonical_device \<Rightarrow> integration_endpoint option" where
  "room_bound_light_control_endpoint required d =
     (case sort_key endpoint_order
         (filter (\<lambda>e. display_hub_key (ep_hub_key e) \<in> required) (active_endpoints d)) of
        [e] \<Rightarrow> Some e
      | [] \<Rightarrow> preferred_endpoint d
      | _ \<Rightarrow> None)"

section \<open>Nodes and rooms\<close>

record room_device =
  rd_device_id :: string
  rd_placement :: device_placement

record device_node =
  dn_id :: string
  dn_canonical_id :: string
  dn_parent :: "string option"
  dn_placement :: device_placement

record hub_room_binding =
  hb_hub_key :: hub_key
  hb_hub_room_id :: string
  hb_control_id :: string
  hb_lights :: "string list"

record topology_room =
  tr_id :: string
  tr_name :: string
  tr_bindings :: "hub_room_binding list"
  tr_devices :: "room_device list"
  tr_customized :: bool
  tr_bootstrap :: "string option"

record managed_binding =
  mb_room :: string
  mb_hub_key :: hub_key
  mb_hub_room_id :: string

definition topology_room_new :: "string \<Rightarrow> string \<Rightarrow> topology_room" where
  "topology_room_new i n =
     \<lparr>tr_id = i, tr_name = n, tr_bindings = [], tr_devices = [], tr_customized = False,
      tr_bootstrap = Some n\<rparr>"

definition is_binding :: "hub_key \<Rightarrow> string \<Rightarrow> hub_room_binding \<Rightarrow> bool" where
  "is_binding k r b \<longleftrightarrow> hb_hub_key b = k \<and> hb_hub_room_id b = r"

definition binding_for_hub :: "hub_key \<Rightarrow> topology_room \<Rightarrow> hub_room_binding option" where
  "binding_for_hub k room = find (\<lambda>b. hb_hub_key b = k) (tr_bindings room)"

definition binding_for_hub_room :: "hub_key \<Rightarrow> string \<Rightarrow> topology_room \<Rightarrow> hub_room_binding option" where
  "binding_for_hub_room k r room = find (is_binding k r) (tr_bindings room)"

definition upsert_hub_room_binding :: "hub_room_binding \<Rightarrow> topology_room \<Rightarrow> topology_room" where
  "upsert_hub_room_binding b room =
     (let same = is_binding (hb_hub_key b) (hb_hub_room_id b) in
      room\<lparr>tr_bindings :=
        (if list_ex same (tr_bindings room)
         then modify_first same (\<lambda>x. x\<lparr>hb_control_id := hb_control_id b, hb_lights := hb_lights b\<rparr>)
           (tr_bindings room)
         else tr_bindings room @ [b])\<rparr>)"

definition remove_hub_room_binding :: "hub_key \<Rightarrow> string \<Rightarrow> topology_room \<Rightarrow> topology_room" where
  "remove_hub_room_binding k r room =
     room\<lparr>tr_bindings := filter (\<lambda>b. \<not> is_binding k r b) (tr_bindings room)\<rparr>"

definition add_device_hub_default :: "string \<Rightarrow> topology_room \<Rightarrow> topology_room" where
  "add_device_hub_default d room =
     (if list_ex (\<lambda>x. rd_device_id x = d) (tr_devices room) then room
      else room\<lparr>tr_devices := tr_devices room @ [\<lparr>rd_device_id = d, rd_placement = HubDefault\<rparr>]\<rparr>)"

definition set_device_user_override :: "string \<Rightarrow> topology_room \<Rightarrow> topology_room" where
  "set_device_user_override d room = room
     \<lparr>tr_devices :=
        (if list_ex (\<lambda>x. rd_device_id x = d) (tr_devices room)
         then modify_first (\<lambda>x. rd_device_id x = d) (\<lambda>x. x\<lparr>rd_placement := UserOverride\<rparr>) (tr_devices room)
         else tr_devices room @ [\<lparr>rd_device_id = d, rd_placement = UserOverride\<rparr>]),
      tr_customized := True\<rparr>"

definition remove_room_device :: "string \<Rightarrow> topology_room \<Rightarrow> topology_room" where
  "remove_room_device d room = room\<lparr>tr_devices := filter (\<lambda>x. rd_device_id x \<noteq> d) (tr_devices room)\<rparr>"

definition clear_hub_default_devices :: "topology_room \<Rightarrow> topology_room" where
  "clear_hub_default_devices room =
     room\<lparr>tr_devices := filter (\<lambda>x. rd_placement x = UserOverride) (tr_devices room)\<rparr>"

definition has_bindings :: "topology_room \<Rightarrow> bool" where
  "has_bindings room \<longleftrightarrow> tr_bindings room \<noteq> []"

definition has_devices :: "topology_room \<Rightarrow> bool" where
  "has_devices room \<longleftrightarrow> tr_devices room \<noteq> []"

section \<open>Dispatch\<close>

datatype hub_dispatch_target = Group string string | Devices "string list"

record light_node =
  ln_id :: string
  ln_source :: string
  ln_emit :: string

record light_node_route =
  lr_node :: light_node
  lr_hub_key :: hub_key
  lr_target :: hub_dispatch_target

record dispatch_plan =
  dp_targets :: "(hub_key \<times> hub_dispatch_target) list"
  dp_routes :: "light_node_route list"
  dp_aliases :: "(string \<times> hub_key \<times> hub_dispatch_target) list"

definition INTERNAL_LIGHT_NODE_PREFIX :: string where
  "INTERNAL_LIGHT_NODE_PREFIX = ''__rhythm_light_node__''"

definition is_internal_light_node_id :: "string \<Rightarrow> bool" where
  "is_internal_light_node_id n \<longleftrightarrow> prefix INTERNAL_LIGHT_NODE_PREFIX n"

definition group_light_node_id :: "string \<Rightarrow> hub_key \<Rightarrow> string \<Rightarrow> string" where
  "group_light_node_id room k hub_room =
     INTERNAL_LIGHT_NODE_PREFIX @ ''|room='' @ room @ ''|kind=group|hub='' @ display_hub_key k @
     ''|source='' @ hub_room"

definition device_light_node_id :: "string \<Rightarrow> string" where
  "device_light_node_id n = INTERNAL_LIGHT_NODE_PREFIX @ ''|device='' @ n @ ''|kind=device''"

text \<open>
  The native identifiers of the lights of a room by the hub that controls them, with the device of
  each. \<open>entry\<close>, \<open>or_default\<close> and \<open>insert\<close> on the nested map.
\<close>

definition insert_nested ::
    "'k \<Rightarrow> 'n \<Rightarrow> 'v \<Rightarrow> ('k, ('n, 'v) hmap) hmap \<Rightarrow> ('k, ('n, 'v) hmap) hmap" where
  "insert_nested k n v m = AList.update k (AList.update n v (unwrap_or (map_of m k) [])) m"

definition controlled_endpoint ::
    "canonical_registry \<Rightarrow> string set \<Rightarrow> string \<Rightarrow> integration_endpoint option" where
  "controlled_endpoint reg required i =
     (case registry_get i reg of
        None \<Rightarrow> None
      | Some d \<Rightarrow>
          if cd_device_type d \<noteq> Light then None
          else opt_filter (\<lambda>e. ep_native_id e \<noteq> []) (room_bound_light_control_endpoint required d))"

definition control_light_endpoints_by_hub ::
    "canonical_registry \<Rightarrow> string set \<Rightarrow> topology_room \<Rightarrow> (hub_key, (string, string) hmap) hmap" where
  "control_light_endpoints_by_hub reg required room =
     fold (\<lambda>x by_hub.
        case controlled_endpoint reg required (rd_device_id x) of
          None \<Rightarrow> by_hub
        | Some e \<Rightarrow> insert_nested (ep_hub_key e) (ep_native_id e) (rd_device_id x) by_hub)
       (tr_devices room) []"

definition HUE :: string where "HUE = ''hue''"

definition HA :: string where "HA = ''ha''"

text \<open>\<open>Iterator::min_by\<close>: the first of the smallest.\<close>

fun min_by_key :: "('a \<Rightarrow> 'k::linorder) \<Rightarrow> 'a list \<Rightarrow> 'a option" where
  "min_by_key f [] = None"
| "min_by_key f (x # xs) =
     (case min_by_key f xs of None \<Rightarrow> Some x | Some y \<Rightarrow> if f y < f x then Some y else Some x)"

definition exact_native_grouped_target ::
    "hub_key \<Rightarrow> string set \<Rightarrow> topology_room \<Rightarrow> hub_dispatch_target option" where
  "exact_native_grouped_target k assigned room =
     (if hk_type k = HA \<or> hk_type k = ''homeassistant'' then None
      else if assigned = {} then None
      else map_option (\<lambda>b. Group (hb_hub_room_id b) (hb_control_id b))
        (min_by_key hb_hub_room_id
          (filter (\<lambda>b. hb_hub_key b = k \<and> hb_control_id b \<noteq> [] \<and> set (hb_lights b) = assigned)
            (tr_bindings room))))"

definition authoritative_grouped_target ::
    "hub_key \<Rightarrow> string set \<Rightarrow> managed_binding list \<Rightarrow> topology_room \<Rightarrow> hub_dispatch_target option" where
  "authoritative_grouped_target k assigned managed room =
     (case filter (\<lambda>b. hb_hub_key b = k) (tr_bindings room) of
        [b] \<Rightarrow>
          if hb_control_id b = [] \<or> assigned = {} \<or> set (hb_lights b) \<noteq> assigned \<or>
             \<not> list_ex (\<lambda>m. mb_room m = tr_id room \<and> mb_hub_key m = k \<and> mb_hub_room_id m = hb_hub_room_id b) managed
          then None
          else Some (Group (hb_hub_room_id b) (hb_control_id b))
      | _ \<Rightarrow> None)"

definition group_route :: "topology_room \<Rightarrow> hub_key \<Rightarrow> string \<Rightarrow> string \<Rightarrow> light_node_route" where
  "group_route room k hub_room control =
     \<lparr>lr_node = \<lparr>ln_id = group_light_node_id (tr_id room) k hub_room, ln_source = tr_id room, ln_emit = tr_id room\<rparr>,
      lr_hub_key = k, lr_target = Group hub_room control\<rparr>"

definition device_route :: "topology_room \<Rightarrow> hub_key \<Rightarrow> string \<times> string \<Rightarrow> light_node_route" where
  "device_route room k nd =
     \<lparr>lr_node = \<lparr>ln_id = snd nd, ln_source = snd nd, ln_emit = tr_id room\<rparr>,
      lr_hub_key = k, lr_target = Devices [fst nd]\<rparr>"

definition add_group :: "topology_room \<Rightarrow> hub_key \<Rightarrow> string \<Rightarrow> string \<Rightarrow> dispatch_plan \<Rightarrow> dispatch_plan" where
  "add_group room k hub_room control plan = plan
     \<lparr>dp_targets := dp_targets plan @ [(k, Group hub_room control)],
      dp_routes := dp_routes plan @ [group_route room k hub_room control]\<rparr>"

definition add_devices ::
    "topology_room \<Rightarrow> hub_key \<Rightarrow> hub_dispatch_target option \<Rightarrow> (string, string) hmap \<Rightarrow> dispatch_plan \<Rightarrow> dispatch_plan" where
  "add_devices room k suspended_group ids plan =
     (let device_targets = sort_key (\<lambda>(n, d). (d, n)) ids;
          native_ids = sort (map fst device_targets) in plan
      \<lparr>dp_aliases := dp_aliases plan @
         (case suspended_group of
            Some (Group hub_room _) \<Rightarrow> [(group_light_node_id (tr_id room) k hub_room, k, Devices native_ids)]
          | _ \<Rightarrow> []),
       dp_targets := dp_targets plan @ [(k, Devices native_ids)],
       dp_routes := dp_routes plan @ map (device_route room k) device_targets\<rparr>)"

definition plan_hub ::
    "string set \<Rightarrow> managed_binding list \<Rightarrow> hub_key set \<Rightarrow> topology_room \<Rightarrow>
     hub_key \<times> (string, string) hmap \<Rightarrow> dispatch_plan \<Rightarrow> dispatch_plan" where
  "plan_hub required managed suspended room entry plan =
     (let (k, ids) = entry; assigned = fst ` set ids in
      if display_hub_key k \<in> required then
        (case authoritative_grouped_target k assigned managed room of
           Some (Group hub_room control) \<Rightarrow> add_group room k hub_room control plan
         | _ \<Rightarrow> plan)
      else
        let exact = exact_native_grouped_target k assigned room in
        (case exact of
           Some (Group hub_room control) \<Rightarrow>
             if k \<notin> suspended then add_group room k hub_room control plan
             else if ids \<noteq> [] then add_devices room k exact ids plan
             else plan
         | _ \<Rightarrow> if ids \<noteq> [] then add_devices room k None ids plan else plan))"

definition empty_plan :: dispatch_plan where
  "empty_plan = \<lparr>dp_targets = [], dp_routes = [], dp_aliases = []\<rparr>"

definition plan_dispatch ::
    "canonical_registry \<Rightarrow> string set \<Rightarrow> managed_binding list \<Rightarrow> hub_key set \<Rightarrow> topology_room \<Rightarrow> dispatch_plan" where
  "plan_dispatch reg required managed suspended room =
     (let by_hub = control_light_endpoints_by_hub reg required room in
      if by_hub = [] then empty_plan
      else fold (plan_hub required managed suspended room)
        (sort_key (\<lambda>(k, _). display_hub_key k) by_hub) empty_plan)"

end
