(* ===== verification/NodeControls.thy ===== *)
theory NodeControls
  imports TopologyRoom Modes
begin

text \<open>
  What a node of the topology controls: control links between nodes and bindings of button events to
  actions on the modes (\<open>rhythm-os/src/topology.rs\<close>).
\<close>

section \<open>Control links\<close>

datatype node_control_kind = ControlMotion | ControlButton | ControlSwitch

fun default_for_device_type :: "device_type \<Rightarrow> node_control_kind option" where
  "default_for_device_type Motion = Some ControlMotion"
| "default_for_device_type Button = Some ControlButton"
| "default_for_device_type Contact = Some ControlSwitch"
| "default_for_device_type Light = None"

text \<open>The derived \<open>Debug\<close> text, by which controls are sorted.\<close>

fun debug_control_kind :: "node_control_kind \<Rightarrow> string" where
  "debug_control_kind ControlMotion = ''Motion''"
| "debug_control_kind ControlButton = ''Button''"
| "debug_control_kind ControlSwitch = ''Switch''"

record node_control_link =
  nl_source :: string
  nl_target :: string
  nl_kind :: node_control_kind

section \<open>Input bindings\<close>

datatype button_action =
    OnPress | Toggle | OffPress | Reset | ResetToModeDefault | UpPress | DownPress | UpHold | DownHold
  | Stop | RhythmOn | RhythmOff | LightsOff | SleepOn | SleepOff

definition DAY_SLEEP_TOGGLE_INPUT_BINDING_PRESET :: string where
  "DAY_SLEEP_TOGGLE_INPUT_BINDING_PRESET = ''day_sleep_toggle''"

datatype input_binding_preset = DaySleepToggle

fun preset_as_str :: "input_binding_preset \<Rightarrow> string" where
  "preset_as_str DaySleepToggle = DAY_SLEEP_TOGGLE_INPUT_BINDING_PRESET"

datatype input_trigger_kind = TriggerButton

record input_binding_trigger =
  it_kind :: input_trigger_kind
  it_button_action :: "button_action option"

definition button_trigger :: "button_action option \<Rightarrow> input_binding_trigger" where
  "button_trigger a = \<lparr>it_kind = TriggerButton, it_button_action = a\<rparr>"

definition trigger_matches_button :: "input_binding_trigger \<Rightarrow> button_action \<Rightarrow> bool" where
  "trigger_matches_button t a \<longleftrightarrow>
     it_kind t = TriggerButton \<and> (case it_button_action t of Some e \<Rightarrow> e = a | None \<Rightarrow> True)"

datatype mode_transition_selection = SelectAuto | SelectNone | SelectExact string

datatype automation_action =
    ModeCycle "rhythm_mode list" mode_transition_selection
  | ModeSet rhythm_mode mode_transition_selection
  | LightScheduleModeCycle string "rhythm_mode list" mode_transition_selection
  | LightScheduleModeSet string rhythm_mode mode_transition_selection
  | ModeToggle rhythm_mode rhythm_mode mode_transition_selection

record input_binding =
  ib_id :: string
  ib_preset :: "input_binding_preset option"
  ib_source :: string
  ib_trigger :: input_binding_trigger
  ib_action :: automation_action
  ib_enabled :: bool

definition binding_from_preset ::
    "string \<Rightarrow> input_binding_preset \<Rightarrow> string \<Rightarrow> button_action option \<Rightarrow> input_binding" where
  "binding_from_preset i preset source a =
     \<lparr>ib_id = i, ib_preset = Some preset, ib_source = source, ib_trigger = button_trigger a,
      ib_action = (case preset of DaySleepToggle \<Rightarrow> ModeCycle [Day, Sleep] SelectAuto), ib_enabled = True\<rparr>"

text \<open>
  One underscore for every other character: the continuation bytes (80 to BF) of a character of several
  bytes add nothing.
\<close>

definition input_binding_id_part :: "string \<Rightarrow> string" where
  "input_binding_id_part v =
     map (\<lambda>c. if is_ascii_alphanumeric c \<or> c = CHR ''-'' \<or> c = CHR ''_'' then c else CHR ''_'')
       (filter (\<lambda>c. \<not> (128 \<le> byte c \<and> byte c < 192)) v)"

fun button_action_id_part :: "button_action \<Rightarrow> string" where
  "button_action_id_part OnPress = ''on_press''"
| "button_action_id_part Toggle = ''toggle''"
| "button_action_id_part OffPress = ''off_press''"
| "button_action_id_part Reset = ''reset''"
| "button_action_id_part ResetToModeDefault = ''reset_to_mode_default''"
| "button_action_id_part UpPress = ''up_press''"
| "button_action_id_part DownPress = ''down_press''"
| "button_action_id_part UpHold = ''up_hold''"
| "button_action_id_part DownHold = ''down_hold''"
| "button_action_id_part Stop = ''stop''"
| "button_action_id_part RhythmOn = ''rhythm_on''"
| "button_action_id_part RhythmOff = ''rhythm_off''"
| "button_action_id_part LightsOff = ''lights_off''"
| "button_action_id_part SleepOn = ''sleep_on''"
| "button_action_id_part SleepOff = ''sleep_off''"

definition preset_binding_id :: "input_binding_preset \<Rightarrow> string \<Rightarrow> button_action option \<Rightarrow> string" where
  "preset_binding_id preset source a =
     preset_as_str preset @ '':'' @ input_binding_id_part source @ '':'' @
     unwrap_or (map_option button_action_id_part a) ''any''"

definition day_sleep_toggle :: "string \<Rightarrow> button_action option \<Rightarrow> input_binding" where
  "day_sleep_toggle source a =
     binding_from_preset (preset_binding_id DaySleepToggle source a) DaySleepToggle source a"

definition binding_matches_button :: "string \<Rightarrow> button_action \<Rightarrow> input_binding \<Rightarrow> bool" where
  "binding_matches_button source a b \<longleftrightarrow>
     ib_enabled b \<and> ib_source b = source \<and> trigger_matches_button (ib_trigger b) a"

end
