(* ===== verification/Topology.thy ===== *)
theory Topology
  imports NodeControls
begin

text \<open>
  The room topology store of \<open>rhythm-os/src/topology.rs\<close>: rooms, device nodes, control links, input
  bindings, approved bindings, the consent of the user to let Rhythm automate rooms of an external
  controller, and the index from the rooms of the hubs to the rooms of Rhythm.

  \<open>uuid\<close> is the identifier \<open>generate_uuid\<close> returned, \<open>now\<close> the clock, \<open>lower\<close> stands for
  \<open>str::to_lowercase\<close>. Logging is left out.
\<close>

section \<open>State\<close>

record binding_record =
  br_hub_key :: hub_key
  br_hub_room_id :: string
  br_room :: string
  br_approved_at :: u64

datatype automation_owner = OwnerExternal | OwnerRhythm

record automation_decision =
  ad_room :: string
  ad_hub_key :: hub_key
  ad_owner :: automation_owner

record migration_report =
  mg_filtered :: nat
  mg_moved :: nat
  mg_grandfathered :: nat
  mg_advanced :: bool

definition report_none :: migration_report where
  "report_none = \<lparr>mg_filtered = 0, mg_moved = 0, mg_grandfathered = 0, mg_advanced = False\<rparr>"

definition report_changed :: "migration_report \<Rightarrow> bool" where
  "report_changed r \<longleftrightarrow> 0 < mg_filtered r \<or> 0 < mg_moved r \<or> 0 < mg_grandfathered r \<or> mg_advanced r"

record topology_store =
  ts_rooms :: "(string, topology_room) hmap"
  ts_nodes :: "(string, device_node) hmap"
  ts_links :: "node_control_link list"
  ts_inputs :: "input_binding list"
  ts_approved :: "binding_record list"
  ts_managed :: "managed_binding list"
  ts_decisions :: "automation_decision list"
  ts_grandfathered :: "hub_key set"
  ts_policy_version :: u8
  ts_sync_hubs :: "hub_key set"
  ts_suspended :: "hub_key set"
  ts_attention :: "hub_key set"
  ts_index :: "((string \<times> string), string) hmap"
  ts_required :: "string set"

definition topology_new :: topology_store where
  "topology_new =
     \<lparr>ts_rooms = [], ts_nodes = [], ts_links = [], ts_inputs = [], ts_approved = [], ts_managed = [],
      ts_decisions = [], ts_grandfathered = {}, ts_policy_version = 1, ts_sync_hubs = {},
      ts_suspended = {}, ts_attention = {}, ts_index = [], ts_required = {}\<rparr>"

definition legacy_empty :: topology_store where
  "legacy_empty = topology_new\<lparr>ts_policy_version := 0\<rparr>"

definition index_key :: "hub_key \<Rightarrow> string \<Rightarrow> string \<times> string" where
  "index_key k r = (display_hub_key k, r)"

definition get_topology_room :: "string \<Rightarrow> topology_store \<Rightarrow> topology_room option" where
  "get_topology_room i s = map_of (ts_rooms s) i"

definition get_device_node :: "string \<Rightarrow> topology_store \<Rightarrow> device_node option" where
  "get_device_node i s = map_of (ts_nodes s) i"

definition modify_topology_room :: "string \<Rightarrow> (topology_room \<Rightarrow> topology_room) \<Rightarrow> topology_store \<Rightarrow> topology_store" where
  "modify_topology_room i f s = s\<lparr>ts_rooms := hm_modify i f (ts_rooms s)\<rparr>"

definition has_public_node :: "string \<Rightarrow> topology_store \<Rightarrow> bool" where
  "has_public_node i s \<longleftrightarrow> map_of (ts_rooms s) i \<noteq> None \<or> map_of (ts_nodes s) i \<noteq> None"

definition device_parent_room_id :: "string \<Rightarrow> topology_store \<Rightarrow> string option" where
  "device_parent_room_id d s = (case map_of (ts_nodes s) d of None \<Rightarrow> None | Some n \<Rightarrow> dn_parent n)"

definition room_count :: "topology_store \<Rightarrow> nat" where
  "room_count s = length (ts_rooms s)"

section \<open>Derived state\<close>

text \<open>The devices of each room, rebuilt from the nodes in the order of their identifiers.\<close>

definition project_node :: "device_node \<Rightarrow> (string, topology_room) hmap \<Rightarrow> (string, topology_room) hmap" where
  "project_node n rooms =
     (case dn_parent n of
        None \<Rightarrow> rooms
      | Some p \<Rightarrow> hm_modify p (\<lambda>r. r\<lparr>tr_devices := tr_devices r @
          [\<lparr>rd_device_id = dn_canonical_id n, rd_placement = dn_placement n\<rparr>]\<rparr>) rooms)"

definition rebuild_room_device_projections :: "topology_store \<Rightarrow> topology_store" where
  "rebuild_room_device_projections s = s
     \<lparr>ts_rooms :=
        fold (\<lambda>i rooms. case map_of (ts_nodes s) i of None \<Rightarrow> rooms | Some n \<Rightarrow> project_node n rooms)
          (sort (map fst (ts_nodes s))) (hm_map (\<lambda>r. r\<lparr>tr_devices := []\<rparr>) (ts_rooms s)),
      ts_links := filter (\<lambda>l. has_public_node (nl_source l) s \<and> has_public_node (nl_target l) s) (ts_links s)\<rparr>"

definition index_room ::
    "string \<times> topology_room \<Rightarrow> ((string \<times> string), string) hmap \<Rightarrow> ((string \<times> string), string) hmap" where
  "index_room ir m = fold (\<lambda>b. AList.update (index_key (hb_hub_key b) (hb_hub_room_id b)) (fst ir)) (tr_bindings (snd ir)) m"

definition room_has_binding :: "string \<Rightarrow> (hub_room_binding \<Rightarrow> bool) \<Rightarrow> topology_store \<Rightarrow> bool" where
  "room_has_binding i p s \<longleftrightarrow>
     (case map_of (ts_rooms s) i of None \<Rightarrow> False | Some r \<Rightarrow> list_ex p (tr_bindings r))"

definition managed_order :: "managed_binding \<Rightarrow> string \<times> string \<times> string" where
  "managed_order m = (mb_room m, display_hub_key (mb_hub_key m), mb_hub_room_id m)"

definition decision_order :: "automation_decision \<Rightarrow> string \<times> string" where
  "decision_order d = (display_hub_key (ad_hub_key d), ad_room d)"

text \<open>Different choices for one room and hub, which a merge can bring together: external wins.\<close>

fun consolidate ::
    "automation_decision list \<Rightarrow> ((hub_key \<times> string), automation_owner) hmap \<Rightarrow>
     ((hub_key \<times> string), automation_owner) hmap" where
  "consolidate [] m = m"
| "consolidate (d # ds) m = consolidate ds
     (let key = (ad_hub_key d, ad_room d) in
      case map_of m key of
        None \<Rightarrow> AList.update key (ad_owner d) m
      | Some _ \<Rightarrow> if ad_owner d = OwnerExternal then AList.update key OwnerExternal m else m)"

definition rebuild_decisions :: "topology_store \<Rightarrow> automation_decision list" where
  "rebuild_decisions s =
     sort_key decision_order
       (map (\<lambda>((k, r), ow). \<lparr>ad_room = r, ad_hub_key = k, ad_owner = ow\<rparr>)
         (consolidate
           (filter (\<lambda>d. room_has_binding (ad_room d) (\<lambda>b. hb_hub_key b = ad_hub_key d) s) (ts_decisions s)) []))"

definition rebuild_managed :: "topology_store \<Rightarrow> managed_binding list" where
  "rebuild_managed s =
     remdups_adj (sort_key managed_order
       (filter (\<lambda>m. room_has_binding (mb_room m) (is_binding (mb_hub_key m) (mb_hub_room_id m)) s) (ts_managed s)))"

definition rebuild_topology_indices :: "topology_store \<Rightarrow> topology_store" where
  "rebuild_topology_indices s = rebuild_room_device_projections (s
     \<lparr>ts_index := fold index_room (ts_rooms s) [],
      ts_managed := rebuild_managed s,
      ts_decisions := rebuild_decisions s\<rparr>)"

section \<open>Policies of a hub\<close>

definition set_grouped_room_control_required :: "hub_key \<Rightarrow> bool \<Rightarrow> topology_store \<Rightarrow> topology_store" where
  "set_grouped_room_control_required k required s = s
     \<lparr>ts_required := (if required then ts_required s \<union> {display_hub_key k} else ts_required s - {display_hub_key k})\<rparr>"

definition grouped_room_control_is_required :: "hub_key \<Rightarrow> topology_store \<Rightarrow> bool" where
  "grouped_room_control_is_required k s \<longleftrightarrow> display_hub_key k \<in> ts_required s"

definition set_external_room_topology_sync_enabled ::
    "hub_key \<Rightarrow> bool \<Rightarrow> topology_store \<Rightarrow> bool \<times> topology_store" where
  "set_external_room_topology_sync_enabled k enabled s =
     (if enabled then
        (k \<notin> ts_sync_hubs s \<or> k \<notin> ts_suspended s \<or> k \<in> ts_attention s,
         s\<lparr>ts_sync_hubs := ts_sync_hubs s \<union> {k}, ts_suspended := ts_suspended s \<union> {k},
           ts_attention := ts_attention s - {k}\<rparr>)
      else
        (k \<in> ts_sync_hubs s \<or> k \<in> ts_attention s,
         s\<lparr>ts_sync_hubs := ts_sync_hubs s - {k}, ts_attention := ts_attention s - {k}\<rparr>))"

definition external_room_topology_sync_is_enabled :: "hub_key \<Rightarrow> topology_store \<Rightarrow> bool" where
  "external_room_topology_sync_is_enabled k s \<longleftrightarrow> k \<in> ts_sync_hubs s"

definition set_external_grouped_dispatch_suspended ::
    "hub_key \<Rightarrow> bool \<Rightarrow> topology_store \<Rightarrow> bool \<times> topology_store" where
  "set_external_grouped_dispatch_suspended k suspended s =
     (if suspended then (k \<notin> ts_suspended s, s\<lparr>ts_suspended := ts_suspended s \<union> {k}\<rparr>)
      else (k \<in> ts_suspended s, s\<lparr>ts_suspended := ts_suspended s - {k}\<rparr>))"

definition external_grouped_dispatch_is_suspended :: "hub_key \<Rightarrow> topology_store \<Rightarrow> bool" where
  "external_grouped_dispatch_is_suspended k s \<longleftrightarrow> k \<in> ts_suspended s"

definition set_external_room_topology_sync_attention ::
    "hub_key \<Rightarrow> bool \<Rightarrow> topology_store \<Rightarrow> bool \<times> topology_store" where
  "set_external_room_topology_sync_attention k attention s =
     (if attention then (k \<notin> ts_attention s, s\<lparr>ts_attention := ts_attention s \<union> {k}\<rparr>)
      else (k \<in> ts_attention s, s\<lparr>ts_attention := ts_attention s - {k}\<rparr>))"

definition external_room_topology_sync_needs_attention :: "hub_key \<Rightarrow> topology_store \<Rightarrow> bool" where
  "external_room_topology_sync_needs_attention k s \<longleftrightarrow> k \<in> ts_attention s"

text \<open>The bindings of all rooms, in their order.\<close>

definition all_bindings :: "topology_store \<Rightarrow> hub_room_binding list" where
  "all_bindings s = concat (map (tr_bindings \<circ> snd) (ts_rooms s))"

definition structurally_references_hub :: "hub_key \<Rightarrow> topology_store \<Rightarrow> bool" where
  "structurally_references_hub k s \<longleftrightarrow>
     list_ex (\<lambda>b. hb_hub_key b = k) (all_bindings s) \<or> list_ex (\<lambda>b. br_hub_key b = k) (ts_approved s) \<or>
     list_ex (\<lambda>b. mb_hub_key b = k) (ts_managed s) \<or> list_ex (\<lambda>d. ad_hub_key d = k) (ts_decisions s) \<or>
     k \<in> ts_sync_hubs s \<or> k \<in> ts_suspended s \<or> k \<in> ts_attention s \<or> grouped_room_control_is_required k s"

definition topology_references_hub :: "hub_key \<Rightarrow> topology_store \<Rightarrow> bool" where
  "topology_references_hub k s \<longleftrightarrow> structurally_references_hub k s \<or> k \<in> ts_grandfathered s"

definition topology_hub_keys :: "topology_store \<Rightarrow> hub_key set" where
  "topology_hub_keys s =
     hb_hub_key ` set (all_bindings s) \<union> br_hub_key ` set (ts_approved s) \<union> ad_hub_key ` set (ts_decisions s) \<union>
     ts_grandfathered s \<union> mb_hub_key ` set (ts_managed s) \<union> ts_sync_hubs s \<union> ts_suspended s \<union> ts_attention s"

definition migrate_legacy_policy :: "hub_key list \<Rightarrow> topology_store \<Rightarrow> migration_report \<times> topology_store" where
  "migrate_legacy_policy configured s =
     (if 1 \<le> ts_policy_version s then (report_none, s)
      else
        let hubs = ts_grandfathered s \<union> {k \<in> set configured. hk_type k = HUE} \<union>
              {k \<in> hb_hub_key ` set (all_bindings s). hk_type k = HUE};
            rooms = length (filter (\<lambda>r. list_ex (\<lambda>b. hb_hub_key b \<in> hubs \<and>
                list_all (\<lambda>d. ad_room d \<noteq> tr_id r \<or> ad_hub_key d \<noteq> hb_hub_key b) (ts_decisions s))
              (tr_bindings r)) (map snd (ts_rooms s)))
        in (report_none\<lparr>mg_grandfathered := rooms, mg_advanced := True\<rparr>,
            s\<lparr>ts_grandfathered := hubs, ts_policy_version := 1\<rparr>))"

definition rekey :: "hub_key \<Rightarrow> hub_key \<Rightarrow> hub_key \<Rightarrow> hub_key" where
  "rekey old new k = (if k = old then new else k)"

definition rekey_set :: "'a \<Rightarrow> 'a \<Rightarrow> 'a set \<Rightarrow> 'a set" where
  "rekey_set old new S = (if old \<in> S then S - {old} \<union> {new} else S)"

definition remap_topology_hub_key :: "hub_key \<Rightarrow> hub_key \<Rightarrow> topology_store \<Rightarrow> bool \<times> topology_store" where
  "remap_topology_hub_key old new s =
     (if old = new then (False, s)
      else
        let changed = topology_references_hub old s;
            s1 = s
              \<lparr>ts_rooms := hm_map (\<lambda>r. r\<lparr>tr_bindings :=
                   map (\<lambda>b. b\<lparr>hb_hub_key := rekey old new (hb_hub_key b)\<rparr>) (tr_bindings r)\<rparr>) (ts_rooms s),
               ts_approved := map (\<lambda>b. b\<lparr>br_hub_key := rekey old new (br_hub_key b)\<rparr>) (ts_approved s),
               ts_managed := map (\<lambda>b. b\<lparr>mb_hub_key := rekey old new (mb_hub_key b)\<rparr>) (ts_managed s),
               ts_decisions := map (\<lambda>d. d\<lparr>ad_hub_key := rekey old new (ad_hub_key d)\<rparr>) (ts_decisions s),
               ts_grandfathered := rekey_set old new (ts_grandfathered s),
               ts_sync_hubs := rekey_set old new (ts_sync_hubs s),
               ts_suspended := rekey_set old new (ts_suspended s),
               ts_attention := rekey_set old new (ts_attention s),
               ts_required := rekey_set (display_hub_key old) (display_hub_key new) (ts_required s)\<rparr>
        in (changed, if changed then rebuild_topology_indices s1 else s1))"

section \<open>Devices\<close>

definition upsert_device_node :: "string \<Rightarrow> string option \<Rightarrow> device_placement \<Rightarrow> topology_store \<Rightarrow> topology_store" where
  "upsert_device_node d parent p s = s
     \<lparr>ts_nodes := AList.update d \<lparr>dn_id = d, dn_canonical_id = d, dn_parent = parent, dn_placement = p\<rparr> (ts_nodes s)\<rparr>"

definition customize :: "string option \<Rightarrow> topology_store \<Rightarrow> topology_store" where
  "customize room s =
     (case room of None \<Rightarrow> s | Some r \<Rightarrow> modify_topology_room r (\<lambda>x. x\<lparr>tr_customized := True\<rparr>) s)"

definition set_device_node_placement ::
    "string \<Rightarrow> string option \<Rightarrow> device_placement \<Rightarrow> bool \<Rightarrow> topology_store \<Rightarrow> bool \<times> topology_store" where
  "set_device_node_placement d parent p create s =
     (if (case parent of None \<Rightarrow> False | Some r \<Rightarrow> map_of (ts_rooms s) r = None) then (False, s)
      else case map_of (ts_nodes s) d of
        None \<Rightarrow>
          if create then
            let s1 = upsert_device_node d parent (effective_placement_for parent p) s
            in (True, rebuild_room_device_projections (if p = UserOverride then customize parent s1 else s1))
          else (False, s)
      | Some n \<Rightarrow>
          let s1 = s\<lparr>ts_nodes := hm_modify d
                (\<lambda>n. n\<lparr>dn_parent := parent, dn_placement := effective_placement_for parent p\<rparr>) (ts_nodes s)\<rparr>
          in (True, rebuild_room_device_projections
                (if p = UserOverride then customize parent (customize (dn_parent n) s1) else s1)))"

definition sync_hub_default_device_for_room :: "string \<Rightarrow> string \<Rightarrow> topology_store \<Rightarrow> topology_store" where
  "sync_hub_default_device_for_room room d s =
     (case map_of (ts_nodes s) d of
        Some n \<Rightarrow>
          if dn_placement n = UserOverride then s
          else s\<lparr>ts_nodes := hm_modify d (\<lambda>n. n\<lparr>dn_parent := Some room, dn_placement := HubDefault\<rparr>) (ts_nodes s)\<rparr>
      | None \<Rightarrow> upsert_device_node d (Some room) HubDefault s)"

definition only_on_hub :: "hub_key \<Rightarrow> canonical_device \<Rightarrow> bool" where
  "only_on_hub k d \<longleftrightarrow>
     list_ex (\<lambda>e. ep_hub_key e = k) (active_endpoints d) \<and> \<not> list_ex (\<lambda>e. ep_hub_key e \<noteq> k) (active_endpoints d)"

definition detach_hub_default_devices_for_room ::
    "string \<Rightarrow> hub_key \<Rightarrow> canonical_registry \<Rightarrow> string set \<Rightarrow> topology_store \<Rightarrow> topology_store" where
  "detach_hub_default_devices_for_room room k reg keep s = s
     \<lparr>ts_nodes := hm_map (\<lambda>n.
        if dn_parent n = Some room \<and> dn_placement n = HubDefault \<and> dn_canonical_id n \<notin> keep \<and>
           (case registry_get (dn_canonical_id n) reg of None \<Rightarrow> False | Some d \<Rightarrow> only_on_hub k d)
        then n\<lparr>dn_parent := None, dn_placement := Standalone\<rparr> else n) (ts_nodes s)\<rparr>"

definition move_device :: "string \<Rightarrow> string \<Rightarrow> string \<Rightarrow> topology_store \<Rightarrow> bool \<times> topology_store" where
  "move_device d from_room to_room s =
     (if map_of (ts_rooms s) from_room = None then (False, s)
      else if device_parent_room_id d s \<noteq> Some from_room then (False, s)
      else set_device_node_placement d (Some to_room) UserOverride False s)"

definition assign_device ::
    "string \<Rightarrow> string option \<Rightarrow> device_placement \<Rightarrow> topology_store \<Rightarrow> bool \<times> topology_store" where
  "assign_device d room p s = set_device_node_placement d room p False s"

definition attach_device_hub_default :: "string \<Rightarrow> string \<Rightarrow> topology_store \<Rightarrow> bool \<times> topology_store" where
  "attach_device_hub_default room d s = set_device_node_placement d (Some room) HubDefault True s"

definition attach_device_user_override :: "string \<Rightarrow> string \<Rightarrow> topology_store \<Rightarrow> bool \<times> topology_store" where
  "attach_device_user_override room d s = set_device_node_placement d (Some room) UserOverride True s"

definition ensure_standalone_device :: "string \<Rightarrow> topology_store \<Rightarrow> topology_store" where
  "ensure_standalone_device d s = snd (set_device_node_placement d None Standalone True s)"

definition remove_device_everywhere :: "string \<Rightarrow> topology_store \<Rightarrow> string list \<times> topology_store" where
  "remove_device_everywhere d s =
     ((case map_of (ts_nodes s) d of None \<Rightarrow> [] | Some n \<Rightarrow> (case dn_parent n of None \<Rightarrow> [] | Some p \<Rightarrow> [p])),
      rebuild_room_device_projections (s\<lparr>ts_nodes := AList.delete d (ts_nodes s)\<rparr>))"

end
