(* ===== verification/TopologySync.thy ===== *)
theory TopologySync
  imports Topology
begin

text \<open>
  Rooms of the topology store and what the discovery of a hub does to them
  (\<open>rhythm-os/src/topology.rs\<close>): bindings to the rooms of the hubs, approved bindings, the sync of a
  discovered room, and the operations of the user on rooms.
\<close>

section \<open>Approved bindings\<close>

definition is_approval :: "hub_key \<Rightarrow> string \<Rightarrow> binding_record \<Rightarrow> bool" where
  "is_approval k r b \<longleftrightarrow> br_hub_key b = k \<and> br_hub_room_id b = r"

definition approve_binding :: "hub_key \<Rightarrow> string \<Rightarrow> string \<Rightarrow> u64 \<Rightarrow> topology_store \<Rightarrow> topology_store" where
  "approve_binding k r room now s =
     (if list_ex (is_approval k r) (ts_approved s) then s
      else s\<lparr>ts_approved := ts_approved s @
        [\<lparr>br_hub_key = k, br_hub_room_id = r, br_room = room, br_approved_at = now\<rparr>]\<rparr>)"

definition revoke_binding :: "hub_key \<Rightarrow> string \<Rightarrow> topology_store \<Rightarrow> topology_store" where
  "revoke_binding k r s = s\<lparr>ts_approved := filter (\<lambda>b. \<not> is_approval k r b) (ts_approved s)\<rparr>"

definition has_approved_binding :: "hub_key \<Rightarrow> string \<Rightarrow> topology_store \<Rightarrow> bool" where
  "has_approved_binding k r s \<longleftrightarrow> list_ex (is_approval k r) (ts_approved s)"

text \<open>The room an approved binding names.\<close>

definition approved_target :: "hub_key \<Rightarrow> string \<Rightarrow> topology_store \<Rightarrow> string option" where
  "approved_target k r s = map_option br_room (find (is_approval k r) (ts_approved s))"

section \<open>Sync of a discovered room\<close>

record discovered_topology_room =
  dr_hub_room_id :: string
  dr_name :: string
  dr_authoritative :: bool
  dr_control_id :: string
  dr_lights :: "string list"
  dr_devices :: "string list"

datatype sync_action =
    SyncUpdated string
  | SyncBound string
  | SyncCreated string
  | SyncProposal string string string "(string \<times> string) list"

fun action_room_id :: "sync_action \<Rightarrow> string" where
  "action_room_id (SyncUpdated r) = r"
| "action_room_id (SyncBound r) = r"
| "action_room_id (SyncCreated r) = r"
| "action_room_id (SyncProposal r _ _ _) = r"

definition discovered_binding :: "hub_key \<Rightarrow> discovered_topology_room \<Rightarrow> hub_room_binding" where
  "discovered_binding k d =
     \<lparr>hb_hub_key = k, hb_hub_room_id = dr_hub_room_id d, hb_control_id = dr_control_id d, hb_lights = dr_lights d\<rparr>"

definition set_index :: "hub_key \<Rightarrow> string \<Rightarrow> string \<Rightarrow> topology_store \<Rightarrow> topology_store" where
  "set_index k r room s = s\<lparr>ts_index := AList.update (index_key k r) room (ts_index s)\<rparr>"

definition matches_name :: "(string \<Rightarrow> string) \<Rightarrow> string \<Rightarrow> topology_room \<Rightarrow> bool" where
  "matches_name lower n room \<longleftrightarrow>
     lower (tr_name room) = lower n \<or> (case tr_bootstrap room of None \<Rightarrow> False | Some b \<Rightarrow> lower b = lower n)"

text \<open>The other rooms of the same name that the hub has no room in.\<close>

definition name_matches ::
    "(string \<Rightarrow> string) \<Rightarrow> string option \<Rightarrow> hub_key \<Rightarrow> string \<Rightarrow> topology_store \<Rightarrow> (string \<times> string) list" where
  "name_matches lower except k n s =
     map (\<lambda>(i, r). (i, tr_name r))
       (filter (\<lambda>(i, r). except \<noteq> Some i \<and> matches_name lower n r \<and> binding_for_hub k r = None) (ts_rooms s))"

definition sync_devices ::
    "string \<Rightarrow> hub_key \<Rightarrow> canonical_registry \<Rightarrow> string list \<Rightarrow> topology_store \<Rightarrow> topology_store" where
  "sync_devices room k reg devs s =
     fold (sync_hub_default_device_for_room room) devs (detach_hub_default_devices_for_room room k reg (set devs) s)"

definition bind_discovered :: "string \<Rightarrow> hub_key \<Rightarrow> discovered_topology_room \<Rightarrow> topology_store \<Rightarrow> topology_store" where
  "bind_discovered room k d = modify_topology_room room (upsert_hub_room_binding (discovered_binding k d))"

definition adopt_source_name :: "bool \<Rightarrow> string \<Rightarrow> topology_room \<Rightarrow> topology_room" where
  "adopt_source_name authoritative n room =
     (if \<not> tr_customized room \<and> authoritative then room\<lparr>tr_name := n\<rparr> else room)"

text \<open>The update of a room the hub room is mapped to.\<close>

definition refresh_room ::
    "string \<Rightarrow> bool \<Rightarrow> hub_key \<Rightarrow> canonical_registry \<Rightarrow> discovered_topology_room \<Rightarrow> topology_store \<Rightarrow> topology_store" where
  "refresh_room room authoritative k reg d s =
     rebuild_room_device_projections
       (sync_devices room k reg (dr_devices d)
         (modify_topology_room room (adopt_source_name authoritative (dr_name d)) (bind_discovered room k d s)))"

text \<open>A new room, bound to the hub room.\<close>

definition insert_discovered_room ::
    "string \<Rightarrow> hub_key \<Rightarrow> discovered_topology_room \<Rightarrow> topology_store \<Rightarrow> topology_store" where
  "insert_discovered_room uuid k d s = s
     \<lparr>ts_index := AList.update (index_key k (dr_hub_room_id d)) uuid (ts_index s),
      ts_rooms := AList.update uuid
        (upsert_hub_room_binding (discovered_binding k d) (topology_room_new uuid (dr_name d))) (ts_rooms s)\<rparr>"

definition create_discovered_room ::
    "string \<Rightarrow> hub_key \<Rightarrow> discovered_topology_room \<Rightarrow> topology_store \<Rightarrow> topology_store" where
  "create_discovered_room uuid k d s =
     rebuild_room_device_projections
       (fold (sync_hub_default_device_for_room uuid) (dr_devices d) (insert_discovered_room uuid k d s))"

text \<open>An approved binding applied again; the room made for the hub room in this cycle goes.\<close>

definition apply_approved ::
    "string \<Rightarrow> string option \<Rightarrow> hub_key \<Rightarrow> canonical_registry \<Rightarrow> discovered_topology_room \<Rightarrow> topology_store \<Rightarrow> topology_store" where
  "apply_approved target duplicate k reg d s =
     (let s1 = sync_devices target k reg (dr_devices d) (bind_discovered target k d s);
          s2 = (case duplicate of None \<Rightarrow> s1 | Some i \<Rightarrow> s1\<lparr>ts_rooms := AList.delete i (ts_rooms s1)\<rparr>)
      in rebuild_room_device_projections (set_index k (dr_hub_room_id d) target s2))"

text \<open>Only one binding and no device: made by \<open>translate_or_create\<close> in this cycle.\<close>

definition freshly_created :: "string \<Rightarrow> topology_store \<Rightarrow> bool" where
  "freshly_created room s \<longleftrightarrow>
     (case map_of (ts_rooms s) room of None \<Rightarrow> False
      | Some r \<Rightarrow> length (tr_bindings r) = 1 \<and> tr_devices r = [])"

definition existing_target :: "hub_key \<Rightarrow> string \<Rightarrow> topology_store \<Rightarrow> string option" where
  "existing_target k r s = opt_filter (\<lambda>i. map_of (ts_rooms s) i \<noteq> None) (approved_target k r s)"

definition sync_mapped_room ::
    "(string \<Rightarrow> string) \<Rightarrow> string \<Rightarrow> hub_key \<Rightarrow> discovered_topology_room \<Rightarrow> canonical_registry \<Rightarrow> topology_store \<Rightarrow>
     sync_action \<times> topology_store" where
  "sync_mapped_room lower room k d reg s =
     (let matches = (if freshly_created room s then name_matches lower (Some room) k (dr_name d) s else []) in
      case matches of
        [] \<Rightarrow> (SyncUpdated room, refresh_room room (dr_authoritative d) k reg d s)
      | (i, n) # _ \<Rightarrow>
          (case existing_target k (dr_hub_room_id d) s of
             Some target \<Rightarrow> (SyncBound target, apply_approved target (Some room) k reg d s)
           | None \<Rightarrow> (SyncProposal room i n matches, refresh_room room True k reg d s)))"

definition sync_unmapped_room ::
    "(string \<Rightarrow> string) \<Rightarrow> string \<Rightarrow> hub_key \<Rightarrow> discovered_topology_room \<Rightarrow> canonical_registry \<Rightarrow> topology_store \<Rightarrow>
     sync_action \<times> topology_store" where
  "sync_unmapped_room lower uuid k d reg s =
     (let matches = name_matches lower None k (dr_name d) s in
      case matches of
        [] \<Rightarrow> (SyncCreated uuid, create_discovered_room uuid k d s)
      | (i, n) # _ \<Rightarrow>
          (case existing_target k (dr_hub_room_id d) s of
             Some target \<Rightarrow> (SyncBound target, apply_approved target None k reg d s)
           | None \<Rightarrow>
               let s1 = (if approved_target k (dr_hub_room_id d) s = None then s
                         else revoke_binding k (dr_hub_room_id d) s)
               in (SyncProposal uuid i n matches, create_discovered_room uuid k d s1)))"

definition sync_hub_room_with_registry ::
    "(string \<Rightarrow> string) \<Rightarrow> string \<Rightarrow> hub_key \<Rightarrow> discovered_topology_room \<Rightarrow> canonical_registry \<Rightarrow> topology_store \<Rightarrow>
     sync_action \<times> topology_store" where
  "sync_hub_room_with_registry lower uuid k d reg s =
     (case map_of (ts_index s) (index_key k (dr_hub_room_id d)) of
        Some room \<Rightarrow> sync_mapped_room lower room k d reg s
      | None \<Rightarrow> sync_unmapped_room lower uuid k d reg s)"

definition sync_hub_room ::
    "(string \<Rightarrow> string) \<Rightarrow> string \<Rightarrow> hub_key \<Rightarrow> discovered_topology_room \<Rightarrow> topology_store \<Rightarrow> sync_action \<times> topology_store" where
  "sync_hub_room lower uuid k d s = sync_hub_room_with_registry lower uuid k d registry_new s"

definition translate_or_create_with_status ::
    "string \<Rightarrow> hub_key \<Rightarrow> string \<Rightarrow> string \<Rightarrow> string \<Rightarrow> string list \<Rightarrow> topology_store \<Rightarrow>
     (string \<times> bool) \<times> topology_store" where
  "translate_or_create_with_status uuid k r n control lights s =
     (let d = \<lparr>dr_hub_room_id = r, dr_name = n, dr_authoritative = False, dr_control_id = control,
               dr_lights = lights, dr_devices = []\<rparr> in
      case map_of (ts_index s) (index_key k r) of
        Some room \<Rightarrow> ((room, False), s)
      | None \<Rightarrow>
          (case existing_target k r s of
             Some target \<Rightarrow> ((target, False), set_index k r target (bind_discovered target k d s))
           | None \<Rightarrow> ((uuid, True), insert_discovered_room uuid k d s)))"

definition translate_or_create ::
    "string \<Rightarrow> hub_key \<Rightarrow> string \<Rightarrow> string \<Rightarrow> string \<Rightarrow> string list \<Rightarrow> topology_store \<Rightarrow> string \<times> topology_store" where
  "translate_or_create uuid k r n control lights s =
     (let (res, s1) = translate_or_create_with_status uuid k r n control lights s in (fst res, s1))"

end
