(* ===== verification/TopologyBindings.thy ===== *)
theory TopologyBindings
  imports TopologySync
begin

text \<open>
  Bindings of rooms to hub rooms, authoritative light membership and the operations of the user on
  rooms (\<open>rhythm-os/src/topology.rs\<close>).
\<close>

section \<open>Removing bindings\<close>

definition keep_bindings :: "(hub_room_binding \<Rightarrow> bool) \<Rightarrow> topology_room \<Rightarrow> topology_room" where
  "keep_bindings p room = room\<lparr>tr_bindings := filter p (tr_bindings room)\<rparr>"

text \<open>The rooms that lose a binding when only those with \<open>p\<close> are kept.\<close>

definition affected_rooms :: "(hub_room_binding \<Rightarrow> bool) \<Rightarrow> topology_store \<Rightarrow> string list" where
  "affected_rooms p s = map fst (filter (\<lambda>(_, r). list_ex (\<lambda>b. \<not> p b) (tr_bindings r)) (ts_rooms s))"

definition keep_room_bindings :: "(hub_room_binding \<Rightarrow> bool) \<Rightarrow> topology_store \<Rightarrow> topology_store" where
  "keep_room_bindings p s = s\<lparr>ts_rooms := hm_map (keep_bindings p) (ts_rooms s)\<rparr>"

definition remove_stale_bindings :: "hub_key \<Rightarrow> string list \<Rightarrow> topology_store \<Rightarrow> string list \<times> topology_store" where
  "remove_stale_bindings k current s =
     (let p = (\<lambda>b. hb_hub_key b \<noteq> k \<or> hb_hub_room_id b \<in> set current);
          s1 = keep_room_bindings p s;
          s2 = s1\<lparr>ts_index := filter (\<lambda>((hub, r), _). hub \<noteq> display_hub_key k \<or> r \<in> set current) (ts_index s1),
            ts_managed := filter (\<lambda>m. mb_hub_key m \<noteq> k \<or> mb_hub_room_id m \<in> set current) (ts_managed s1)\<rparr>
      in (affected_rooms p s,
          s2\<lparr>ts_decisions := filter (\<lambda>d. ad_hub_key d \<noteq> k \<or>
               room_has_binding (ad_room d) (\<lambda>b. hb_hub_key b = k) s2) (ts_decisions s2)\<rparr>))"

definition remove_room_bindings_for_hub_where ::
    "hub_key \<Rightarrow> (hub_room_binding \<Rightarrow> bool) \<Rightarrow> topology_store \<Rightarrow> string list \<times> topology_store" where
  "remove_room_bindings_for_hub_where k predicate s =
     (let p = (\<lambda>b. hb_hub_key b \<noteq> k \<or> \<not> predicate b); affected = affected_rooms p s; s1 = keep_room_bindings p s
      in (affected, if affected \<noteq> [] then rebuild_topology_indices s1 else s1))"

definition remove_hub_room_binding_everywhere ::
    "hub_key \<Rightarrow> string \<Rightarrow> topology_store \<Rightarrow> string list \<times> topology_store" where
  "remove_hub_room_binding_everywhere k r s =
     (let s1 = s\<lparr>ts_rooms := hm_map (remove_hub_room_binding k r) (ts_rooms s)\<rparr>
      in (affected_rooms (\<lambda>b. \<not> is_binding k r b) s,
          s1\<lparr>ts_index := AList.delete (index_key k r) (ts_index s1),
            ts_managed := filter (\<lambda>m. mb_hub_key m \<noteq> k \<or> mb_hub_room_id m \<noteq> r) (ts_managed s1)\<rparr>))"

section \<open>Adding bindings\<close>

definition upsert_room_binding :: "string \<Rightarrow> hub_room_binding \<Rightarrow> topology_store \<Rightarrow> bool \<times> topology_store" where
  "upsert_room_binding room b s =
     (case map_of (ts_rooms s) room of
        None \<Rightarrow> (False, s)
      | Some r \<Rightarrow>
          let changed = binding_for_hub_room (hb_hub_key b) (hb_hub_room_id b) r \<noteq> Some b;
              s1 = (if changed then modify_topology_room room (upsert_hub_room_binding b) s else s)
          in (changed, set_index (hb_hub_key b) (hb_hub_room_id b) room s1))"

definition upsert_managed_room_binding ::
    "string \<Rightarrow> hub_room_binding \<Rightarrow> topology_store \<Rightarrow> bool \<times> topology_store" where
  "upsert_managed_room_binding room b0 s =
     (if hb_hub_room_id b0 = [] \<or> hb_control_id b0 = [] \<or> map_of (ts_rooms s) room = None then (False, s)
      else
        let b = b0\<lparr>hb_lights := remdups_adj (sort (hb_lights b0))\<rparr>;
            k = hb_hub_key b; r = hb_hub_room_id b;
            s1 = s\<lparr>ts_rooms := map (\<lambda>(i, x). (i, keep_bindings (\<lambda>e.
                     if i = room then hb_hub_key e \<noteq> k else \<not> is_binding k r e) x)) (ts_rooms s)\<rparr>;
            s2 = modify_topology_room room (upsert_hub_room_binding b) s1
        in (True, rebuild_topology_indices (s2
              \<lparr>ts_managed :=
                 filter (\<lambda>m. \<not> (mb_hub_key m = k \<and> (mb_room m = room \<or> mb_hub_room_id m = r))) (ts_managed s2) @
                 [\<lparr>mb_room = room, mb_hub_key = k, mb_hub_room_id = r\<rparr>]\<rparr>)))"

definition room_binding_is_managed :: "string \<Rightarrow> hub_key \<Rightarrow> string \<Rightarrow> topology_store \<Rightarrow> bool" where
  "room_binding_is_managed room k r s \<longleftrightarrow>
     list_ex (\<lambda>m. mb_room m = room \<and> mb_hub_key m = k \<and> mb_hub_room_id m = r) (ts_managed s)"

definition exact_managed_group_binding ::
    "string \<Rightarrow> hub_key \<Rightarrow> canonical_registry \<Rightarrow> topology_store \<Rightarrow> hub_room_binding option" where
  "exact_managed_group_binding i k reg s =
     (if \<not> grouped_room_control_is_required k s then None
      else case map_of (ts_rooms s) i of
        None \<Rightarrow> None
      | Some room \<Rightarrow>
          (case map_of (control_light_endpoints_by_hub reg (ts_required s) room) k of
             None \<Rightarrow> None
           | Some ids \<Rightarrow>
               (case authoritative_grouped_target k (fst ` set ids) (ts_managed s) room of
                  Some (Group r control) \<Rightarrow>
                    find (\<lambda>b. hb_hub_key b = k \<and> hb_hub_room_id b = r \<and> hb_control_id b = control)
                      (tr_bindings room)
                | _ \<Rightarrow> None)))"

section \<open>Light membership\<close>

definition keep_lights :: "hub_key \<Rightarrow> (string \<Rightarrow> bool) \<Rightarrow> topology_store \<Rightarrow> topology_store" where
  "keep_lights k p s = s\<lparr>ts_rooms := hm_map (\<lambda>r. r\<lparr>tr_bindings :=
     map (\<lambda>b. if hb_hub_key b = k then b\<lparr>hb_lights := filter p (hb_lights b)\<rparr> else b) (tr_bindings r)\<rparr>) (ts_rooms s)\<rparr>"

definition add_light :: "string \<Rightarrow> hub_room_binding \<Rightarrow> hub_room_binding" where
  "add_light n b =
     (if n \<in> set (hb_lights b) then b else b\<lparr>hb_lights := remdups_adj (sort (hb_lights b @ [n]))\<rparr>)"

definition reassign_hub_light_device ::
    "hub_key \<Rightarrow> string \<Rightarrow> string option \<Rightarrow> string option \<Rightarrow> topology_store \<Rightarrow> bool \<times> topology_store" where
  "reassign_hub_light_device k n room hub_room s =
     (case (room, hub_room) of
        (Some i, Some r) \<Rightarrow>
          if room_has_binding i (is_binding k r) s
          then (True, modify_topology_room i (\<lambda>x. x\<lparr>tr_bindings := modify_first (is_binding k r) (add_light n) (tr_bindings x)\<rparr>)
                 (keep_lights k (\<lambda>d. d \<noteq> n) s))
          else (False, s)
      | (Some i, None) \<Rightarrow>
          if map_of (ts_rooms s) i \<noteq> None \<and> \<not> room_has_binding i (\<lambda>b. hb_hub_key b = k) s
          then (True, keep_lights k (\<lambda>d. d \<noteq> n) s) else (False, s)
      | (None, None) \<Rightarrow> (True, keep_lights k (\<lambda>d. d \<noteq> n) s)
      | (None, Some _) \<Rightarrow> (False, s))"

definition apply_authoritative_hub_light_binding ::
    "hub_key \<Rightarrow> string \<Rightarrow> string option \<Rightarrow> hub_room_binding option \<Rightarrow> bool \<Rightarrow> topology_store \<Rightarrow>
     bool \<times> topology_store" where
  "apply_authoritative_hub_light_binding k n room target managed s =
     (if \<not> managed then (False, s)
      else case (room, target) of
        (Some i, Some b) \<Rightarrow>
          if map_of (ts_rooms s) i \<noteq> None \<and> hb_hub_key b = k \<and> hb_hub_room_id b \<noteq> [] \<and>
             hb_control_id b \<noteq> [] \<and> n \<in> set (hb_lights b)
          then upsert_managed_room_binding i b (keep_lights k (\<lambda>d. d \<notin> set (hb_lights b)) s)
          else (False, s)
      | (None, None) \<Rightarrow> (True, rebuild_topology_indices (keep_lights k (\<lambda>d. d \<noteq> n) s))
      | _ \<Rightarrow> (False, s))"

section \<open>Rooms of the user\<close>

definition create_topology_room :: "string \<Rightarrow> string \<Rightarrow> topology_store \<Rightarrow> string \<times> topology_store" where
  "create_topology_room uuid n s =
     (uuid, rebuild_room_device_projections (s
        \<lparr>ts_rooms := AList.update uuid ((topology_room_new uuid n)\<lparr>tr_customized := True\<rparr>) (ts_rooms s)\<rparr>))"

definition rename_topology_room :: "string \<Rightarrow> string \<Rightarrow> topology_store \<Rightarrow> bool \<times> topology_store" where
  "rename_topology_room i n s =
     (if map_of (ts_rooms s) i = None then (False, s)
      else (True, modify_topology_room i (\<lambda>r. r\<lparr>tr_name := n, tr_customized := True\<rparr>) s))"

definition replace_id :: "string \<Rightarrow> string \<Rightarrow> string \<Rightarrow> string" where
  "replace_id old new i = (if i = old then new else i)"

definition merge_topology_rooms :: "string \<Rightarrow> string \<Rightarrow> topology_store \<Rightarrow> bool \<times> topology_store" where
  "merge_topology_rooms target source s =
     (case map_of (ts_rooms s) source of
        None \<Rightarrow> (False, s)
      | Some src \<Rightarrow>
          let rest = AList.delete source (ts_rooms s) in
          if map_of rest target = None then (False, s\<lparr>ts_rooms := AList.update source src rest\<rparr>)
          else
            let s1 = s\<lparr>ts_rooms := hm_modify target (\<lambda>r.
                    (fold upsert_hub_room_binding (tr_bindings src) r)\<lparr>tr_customized := True\<rparr>) rest,
                  ts_index := fold (\<lambda>b. AList.update (index_key (hb_hub_key b) (hb_hub_room_id b)) target)
                    (tr_bindings src) (ts_index s)\<rparr>;
                s2 = s1\<lparr>ts_nodes := hm_map (\<lambda>n. n\<lparr>dn_parent := map_option (replace_id source target) (dn_parent n)\<rparr>) (ts_nodes s1),
                  ts_managed := map (\<lambda>m. m\<lparr>mb_room := replace_id source target (mb_room m)\<rparr>) (ts_managed s1),
                  ts_decisions := map (\<lambda>d. d\<lparr>ad_room := replace_id source target (ad_room d)\<rparr>) (ts_decisions s1)\<rparr>
            in (True, rebuild_topology_indices s2))"

definition drop_room_index :: "topology_room \<Rightarrow> ((string \<times> string), string) hmap \<Rightarrow> ((string \<times> string), string) hmap" where
  "drop_room_index r m = fold (\<lambda>b. AList.delete (index_key (hb_hub_key b) (hb_hub_room_id b))) (tr_bindings r) m"

definition remove_topology_room :: "string \<Rightarrow> topology_store \<Rightarrow> string list option \<times> topology_store" where
  "remove_topology_room i s =
     (case map_of (ts_rooms s) i of
        None \<Rightarrow> (None, s)
      | Some r \<Rightarrow>
          (Some (sort (map (dn_canonical_id \<circ> snd) (filter (\<lambda>(_, n). dn_parent n = Some i) (ts_nodes s)))),
           rebuild_room_device_projections (s
             \<lparr>ts_rooms := AList.delete i (ts_rooms s),
              ts_index := drop_room_index r (ts_index s),
              ts_approved := filter (\<lambda>b. br_room b \<noteq> i) (ts_approved s),
              ts_managed := filter (\<lambda>m. mb_room m \<noteq> i) (ts_managed s),
              ts_decisions := filter (\<lambda>d. ad_room d \<noteq> i) (ts_decisions s),
              ts_nodes := hm_map (\<lambda>n. if dn_parent n = Some i then n\<lparr>dn_parent := None, dn_placement := Standalone\<rparr> else n)
                (ts_nodes s)\<rparr>)))"

definition insert_topology_room :: "topology_room \<Rightarrow> topology_store \<Rightarrow> topology_store" where
  "insert_topology_room room s =
     rebuild_room_device_projections (s
       \<lparr>ts_index := index_room (tr_id room, room) (ts_index s),
        ts_nodes := fold (\<lambda>d. AList.update (rd_device_id d)
            \<lparr>dn_id = rd_device_id d, dn_canonical_id = rd_device_id d, dn_parent = Some (tr_id room),
             dn_placement = rd_placement d\<rparr>) (tr_devices room) (ts_nodes s),
        ts_rooms := AList.update (tr_id room) (room\<lparr>tr_devices := []\<rparr>) (ts_rooms s)\<rparr>)"

section \<open>Repairs of persisted state\<close>

text \<open>The rooms whose hub rooms list an endpoint of the device.\<close>

definition hub_reported_light_room_ids :: "canonical_device \<Rightarrow> topology_store \<Rightarrow> string set" where
  "hub_reported_light_room_ids d s = set (map fst
     (filter (\<lambda>(_, r). list_ex (\<lambda>b. list_ex (\<lambda>e. hb_hub_key b = ep_hub_key e \<and>
          hb_hub_room_id b \<noteq> ep_native_id e \<and> ep_native_id e \<in> set (hb_lights b)) (active_endpoints d))
        (tr_bindings r)) (ts_rooms s)))"

definition missing_light_repair :: "topology_store \<Rightarrow> canonical_device \<Rightarrow> (string \<times> string \<times> device_placement) option" where
  "missing_light_repair s d =
     (case cd_room_id d of
        None \<Rightarrow> None
      | Some r \<Rightarrow>
          if map_of (ts_rooms s) r = None then None
          else
            let reporting = hub_reported_light_room_ids d s in
            if reporting = {} then Some (cd_id d, r, UserOverride)
            else if r \<in> reporting then Some (cd_id d, r, HubDefault)
            else None)"

text \<open>The stable sort by device and room; the iterator attaches them one after the other.\<close>

fun attach_repairs :: "(string \<times> string \<times> device_placement) list \<Rightarrow> topology_store \<Rightarrow> nat \<times> topology_store" where
  "attach_repairs [] s = (0, s)"
| "attach_repairs ((d, r, p) # rs) s =
     (let (ok, s1) = (if p = HubDefault then attach_device_hub_default r d s else attach_device_user_override r d s);
          (n, s2) = attach_repairs rs s1
      in ((if ok then Suc n else n), s2))"

definition restore_missing_assigned_light_nodes ::
    "canonical_registry \<Rightarrow> topology_store \<Rightarrow> nat \<times> topology_store" where
  "restore_missing_assigned_light_nodes reg s =
     attach_repairs
       (sort_key (\<lambda>(d, r, _). (d, r))
         (List.map_filter (missing_light_repair s)
           (filter (\<lambda>d. cd_device_type d = Light \<and> \<not> is_removed d \<and> has_active_endpoint d \<and>
                        map_of (ts_nodes s) (cd_id d) = None) (registry_devices reg)))) s"

text \<open>The native identifiers of the lights of each hub, by its text.\<close>

definition light_native_ids_by_hub :: "canonical_registry \<Rightarrow> string \<Rightarrow> string set" where
  "light_native_ids_by_hub reg hub =
     set (map ep_native_id (filter (\<lambda>e. display_hub_key (ep_hub_key e) = hub)
       (concat (map active_endpoints (filter (\<lambda>d. cd_device_type d = Light) (registry_devices reg))))))"

definition filter_binding_lights :: "canonical_registry \<Rightarrow> hub_room_binding \<Rightarrow> hub_room_binding" where
  "filter_binding_lights reg b =
     (let ids = light_native_ids_by_hub reg (display_hub_key (hb_hub_key b)) in
      if ids = {} then b
      else b\<lparr>hb_lights := remdups_adj (sort (filter (\<lambda>n. n \<in> ids) (hb_lights b)))\<rparr>)"

definition note_target ::
    "string \<times> hub_room_binding \<times> string \<Rightarrow> ((string \<times> string), string option) hmap \<Rightarrow> ((string \<times> string), string option) hmap" where
  "note_target t m =
     (let (room, b, n) = t; key = index_key (hb_hub_key b) n in
      AList.update key
        (case map_of m key of
           None \<Rightarrow> Some room
         | Some e \<Rightarrow> if e \<noteq> Some room then None else e) m)"

definition binding_targets :: "topology_store \<Rightarrow> ((string \<times> string), string option) hmap" where
  "binding_targets s =
     fold note_target
       (concat (map (\<lambda>(i, r). concat (map (\<lambda>b. map (\<lambda>n. (i, b, n)) (hb_lights b)) (tr_bindings r))) (ts_rooms s))) []"

text \<open>The one room the bindings of the hubs put a device in, if it is not the room it is in.\<close>

definition light_repair ::
    "canonical_registry \<Rightarrow> ((string \<times> string), string option) hmap \<Rightarrow> device_node \<Rightarrow> (string \<times> string) option" where
  "light_repair reg targets n =
     (if dn_placement n \<noteq> HubDefault then None
      else case dn_parent n of
        None \<Rightarrow> None
      | Some parent \<Rightarrow>
          (case registry_get (dn_canonical_id n) reg of
             None \<Rightarrow> None
           | Some d \<Rightarrow>
               if cd_device_type d \<noteq> Light \<or> is_removed d then None
               else
                 (case remdups_adj (sort (List.map_filter (\<lambda>e.
                         Option.bind (map_of targets (index_key (ep_hub_key e) (ep_native_id e))) id) (active_endpoints d))) of
                    [t] \<Rightarrow> if t = parent then None else Some (dn_canonical_id n, t)
                  | _ \<Rightarrow> None)))"

fun apply_light_repairs ::
    "(string \<times> string) list \<Rightarrow> u64 \<Rightarrow> nat \<times> topology_store \<times> canonical_registry \<Rightarrow> nat \<times> topology_store \<times> canonical_registry" where
  "apply_light_repairs [] now st = st"
| "apply_light_repairs ((d, t) # rs) now (moved, s, reg) =
     apply_light_repairs rs now
       (if map_of (ts_nodes s) d = None then moved else Suc moved,
        s\<lparr>ts_nodes := hm_modify d (\<lambda>n. n\<lparr>dn_parent := Some t, dn_placement := HubDefault\<rparr>) (ts_nodes s)\<rparr>,
        snd (assign_room d (Some t) now reg))"

definition migrate_legacy_light_room_bindings ::
    "u64 \<Rightarrow> canonical_registry \<Rightarrow> topology_store \<Rightarrow> migration_report \<times> topology_store \<times> canonical_registry" where
  "migrate_legacy_light_room_bindings now reg s =
     (if \<not> list_ex (\<lambda>d. cd_device_type d = Light \<and> has_active_endpoint d) (registry_devices reg)
      then (report_none, s, reg)
      else
        let s1 = s\<lparr>ts_rooms := hm_map (\<lambda>r. r\<lparr>tr_bindings := map (filter_binding_lights reg) (tr_bindings r)\<rparr>) (ts_rooms s)\<rparr>;
            filtered = sum_list (map (\<lambda>b. length (hb_lights b) - length (hb_lights (filter_binding_lights reg b))) (all_bindings s));
            targets = binding_targets s1;
            repairs = List.map_filter (\<lambda>i. Option.bind (map_of (ts_nodes s1) i) (light_repair reg targets))
              (sort (map fst (ts_nodes s1)));
            (moved, s2, reg1) = apply_light_repairs repairs now (0, s1, reg)
        in (report_none\<lparr>mg_filtered := filtered, mg_moved := moved\<rparr>,
            if 0 < moved then rebuild_room_device_projections s2 else s2, reg1))"

end
