(* ===== verification/TopologyPolicy.thy ===== *)
theory TopologyPolicy
  imports TopologyBindings
begin

text \<open>
  Who automates the rooms of an external controller (\<open>rhythm-os/src/topology.rs\<close>): the decision of the
  user for each room and hub, its migration, review and revision, and what unattended behaviour of
  Rhythm may target.
\<close>

section \<open>Decisions\<close>

definition is_decision :: "string \<Rightarrow> hub_key \<Rightarrow> automation_decision \<Rightarrow> bool" where
  "is_decision i k d \<longleftrightarrow> ad_room d = i \<and> ad_hub_key d = k"

definition external_room_automation_owner :: "string \<Rightarrow> hub_key \<Rightarrow> topology_store \<Rightarrow> automation_owner option" where
  "external_room_automation_owner i k s =
     opt_or (map_option ad_owner (find (is_decision i k) (ts_decisions s)))
       (if k \<in> ts_grandfathered s then Some OwnerRhythm else None)"

definition bound_to :: "hub_key \<Rightarrow> topology_room \<Rightarrow> bool" where
  "bound_to k r \<longleftrightarrow> list_ex (\<lambda>b. hb_hub_key b = k) (tr_bindings r)"

definition rhythm_decision :: "hub_key \<Rightarrow> string \<Rightarrow> automation_decision" where
  "rhythm_decision k i = \<lparr>ad_room = i, ad_hub_key = k, ad_owner = OwnerRhythm\<rparr>"

definition materialize_grandfathered :: "hub_key \<Rightarrow> topology_store \<Rightarrow> bool \<times> topology_store" where
  "materialize_grandfathered k s =
     (if k \<notin> ts_grandfathered s then (False, s)
      else
        let undecided = sort (map tr_id (filter (\<lambda>r. bound_to k r \<and>
              tr_id r \<notin> ad_room ` set (filter (\<lambda>d. ad_hub_key d = k) (ts_decisions s))) (map snd (ts_rooms s))))
        in (True, s\<lparr>ts_decisions := sort_key decision_order (ts_decisions s @ map (rhythm_decision k) undecided),
              ts_grandfathered := ts_grandfathered s - {k}\<rparr>))"

definition forget_policy :: "hub_key \<Rightarrow> topology_store \<Rightarrow> bool \<times> topology_store" where
  "forget_policy k s =
     (let kept = filter (\<lambda>d. ad_hub_key d \<noteq> k) (ts_decisions s) in
      (k \<in> ts_grandfathered s \<or> k \<in> ts_sync_hubs s \<or> k \<in> ts_suspended s \<or> k \<in> ts_attention s \<or>
         length kept \<noteq> length (ts_decisions s),
       s\<lparr>ts_decisions := kept, ts_grandfathered := ts_grandfathered s - {k}, ts_sync_hubs := ts_sync_hubs s - {k},
         ts_suspended := ts_suspended s - {k}, ts_attention := ts_attention s - {k}\<rparr>))"

section \<open>Review of a hub\<close>

definition external_automation_rooms_for_hub ::
    "hub_key \<Rightarrow> topology_store \<Rightarrow> (string \<times> string \<times> automation_owner option) list" where
  "external_automation_rooms_for_hub k s =
     sort_key fst (map (\<lambda>r. (tr_id r, tr_name r, external_room_automation_owner (tr_id r) k s))
       (filter (bound_to k) (map snd (ts_rooms s))))"

definition fnv_byte :: "u64 \<Rightarrow> nat \<Rightarrow> u64" where
  "fnv_byte h b = (h XOR of_nat b) * 0x100000001b3"

definition absorb :: "nat list \<Rightarrow> u64 \<Rightarrow> u64" where
  "absorb bs h = fold (\<lambda>b h. fnv_byte h b) bs h"

fun owner_byte :: "automation_owner option \<Rightarrow> nat" where
  "owner_byte None = 0"
| "owner_byte (Some OwnerExternal) = 1"
| "owner_byte (Some OwnerRhythm) = 2"

definition review_bytes :: "string \<times> string \<times> automation_owner option \<Rightarrow> nat list" where
  "review_bytes x = (case x of (i, n, ow) \<Rightarrow> map byte i @ [0] @ map byte n @ [owner_byte ow])"

text \<open>\<open>{hash:016x}\<close>: sixteen hexadecimal digits, the highest first.\<close>

definition show_hex16 :: "u64 \<Rightarrow> string" where
  "show_hex16 h = map (\<lambda>i. hex_digit (unat (drop_bit (4 * i) h AND 15))) (rev [0..<16])"

definition external_automation_revision :: "hub_key \<Rightarrow> topology_store \<Rightarrow> string" where
  "external_automation_revision k s =
     show_hex16 (fold (\<lambda>x. absorb (review_bytes x)) (external_automation_rooms_for_hub k s)
       (absorb (map byte (display_hub_key k)) 0xcbf29ce484222325))"

definition replace_decisions ::
    "hub_key \<Rightarrow> (string \<times> automation_owner) list \<Rightarrow> topology_store \<Rightarrow> (string + bool) \<times> topology_store" where
  "replace_decisions k ds s =
     (let expected = fst ` set (external_automation_rooms_for_hub k s) in
      if expected = {} then (Inl ''No rooms are bound to this hub'', s)
      else if \<not> distinct (map fst ds) \<or> fst ` set ds \<noteq> expected
      then (Inl ''The submitted room set is stale or incomplete'', s)
      else
        let mine = filter (\<lambda>d. ad_hub_key d = k);
            after = sort_key ad_room (filter (\<lambda>d. ad_hub_key d \<noteq> k) (ts_decisions s) @
              map (\<lambda>(i, ow). \<lparr>ad_room = i, ad_hub_key = k, ad_owner = ow\<rparr>) ds)
        in (Inr (mine (ts_decisions s) \<noteq> mine after \<or> k \<in> ts_grandfathered s),
            s\<lparr>ts_decisions := after, ts_grandfathered := ts_grandfathered s - {k}\<rparr>))"

section \<open>Consent\<close>

definition external_hub_has_full_rhythm_consent :: "hub_key \<Rightarrow> topology_store \<Rightarrow> bool" where
  "external_hub_has_full_rhythm_consent k s \<longleftrightarrow>
     (let rooms = external_automation_rooms_for_hub k s in
      rooms \<noteq> [] \<and> list_all (\<lambda>(_, _, ow). ow = Some OwnerRhythm) rooms)"

definition external_hub_has_rhythm_consent :: "hub_key \<Rightarrow> topology_store \<Rightarrow> bool" where
  "external_hub_has_rhythm_consent k s \<longleftrightarrow>
     list_ex (\<lambda>(_, _, ow). ow = Some OwnerRhythm) (external_automation_rooms_for_hub k s)"

definition rhythm_automation_allowed_for_node :: "string \<Rightarrow> topology_store \<Rightarrow> bool" where
  "rhythm_automation_allowed_for_node n s =
     (case (if map_of (ts_rooms s) n \<noteq> None then Some n else device_parent_room_id n s) of
        None \<Rightarrow> True
      | Some i \<Rightarrow>
          (case map_of (ts_rooms s) i of
             None \<Rightarrow> True
           | Some room \<Rightarrow>
               list_all (\<lambda>b. external_room_automation_owner i (hb_hub_key b) s = Some OwnerRhythm)
                 (filter (\<lambda>b. hk_type (hb_hub_key b) = HUE) (tr_bindings room))))"

end
