(* ===== verification/TopologyRouting.thy ===== *)
theory TopologyRouting
  imports TopologyPolicy
begin

text \<open>
  What a node controls and how commands reach the hubs (\<open>rhythm-os/src/topology.rs\<close>): control targets,
  input bindings, aliases of rooms and the routing tables of the composite controller.
\<close>

section \<open>Input bindings\<close>

definition input_binding_by_id :: "string \<Rightarrow> topology_store \<Rightarrow> input_binding option" where
  "input_binding_by_id i s = find (\<lambda>b. ib_id b = i) (ts_inputs s)"

definition matching_button_input_binding :: "string \<Rightarrow> button_action \<Rightarrow> topology_store \<Rightarrow> input_binding option" where
  "matching_button_input_binding source a s = find (binding_matches_button source a) (ts_inputs s)"

definition set_input_binding :: "input_binding \<Rightarrow> topology_store \<Rightarrow> bool \<times> topology_store" where
  "set_input_binding b s =
     (case find (\<lambda>e. ib_id e = ib_id b) (ts_inputs s) of
        Some e \<Rightarrow> (e \<noteq> b, s\<lparr>ts_inputs := modify_first (\<lambda>e. ib_id e = ib_id b) (\<lambda>_. b) (ts_inputs s)\<rparr>)
      | None \<Rightarrow> (True, s\<lparr>ts_inputs := ts_inputs s @ [b]\<rparr>))"

definition remove_input_binding :: "string \<Rightarrow> topology_store \<Rightarrow> bool \<times> topology_store" where
  "remove_input_binding i s =
     (let kept = filter (\<lambda>b. ib_id b \<noteq> i) (ts_inputs s)
      in (length kept \<noteq> length (ts_inputs s), s\<lparr>ts_inputs := kept\<rparr>))"

definition remove_input_bindings_for_source :: "string \<Rightarrow> topology_store \<Rightarrow> nat \<times> topology_store" where
  "remove_input_bindings_for_source source s =
     (let kept = filter (\<lambda>b. ib_source b \<noteq> source) (ts_inputs s)
      in (length (ts_inputs s) - length kept, s\<lparr>ts_inputs := kept\<rparr>))"

section \<open>Control targets\<close>

definition is_link :: "string \<Rightarrow> node_control_kind \<Rightarrow> node_control_link \<Rightarrow> bool" where
  "is_link source kind l \<longleftrightarrow> nl_source l = source \<and> nl_kind l = kind"

definition explicit_control_target :: "string \<Rightarrow> node_control_kind \<Rightarrow> topology_store \<Rightarrow> string option" where
  "explicit_control_target source kind s = map_option nl_target (find (is_link source kind) (ts_links s))"

definition explicit_control_targets :: "string \<Rightarrow> node_control_kind \<Rightarrow> topology_store \<Rightarrow> string list" where
  "explicit_control_targets source kind s = map nl_target (filter (is_link source kind) (ts_links s))"

definition effective_control_target :: "string \<Rightarrow> node_control_kind \<Rightarrow> topology_store \<Rightarrow> string option" where
  "effective_control_target source kind s =
     opt_or (explicit_control_target source kind s) (device_parent_room_id source s)"

definition effective_control_targets :: "string \<Rightarrow> node_control_kind \<Rightarrow> topology_store \<Rightarrow> string list" where
  "effective_control_targets source kind s =
     (let explicit = explicit_control_targets source kind s in
      if explicit \<noteq> [] then remdups_adj (sort explicit)
      else (case device_parent_room_id source s of None \<Rightarrow> [] | Some p \<Rightarrow> [p]))"

definition set_control_targets ::
    "string \<Rightarrow> node_control_kind \<Rightarrow> string list \<Rightarrow> topology_store \<Rightarrow> bool \<times> topology_store" where
  "set_control_targets source kind targets s =
     (if \<not> has_public_node source s \<or> list_ex (\<lambda>t. \<not> has_public_node t s) targets then (False, s)
      else (True, s\<lparr>ts_links := filter (\<lambda>l. \<not> is_link source kind l) (ts_links s) @
             map (\<lambda>t. \<lparr>nl_source = source, nl_target = t, nl_kind = kind\<rparr>) (remdups_adj (sort targets))\<rparr>))"

definition set_control_target ::
    "string \<Rightarrow> node_control_kind \<Rightarrow> string option \<Rightarrow> topology_store \<Rightarrow> bool \<times> topology_store" where
  "set_control_target source kind target s =
     set_control_targets source kind (case target of None \<Rightarrow> [] | Some t \<Rightarrow> [t]) s"

definition default_kind :: "device_node \<Rightarrow> canonical_registry \<Rightarrow> node_control_kind option" where
  "default_kind n reg =
     (case registry_get (dn_canonical_id n) reg of
        None \<Rightarrow> None
      | Some d \<Rightarrow> default_for_device_type (cd_device_type d))"

definition control_kinds :: "string \<Rightarrow> canonical_registry \<Rightarrow> topology_store \<Rightarrow> node_control_kind list" where
  "control_kinds source reg s =
     fold (\<lambda>l kinds. if nl_source l = source \<and> nl_kind l \<notin> set kinds then kinds @ [nl_kind l] else kinds) (ts_links s)
       (case map_of (ts_nodes s) source of
          None \<Rightarrow> []
        | Some n \<Rightarrow> (case default_kind n reg of None \<Rightarrow> [] | Some kind \<Rightarrow> [kind]))"

definition effective_node_controls ::
    "string \<Rightarrow> canonical_registry \<Rightarrow> topology_store \<Rightarrow> (node_control_kind \<times> string \<times> bool) list" where
  "effective_node_controls source reg s =
     sort_key (\<lambda>(kind, t, _). (debug_control_kind kind, t))
       (concat (map (\<lambda>kind. map (\<lambda>t. (kind, t, explicit_control_target source kind s = None))
            (effective_control_targets source kind s)) (control_kinds source reg s)))"

definition effective_control_targets_for_kind ::
    "node_control_kind \<Rightarrow> canonical_registry \<Rightarrow> topology_store \<Rightarrow> string set" where
  "effective_control_targets_for_kind kind reg s =
     \<Union> (set (map (\<lambda>n. set (effective_control_targets (dn_id n) kind s))
       (filter (\<lambda>n. registry_get (dn_canonical_id n) reg \<noteq> None \<and>
            (default_kind n reg = Some kind \<or> explicit_control_target (dn_id n) kind s \<noteq> None))
          (map snd (ts_nodes s)))))"

section \<open>Lookup of rooms\<close>

definition translate_topology_room_id :: "hub_key \<Rightarrow> string \<Rightarrow> topology_store \<Rightarrow> string option" where
  "translate_topology_room_id k r s = map_of (ts_index s) (index_key k r)"

definition find_by_hub_room :: "hub_key \<Rightarrow> string \<Rightarrow> topology_store \<Rightarrow> topology_room option" where
  "find_by_hub_room k r s = Option.bind (translate_topology_room_id k r s) (map_of (ts_rooms s))"

definition resolve_room_alias :: "hub_key option \<Rightarrow> string \<Rightarrow> topology_store \<Rightarrow> string option" where
  "resolve_room_alias hub i s =
     (if has_public_node i s then Some i
      else Option.bind hub (\<lambda>k. translate_topology_room_id k i s))"

definition routing_table :: "topology_store \<Rightarrow> (string, (hub_key \<times> string) list) hmap" where
  "routing_table s =
     map (\<lambda>(i, r). (i, map (\<lambda>b. (hb_hub_key b, hb_control_id b)) (tr_bindings r)))
       (filter (\<lambda>(_, r). tr_bindings r \<noteq> []) (ts_rooms s))"

section \<open>Routing\<close>

definition light_device_endpoint_route ::
    "device_node \<Rightarrow> canonical_registry \<Rightarrow> (hub_key \<times> hub_dispatch_target) option" where
  "light_device_endpoint_route n reg =
     (case registry_get (dn_canonical_id n) reg of
        None \<Rightarrow> None
      | Some d \<Rightarrow>
          if cd_device_type d \<noteq> Light then None
          else map_option (\<lambda>e. (ep_hub_key e, Devices [ep_native_id e])) (preferred_endpoint d))"

definition hub_lights :: "topology_room \<Rightarrow> hub_key \<Rightarrow> canonical_registry \<Rightarrow> topology_store \<Rightarrow> string set" where
  "hub_lights room k reg s =
     fst ` set (unwrap_or (map_of (control_light_endpoints_by_hub reg (ts_required s) room) k) [])"

definition grouped_target ::
    "topology_room \<Rightarrow> hub_key \<Rightarrow> canonical_registry \<Rightarrow> topology_store \<Rightarrow> hub_dispatch_target option" where
  "grouped_target room k reg s =
     (if grouped_room_control_is_required k s
      then authoritative_grouped_target k (hub_lights room k reg s) (ts_managed s) room
      else if external_grouped_dispatch_is_suspended k s then None
      else exact_native_grouped_target k (hub_lights room k reg s) room)"

definition attached_light_dispatch_route ::
    "device_node \<Rightarrow> canonical_registry \<Rightarrow> topology_store \<Rightarrow> (hub_key \<times> hub_dispatch_target) option" where
  "attached_light_dispatch_route n reg s =
     (case dn_parent n of
        None \<Rightarrow> None
      | Some parent \<Rightarrow>
          (case controlled_endpoint reg (ts_required s) (dn_canonical_id n) of
             None \<Rightarrow> None
           | Some e \<Rightarrow>
               (case map_of (ts_rooms s) parent of
                  None \<Rightarrow> None
                | Some room \<Rightarrow>
                    (case grouped_target room (ep_hub_key e) reg s of
                       Some g \<Rightarrow> Some (ep_hub_key e, g)
                     | None \<Rightarrow>
                         if grouped_room_control_is_required (ep_hub_key e) s then None
                         else Some (ep_hub_key e, Devices [ep_native_id e])))))"

fun is_group :: "hub_dispatch_target \<Rightarrow> bool" where
  "is_group (Group _ _) = True"
| "is_group (Devices _) = False"

definition attached_light_uses_parent_dispatch :: "string \<Rightarrow> canonical_registry \<Rightarrow> topology_store \<Rightarrow> bool" where
  "attached_light_uses_parent_dispatch i reg s =
     (case Option.bind (map_of (ts_nodes s) i) (\<lambda>n. attached_light_dispatch_route n reg s) of
        None \<Rightarrow> False | Some (_, t) \<Rightarrow> is_group t)"

definition node_route :: "device_node \<Rightarrow> canonical_registry \<Rightarrow> topology_store \<Rightarrow> (hub_key \<times> hub_dispatch_target) option" where
  "node_route n reg s =
     (if dn_parent n \<noteq> None then attached_light_dispatch_route n reg s else light_device_endpoint_route n reg)"

definition light_node_uses_device_dispatch :: "string \<Rightarrow> canonical_registry \<Rightarrow> topology_store \<Rightarrow> bool" where
  "light_node_uses_device_dispatch i reg s =
     (case Option.bind (map_of (ts_nodes s) i) (\<lambda>n. node_route n reg s) of
        None \<Rightarrow> False | Some (_, t) \<Rightarrow> \<not> is_group t)"

type_synonym route_table = "(string, (string \<times> hub_dispatch_target) list) hmap"

definition route_of :: "hub_key \<times> hub_dispatch_target \<Rightarrow> string \<times> hub_dispatch_target" where
  "route_of kt = (display_hub_key (fst kt), snd kt)"

definition plan_of :: "canonical_registry \<Rightarrow> topology_store \<Rightarrow> topology_room \<Rightarrow> dispatch_plan" where
  "plan_of reg s room = plan_dispatch reg (ts_required s) (ts_managed s) (ts_suspended s) room"

definition route_room ::
    "canonical_registry \<Rightarrow> topology_store \<Rightarrow> string \<times> topology_room \<Rightarrow> route_table \<Rightarrow> route_table" where
  "route_room reg s ir table =
     (let plan = plan_of reg s (snd ir);
          t1 = (if dp_targets plan \<noteq> [] then AList.update (fst ir) (map route_of (dp_targets plan)) table else table);
          t2 = fold (\<lambda>r. AList.update (ln_id (lr_node r)) [route_of (lr_hub_key r, lr_target r)]) (dp_routes plan) t1
      in fold (\<lambda>(i, kt). AList.update i [route_of kt]) (dp_aliases plan) t2)"

definition insert_route :: "string \<Rightarrow> (hub_key \<times> hub_dispatch_target) option \<Rightarrow> route_table \<Rightarrow> route_table" where
  "insert_route i r table = (case r of None \<Rightarrow> table | Some kt \<Rightarrow> AList.update i [route_of kt] table)"

definition route_attached :: "canonical_registry \<Rightarrow> topology_store \<Rightarrow> device_node \<Rightarrow> route_table \<Rightarrow> route_table" where
  "route_attached reg s n table =
     insert_route (device_light_node_id (dn_id n)) (light_device_endpoint_route n reg)
       (insert_route (dn_id n) (attached_light_dispatch_route n reg s) table)"

definition nodes_by_id :: "(device_node \<Rightarrow> bool) \<Rightarrow> topology_store \<Rightarrow> device_node list" where
  "nodes_by_id p s = sort_key dn_id (filter p (map snd (ts_nodes s)))"

definition composite_routing :: "canonical_registry \<Rightarrow> topology_store \<Rightarrow> route_table" where
  "composite_routing reg s =
     (let t1 = fold (route_room reg s) (sort_key fst (ts_rooms s)) [];
          t2 = fold (route_attached reg s) (nodes_by_id (\<lambda>n. dn_parent n \<noteq> None) s) t1
      in fold (\<lambda>n. insert_route (dn_id n) (light_device_endpoint_route n reg)) (nodes_by_id (\<lambda>n. dn_parent n = None) s) t2)"

definition periodic_light_nodes :: "canonical_registry \<Rightarrow> topology_store \<Rightarrow> light_node list" where
  "periodic_light_nodes reg s =
     concat (map (\<lambda>(_, room). sort_key ln_id (map lr_node (dp_routes (plan_of reg s room)))) (sort_key fst (ts_rooms s))) @
     map (\<lambda>n. \<lparr>ln_id = dn_id n, ln_source = dn_id n, ln_emit = dn_id n\<rparr>)
       (filter (\<lambda>n. light_device_endpoint_route n reg \<noteq> None) (nodes_by_id (\<lambda>n. dn_parent n = None) s))"

end
