(* ===== verification/TopologyInvariants.thy ===== *)
theory TopologyInvariants
  imports TopologyRouting "HOL-Library.Multiset"
begin

text \<open>
  The invariant of the topology store: keys and identifiers agree, the parent of every node is a room,
  the devices of a room are exactly the nodes in it, the index leads to rooms that have the binding, no
  control link dangles, and there is one decision for a room and hub.
\<close>

section \<open>Invariant\<close>

definition placed_in :: "string \<Rightarrow> topology_store \<Rightarrow> string \<Rightarrow> room_device option" where
  "placed_in i s d =
     (case map_of (ts_nodes s) d of
        None \<Rightarrow> None
      | Some n \<Rightarrow> if dn_parent n = Some i
          then Some \<lparr>rd_device_id = dn_canonical_id n, rd_placement = dn_placement n\<rparr> else None)"

definition room_projection :: "string \<Rightarrow> topology_store \<Rightarrow> room_device list" where
  "room_projection i s = List.map_filter (placed_in i s) (sort (map fst (ts_nodes s)))"

definition rooms_ok :: "topology_store \<Rightarrow> bool" where
  "rooms_ok s \<longleftrightarrow> hm_ok (ts_rooms s) \<and> (\<forall>(i, r) \<in> set (ts_rooms s). tr_id r = i)"

definition store_room_ids :: "topology_store \<Rightarrow> string set" where
  "store_room_ids s = dom (map_of (ts_rooms s))"

definition node_ok :: "string set \<Rightarrow> string \<Rightarrow> device_node \<Rightarrow> bool" where
  "node_ok rooms i n \<longleftrightarrow> dn_id n = i \<and> dn_canonical_id n = i \<and>
     (case dn_parent n of None \<Rightarrow> dn_placement n \<noteq> HubDefault | Some p \<Rightarrow> p \<in> rooms)"

definition nodes_ok :: "topology_store \<Rightarrow> bool" where
  "nodes_ok s \<longleftrightarrow> hm_ok (ts_nodes s) \<and> (\<forall>(i, n) \<in> set (ts_nodes s). node_ok (store_room_ids s) i n)"

definition binding_key :: "hub_room_binding \<Rightarrow> string \<times> string" where
  "binding_key b = index_key (hb_hub_key b) (hb_hub_room_id b)"

definition room_keys :: "topology_store \<Rightarrow> string \<Rightarrow> (string \<times> string) set" where
  "room_keys s i = (case map_of (ts_rooms s) i of None \<Rightarrow> {} | Some r \<Rightarrow> binding_key ` set (tr_bindings r))"

definition index_ok :: "topology_store \<Rightarrow> bool" where
  "index_ok s \<longleftrightarrow> hm_ok (ts_index s) \<and> (\<forall>(key, i) \<in> set (ts_index s). key \<in> room_keys s i)"

definition decision_key :: "automation_decision \<Rightarrow> hub_key \<times> string" where
  "decision_key d = (ad_hub_key d, ad_room d)"

definition decisions_ok :: "topology_store \<Rightarrow> bool" where
  "decisions_ok s \<longleftrightarrow> distinct (map decision_key (ts_decisions s))"

definition projections_ok :: "topology_store \<Rightarrow> bool" where
  "projections_ok s \<longleftrightarrow> (\<forall>(i, r) \<in> set (ts_rooms s). tr_devices r = room_projection i s)"

definition links_ok :: "topology_store \<Rightarrow> bool" where
  "links_ok s \<longleftrightarrow> (\<forall>l \<in> set (ts_links s). has_public_node (nl_source l) s \<and> has_public_node (nl_target l) s)"

definition topology_ok :: "topology_store \<Rightarrow> bool" where
  "topology_ok s \<longleftrightarrow>
     rooms_ok s \<and> nodes_ok s \<and> index_ok s \<and> decisions_ok s \<and> projections_ok s \<and> links_ok s"

text \<open>What the derived state is rebuilt from.\<close>

definition base_ok :: "topology_store \<Rightarrow> bool" where
  "base_ok s \<longleftrightarrow> rooms_ok s \<and> nodes_ok s"

named_theorems topo_defs

lemmas [topo_defs] = topology_ok_def base_ok_def rooms_ok_def nodes_ok_def

section \<open>Projections\<close>

lemma rooms_ok_iff:
  "rooms_ok s \<longleftrightarrow> hm_ok (ts_rooms s) \<and> (\<forall>i r. map_of (ts_rooms s) i = Some r \<longrightarrow> tr_id r = i)"
  by (auto simp: rooms_ok_def dest: map_of_SomeD)

lemma nodes_ok_iff:
  "nodes_ok s \<longleftrightarrow> hm_ok (ts_nodes s) \<and> (\<forall>i n. map_of (ts_nodes s) i = Some n \<longrightarrow> node_ok (store_room_ids s) i n)"
  by (auto simp: nodes_ok_def dest: map_of_SomeD)

lemma index_ok_iff:
  "index_ok s \<longleftrightarrow> hm_ok (ts_index s) \<and> (\<forall>k i. map_of (ts_index s) k = Some i \<longrightarrow> k \<in> room_keys s i)"
  by (auto simp: index_ok_def dest: map_of_SomeD)

lemma projections_ok_iff:
  "rooms_ok s \<Longrightarrow> projections_ok s \<longleftrightarrow>
     (\<forall>i r. map_of (ts_rooms s) i = Some r \<longrightarrow> tr_devices r = room_projection i s)"
  by (auto simp: rooms_ok_def projections_ok_def dest: map_of_SomeD)

definition project_id :: "topology_store \<Rightarrow> string \<Rightarrow> (string, topology_room) hmap \<Rightarrow> (string, topology_room) hmap" where
  "project_id s i rooms = (case map_of (ts_nodes s) i of None \<Rightarrow> rooms | Some n \<Rightarrow> project_node n rooms)"

lemma map_fst_project_id [simp]: "map fst (project_id s i rooms) = map fst rooms"
  by (simp add: project_id_def project_node_def split: option.split)

lemma map_fst_fold_project_id [simp]: "map fst (fold (project_id s) is rooms) = map fst rooms"
  by (induction "is" arbitrary: rooms) auto

lemma get_project_id:
  "map_of (project_id s d rooms) i = map_option (\<lambda>r. r\<lparr>tr_devices := tr_devices r @
     (case placed_in i s d of None \<Rightarrow> [] | Some x \<Rightarrow> [x])\<rparr>) (map_of rooms i)"
  by (cases "map_of rooms i") (auto simp: project_id_def project_node_def placed_in_def hm_get_modify split: option.split)

lemma get_fold_project_id:
  "map_of (fold (project_id s) ds rooms) i =
   map_option (\<lambda>r. r\<lparr>tr_devices := tr_devices r @ List.map_filter (placed_in i s) ds\<rparr>) (map_of rooms i)"
proof (induction ds arbitrary: rooms)
  case Nil
  then show ?case by (cases "map_of rooms i") (auto simp: map_filter_simps)
next
  case (Cons d ds)
  then show ?case
    by (cases "map_of rooms i") (auto simp: get_project_id map_filter_simps option.map_comp o_def split: option.split)
qed

lemma rebuild_projections_alt:
  "rebuild_room_device_projections s = s
     \<lparr>ts_rooms := fold (project_id s) (sort (map fst (ts_nodes s))) (hm_map (\<lambda>r. r\<lparr>tr_devices := []\<rparr>) (ts_rooms s)),
      ts_links := filter (\<lambda>l. has_public_node (nl_source l) s \<and> has_public_node (nl_target l) s) (ts_links s)\<rparr>"
  by (simp add: rebuild_room_device_projections_def project_id_def[abs_def])

text \<open>A rebuild touches the devices of the rooms and the links only.\<close>

lemma rebuild_projections_get:
  "map_of (ts_rooms (rebuild_room_device_projections s)) i =
   map_option (\<lambda>r. r\<lparr>tr_devices := room_projection i s\<rparr>) (map_of (ts_rooms s) i)"
  by (cases "map_of (ts_rooms s) i")
     (simp_all add: rebuild_projections_alt get_fold_project_id hm_get_hm_map room_projection_def)

lemma rebuild_projections_simps [simp]:
  "map fst (ts_rooms (rebuild_room_device_projections s)) = map fst (ts_rooms s)"
  "ts_nodes (rebuild_room_device_projections s) = ts_nodes s"
  "ts_index (rebuild_room_device_projections s) = ts_index s"
  "ts_decisions (rebuild_room_device_projections s) = ts_decisions s"
  "ts_managed (rebuild_room_device_projections s) = ts_managed s"
  "ts_approved (rebuild_room_device_projections s) = ts_approved s"
  "ts_grandfathered (rebuild_room_device_projections s) = ts_grandfathered s"
  "ts_required (rebuild_room_device_projections s) = ts_required s"
  "ts_suspended (rebuild_room_device_projections s) = ts_suspended s"
  "ts_inputs (rebuild_room_device_projections s) = ts_inputs s"
  by (simp_all add: rebuild_projections_alt)

lemma rebuild_projections_dom [simp]:
  "map_of (ts_rooms (rebuild_room_device_projections s)) i = None \<longleftrightarrow> map_of (ts_rooms s) i = None"
  by (simp add: rebuild_projections_get)

lemma rebuild_projections_room_ids [simp]: "store_room_ids (rebuild_room_device_projections s) = store_room_ids s"
  by (auto simp: store_room_ids_def rebuild_projections_get dom_def)

lemma rebuild_projections_room_keys [simp]: "room_keys (rebuild_room_device_projections s) i = room_keys s i"
  by (simp add: room_keys_def rebuild_projections_get split: option.split)

lemma rebuild_projections_public [simp]:
  "has_public_node i (rebuild_room_device_projections s) = has_public_node i s"
  by (simp add: has_public_node_def)

lemma room_projection_cong: "ts_nodes s' = ts_nodes s \<Longrightarrow> room_projection i s' = room_projection i s"
  by (simp add: room_projection_def placed_in_def[abs_def])

lemma rebuild_projections_projection [simp]:
  "room_projection i (rebuild_room_device_projections s) = room_projection i s"
  by (rule room_projection_cong) simp

lemma rebuild_projections_base [wf_intros]:
  assumes "base_ok s"
  shows "base_ok (rebuild_room_device_projections s)"
  using assms
  by (auto simp: base_ok_def rooms_ok_iff nodes_ok_iff rebuild_projections_get simp del: map_of_eq_Some_iff)

lemma rebuild_projections_projected: "rooms_ok s \<Longrightarrow> projections_ok (rebuild_room_device_projections s)"
  by (subst projections_ok_iff)
     (auto simp: rooms_ok_iff rebuild_projections_get simp del: map_of_eq_Some_iff)

lemma rebuild_projections_links: "links_ok (rebuild_room_device_projections s)"
  by (simp add: links_ok_def) (simp add: rebuild_projections_alt)

lemma rebuild_projections_index: "index_ok (rebuild_room_device_projections s) = index_ok s"
  by (simp add: index_ok_iff)

lemma rebuild_projections_decisions: "decisions_ok (rebuild_room_device_projections s) = decisions_ok s"
  by (simp add: decisions_ok_def)

lemma rebuild_projections_ok:
  assumes "base_ok s" "index_ok s" "decisions_ok s"
  shows "topology_ok (rebuild_room_device_projections s)"
  using assms rebuild_projections_base[of s] rebuild_projections_projected[of s] rebuild_projections_links[of s]
  by (simp add: topology_ok_def base_ok_def rebuild_projections_index rebuild_projections_decisions)

section \<open>Rebuilding the indices\<close>

lemma index_bindings_get:
  "map_of (fold (\<lambda>b. AList.update (binding_key b) i) bs m) key =
   (if key \<in> binding_key ` set bs then Some i else map_of m key)"
  by (induction bs arbitrary: m) (auto simp: update_conv')

lemma index_bindings_ok: "hm_ok m \<Longrightarrow> hm_ok (fold (\<lambda>b. AList.update (f b) (g b)) bs m)"
  by (induction bs arbitrary: m) (auto simp: distinct_update)

lemma index_room_alt: "index_room ir m = fold (\<lambda>b. AList.update (binding_key b) (fst ir)) (tr_bindings (snd ir)) m"
  by (simp add: index_room_def binding_key_def)

lemma index_rooms_sound:
  assumes "map_of (fold index_room rooms m) key = Some i"
  shows "(\<exists>r. (i, r) \<in> set rooms \<and> key \<in> binding_key ` set (tr_bindings r)) \<or> map_of m key = Some i"
  using assms
proof (induction rooms arbitrary: m)
  case (Cons x rooms)
  from Cons.IH[of "index_room x m"] Cons.prems show ?case
    by (cases x) (auto simp: index_room_alt index_bindings_get split: if_splits)
qed simp

lemma index_rooms_distinct: "hm_ok m \<Longrightarrow> hm_ok (fold index_room rooms m)"
  by (induction rooms arbitrary: m) (auto simp: index_room_def index_bindings_ok)

text \<open>Consolidated decisions: one for a room and hub, external wherever one of them was.\<close>

lemma consolidate_distinct: "hm_ok m \<Longrightarrow> hm_ok (consolidate ds m)"
  by (induction ds m rule: consolidate.induct) (auto simp: Let_def distinct_update split: option.split)

lemma consolidate_dom: "dom (map_of (consolidate ds m)) = decision_key ` set ds \<union> dom (map_of m)"
proof (induction ds m rule: consolidate.induct)
  case (2 d ds m)
  have step: "dom (map_of (let key = (ad_hub_key d, ad_room d) in
      case map_of m key of
        None \<Rightarrow> AList.update key (ad_owner d) m
      | Some _ \<Rightarrow> if ad_owner d = OwnerExternal then AList.update key OwnerExternal m else m)) =
      {decision_key d} \<union> dom (map_of m)"
    by (auto simp: Let_def decision_key_def update_conv' split: option.splits)
  show ?case by (simp only: consolidate.simps 2 step) auto
qed simp

lemma consolidate_external:
  "map_of (consolidate ds m) key = Some OwnerExternal \<longleftrightarrow>
     (\<exists>d\<in>set ds. decision_key d = key \<and> ad_owner d = OwnerExternal) \<or> map_of m key = Some OwnerExternal"
proof (induction ds m rule: consolidate.induct)
  case (2 d ds m)
  have step: "map_of (let key = (ad_hub_key d, ad_room d) in
      case map_of m key of
        None \<Rightarrow> AList.update key (ad_owner d) m
      | Some _ \<Rightarrow> if ad_owner d = OwnerExternal then AList.update key OwnerExternal m else m) key = Some OwnerExternal \<longleftrightarrow>
      decision_key d = key \<and> ad_owner d = OwnerExternal \<or> map_of m key = Some OwnerExternal"
    by (cases "ad_owner d") (auto simp: Let_def decision_key_def update_conv' split: option.splits)
  show ?case by (simp only: consolidate.simps 2 step) auto
qed simp

lemma distinct_map_sort_key: "distinct (map f (sort_key g xs)) = distinct (map f xs)"
  by (intro mset_eq_imp_distinct_iff) simp

lemma decision_keys_rebuilt:
  "decision_key ` set (rebuild_decisions s) =
     decision_key ` {d \<in> set (ts_decisions s). room_has_binding (ad_room d) (\<lambda>b. hb_hub_key b = ad_hub_key d) s}"
proof -
  let ?ds = "filter (\<lambda>d. room_has_binding (ad_room d) (\<lambda>b. hb_hub_key b = ad_hub_key d) s) (ts_decisions s)"
  have "decision_key ` set (rebuild_decisions s) = fst ` set (consolidate ?ds [])"
    by (force simp: rebuild_decisions_def decision_key_def image_iff)
  also have "\<dots> = decision_key ` set ?ds"
    by (simp add: dom_map_of_conv_image_fst[symmetric] consolidate_dom)
  finally show ?thesis by simp
qed

lemma rebuild_decisions_distinct: "distinct (map decision_key (rebuild_decisions s))"
proof -
  let ?m = "consolidate (filter (\<lambda>d. room_has_binding (ad_room d) (\<lambda>b. hb_hub_key b = ad_hub_key d) s) (ts_decisions s)) []"
  have "map (decision_key \<circ> (\<lambda>((k, r), ow). \<lparr>ad_room = r, ad_hub_key = k, ad_owner = ow\<rparr>)) ?m = map fst ?m"
    by (auto simp: decision_key_def)
  moreover have "distinct (map fst ?m)" by (simp add: consolidate_distinct)
  ultimately have "distinct (map (decision_key \<circ> (\<lambda>((k, r), ow). \<lparr>ad_room = r, ad_hub_key = k, ad_owner = ow\<rparr>)) ?m)"
    by (simp only:)
  then show ?thesis by (simp only: rebuild_decisions_def distinct_map_sort_key map_map)
qed

lemma rebuild_decisions_external:
  "d \<in> set (rebuild_decisions s) \<Longrightarrow> ad_owner d = OwnerExternal \<longleftrightarrow>
     (\<exists>e\<in>set (ts_decisions s). decision_key e = decision_key d \<and> ad_owner e = OwnerExternal)"
proof -
  let ?ds = "filter (\<lambda>d. room_has_binding (ad_room d) (\<lambda>b. hb_hub_key b = ad_hub_key d) s) (ts_decisions s)"
  assume d: "d \<in> set (rebuild_decisions s)"
  have ok: "hm_ok (consolidate ?ds [])" by (simp add: consolidate_distinct)
  from d have mem: "(decision_key d, ad_owner d) \<in> set (consolidate ?ds [])"
    by (auto simp: rebuild_decisions_def decision_key_def)
  then have get: "map_of (consolidate ?ds []) (decision_key d) = Some (ad_owner d)"
    using ok by simp
  have bound: "room_has_binding (ad_room d) (\<lambda>b. hb_hub_key b = ad_hub_key d) s"
  proof -
    have "decision_key d \<in> decision_key ` set (rebuild_decisions s)" using d by simp
    then obtain e where "decision_key d = decision_key e"
      "room_has_binding (ad_room e) (\<lambda>b. hb_hub_key b = ad_hub_key e) s"
      unfolding decision_keys_rebuilt by auto
    then show ?thesis by (simp add: decision_key_def)
  qed
  have "ad_owner d = OwnerExternal \<longleftrightarrow> (\<exists>e\<in>set ?ds. decision_key e = decision_key d \<and> ad_owner e = OwnerExternal)"
    using consolidate_external[of ?ds "[]" "decision_key d"] unfolding get by simp
  with bound show ?thesis by (auto simp: decision_key_def)
qed

lemma rebuild_topology_ok:
  assumes "base_ok s"
  shows "topology_ok (rebuild_topology_indices s)"
  unfolding rebuild_topology_indices_def
proof (rule rebuild_projections_ok)
  let ?s = "s\<lparr>ts_index := fold index_room (ts_rooms s) [], ts_managed := rebuild_managed s, ts_decisions := rebuild_decisions s\<rparr>"
  show "base_ok ?s" using assms by (simp add: topo_defs store_room_ids_def)
  have ok: "hm_ok (ts_rooms s)" using assms by (simp add: topo_defs)
  show "index_ok ?s"
    unfolding index_ok_iff
  proof (intro conjI allI impI)
    show "hm_ok (ts_index ?s)" by (simp add: index_rooms_distinct)
    fix key i
    assume "map_of (ts_index ?s) key = Some i"
    then obtain r where "(i, r) \<in> set (ts_rooms s)" "key \<in> binding_key ` set (tr_bindings r)"
      using index_rooms_sound[of "ts_rooms s" "[]" key i] by auto
    then show "key \<in> room_keys ?s i" using ok by (simp add: room_keys_def)
  qed
  show "decisions_ok ?s" by (simp add: decisions_ok_def rebuild_decisions_distinct)
qed

section \<open>Operations\<close>

lemma rooms_ok_hm_map:
  "(\<And>r. tr_id (f r) = tr_id r) \<Longrightarrow> rooms_ok s \<Longrightarrow> rooms_ok (s\<lparr>ts_rooms := hm_map f (ts_rooms s)\<rparr>)"
  by (auto simp: rooms_ok_def hm_map_def comp_def split_def)

lemma room_ids_hm_map [simp]: "store_room_ids (s\<lparr>ts_rooms := hm_map f (ts_rooms s)\<rparr>) = store_room_ids s"
  by (auto simp: store_room_ids_def hm_get_hm_map dom_def)

lemma room_ids_modify [simp]: "store_room_ids (modify_topology_room i f s) = store_room_ids s"
  by (auto simp: store_room_ids_def modify_topology_room_def hm_get_modify dom_def split: if_splits)

lemma modify_room_simps [simp]:
  "ts_nodes (modify_topology_room i f s) = ts_nodes s" "ts_index (modify_topology_room i f s) = ts_index s"
  "ts_decisions (modify_topology_room i f s) = ts_decisions s" "ts_links (modify_topology_room i f s) = ts_links s"
  "ts_managed (modify_topology_room i f s) = ts_managed s" "ts_approved (modify_topology_room i f s) = ts_approved s"
  by (simp_all add: modify_topology_room_def)

lemma base_hm_map [wf_intros]:
  "(\<And>r. tr_id (f r) = tr_id r) \<Longrightarrow> base_ok s \<Longrightarrow> base_ok (s\<lparr>ts_rooms := hm_map f (ts_rooms s)\<rparr>)"
  using rooms_ok_hm_map[of f s] by (simp add: base_ok_def nodes_ok_def)

lemma rooms_ok_modify: "(\<And>r. tr_id (f r) = tr_id r) \<Longrightarrow> rooms_ok s \<Longrightarrow> rooms_ok (modify_topology_room i f s)"
  by (auto simp: rooms_ok_def modify_topology_room_def hm_modify_def comp_def split_def)

lemma base_modify_room [wf_intros]:
  "(\<And>r. tr_id (f r) = tr_id r) \<Longrightarrow> base_ok s \<Longrightarrow> base_ok (modify_topology_room i f s)"
  using rooms_ok_modify[of f s i] by (simp add: base_ok_def nodes_ok_def)

text \<open>Which part of the invariant an update of the store leaves alone.\<close>

lemma room_keys_updates [simp]:
  "room_keys (s\<lparr>ts_nodes := x\<rparr>) = room_keys s" "room_keys (s\<lparr>ts_index := m\<rparr>) = room_keys s"
  "room_keys (s\<lparr>ts_managed := y\<rparr>) = room_keys s" "room_keys (s\<lparr>ts_decisions := z\<rparr>) = room_keys s"
  by (simp_all add: room_keys_def[abs_def])

lemma room_ids_updates [simp]:
  "store_room_ids (s\<lparr>ts_nodes := x\<rparr>) = store_room_ids s" "store_room_ids (s\<lparr>ts_index := m\<rparr>) = store_room_ids s"
  "store_room_ids (s\<lparr>ts_managed := y\<rparr>) = store_room_ids s" "store_room_ids (s\<lparr>ts_decisions := z\<rparr>) = store_room_ids s"
  by (simp_all add: store_room_ids_def)

lemma room_keys_modify:
  "room_keys (modify_topology_room i f s) j =
     (if j = i then (case map_of (ts_rooms s) i of None \<Rightarrow> {} | Some r \<Rightarrow> binding_key ` set (tr_bindings (f r)))
      else room_keys s j)"
  by (simp add: room_keys_def modify_topology_room_def hm_get_modify split: option.split)

lemma index_ok_mono:
  "index_ok s \<Longrightarrow> ts_index s' = ts_index s \<Longrightarrow> (\<And>i. room_keys s i \<subseteq> room_keys s' i) \<Longrightarrow> index_ok s'"
  by (fastforce simp: index_ok_def)

lemma decisions_ok_cong: "decisions_ok s \<Longrightarrow> ts_decisions s' = ts_decisions s \<Longrightarrow> decisions_ok s'"
  by (simp add: decisions_ok_def)

subsection \<open>Devices\<close>

text \<open>A change of the nodes only.\<close>

definition nodes_step :: "topology_store \<Rightarrow> topology_store \<Rightarrow> bool" where
  "nodes_step s s' \<longleftrightarrow> base_ok s' \<and> ts_index s' = ts_index s \<and> ts_decisions s' = ts_decisions s \<and>
     (\<forall>i. room_keys s i \<subseteq> room_keys s' i) \<and> store_room_ids s \<subseteq> store_room_ids s'"

lemma nodes_step_refl: "base_ok s \<Longrightarrow> nodes_step s s"
  by (simp add: nodes_step_def)

lemma nodes_step_trans: "nodes_step s t \<Longrightarrow> nodes_step t u \<Longrightarrow> nodes_step s u"
  by (simp add: nodes_step_def) (meson order_trans)

lemma nodes_step_base: "nodes_step s t \<Longrightarrow> base_ok t"
  by (simp add: nodes_step_def)

lemma nodes_step_rebuild:
  assumes "topology_ok s" "nodes_step s s'"
  shows "topology_ok (rebuild_room_device_projections s')"
proof (rule rebuild_projections_ok)
  show "base_ok s'" using assms by (simp add: nodes_step_def)
  show "index_ok s'" using assms index_ok_mono[of s s'] by (simp add: nodes_step_def topology_ok_def)
  show "decisions_ok s'" using assms decisions_ok_cong[of s s'] by (simp add: nodes_step_def topology_ok_def)
qed

lemma effective_placement_None: "effective_placement_for None p \<noteq> HubDefault"
  by (simp add: effective_placement_for_def)

definition placement_ok :: "string set \<Rightarrow> string option \<Rightarrow> device_placement \<Rightarrow> bool" where
  "placement_ok rooms parent p \<longleftrightarrow> (case parent of None \<Rightarrow> p \<noteq> HubDefault | Some i \<Rightarrow> i \<in> rooms)"

lemma node_ok_alt: "node_ok rooms i n \<longleftrightarrow> dn_id n = i \<and> dn_canonical_id n = i \<and> placement_ok rooms (dn_parent n) (dn_placement n)"
  by (simp add: node_ok_def placement_ok_def)

lemma nodes_step_upsert:
  assumes "base_ok s" "placement_ok (store_room_ids s) parent p"
  shows "nodes_step s (upsert_device_node d parent p s)"
  using assms by (auto simp: nodes_step_def upsert_device_node_def base_ok_def rooms_ok_def nodes_ok_iff node_ok_alt
      update_conv' distinct_update simp del: map_of_eq_Some_iff split: if_splits)

lemma nodes_step_map:
  assumes "base_ok s" "\<And>i n. node_ok (store_room_ids s) i n \<Longrightarrow> node_ok (store_room_ids s) i (f n)"
  shows "nodes_step s (s\<lparr>ts_nodes := hm_map f (ts_nodes s)\<rparr>)"
  using assms by (auto simp: nodes_step_def base_ok_def rooms_ok_def nodes_ok_iff hm_get_hm_map
      simp del: map_of_eq_Some_iff)

lemma nodes_step_modify:
  assumes "base_ok s" "\<And>n. node_ok (store_room_ids s) d n \<Longrightarrow> node_ok (store_room_ids s) d (f n)"
  shows "nodes_step s (s\<lparr>ts_nodes := hm_modify d f (ts_nodes s)\<rparr>)"
  using assms by (auto simp: nodes_step_def base_ok_def rooms_ok_def nodes_ok_iff hm_get_modify
      simp del: map_of_eq_Some_iff split: if_splits)

lemma nodes_step_room:
  assumes "base_ok s" "\<And>r. tr_id (f r) = tr_id r"
    "\<And>r. binding_key ` set (tr_bindings r) \<subseteq> binding_key ` set (tr_bindings (f r))"
  shows "nodes_step s (modify_topology_room i f s)"
proof -
  have "room_keys s j \<subseteq> room_keys (modify_topology_room i f s) j" for j
    using assms(3) by (cases "map_of (ts_rooms s) j"; cases "j = i") (simp_all add: room_keys_def modify_topology_room_def hm_get_modify)
  then show ?thesis using assms base_modify_room[of f s i] by (simp add: nodes_step_def)
qed

lemma nodes_step_customize: "base_ok s \<Longrightarrow> nodes_step s (customize room s)"
  by (cases room) (simp_all add: customize_def nodes_step_refl nodes_step_room)

lemma set_device_node_placement_ok [wf_intros]:
  assumes "topology_ok s"
  shows "topology_ok (snd (set_device_node_placement d parent p create s))"
proof -
  have base: "base_ok s" using assms by (simp add: topology_ok_def base_ok_def)
  have customized: "nodes_step s t \<Longrightarrow> nodes_step s (if c then customize r t else t)" for c r t
    using nodes_step_customize[of t r] nodes_step_trans[of s t] nodes_step_base[of s t] by simp
  have customized2: "nodes_step s t \<Longrightarrow> nodes_step s (if c then customize r (customize q t) else t)" for c r q t
    using customized[of t True q] customized[of "customize q t" True r] by simp
  show ?thesis
  proof (cases "\<exists>r. parent = Some r \<and> map_of (ts_rooms s) r = None")
    case True
    then show ?thesis using assms by (auto simp: set_device_node_placement_def)
  next
    case False
    then have known: "placement_ok (store_room_ids s) parent (effective_placement_for parent p)"
      by (cases parent) (auto simp: placement_ok_def effective_placement_None store_room_ids_def)
    have up: "nodes_step s (upsert_device_node d parent (effective_placement_for parent p) s)"
      using base known by (rule nodes_step_upsert)
    have mo: "nodes_step s (s\<lparr>ts_nodes := hm_modify d
       (\<lambda>n. n\<lparr>dn_parent := parent, dn_placement := effective_placement_for parent p\<rparr>) (ts_nodes s)\<rparr>)"
      using base known by (intro nodes_step_modify) (auto simp: node_ok_alt)
    have guard: "\<not> (case parent of None \<Rightarrow> False | Some r \<Rightarrow> map_of (ts_rooms s) r = None)"
      using False by (auto split: option.splits)
    show ?thesis
    proof (cases "map_of (ts_nodes s) d")
      case None
      show ?thesis
        unfolding set_device_node_placement_def if_not_P[OF guard] None option.case Let_def
        using nodes_step_rebuild[OF assms customized[OF up]] assms by simp
    next
      case (Some n)
      show ?thesis
        unfolding set_device_node_placement_def if_not_P[OF guard] Some option.case Let_def snd_conv
        by (intro nodes_step_rebuild[OF assms] customized2 mo)
    qed
  qed
qed

subsection \<open>Discovered rooms\<close>

definition mid_ok :: "topology_store \<Rightarrow> bool" where
  "mid_ok s \<longleftrightarrow> base_ok s \<and> index_ok s \<and> decisions_ok s"

lemma topology_ok_mid: "topology_ok s \<Longrightarrow> mid_ok s"
  by (simp add: mid_ok_def topology_ok_def base_ok_def)

lemma mid_ok_rebuild [wf_intros]: "mid_ok s \<Longrightarrow> topology_ok (rebuild_room_device_projections s)"
  by (simp add: mid_ok_def rebuild_projections_ok)

lemma mid_ok_step: "mid_ok s \<Longrightarrow> nodes_step s t \<Longrightarrow> mid_ok t"
  using index_ok_mono[of s t] decisions_ok_cong[of s t] by (simp add: mid_ok_def nodes_step_def)

lemma modify_first_keys: "(\<And>x. g (f x) = g x) \<Longrightarrow> g ` set (modify_first p f xs) = g ` set xs"
proof -
  assume g: "\<And>x. g (f x) = g x"
  have "map g (modify_first p f xs) = map g xs" by (induction xs) (auto simp: g)
  then have "set (map g (modify_first p f xs)) = set (map g xs)" by simp
  then show ?thesis by simp
qed

lemma binding_key_of: "is_binding k r b \<Longrightarrow> binding_key b = index_key k r"
  by (simp add: is_binding_def binding_key_def)

lemma upsert_hub_room_binding_keys:
  "binding_key ` set (tr_bindings (upsert_hub_room_binding b room)) = {binding_key b} \<union> binding_key ` set (tr_bindings room)"
proof (cases "list_ex (is_binding (hb_hub_key b) (hb_hub_room_id b)) (tr_bindings room)")
  case True
  then obtain c where "c \<in> set (tr_bindings room)" "binding_key c = binding_key b"
    by (auto simp: list_ex_iff dest!: binding_key_of) (auto simp: binding_key_def)
  moreover have "binding_key ` set (tr_bindings (upsert_hub_room_binding b room)) = binding_key ` set (tr_bindings room)"
    using True by (simp add: upsert_hub_room_binding_def modify_first_keys binding_key_def)
  ultimately show ?thesis by (metis image_eqI insert_absorb insert_is_Un)
qed (simp add: upsert_hub_room_binding_def Let_def)

lemma upsert_hub_room_binding_simps [simp]:
  "tr_id (upsert_hub_room_binding b room) = tr_id room"
  "tr_devices (upsert_hub_room_binding b room) = tr_devices room"
  "tr_customized (upsert_hub_room_binding b room) = tr_customized room"
  by (simp_all add: upsert_hub_room_binding_def Let_def)

lemma adopt_source_name_simps [simp]:
  "tr_id (adopt_source_name a n room) = tr_id room"
  "tr_bindings (adopt_source_name a n room) = tr_bindings room"
  by (simp_all add: adopt_source_name_def)

lemma nodes_step_bind: "base_ok s \<Longrightarrow> nodes_step s (bind_discovered room k d s)"
  unfolding bind_discovered_def by (rule nodes_step_room) (auto simp: upsert_hub_room_binding_keys)

lemma nodes_step_default:
  assumes "base_ok s" "room \<in> store_room_ids s"
  shows "nodes_step s (sync_hub_default_device_for_room room d s)"
  using assms nodes_step_upsert[of s "Some room" HubDefault d] nodes_step_modify[of s d]
  by (auto simp: sync_hub_default_device_for_room_def placement_ok_def node_ok_alt nodes_step_refl split: option.split)

lemma nodes_step_defaults:
  "base_ok s \<Longrightarrow> room \<in> store_room_ids s \<Longrightarrow> nodes_step s (fold (sync_hub_default_device_for_room room) ds s)"
proof (induction ds arbitrary: s)
  case Nil
  then show ?case by (simp add: nodes_step_refl)
next
  case (Cons d ds)
  let ?t = "sync_hub_default_device_for_room room d s"
  have step: "nodes_step s ?t" using Cons.prems by (rule nodes_step_default)
  then have "base_ok ?t" "room \<in> store_room_ids ?t" using Cons.prems by (auto simp: nodes_step_def)
  from Cons.IH[OF this] step show ?case by (auto intro: nodes_step_trans)
qed

lemma nodes_step_detach: "base_ok s \<Longrightarrow> nodes_step s (detach_hub_default_devices_for_room room k reg keep s)"
  unfolding detach_hub_default_devices_for_room_def
  by (rule nodes_step_map) (auto simp: node_ok_alt placement_ok_def)

lemma nodes_step_sync_devices:
  assumes "base_ok s" "room \<in> store_room_ids s"
  shows "nodes_step s (sync_devices room k reg devs s)"
proof -
  let ?t = "detach_hub_default_devices_for_room room k reg (set devs) s"
  have step: "nodes_step s ?t" using assms by (intro nodes_step_detach)
  then have "nodes_step ?t (fold (sync_hub_default_device_for_room room) devs ?t)"
    using assms by (intro nodes_step_defaults) (auto simp: nodes_step_def)
  with step show ?thesis unfolding sync_devices_def by (rule nodes_step_trans)
qed

lemma room_ids_bind [simp]: "store_room_ids (bind_discovered room k d s) = store_room_ids s"
  by (simp add: bind_discovered_def)

lemma refresh_room_ok [wf_intros]:
  assumes "topology_ok s" "room \<in> store_room_ids s"
  shows "topology_ok (refresh_room room a k reg d s)"
proof -
  have base: "base_ok s" using assms by (simp add: topology_ok_def base_ok_def)
  let ?t = "bind_discovered room k d s" and ?u = "modify_topology_room room (adopt_source_name a (dr_name d)) (bind_discovered room k d s)"
  have t: "nodes_step s ?t" using base by (rule nodes_step_bind)
  have u: "nodes_step ?t ?u" using nodes_step_base[OF t] by (rule nodes_step_room) auto
  have "nodes_step ?u (sync_devices room k reg (dr_devices d) ?u)"
    using nodes_step_base[OF u] assms by (intro nodes_step_sync_devices) auto
  with t u have "nodes_step s (sync_devices room k reg (dr_devices d) ?u)" by (blast intro: nodes_step_trans)
  then show ?thesis unfolding refresh_room_def by (intro mid_ok_rebuild mid_ok_step[OF topology_ok_mid[OF assms(1)]])
qed

text \<open>A new room, bound to the hub room, no node or index entry of which exists yet.\<close>

lemma mid_ok_parent: "mid_ok s \<Longrightarrow> map_of (ts_nodes s) d = Some n \<Longrightarrow> dn_parent n = Some p \<Longrightarrow> p \<in> store_room_ids s"
  by (force simp: mid_ok_def base_ok_def nodes_ok_iff node_ok_def simp del: map_of_eq_Some_iff)

lemma room_ids_put [simp]: "store_room_ids (s\<lparr>ts_rooms := AList.update i r (ts_rooms s)\<rparr>) = {i} \<union> store_room_ids s"
  by (auto simp: store_room_ids_def update_conv')

lemma node_ok_mono: "node_ok R i n \<Longrightarrow> R \<subseteq> R' \<Longrightarrow> node_ok R' i n"
  by (auto simp: node_ok_def split: option.splits)

lemma base_put_room:
  assumes "base_ok s" "tr_id r = i"
  shows "base_ok (s\<lparr>ts_rooms := AList.update i r (ts_rooms s)\<rparr>)"
  using assms by (auto simp: base_ok_def rooms_ok_iff nodes_ok_iff update_conv' distinct_update
      simp del: map_of_eq_Some_iff split: if_splits intro: node_ok_mono[OF _ subset_insertI])

lemma room_keys_put:
  "room_keys (s\<lparr>ts_rooms := AList.update i r (ts_rooms s)\<rparr>) j =
     (if j = i then binding_key ` set (tr_bindings r) else room_keys s j)"
  by (simp add: room_keys_def update_conv')

lemma index_ok_get: "index_ok s \<Longrightarrow> map_of (ts_index s) key = Some i \<Longrightarrow> key \<in> room_keys s i"
  unfolding index_ok_iff by blast

lemma index_value_known: "index_ok s \<Longrightarrow> map_of (ts_index s) key = Some i \<Longrightarrow> i \<in> store_room_ids s"
  using index_ok_get[of s key i] by (auto simp: room_keys_def store_room_ids_def split: option.splits)

lemma mid_ok_put_room:
  assumes "mid_ok s" "tr_id r = i" "i \<notin> store_room_ids s"
  shows "mid_ok (s\<lparr>ts_rooms := AList.update i r (ts_rooms s)\<rparr>)"
  unfolding mid_ok_def
proof (intro conjI)
  show "base_ok (s\<lparr>ts_rooms := AList.update i r (ts_rooms s)\<rparr>)" using assms by (simp add: base_put_room mid_ok_def)
  show "index_ok (s\<lparr>ts_rooms := AList.update i r (ts_rooms s)\<rparr>)"
    using assms index_value_known[of s]
    by (auto simp: mid_ok_def index_ok_iff room_keys_put simp del: map_of_eq_Some_iff)
  show "decisions_ok (s\<lparr>ts_rooms := AList.update i r (ts_rooms s)\<rparr>)" using assms by (simp add: mid_ok_def decisions_ok_def)
qed

lemma mid_ok_set_index:
  assumes "mid_ok s" "index_key k r \<in> room_keys s i"
  shows "mid_ok (set_index k r i s)"
  using assms by (auto simp: mid_ok_def set_index_def base_ok_def rooms_ok_def nodes_ok_def decisions_ok_def
      index_ok_iff update_conv' distinct_update simp del: map_of_eq_Some_iff)

lemma insert_discovered_room_alt:
  "insert_discovered_room uuid k d s = set_index k (dr_hub_room_id d) uuid
     (s\<lparr>ts_rooms := AList.update uuid
        (upsert_hub_room_binding (discovered_binding k d) (topology_room_new uuid (dr_name d))) (ts_rooms s)\<rparr>)"
  by (simp add: insert_discovered_room_def set_index_def)

lemma discovered_binding_key [simp]: "binding_key (discovered_binding k d) = index_key k (dr_hub_room_id d)"
  by (simp add: binding_key_def discovered_binding_def)

lemma topology_room_new_simps [simp]:
  "tr_id (topology_room_new i n) = i" "tr_bindings (topology_room_new i n) = []" "tr_devices (topology_room_new i n) = []"
  by (simp_all add: topology_room_new_def)

lemma insert_discovered_room_ok:
  assumes "mid_ok s" "uuid \<notin> store_room_ids s"
  shows "mid_ok (insert_discovered_room uuid k d s)"
  unfolding insert_discovered_room_alt
  using assms by (intro mid_ok_set_index mid_ok_put_room)
    (auto simp: room_keys_put upsert_hub_room_binding_keys)

lemma room_ids_set_index [simp]: "store_room_ids (set_index k r i s) = store_room_ids s"
  by (simp add: set_index_def)

lemma mid_ok_base: "mid_ok s \<Longrightarrow> base_ok s"
  by (simp add: mid_ok_def)

lemma create_discovered_room_ok [wf_intros]:
  assumes "mid_ok s" "uuid \<notin> store_room_ids s"
  shows "topology_ok (create_discovered_room uuid k d s)"
proof -
  have ins: "mid_ok (insert_discovered_room uuid k d s)" using assms by (rule insert_discovered_room_ok)
  have "uuid \<in> store_room_ids (insert_discovered_room uuid k d s)" by (simp add: insert_discovered_room_alt)
  then have "nodes_step (insert_discovered_room uuid k d s)
      (fold (sync_hub_default_device_for_room uuid) (dr_devices d) (insert_discovered_room uuid k d s))"
    using mid_ok_base[OF ins] by (intro nodes_step_defaults)
  then show ?thesis unfolding create_discovered_room_def by (intro mid_ok_rebuild mid_ok_step[OF ins])
qed

text \<open>Syncing the devices of a room moves nodes to that room only.\<close>

definition parents :: "topology_store \<Rightarrow> string set" where
  "parents s = {p. \<exists>d n. map_of (ts_nodes s) d = Some n \<and> dn_parent n = Some p}"

lemma parents_default: "parents (sync_hub_default_device_for_room room d s) \<subseteq> {room} \<union> parents s"
  by (auto simp: parents_def sync_hub_default_device_for_room_def upsert_device_node_def update_conv' hm_get_modify
      simp del: map_of_eq_Some_iff split: option.splits if_splits)

lemma parents_defaults: "parents (fold (sync_hub_default_device_for_room room) ds s) \<subseteq> {room} \<union> parents s"
proof (induction ds arbitrary: s)
  case (Cons d ds)
  from Cons.IH[of "sync_hub_default_device_for_room room d s"] parents_default[of room d s] show ?case by auto
qed (simp add: subset_insertI)

lemma parents_detach: "parents (detach_hub_default_devices_for_room room k reg keep s) \<subseteq> parents s"
proof
  fix p
  assume "p \<in> parents (detach_hub_default_devices_for_room room k reg keep s)"
  then obtain d n where "map_of (ts_nodes (detach_hub_default_devices_for_room room k reg keep s)) d = Some n"
      "dn_parent n = Some p" unfolding parents_def by blast
  then obtain n' where "map_of (ts_nodes s) d = Some n'" "dn_parent n' = Some p"
    by (auto simp: detach_hub_default_devices_for_room_def hm_get_hm_map simp del: map_of_eq_Some_iff split: if_splits)
  then show "p \<in> parents s" unfolding parents_def by blast
qed

lemma parents_sync_devices: "parents (sync_devices room k reg devs s) \<subseteq> {room} \<union> parents s"
  unfolding sync_devices_def using parents_defaults parents_detach by blast

lemma mem_map_filter: "x \<in> set (List.map_filter f xs) \<longleftrightarrow> (\<exists>y \<in> set xs. f y = Some x)"
  by (induction xs) (auto simp: map_filter_simps split: option.split)

lemma mem_room_projection:
  "x \<in> set (room_projection i s) \<longleftrightarrow>
     (\<exists>d n. map_of (ts_nodes s) d = Some n \<and> dn_parent n = Some i \<and>
        x = \<lparr>rd_device_id = dn_canonical_id n, rd_placement = dn_placement n\<rparr>)" (is "?l \<longleftrightarrow> ?r")
proof -
  have "?l \<longleftrightarrow> (\<exists>d \<in> dom (map_of (ts_nodes s)). placed_in i s d = Some x)"
    by (simp add: room_projection_def mem_map_filter dom_map_of_conv_image_fst)
  also have "\<dots> \<longleftrightarrow> ?r"
    unfolding placed_in_def by (force split: option.splits if_splits)
  finally show ?thesis .
qed

text \<open>A room without devices is the parent of no node.\<close>

lemma empty_room_no_parent:
  assumes "topology_ok s" "map_of (ts_rooms s) i = Some r" "tr_devices r = []"
  shows "i \<notin> parents s"
proof
  assume "i \<in> parents s"
  then obtain d n where n: "map_of (ts_nodes s) d = Some n" "dn_parent n = Some i" unfolding parents_def by blast
  have "room_projection i s = []"
    using assms projections_ok_iff[of s] unfolding topology_ok_def by metis
  moreover have "\<lparr>rd_device_id = dn_canonical_id n, rd_placement = dn_placement n\<rparr> \<in> set (room_projection i s)"
    using n unfolding mem_room_projection by blast
  ultimately show False by simp
qed

text \<open>Removing a room that no node is in and that only one index entry leads to, which is moved.\<close>

lemma mid_ok_drop_room:
  assumes ok: "mid_ok t" and target: "target \<noteq> i" "index_key k r \<in> room_keys t target"
    and orphan: "i \<notin> parents t"
    and single: "\<And>key. map_of (ts_index t) key = Some i \<Longrightarrow> key = index_key k r"
  shows "mid_ok (set_index k r target (t\<lparr>ts_rooms := AList.delete i (ts_rooms t)\<rparr>))" (is "mid_ok (set_index k r target ?u)")
proof -
  have ids: "store_room_ids ?u = store_room_ids t - {i}" by (auto simp: store_room_ids_def delete_conv')
  have keys: "room_keys ?u j = (if j = i then {} else room_keys t j)" for j
    by (simp add: room_keys_def delete_conv')
  have base: "base_ok ?u"
    unfolding base_ok_def
  proof
    show "rooms_ok ?u" using ok
      by (auto simp: mid_ok_def base_ok_def rooms_ok_iff delete_conv' distinct_delete simp del: map_of_eq_Some_iff split: if_splits)
    have "node_ok (store_room_ids t - {i}) d n" if n: "map_of (ts_nodes t) d = Some n" for d n
    proof -
      have "node_ok (store_room_ids t) d n" using ok n by (simp add: mid_ok_def base_ok_def nodes_ok_iff del: map_of_eq_Some_iff)
      moreover have "dn_parent n \<noteq> Some i" using orphan n unfolding parents_def by blast
      ultimately show ?thesis by (auto simp: node_ok_def split: option.splits)
    qed
    then show "nodes_ok ?u" using ok by (simp add: mid_ok_def base_ok_def nodes_ok_iff ids del: map_of_eq_Some_iff)
  qed
  have "key \<in> room_keys (set_index k r target ?u) j"
    if "map_of (ts_index (set_index k r target ?u)) key = Some j" for key j
  proof (cases "key = index_key k r")
    case True
    with that target show ?thesis by (auto simp: set_index_def update_conv' keys)
  next
    case False
    with that have old: "map_of (ts_index t) key = Some j" by (simp add: set_index_def update_conv')
    with single False have "j \<noteq> i" by blast
    then show ?thesis using index_ok_get[OF _ old] ok by (simp add: set_index_def keys mid_ok_def)
  qed
  moreover have "hm_ok (ts_index (set_index k r target ?u))"
    using ok by (simp add: set_index_def distinct_update mid_ok_def index_ok_iff)
  ultimately have "index_ok (set_index k r target ?u)" unfolding index_ok_iff by blast
  moreover have "base_ok (set_index k r target ?u)"
    using base by (simp add: set_index_def base_ok_def rooms_ok_def nodes_ok_def)
  moreover have "decisions_ok (set_index k r target ?u)" using ok by (simp add: mid_ok_def decisions_ok_def set_index_def)
  ultimately show ?thesis by (simp add: mid_ok_def)
qed

end
