(* ===== verification/TopologyEvents.thy ===== *)
theory TopologyEvents
  imports TopologyInvariants
begin

text \<open>
  Every operation of the topology store keeps the invariant; the store as a state machine over its
  operations.
\<close>

section \<open>Sync\<close>

lemma apply_approved_new_ok:
  assumes "topology_ok s" "target \<in> store_room_ids s"
  shows "topology_ok (apply_approved target None k reg d s)"
proof -
  have mid: "mid_ok s" using assms(1) by (rule topology_ok_mid)
  let ?b = "bind_discovered target k d s"
  let ?t = "sync_devices target k reg (dr_devices d) ?b"
  have b: "nodes_step s ?b" using mid_ok_base[OF mid] by (rule nodes_step_bind)
  have t: "nodes_step ?b ?t" using nodes_step_base[OF b] assms(2) by (intro nodes_step_sync_devices) simp_all
  have mt: "mid_ok ?t" using mid_ok_step[OF mid nodes_step_trans[OF b t]] .
  have "index_key k (dr_hub_room_id d) \<in> room_keys ?b target"
    using assms(2) by (auto simp: bind_discovered_def room_keys_modify upsert_hub_room_binding_keys store_room_ids_def split: option.split)
  then have "index_key k (dr_hub_room_id d) \<in> room_keys ?t target" using t by (auto simp: nodes_step_def)
  then show ?thesis unfolding apply_approved_def by (simp add: Let_def mid_ok_rebuild mid_ok_set_index[OF mt])
qed

lemma freshly_created_single:
  assumes "index_ok s" "freshly_created i s" "map_of (ts_index s) (index_key k r) = Some i" "map_of (ts_index s) key = Some i"
  shows "key = index_key k r"
proof -
  from assms(2) obtain room b where room: "map_of (ts_rooms s) i = Some room" "tr_bindings room = [b]"
    by (auto simp: freshly_created_def length_Suc_conv split: option.splits)
  then have "room_keys s i = {binding_key b}" by (simp add: room_keys_def)
  then show ?thesis using index_ok_get[OF assms(1,3)] index_ok_get[OF assms(1,4)] by simp
qed

lemma parents_bind [simp]: "parents (bind_discovered i k d s) = parents s"
  by (simp add: parents_def bind_discovered_def)

lemma apply_approved_duplicate_ok:
  assumes ok: "topology_ok s" and target: "target \<in> store_room_ids s" "target \<noteq> i"
    and fresh: "freshly_created i s" and idx: "map_of (ts_index s) (index_key k (dr_hub_room_id d)) = Some i"
  shows "topology_ok (apply_approved target (Some i) k reg d s)"
proof -
  have mid: "mid_ok s" using ok by (rule topology_ok_mid)
  let ?b = "bind_discovered target k d s"
  let ?t = "sync_devices target k reg (dr_devices d) ?b"
  have b: "nodes_step s ?b" using mid_ok_base[OF mid] by (rule nodes_step_bind)
  have t: "nodes_step ?b ?t" using nodes_step_base[OF b] target by (intro nodes_step_sync_devices) simp_all
  have st: "nodes_step s ?t" using nodes_step_trans[OF b t] .
  have mt: "mid_ok ?t" using mid_ok_step[OF mid st] .
  have "index_key k (dr_hub_room_id d) \<in> room_keys ?b target"
    using target by (auto simp: bind_discovered_def room_keys_modify upsert_hub_room_binding_keys store_room_ids_def split: option.split)
  then have key: "index_key k (dr_hub_room_id d) \<in> room_keys ?t target" using t by (auto simp: nodes_step_def)
  have "i \<notin> parents s"
    using fresh empty_room_no_parent[OF ok, of i] by (auto simp: freshly_created_def simp del: map_of_eq_Some_iff split: option.splits)
  then have orphan: "i \<notin> parents ?t" using parents_sync_devices[of target k reg "dr_devices d" ?b] target(2) by auto
  have single: "key = index_key k (dr_hub_room_id d)" if "map_of (ts_index ?t) key = Some i" for key
    using freshly_created_single[OF _ fresh idx] mid that st by (simp add: mid_ok_def nodes_step_def)
  show ?thesis
    unfolding apply_approved_def Let_def option.case
    by (rule mid_ok_rebuild) (rule mid_ok_drop_room[OF mt target(2) key orphan single])
qed

text \<open>
  A sync takes a small room with a namesake for a duplicate of its hub room and deletes it in favour of the room that an
  approved binding names. The binding may name that very room.
\<close>

definition deletes_own_room :: "(string \<Rightarrow> string) \<Rightarrow> hub_key \<Rightarrow> discovered_topology_room \<Rightarrow> topology_store \<Rightarrow> bool" where
  "deletes_own_room lower k d s \<longleftrightarrow>
     (case map_of (ts_index s) (index_key k (dr_hub_room_id d)) of
        None \<Rightarrow> False
      | Some room \<Rightarrow> freshly_created room s \<and> existing_target k (dr_hub_room_id d) s = Some room \<and>
          name_matches lower (Some room) k (dr_name d) s \<noteq> [])"

lemma existing_target_known: "existing_target k r s = Some t \<Longrightarrow> t \<in> store_room_ids s"
  by (auto simp: existing_target_def store_room_ids_def dest: opt_filter_SomeD)

lemma mid_ok_revoke: "mid_ok (revoke_binding k r s) = mid_ok s"
  by (simp add: mid_ok_def revoke_binding_def base_ok_def rooms_ok_def nodes_ok_def store_room_ids_def index_ok_def
      room_keys_def decisions_ok_def)

lemma room_ids_revoke [simp]: "store_room_ids (revoke_binding k r s) = store_room_ids s"
  by (simp add: revoke_binding_def store_room_ids_def)

lemma sync_ok [wf_intros]:
  assumes ok: "topology_ok s" and fresh: "uuid \<notin> store_room_ids s" and app: "\<not> deletes_own_room lower k d s"
  shows "topology_ok (snd (sync_hub_room_with_registry lower uuid k d reg s))"
proof (cases "map_of (ts_index s) (index_key k (dr_hub_room_id d))")
  case None
  have mid: "mid_ok s" using ok by (rule topology_ok_mid)
  show ?thesis
    using create_discovered_room_ok[OF mid fresh] create_discovered_room_ok[of "revoke_binding k (dr_hub_room_id d) s" uuid k d]
      apply_approved_new_ok[OF ok existing_target_known] mid fresh
    by (auto simp: None sync_hub_room_with_registry_def sync_unmapped_room_def Let_def mid_ok_revoke split: list.split option.split)
next
  case (Some room)
  have room: "room \<in> store_room_ids s" using ok Some index_value_known by (simp add: topology_ok_def)
  have refresh: "topology_ok (refresh_room room a k reg d s)" for a using refresh_room_ok[OF ok room] .
  have dup: "topology_ok (apply_approved t (Some room) k reg d s)"
    if "freshly_created room s" "existing_target k (dr_hub_room_id d) s = Some t"
      "name_matches lower (Some room) k (dr_name d) s \<noteq> []" for t
    using that app Some by (intro apply_approved_duplicate_ok[OF ok existing_target_known]) (auto simp: deletes_own_room_def)
  show ?thesis
  proof (cases "freshly_created room s")
    case True
    then show ?thesis
      using refresh dup by (auto simp: Some sync_hub_room_with_registry_def sync_mapped_room_def Let_def split: list.split option.split)
  next
    case False
    then show ?thesis using refresh by (simp add: Some sync_hub_room_with_registry_def sync_mapped_room_def)
  qed
qed

text \<open>Operations that change rooms in place keep the devices of the rooms and the links without a rebuild.\<close>

lemma topology_ok_kept:
  assumes ok: "topology_ok s" and mid: "mid_ok s'" and nodes: "ts_nodes s' = ts_nodes s"
    and links: "set (ts_links s') \<subseteq> set (ts_links s)" and ids: "store_room_ids s \<subseteq> store_room_ids s'"
    and devs: "\<And>i r. map_of (ts_rooms s') i = Some r \<Longrightarrow> tr_devices r = room_projection i s"
  shows "topology_ok s'"
proof -
  have rooms: "rooms_ok s'" using mid by (simp add: mid_ok_def base_ok_def)
  then have "projections_ok s'"
    using devs room_projection_cong[OF nodes] projections_ok_iff[OF rooms] by simp
  moreover have "has_public_node i s \<Longrightarrow> has_public_node i s'" for i
    using ids nodes by (auto simp: has_public_node_def store_room_ids_def dom_def)
  then have "links_ok s'" using ok links by (auto simp: topology_ok_def links_ok_def)
  ultimately show ?thesis using mid by (simp add: topology_ok_def mid_ok_def base_ok_def)
qed

lemma topology_ok_devices:
  "topology_ok s \<Longrightarrow> map_of (ts_rooms s) i = Some r \<Longrightarrow> tr_devices r = room_projection i s"
  using projections_ok_iff[of s] unfolding topology_ok_def by metis

lemma no_parent_projection:
  assumes "i \<notin> parents s"
  shows "room_projection i s = []"
proof -
  have "x \<notin> set (room_projection i s)" for x
    using assms unfolding mem_room_projection parents_def by blast
  then show ?thesis by (metis list.set_intros(1) neq_Nil_conv)
qed

lemma unknown_no_parent: "mid_ok s \<Longrightarrow> i \<notin> store_room_ids s \<Longrightarrow> i \<notin> parents s"
  using mid_ok_parent unfolding parents_def by blast

lemma insert_discovered_topology_ok:
  assumes ok: "topology_ok s" and fresh: "uuid \<notin> store_room_ids s"
  shows "topology_ok (insert_discovered_room uuid k d s)"
proof (rule topology_ok_kept[OF ok])
  have mid: "mid_ok s" using ok by (rule topology_ok_mid)
  show "mid_ok (insert_discovered_room uuid k d s)" using mid fresh by (rule insert_discovered_room_ok)
  fix i r
  assume "map_of (ts_rooms (insert_discovered_room uuid k d s)) i = Some r"
  then show "tr_devices r = room_projection i s"
    using topology_ok_devices[OF ok] no_parent_projection[OF unknown_no_parent[OF mid fresh]]
    by (auto simp: insert_discovered_room_def update_conv' simp del: map_of_eq_Some_iff split: if_splits)
qed (auto simp: insert_discovered_room_def store_room_ids_def update_conv')

text \<open>Updating a room in place.\<close>

lemma modify_room_topology_ok:
  assumes ok: "topology_ok s" and f: "\<And>r. tr_id (f r) = tr_id r" "\<And>r. tr_devices (f r) = tr_devices r"
    "\<And>r. binding_key ` set (tr_bindings r) \<subseteq> binding_key ` set (tr_bindings (f r))"
  shows "topology_ok (modify_topology_room i f s)"
proof (rule topology_ok_kept[OF ok])
  have mid: "mid_ok s" using ok by (rule topology_ok_mid)
  show "mid_ok (modify_topology_room i f s)" using mid_ok_step[OF mid nodes_step_room[OF mid_ok_base[OF mid] f(1,3)]] .
  fix j r
  assume "map_of (ts_rooms (modify_topology_room i f s)) j = Some r"
  then obtain r' where "map_of (ts_rooms s) j = Some r'" "tr_devices r = tr_devices r'"
    using f(2) by (auto simp: modify_topology_room_def hm_get_modify simp del: map_of_eq_Some_iff split: if_splits)
  then show "tr_devices r = room_projection j s" using topology_ok_devices[OF ok] by simp
qed (simp_all add: room_ids_modify)

lemma set_index_topology_ok:
  assumes ok: "topology_ok s" and key: "index_key k r \<in> room_keys s i"
  shows "topology_ok (set_index k r i s)"
proof (rule topology_ok_kept[OF ok])
  show "mid_ok (set_index k r i s)" using topology_ok_mid[OF ok] key by (rule mid_ok_set_index)
qed (use topology_ok_devices[OF ok] in \<open>auto simp: set_index_def simp del: map_of_eq_Some_iff\<close>)

lemma bound_key:
  "i \<in> store_room_ids s \<Longrightarrow> binding_key b \<in> room_keys (modify_topology_room i (upsert_hub_room_binding b) s) i"
  by (auto simp: room_keys_modify upsert_hub_room_binding_keys store_room_ids_def split: option.split)

lemma translate_or_create_ok [wf_intros]:
  assumes ok: "topology_ok s" and fresh: "uuid \<notin> store_room_ids s"
  shows "topology_ok (snd (translate_or_create_with_status uuid k r n control lights s))"
proof -
  have bind: "topology_ok (set_index k (dr_hub_room_id d) t (bind_discovered t k d s))" if "t \<in> store_room_ids s" for t d k
    using that bound_key[of t s "discovered_binding k d"]
    by (intro set_index_topology_ok)
       (auto simp: bind_discovered_def upsert_hub_room_binding_keys intro: modify_room_topology_ok[OF ok])
  show ?thesis
    using bind[OF existing_target_known[of k r s], of _ k "\<lparr>dr_hub_room_id = r, dr_name = n, dr_authoritative = False,
        dr_control_id = control, dr_lights = lights, dr_devices = []\<rparr>"] insert_discovered_topology_ok[OF ok fresh]
    by (simp add: translate_or_create_with_status_def ok Let_def split: option.split)
qed

section \<open>Bindings\<close>

text \<open>Rewriting all rooms and dropping the index entries that lose their binding.\<close>

lemma hm_map_topology_ok:
  assumes ok: "topology_ok s" and f: "\<And>r. tr_id (f r) = tr_id r" "\<And>r. tr_devices (f r) = tr_devices r"
    and s': "s' = s\<lparr>ts_rooms := hm_map f (ts_rooms s), ts_index := idx, ts_managed := mgd, ts_decisions := decs\<rparr>"
    and idx: "index_ok s'" and decs: "decisions_ok s'"
  shows "topology_ok s'"
proof (rule topology_ok_kept[OF ok])
  have ids: "store_room_ids s' = store_room_ids s" by (auto simp: s' store_room_ids_def hm_get_hm_map dom_def)
  have "base_ok (s\<lparr>ts_rooms := hm_map f (ts_rooms s)\<rparr>)"
    using base_hm_map[OF f(1) mid_ok_base[OF topology_ok_mid[OF ok]]] .
  then have "base_ok s'" by (simp add: s' base_ok_def rooms_ok_def nodes_ok_def)
  with idx decs show "mid_ok s'" by (simp add: mid_ok_def)
  show "store_room_ids s \<subseteq> store_room_ids s'" by (simp add: ids)
  fix j r
  assume "map_of (ts_rooms s') j = Some r"
  then show "tr_devices r = room_projection j s"
    using f(2) topology_ok_devices[OF ok, of j] by (auto simp: s' hm_get_hm_map simp del: map_of_eq_Some_iff)
qed (simp_all add: s')

lemma decisions_ok_filter: "decisions_ok s \<Longrightarrow> ts_decisions s' = filter p (ts_decisions s) \<Longrightarrow> decisions_ok s'"
  by (simp add: decisions_ok_def distinct_map_filter)

lemma keep_bindings_simps [simp]:
  "tr_id (keep_bindings p r) = tr_id r" "tr_devices (keep_bindings p r) = tr_devices r"
  "tr_bindings (keep_bindings p r) = filter p (tr_bindings r)"
  by (simp_all add: keep_bindings_def)

lemma room_keys_hm_map:
  "room_keys (s\<lparr>ts_rooms := hm_map f (ts_rooms s)\<rparr>) i =
     (case map_of (ts_rooms s) i of None \<Rightarrow> {} | Some r \<Rightarrow> binding_key ` set (tr_bindings (f r)))"
  by (simp add: room_keys_def hm_get_hm_map split: option.split)

lemma index_ok_keep:
  assumes ok: "index_ok s" and idx: "\<And>key i. map_of (ts_index s') key = Some i \<Longrightarrow> map_of (ts_index s) key = Some i \<and> q key"
    and hm: "hm_ok (ts_index s')" and rooms: "ts_rooms s' = hm_map f (ts_rooms s)"
    and keep: "\<And>r b. b \<in> set (tr_bindings r) \<Longrightarrow> q (binding_key b) \<Longrightarrow> binding_key b \<in> binding_key ` set (tr_bindings (f r))"
  shows "index_ok s'"
  unfolding index_ok_iff
proof (intro conjI allI impI hm)
  fix key i
  assume "map_of (ts_index s') key = Some i"
  then have old: "map_of (ts_index s) key = Some i" and q: "q key" using idx by auto
  from index_ok_get[OF ok old] obtain r b where r: "map_of (ts_rooms s) i = Some r" "b \<in> set (tr_bindings r)" "key = binding_key b"
    by (auto simp: room_keys_def split: option.splits)
  then show "key \<in> room_keys s' i" using keep q by (simp add: room_keys_def rooms hm_get_hm_map)
qed

lemma map_of_filter_fst: "hm_ok m \<Longrightarrow> map_of (filter (\<lambda>(k, v). p k) m) x = (if p x then map_of m x else None)"
  by (induction m) (auto simp: map_of_eq_None_iff)

lemma hm_ok_filter: "hm_ok m \<Longrightarrow> hm_ok (filter p m)"
  by (simp add: distinct_map_filter)

lemma remove_stale_bindings_ok [wf_intros]:
  assumes ok: "topology_ok s"
  shows "topology_ok (snd (remove_stale_bindings k current s))"
proof -
  let ?p = "\<lambda>b. hb_hub_key b \<noteq> k \<or> hb_hub_room_id b \<in> set current"
  let ?q = "\<lambda>key. fst key \<noteq> display_hub_key k \<or> snd key \<in> set current"
  let ?s = "snd (remove_stale_bindings k current s)"
  have idx: "index_ok s" and hm: "hm_ok (ts_index s)" using ok by (simp_all add: topology_ok_def index_ok_iff)
  have index: "ts_index ?s = filter (\<lambda>(key, i). ?q key) (ts_index s)"
    by (simp add: remove_stale_bindings_def Let_def keep_room_bindings_def split_def)
  have "index_ok ?s"
  proof (rule index_ok_keep[OF idx, where q = ?q and f = "keep_bindings ?p"])
    show "ts_rooms ?s = hm_map (keep_bindings ?p) (ts_rooms s)"
      by (simp add: remove_stale_bindings_def Let_def keep_room_bindings_def)
    show "hm_ok (ts_index ?s)" unfolding index using hm by (rule hm_ok_filter)
  qed (auto simp: index map_of_filter_fst[OF hm] binding_key_def index_key_def image_iff simp del: map_of_eq_Some_iff split: if_splits)
  moreover have "decisions_ok ?s"
    using ok decisions_ok_filter[of s ?s] by (simp add: topology_ok_def remove_stale_bindings_def Let_def keep_room_bindings_def)
  ultimately show ?thesis
    by (intro hm_map_topology_ok[OF ok, where f = "keep_bindings ?p" and idx = "ts_index ?s" and mgd = "ts_managed ?s" and decs = "ts_decisions ?s"])
       (simp_all add: remove_stale_bindings_def Let_def keep_room_bindings_def)
qed

lemma base_rooms:
  assumes "base_ok s" "map fst rooms = map fst (ts_rooms s)" "\<And>i r. (i, r) \<in> set rooms \<Longrightarrow> tr_id r = i"
  shows "base_ok (s\<lparr>ts_rooms := rooms\<rparr>)"
proof -
  have "set (map fst rooms) = set (map fst (ts_rooms s))" using assms(2) by simp
  then have "dom (map_of rooms) = dom (map_of (ts_rooms s))" by (simp add: dom_map_of_conv_image_fst)
  then have "store_room_ids (s\<lparr>ts_rooms := rooms\<rparr>) = store_room_ids s" by (simp add: store_room_ids_def)
  then show ?thesis using assms by (auto simp: base_ok_def rooms_ok_def nodes_ok_def)
qed

text \<open>Operations that leave rooms, nodes and index alone.\<close>

lemma topology_ok_same:
  assumes "topology_ok s" "ts_rooms s' = ts_rooms s" "ts_nodes s' = ts_nodes s" "ts_index s' = ts_index s"
    "decisions_ok s'" "set (ts_links s') \<subseteq> set (ts_links s) \<union> {l. has_public_node (nl_source l) s \<and> has_public_node (nl_target l) s}"
  shows "topology_ok s'"
proof -
  have "has_public_node i s' = has_public_node i s" for i using assms by (simp add: has_public_node_def)
  then have "links_ok s'" using assms(1,6) by (auto simp: topology_ok_def links_ok_def)
  moreover have "room_keys s' = room_keys s" "store_room_ids s' = store_room_ids s"
    using assms(2) by (simp_all add: room_keys_def[abs_def] store_room_ids_def)
  moreover have "projections_ok s'"
    using assms(1,2) room_projection_cong[OF assms(3)] by (simp add: topology_ok_def projections_ok_def)
  ultimately show ?thesis
    using assms by (simp add: topology_ok_def rooms_ok_def nodes_ok_def index_ok_def)
qed

lemma topology_ok_base: "topology_ok s \<Longrightarrow> base_ok s"
  by (simp add: topology_ok_def base_ok_def)

lemma topology_ok_decisions: "topology_ok s \<Longrightarrow> decisions_ok s"
  by (simp add: topology_ok_def)

lemma affected_rooms_none: "affected_rooms p s = [] \<Longrightarrow> keep_room_bindings p s = s"
proof -
  assume "affected_rooms p s = []"
  then have all: "filter p (tr_bindings r) = tr_bindings r" if "(i, r) \<in> set (ts_rooms s)" for i r
    using that by (auto simp: affected_rooms_def filter_empty_conv list_ex_iff intro!: filter_True)
  have "hm_map (keep_bindings p) (ts_rooms s) = ts_rooms s"
    unfolding hm_map_def by (rule map_idI) (auto simp: keep_bindings_def all)
  then show ?thesis by (simp add: keep_room_bindings_def)
qed

lemma remove_bindings_where_ok [wf_intros]:
  assumes ok: "topology_ok s"
  shows "topology_ok (snd (remove_room_bindings_for_hub_where k q s))"
proof -
  have "base_ok (keep_room_bindings p s)" for p
    unfolding keep_room_bindings_def by (rule base_hm_map[OF _ topology_ok_base[OF ok]]) simp
  then have "topology_ok (rebuild_topology_indices (keep_room_bindings p s))" for p by (rule rebuild_topology_ok)
  then show ?thesis
    using ok by (simp add: remove_room_bindings_for_hub_where_def Let_def affected_rooms_none)
qed

lemma remove_hub_room_binding_everywhere_ok [wf_intros]:
  assumes ok: "topology_ok s"
  shows "topology_ok (snd (remove_hub_room_binding_everywhere k r s))"
proof -
  let ?s = "snd (remove_hub_room_binding_everywhere k r s)"
  let ?q = "\<lambda>key. key \<noteq> index_key k r"
  have idx: "index_ok s" and hm: "hm_ok (ts_index s)" using ok by (simp_all add: topology_ok_def index_ok_iff)
  have "index_ok ?s"
  proof (rule index_ok_keep[OF idx, where q = ?q and f = "remove_hub_room_binding k r"])
    fix room :: topology_room and b
    assume "b \<in> set (tr_bindings room)" "binding_key b \<noteq> index_key k r"
    then show "binding_key b \<in> binding_key ` set (tr_bindings (remove_hub_room_binding k r room))"
      by (auto simp: remove_hub_room_binding_def dest: binding_key_of)
  qed (use hm in \<open>auto simp: remove_hub_room_binding_everywhere_def Let_def delete_conv' distinct_delete
      simp del: map_of_eq_Some_iff split: if_splits\<close>)
  moreover have "decisions_ok ?s"
    using topology_ok_decisions[OF ok] by (simp add: decisions_ok_def remove_hub_room_binding_everywhere_def Let_def)
  ultimately show ?thesis
    by (intro hm_map_topology_ok[OF ok, where f = "remove_hub_room_binding k r" and idx = "ts_index ?s" and mgd = "ts_managed ?s"
        and decs = "ts_decisions ?s"])
       (simp_all add: remove_hub_room_binding_everywhere_def Let_def remove_hub_room_binding_def)
qed

lemma upsert_room_binding_ok [wf_intros]:
  assumes ok: "topology_ok s"
  shows "topology_ok (snd (upsert_room_binding i b s))"
proof (cases "map_of (ts_rooms s) i")
  case None
  then show ?thesis using ok by (simp add: upsert_room_binding_def)
next
  case (Some r)
  have known: "i \<in> store_room_ids s" using Some by (auto simp: store_room_ids_def)
  show ?thesis
  proof (cases "binding_for_hub_room (hb_hub_key b) (hb_hub_room_id b) r = Some b")
    case True
    then have "b \<in> set (tr_bindings r)" by (auto simp: binding_for_hub_room_def find_Some_iff)
    then have "index_key (hb_hub_key b) (hb_hub_room_id b) \<in> room_keys s i"
      using Some by (simp add: room_keys_def flip: binding_key_def)
    then show ?thesis using True Some ok by (simp add: upsert_room_binding_def Let_def set_index_topology_ok)
  next
    case False
    have "topology_ok (modify_topology_room i (upsert_hub_room_binding b) s)"
      using ok by (rule modify_room_topology_ok) (auto simp: upsert_hub_room_binding_keys)
    then have "topology_ok (set_index (hb_hub_key b) (hb_hub_room_id b) i (modify_topology_room i (upsert_hub_room_binding b) s))"
      using bound_key[OF known, of b] unfolding binding_key_def by (rule set_index_topology_ok)
    then show ?thesis using False Some by (simp add: upsert_room_binding_def Let_def)
  qed
qed

lemma keep_lights_keys [simp]:
  "binding_key ` set (map (\<lambda>b. if hb_hub_key b = k then b\<lparr>hb_lights := filter p (hb_lights b)\<rparr> else b) bs) = binding_key ` set bs"
  by (induction bs) (simp_all add: binding_key_def)

lemma lights_topology_ok:
  assumes ok: "topology_ok s" and f: "\<And>r. tr_id (f r) = tr_id r" "\<And>r. tr_devices (f r) = tr_devices r"
    "\<And>r. binding_key ` set (tr_bindings (f r)) = binding_key ` set (tr_bindings r)"
  shows "topology_ok (s\<lparr>ts_rooms := hm_map f (ts_rooms s)\<rparr>)" (is "topology_ok ?s")
proof (rule hm_map_topology_ok[OF ok f(1,2), where idx = "ts_index s" and mgd = "ts_managed s" and decs = "ts_decisions s"])
  have "room_keys ?s i = room_keys s i" for i
    unfolding room_keys_hm_map using f(3) by (simp add: room_keys_def split: option.split)
  then show "index_ok ?s" using ok by (simp add: topology_ok_def index_ok_def)
  show "decisions_ok ?s" using ok by (simp add: topology_ok_def decisions_ok_def)
qed simp_all

lemma keep_lights_ok: "topology_ok s \<Longrightarrow> topology_ok (keep_lights k p s)"
  unfolding keep_lights_def by (rule lights_topology_ok) (simp_all del: set_map)

lemma add_light_key [simp]: "binding_key (add_light n b) = binding_key b"
  by (simp add: add_light_def binding_key_def)

lemma reassign_hub_light_device_ok [wf_intros]:
  assumes ok: "topology_ok s"
  shows "topology_ok (snd (reassign_hub_light_device k n room hub_room s))"
proof -
  have "topology_ok (modify_topology_room i (\<lambda>x. x\<lparr>tr_bindings := modify_first q (add_light n) (tr_bindings x)\<rparr>)
      (keep_lights k p s))" for i q p
    using keep_lights_ok[OF ok] by (rule modify_room_topology_ok) (simp_all add: modify_first_keys)
  then show ?thesis
    using ok by (simp add: reassign_hub_light_device_def keep_lights_ok split: option.split)
qed

lemma upsert_managed_room_binding_ok [wf_intros]:
  assumes base: "base_ok s" and ok: "topology_ok s"
  shows "topology_ok (snd (upsert_managed_room_binding i b s))"
proof -
  let ?rooms = "\<lambda>k r. map (\<lambda>(j, x). (j, keep_bindings (\<lambda>e. if j = i then hb_hub_key e \<noteq> k else \<not> is_binding k r e) x)) (ts_rooms s)"
  have rooms: "base_ok (s\<lparr>ts_rooms := ?rooms k r\<rparr>)" for k r
    using base by (rule base_rooms) (use base in \<open>auto simp: base_ok_def rooms_ok_def\<close>)
  have "base_ok (modify_topology_room i (upsert_hub_room_binding c) (s\<lparr>ts_rooms := ?rooms k r\<rparr>))" for k r c
    using rooms by (intro base_modify_room) simp_all
  then have "base_ok (modify_topology_room i (upsert_hub_room_binding c) (s\<lparr>ts_rooms := ?rooms k r\<rparr>)\<lparr>ts_managed := m\<rparr>)" for k r c m
    by (simp add: base_ok_def rooms_ok_def nodes_ok_def)
  then show ?thesis
    using ok by (simp add: upsert_managed_room_binding_def Let_def rebuild_topology_ok)
qed

lemma apply_authoritative_ok [wf_intros]:
  assumes ok: "topology_ok s"
  shows "topology_ok (snd (apply_authoritative_hub_light_binding k n room target managed s))"
proof -
  have lights: "topology_ok (keep_lights k p s)" for p using ok by (rule keep_lights_ok)
  have "topology_ok (snd (upsert_managed_room_binding i b (keep_lights k p s)))" for i b p
    by (rule upsert_managed_room_binding_ok[OF topology_ok_base[OF lights] lights])
  moreover have "topology_ok (rebuild_topology_indices (keep_lights k p s))" for p
    using topology_ok_base[OF lights] by (rule rebuild_topology_ok)
  ultimately show ?thesis
    using ok by (simp add: apply_authoritative_hub_light_binding_def split: option.split)
qed

section \<open>Rooms\<close>

lemma create_topology_room_ok [wf_intros]:
  assumes ok: "topology_ok s" and fresh: "uuid \<notin> store_room_ids s"
  shows "topology_ok (snd (create_topology_room uuid n s))"
  using mid_ok_put_room[OF topology_ok_mid[OF ok] _ fresh, of "(topology_room_new uuid n)\<lparr>tr_customized := True\<rparr>"]
  by (simp add: create_topology_room_def mid_ok_rebuild topology_room_new_def)

lemma rename_topology_room_ok [wf_intros]:
  "topology_ok s \<Longrightarrow> topology_ok (snd (rename_topology_room i n s))"
  by (auto simp: rename_topology_room_def intro: modify_room_topology_ok)

lemma fold_upsert_id [simp]: "tr_id (fold upsert_hub_room_binding bs r) = tr_id r"
  by (induction bs arbitrary: r) simp_all

text \<open>Merging: the nodes of the source move to the target, everything derived is rebuilt.\<close>

lemma merged_base:
  assumes base: "base_ok s" and target: "target \<noteq> source" "target \<in> store_room_ids s" and f: "\<And>r. tr_id (f r) = tr_id r"
  shows "base_ok (s\<lparr>ts_rooms := hm_modify target f (AList.delete source (ts_rooms s)),
     ts_nodes := hm_map (\<lambda>n. n\<lparr>dn_parent := map_option (replace_id source target) (dn_parent n)\<rparr>) (ts_nodes s)\<rparr>)" (is "base_ok ?s")
proof -
  have ids: "store_room_ids ?s = store_room_ids s - {source}"
    by (auto simp: store_room_ids_def hm_get_modify delete_conv' dom_def split: if_splits)
  have "rooms_ok ?s"
    using base f by (auto simp: base_ok_def rooms_ok_iff hm_get_modify delete_conv' distinct_delete
      simp del: map_of_eq_Some_iff split: if_splits)
  moreover have "node_ok (store_room_ids s - {source}) d (n\<lparr>dn_parent := map_option (replace_id source target) (dn_parent n)\<rparr>)"
    if "node_ok (store_room_ids s) d n" for d n
    using that target by (auto simp: node_ok_def replace_id_def split: option.splits)
  then have "nodes_ok ?s"
    using base by (auto simp: base_ok_def nodes_ok_iff ids[simplified] hm_get_hm_map simp del: map_of_eq_Some_iff)
  ultimately show ?thesis by (simp add: base_ok_def)
qed

lemma put_back_ok:
  assumes ok: "topology_ok s" and src: "map_of (ts_rooms s) i = Some r"
  shows "topology_ok (s\<lparr>ts_rooms := AList.update i r (AList.delete i (ts_rooms s))\<rparr>)" (is "topology_ok ?s")
proof (rule topology_ok_kept[OF ok])
  have get: "map_of (ts_rooms ?s) = map_of (ts_rooms s)" using src by (auto simp: update_conv' delete_conv')
  then have keys: "room_keys ?s = room_keys s" and ids: "store_room_ids ?s = store_room_ids s"
    unfolding room_keys_def[abs_def] store_room_ids_def by simp_all
  have "hm_ok (ts_rooms ?s)" using ok by (simp add: topology_ok_def rooms_ok_def distinct_update distinct_delete)
  then have "rooms_ok ?s" using ok get unfolding topology_ok_def rooms_ok_iff by metis
  then show "mid_ok ?s" using ok keys ids
    by (simp add: mid_ok_def base_ok_def topology_ok_def nodes_ok_def index_ok_def decisions_ok_def)
  show "store_room_ids s \<subseteq> store_room_ids ?s" using ids by simp
  fix j q
  assume "map_of (ts_rooms ?s) j = Some q"
  then show "tr_devices q = room_projection j s" unfolding get by (rule topology_ok_devices[OF ok])
qed simp_all

lemma merge_topology_rooms_ok [wf_intros]:
  assumes ok: "topology_ok s"
  shows "topology_ok (snd (merge_topology_rooms target source s))"
proof (cases "map_of (ts_rooms s) source")
  case None
  then show ?thesis using ok by (simp add: merge_topology_rooms_def)
next
  case (Some src)
  show ?thesis
  proof (cases "map_of (AList.delete source (ts_rooms s)) target")
    case None
    then show ?thesis using put_back_ok[OF ok Some] by (simp add: merge_topology_rooms_def Some Let_def)
  next
    case (Some t)
    then have target: "target \<noteq> source" "target \<in> store_room_ids s"
      by (auto simp: delete_conv' store_room_ids_def split: if_splits)
    have base: "base_ok (s\<lparr>ts_rooms := hm_modify target (\<lambda>r. (fold upsert_hub_room_binding (tr_bindings src) r)\<lparr>tr_customized := True\<rparr>)
          (AList.delete source (ts_rooms s)),
        ts_nodes := hm_map (\<lambda>n. n\<lparr>dn_parent := map_option (replace_id source target) (dn_parent n)\<rparr>) (ts_nodes s)\<rparr>)"
      using topology_ok_base[OF ok] target by (rule merged_base) simp
    show ?thesis
      using Some \<open>map_of (ts_rooms s) source = Some src\<close> base
      by (simp add: merge_topology_rooms_def Let_def, intro rebuild_topology_ok)
         (simp add: base_ok_def rooms_ok_def nodes_ok_def store_room_ids_def)
  qed
qed

lemma drop_room_index_get:
  "map_of (drop_room_index r m) key = (if key \<in> binding_key ` set (tr_bindings r) then None else map_of m key)"
proof -
  have "map_of (fold (\<lambda>b. AList.delete (index_key (hb_hub_key b) (hb_hub_room_id b))) bs m) key =
      (if key \<in> binding_key ` set bs then None else map_of m key)" for bs
    by (induction bs arbitrary: m) (auto simp: binding_key_def delete_conv')
  then show ?thesis by (simp add: drop_room_index_def)
qed

lemma hm_ok_drop_room_index: "hm_ok m \<Longrightarrow> hm_ok (drop_room_index r m)"
proof -
  have "hm_ok m \<Longrightarrow> hm_ok (fold (\<lambda>b. AList.delete (f b)) bs m)" for f :: "hub_room_binding \<Rightarrow> _" and bs
    by (induction bs arbitrary: m) (auto simp: distinct_delete)
  then show "hm_ok m \<Longrightarrow> hm_ok (drop_room_index r m)" by (simp add: drop_room_index_def)
qed

definition detach_from :: "string \<Rightarrow> device_node \<Rightarrow> device_node" where
  "detach_from i n = (if dn_parent n = Some i then n\<lparr>dn_parent := None, dn_placement := Standalone\<rparr> else n)"

lemma removed_base:
  assumes "base_ok s"
  shows "base_ok (s\<lparr>ts_rooms := AList.delete i (ts_rooms s), ts_nodes := hm_map (detach_from i) (ts_nodes s)\<rparr>)" (is "base_ok ?s")
proof -
  have ids: "store_room_ids (s\<lparr>ts_rooms := AList.delete i (ts_rooms s)\<rparr>) = store_room_ids s - {i}"
    by (auto simp: store_room_ids_def delete_conv')
  have "node_ok (store_room_ids s - {i}) d (detach_from i n)" if "node_ok (store_room_ids s) d n" for d n
    using that by (auto simp: node_ok_def detach_from_def split: option.splits)
  moreover have "rooms_ok ?s"
    using assms by (auto simp: base_ok_def rooms_ok_iff delete_conv' distinct_delete simp del: map_of_eq_Some_iff split: if_splits)
  ultimately show ?thesis
    using assms by (auto simp: base_ok_def nodes_ok_iff ids hm_get_hm_map simp del: map_of_eq_Some_iff)
qed

lemma remove_topology_room_ok [wf_intros]:
  assumes ok: "topology_ok s"
  shows "topology_ok (snd (remove_topology_room i s))"
proof (cases "map_of (ts_rooms s) i")
  case None
  then show ?thesis using ok by (simp add: remove_topology_room_def)
next
  case (Some r)
  let ?s = "s\<lparr>ts_rooms := AList.delete i (ts_rooms s), ts_index := drop_room_index r (ts_index s),
     ts_approved := filter (\<lambda>b. br_room b \<noteq> i) (ts_approved s), ts_managed := filter (\<lambda>m. mb_room m \<noteq> i) (ts_managed s),
     ts_decisions := filter (\<lambda>d. ad_room d \<noteq> i) (ts_decisions s), ts_nodes := hm_map (detach_from i) (ts_nodes s)\<rparr>"
  have base: "base_ok ?s"
    using removed_base[OF topology_ok_base[OF ok], of i] by (simp add: base_ok_def rooms_ok_def nodes_ok_def store_room_ids_def)
  have idx: "index_ok s" using ok by (simp add: topology_ok_def)
  have "key \<in> room_keys ?s j" if j: "map_of (ts_index ?s) key = Some j" for key j
  proof -
    from j have old: "map_of (ts_index s) key = Some j" and other: "key \<notin> binding_key ` set (tr_bindings r)"
      by (auto simp: drop_room_index_get simp del: map_of_eq_Some_iff split: if_splits)
    have key: "key \<in> room_keys s j" using idx old by (rule index_ok_get)
    with other Some have "j \<noteq> i" by (auto simp: room_keys_def)
    with key show ?thesis by (simp add: room_keys_def delete_conv')
  qed
  moreover have "hm_ok (ts_index ?s)" using idx by (simp add: index_ok_iff hm_ok_drop_room_index)
  ultimately have "index_ok ?s" unfolding index_ok_iff by blast
  moreover have "decisions_ok ?s" using ok decisions_ok_filter[of s ?s] by (simp add: topology_ok_def)
  ultimately have "topology_ok (rebuild_room_device_projections ?s)" using base by (simp add: rebuild_projections_ok)
  then show ?thesis by (simp add: remove_topology_room_def Some detach_from_def[abs_def])
qed

lemma room_device_nodes_ok:
  "(\<And>i n. map_of m i = Some n \<Longrightarrow> node_ok R i n) \<Longrightarrow> room \<in> R \<Longrightarrow>
   map_of (fold (\<lambda>d. AList.update (rd_device_id d)
            \<lparr>dn_id = rd_device_id d, dn_canonical_id = rd_device_id d, dn_parent = Some room,
             dn_placement = rd_placement d\<rparr>) ds m) i = Some n \<Longrightarrow> node_ok R i n"
proof (induction ds arbitrary: m)
  case (Cons d ds)
  show ?case
    by (rule Cons.IH[OF _ Cons.prems(2)])
       (use Cons.prems in \<open>auto simp: update_conv' node_ok_def simp del: map_of_eq_Some_iff split: if_splits\<close>)
qed simp

lemma insert_topology_room_ok [wf_intros]:
  assumes ok: "topology_ok s" and fresh: "tr_id room \<notin> store_room_ids s"
  shows "topology_ok (insert_topology_room room s)"
proof -
  let ?r = "room\<lparr>tr_devices := []\<rparr>" and ?i = "tr_id room"
  let ?t = "s\<lparr>ts_rooms := AList.update ?i ?r (ts_rooms s)\<rparr>"
  let ?nodes = "fold (\<lambda>d. AList.update (rd_device_id d) \<lparr>dn_id = rd_device_id d, dn_canonical_id = rd_device_id d,
      dn_parent = Some ?i, dn_placement = rd_placement d\<rparr>) (tr_devices room) (ts_nodes s)"
  let ?u = "s\<lparr>ts_index := index_room (?i, room) (ts_index s), ts_nodes := ?nodes, ts_rooms := AList.update ?i ?r (ts_rooms s)\<rparr>"
  have mid: "mid_ok ?t" using topology_ok_mid[OF ok] fresh by (intro mid_ok_put_room) simp_all
  have ids: "store_room_ids ?u = store_room_ids ?t" by (simp add: store_room_ids_def)
  have keys: "room_keys ?u = room_keys ?t" by (simp add: room_keys_def[abs_def])
  have "hm_ok ?nodes" using mid by (simp add: mid_ok_def base_ok_def nodes_ok_iff index_bindings_ok)
  moreover have "node_ok (store_room_ids ?t) i n" if "map_of ?nodes i = Some n" for i n
    by (rule room_device_nodes_ok[OF _ _ that])
       (use mid in \<open>auto simp: mid_ok_def base_ok_def nodes_ok_iff simp del: map_of_eq_Some_iff\<close>)
  ultimately have "nodes_ok ?u" unfolding nodes_ok_iff ids by simp
  then have "base_ok ?u" using mid by (simp add: mid_ok_def base_ok_def rooms_ok_def)
  moreover have "index_ok ?u"
    unfolding index_ok_iff keys
  proof (intro conjI allI impI)
    show "hm_ok (ts_index ?u)" using mid by (simp add: mid_ok_def index_ok_iff index_room_alt index_bindings_ok)
    fix key j
    assume "map_of (ts_index ?u) key = Some j"
    then show "key \<in> room_keys ?t j"
      using index_ok_get[of ?t key j] mid
      by (auto simp: mid_ok_def index_room_alt index_bindings_get room_keys_put simp del: map_of_eq_Some_iff split: if_splits)
  qed
  moreover have "decisions_ok ?u" using mid by (simp add: mid_ok_def decisions_ok_def)
  ultimately show ?thesis unfolding insert_topology_room_def by (intro rebuild_projections_ok)
qed

lemma attach_repairs_ok: "topology_ok s \<Longrightarrow> topology_ok (snd (attach_repairs rs s))"
proof (induction rs s rule: attach_repairs.induct)
  case (2 d r p rs s)
  have "topology_ok (snd (if p = HubDefault then attach_device_hub_default r d s else attach_device_user_override r d s))"
    using 2(2) by (simp add: attach_device_hub_default_def attach_device_user_override_def set_device_node_placement_ok)
  then show ?case using 2(1)
    by (cases "if p = HubDefault then attach_device_hub_default r d s else attach_device_user_override r d s")
       (auto simp: Let_def split_def)
qed simp

lemma filter_binding_key [simp]: "binding_key (filter_binding_lights reg b) = binding_key b"
  by (simp add: filter_binding_lights_def Let_def binding_key_def)

text \<open>The targets of the repair are rooms that list the light.\<close>

lemma note_targets_known:
  assumes "\<And>key i. map_of m key = Some (Some i) \<Longrightarrow> i \<in> R" "\<And>t. t \<in> set ts \<Longrightarrow> fst t \<in> R"
  shows "map_of (fold note_target ts m) key = Some (Some i) \<Longrightarrow> i \<in> R"
  using assms
proof (induction ts arbitrary: m)
  case Nil
  then show ?case by simp
next
  case (Cons t ts)
  obtain i' b n where t: "t = (i', b, n)" by (cases t)
  have "i'' \<in> R" if "map_of (note_target t m) key' = Some (Some i'')" for key' i''
    using that Cons.prems(2)[of key' i''] Cons.prems(3)[of t]
    by (auto simp: t note_target_def Let_def update_conv' simp del: map_of_eq_Some_iff split: if_splits option.splits)
  then show ?case using Cons.IH[of "note_target t m"] Cons.prems by simp
qed

lemma binding_targets_known: "map_of (binding_targets s) key = Some (Some i) \<Longrightarrow> i \<in> store_room_ids s"
  unfolding binding_targets_def
  by (rule note_targets_known[where m = "[]"]) (auto simp: store_room_ids_def dom_map_of_conv_image_fst intro!: rev_image_eqI)

lemma case_sole: "(case xs of [t] \<Rightarrow> f t | _ \<Rightarrow> None) = Some y \<longleftrightarrow> (\<exists>t. xs = [t] \<and> f t = Some y)"
  by (simp split: list.split)

lemma light_repair_known:
  assumes rep: "light_repair reg targets n = Some (d, t)" and known: "\<And>key i. map_of targets key = Some (Some i) \<Longrightarrow> i \<in> R"
  shows "t \<in> R"
proof -
  let ?ts = "\<lambda>dev. List.map_filter (\<lambda>e. Option.bind (map_of targets (index_key (ep_hub_key e) (ep_native_id e))) id) (active_endpoints dev)"
  obtain parent where parent: "dn_parent n = Some parent"
    using rep by (cases "dn_parent n") (simp_all add: light_repair_def split: if_splits)
  obtain dev where dev: "registry_get (dn_canonical_id n) reg = Some dev"
    using rep parent by (cases "registry_get (dn_canonical_id n) reg") (simp_all add: light_repair_def split: if_splits)
  have "remdups_adj (sort (?ts dev)) = [t]"
    using rep unfolding light_repair_def parent dev option.case case_sole by (auto simp: case_sole split: if_splits)
  then have "set (remdups_adj (sort (?ts dev))) = set [t]" by (rule arg_cong)
  then have "set (?ts dev) = {t}" by (simp only: remdups_adj_set set_sort list.set)
  then have "t \<in> set (?ts dev)" by (simp only: singletonI)
  then obtain e :: integration_endpoint where "map_of targets (index_key (ep_hub_key e) (ep_native_id e)) = Some (Some t)"
    unfolding mem_map_filter bind_eq_Some_conv id_def by blast
  then show ?thesis by (rule known)
qed

lemma hm_modify_absent: "map_of m k = None \<Longrightarrow> hm_modify k f m = m"
  by (force simp: hm_modify_def map_of_eq_None_iff intro!: map_idI)

lemma apply_light_repairs_ok:
  assumes "mid_ok s" "\<forall>r \<in> set rs. snd r \<in> store_room_ids s"
  shows "mid_ok (fst (snd (apply_light_repairs rs now (moved, s, reg)))) \<and>
     moved \<le> fst (apply_light_repairs rs now (moved, s, reg)) \<and>
     (fst (apply_light_repairs rs now (moved, s, reg)) = moved \<longrightarrow> fst (snd (apply_light_repairs rs now (moved, s, reg))) = s)"
  using assms
proof (induction rs arbitrary: moved s reg)
  case Nil
  then show ?case by simp
next
  case (Cons r rs)
  obtain d t where r: "r = (d, t)" by (cases r)
  let ?s = "s\<lparr>ts_nodes := hm_modify d (\<lambda>n. n\<lparr>dn_parent := Some t, dn_placement := HubDefault\<rparr>) (ts_nodes s)\<rparr>"
  let ?m = "if map_of (ts_nodes s) d = None then moved else Suc moved"
  have t: "t \<in> store_room_ids s" using Cons.prems(2) r by simp
  have "nodes_step s ?s"
    using mid_ok_base[OF Cons.prems(1)] by (rule nodes_step_modify) (use t in \<open>auto simp: node_ok_alt placement_ok_def\<close>)
  then have mid: "mid_ok ?s" by (rule mid_ok_step[OF Cons.prems(1)])
  have known: "\<forall>r \<in> set rs. snd r \<in> store_room_ids ?s" using Cons.prems(2) by simp
  have IH: "mid_ok (fst (snd (apply_light_repairs rs now (?m, ?s, reg')))) \<and>
      ?m \<le> fst (apply_light_repairs rs now (?m, ?s, reg')) \<and>
      (fst (apply_light_repairs rs now (?m, ?s, reg')) = ?m \<longrightarrow> fst (snd (apply_light_repairs rs now (?m, ?s, reg'))) = ?s)" for reg'
    by (rule Cons.IH[OF mid known])
  have same: "?s = s" if "map_of (ts_nodes s) d = None" using that by (simp add: hm_modify_absent)
  show ?case
  proof (cases "map_of (ts_nodes s) d")
    case None
    then show ?thesis using IH[of "snd (assign_room d (Some t) now reg)"] same by (simp add: r)
  next
    case (Some n)
    then have m: "?m = Suc moved" by simp
    show ?thesis using IH[of "snd (assign_room d (Some t) now reg)"] unfolding m by (auto simp: r m simp del: map_of_eq_Some_iff)
  qed
qed

lemma migrate_legacy_light_room_bindings_ok [wf_intros]:
  assumes ok: "topology_ok s"
  shows "topology_ok (fst (snd (migrate_legacy_light_room_bindings now reg s)))"
proof (cases "list_ex (\<lambda>d. cd_device_type d = Light \<and> has_active_endpoint d) (registry_devices reg)")
  case False
  then show ?thesis using ok by (simp add: migrate_legacy_light_room_bindings_def)
next
  case True
  let ?s1 = "s\<lparr>ts_rooms := hm_map (\<lambda>r. r\<lparr>tr_bindings := map (filter_binding_lights reg) (tr_bindings r)\<rparr>) (ts_rooms s)\<rparr>"
  let ?rs = "List.map_filter (\<lambda>i. Option.bind (map_of (ts_nodes ?s1) i) (light_repair reg (binding_targets ?s1))) (sort (map fst (ts_nodes ?s1)))"
  let ?res = "apply_light_repairs ?rs now (0, ?s1, reg)"
  have ok1: "topology_ok ?s1" using ok by (rule lights_topology_ok) (simp_all add: image_image)
  have known: "\<forall>r \<in> set ?rs. snd r \<in> store_room_ids ?s1"
  proof
    fix r
    assume "r \<in> set ?rs"
    then obtain n where "light_repair reg (binding_targets ?s1) n = Some (fst r, snd r)"
      by (auto simp: mem_map_filter bind_eq_Some_conv)
    then show "snd r \<in> store_room_ids ?s1" by (rule light_repair_known) (rule binding_targets_known)
  qed
  note rep = apply_light_repairs_ok[OF topology_ok_mid[OF ok1] known, of now 0 reg]
  obtain moved s2 reg1 where res: "?res = (moved, s2, reg1)" by (cases ?res)
  have "topology_ok (if 0 < moved then rebuild_room_device_projections s2 else s2)"
    using rep ok1 unfolding res by (auto simp: mid_ok_rebuild)
  moreover have "fst (snd (migrate_legacy_light_room_bindings now reg s)) = (if 0 < moved then rebuild_room_device_projections s2 else s2)"
    using True res by (simp add: migrate_legacy_light_room_bindings_def Let_def)
  ultimately show ?thesis by simp
qed

section \<open>Policies\<close>

lemma tr_id_key:
  assumes "rooms_ok s" "(i, r) \<in> set (ts_rooms s)"
  shows "tr_id r = i"
  using assms by (auto simp: rooms_ok_def)

lemma map_tr_id: "rooms_ok s \<Longrightarrow> map (tr_id \<circ> snd) (ts_rooms s) = map fst (ts_rooms s)"
  by (auto simp: rooms_ok_def)

lemma distinct_room_ids: "rooms_ok s \<Longrightarrow> distinct (map tr_id (filter p (map snd (ts_rooms s))))"
proof -
  assume ok: "rooms_ok s"
  have "distinct (map (tr_id \<circ> snd) (ts_rooms s))" using ok unfolding map_tr_id[OF ok] by (simp add: rooms_ok_def)
  then have "distinct (map tr_id (map snd (ts_rooms s)))" by (simp only: map_map)
  then show ?thesis by (rule distinct_map_filter)
qed

lemma materialize_ok [wf_intros]:
  assumes ok: "topology_ok s"
  shows "topology_ok (snd (materialize_grandfathered k s))"
proof (rule topology_ok_same[OF ok])
  let ?u = "sort (map tr_id (filter (\<lambda>r. bound_to k r \<and>
      tr_id r \<notin> ad_room ` set (filter (\<lambda>d. ad_hub_key d = k) (ts_decisions s))) (map snd (ts_rooms s))))"
  have "rooms_ok s" using ok by (simp add: topology_ok_def)
  then have "distinct ?u" using distinct_room_ids by (simp only: distinct_sort)
  then have "distinct (map decision_key (map (rhythm_decision k) ?u))"
    by (simp add: distinct_map inj_on_def rhythm_decision_def decision_key_def)
  moreover have "decision_key ` set (ts_decisions s) \<inter> decision_key ` set (map (rhythm_decision k) ?u) = {}"
    by (fastforce simp: rhythm_decision_def decision_key_def image_iff)
  moreover have "distinct (map decision_key (ts_decisions s))" using ok by (simp add: topology_ok_def decisions_ok_def)
  ultimately have "distinct (map decision_key (ts_decisions s @ map (rhythm_decision k) ?u))"
    by (simp only: map_append distinct_append set_map simp_thms)
  then show "decisions_ok (snd (materialize_grandfathered k s))"
    using ok by (simp add: materialize_grandfathered_def Let_def decisions_ok_def distinct_map_sort_key topology_ok_def)
qed (simp_all add: materialize_grandfathered_def Let_def)

lemma forget_policy_ok [wf_intros]: "topology_ok s \<Longrightarrow> topology_ok (snd (forget_policy k s))"
  by (rule topology_ok_same[of s]) (auto simp: forget_policy_def Let_def topology_ok_def decisions_ok_def distinct_map_filter)

lemma replace_decisions_ok [wf_intros]:
  assumes ok: "topology_ok s"
  shows "topology_ok (snd (replace_decisions k ds s))"
proof (rule topology_ok_same[OF ok])
  have new: "distinct (map decision_key (map (\<lambda>(i, ow). \<lparr>ad_room = i, ad_hub_key = k, ad_owner = ow\<rparr>) ds))" if "distinct (map fst ds)"
    using that by (auto simp: distinct_map inj_on_def decision_key_def split_def)
  have "distinct (map decision_key (filter (\<lambda>d. ad_hub_key d \<noteq> k) (ts_decisions s)))"
    using ok by (simp add: topology_ok_def decisions_ok_def distinct_map_filter)
  then have "distinct (map decision_key (filter (\<lambda>d. ad_hub_key d \<noteq> k) (ts_decisions s) @
      map (\<lambda>(i, ow). \<lparr>ad_room = i, ad_hub_key = k, ad_owner = ow\<rparr>) ds))" if "distinct (map fst ds)"
    using new[OF that] by (auto simp: decision_key_def)
  then show "decisions_ok (snd (replace_decisions k ds s))"
    using ok by (simp add: replace_decisions_def Let_def decisions_ok_def distinct_map_sort_key topology_ok_def)
qed (simp_all add: replace_decisions_def Let_def)

lemma migrate_legacy_policy_ok [wf_intros]: "topology_ok s \<Longrightarrow> topology_ok (snd (migrate_legacy_policy hubs s))"
  by (rule topology_ok_same[of s]) (auto simp: migrate_legacy_policy_def Let_def decisions_ok_def dest: topology_ok_decisions[unfolded decisions_ok_def])

text \<open>Changing the address of a hub: when nothing refers to the old address nothing changes.\<close>

lemma rekey_unreferenced:
  assumes "\<not> topology_references_hub old s"
  shows "s\<lparr>ts_rooms := hm_map (\<lambda>r. r\<lparr>tr_bindings :=
                   map (\<lambda>b. b\<lparr>hb_hub_key := rekey old new (hb_hub_key b)\<rparr>) (tr_bindings r)\<rparr>) (ts_rooms s),
               ts_approved := map (\<lambda>b. b\<lparr>br_hub_key := rekey old new (br_hub_key b)\<rparr>) (ts_approved s),
               ts_managed := map (\<lambda>b. b\<lparr>mb_hub_key := rekey old new (mb_hub_key b)\<rparr>) (ts_managed s),
               ts_decisions := map (\<lambda>d. d\<lparr>ad_hub_key := rekey old new (ad_hub_key d)\<rparr>) (ts_decisions s),
               ts_grandfathered := rekey_set old new (ts_grandfathered s),
               ts_sync_hubs := rekey_set old new (ts_sync_hubs s),
               ts_suspended := rekey_set old new (ts_suspended s),
               ts_attention := rekey_set old new (ts_attention s),
               ts_required := rekey_set (display_hub_key old) (display_hub_key new) (ts_required s)\<rparr> = s"
proof -
  have none: "\<And>i r b. (i, r) \<in> set (ts_rooms s) \<Longrightarrow> b \<in> set (tr_bindings r) \<Longrightarrow> hb_hub_key b \<noteq> old"
    "\<And>b. b \<in> set (ts_approved s) \<Longrightarrow> br_hub_key b \<noteq> old" "\<And>m. m \<in> set (ts_managed s) \<Longrightarrow> mb_hub_key m \<noteq> old"
    "\<And>d. d \<in> set (ts_decisions s) \<Longrightarrow> ad_hub_key d \<noteq> old"
    "old \<notin> ts_grandfathered s" "old \<notin> ts_sync_hubs s" "old \<notin> ts_suspended s" "old \<notin> ts_attention s"
    "display_hub_key old \<notin> ts_required s"
    using assms by (fastforce simp: topology_references_hub_def structurally_references_hub_def all_bindings_def
      list_ex_iff grouped_room_control_is_required_def)+
  have "hm_map (\<lambda>r. r\<lparr>tr_bindings := map (\<lambda>b. b\<lparr>hb_hub_key := rekey old new (hb_hub_key b)\<rparr>) (tr_bindings r)\<rparr>) (ts_rooms s) = ts_rooms s"
    unfolding hm_map_def
  proof (rule map_idI)
    fix x
    assume x: "x \<in> set (ts_rooms s)"
    obtain i r where ir: "x = (i, r)" by (cases x)
    with x have r: "(i, r) \<in> set (ts_rooms s)" by simp
    have "map (\<lambda>b. b\<lparr>hb_hub_key := rekey old new (hb_hub_key b)\<rparr>) (tr_bindings r) = tr_bindings r"
      by (rule map_idI) (use none(1)[OF r] in \<open>simp add: rekey_def\<close>)
    then show "(case x of (i, r) \<Rightarrow> (i, r\<lparr>tr_bindings := map (\<lambda>b. b\<lparr>hb_hub_key := rekey old new (hb_hub_key b)\<rparr>) (tr_bindings r)\<rparr>)) = x"
      by (simp add: ir)
  qed
  moreover have "map (\<lambda>b. b\<lparr>br_hub_key := rekey old new (br_hub_key b)\<rparr>) (ts_approved s) = ts_approved s"
    "map (\<lambda>b. b\<lparr>mb_hub_key := rekey old new (mb_hub_key b)\<rparr>) (ts_managed s) = ts_managed s"
    "map (\<lambda>d. d\<lparr>ad_hub_key := rekey old new (ad_hub_key d)\<rparr>) (ts_decisions s) = ts_decisions s"
    by (rule map_idI, use none(2,3,4) in \<open>simp add: rekey_def\<close>)+
  ultimately show ?thesis using none(5-) by (simp add: rekey_set_def)
qed

lemma remap_topology_hub_key_ok [wf_intros]:
  assumes ok: "topology_ok s"
  shows "topology_ok (snd (remap_topology_hub_key old new s))"
proof (cases "old = new \<or> \<not> topology_references_hub old s")
  case True
  then show ?thesis using ok by (auto simp: remap_topology_hub_key_def Let_def rekey_unreferenced)
next
  case False
  have "base_ok (s\<lparr>ts_rooms := hm_map (\<lambda>r. r\<lparr>tr_bindings :=
      map (\<lambda>b. b\<lparr>hb_hub_key := rekey old new (hb_hub_key b)\<rparr>) (tr_bindings r)\<rparr>) (ts_rooms s)\<rparr>)"
    using topology_ok_base[OF ok] by (intro base_hm_map) simp_all
  then show ?thesis using False
    by (simp add: remap_topology_hub_key_def Let_def, intro rebuild_topology_ok)
       (simp add: base_ok_def rooms_ok_def nodes_ok_def store_room_ids_def)
qed

section \<open>Control\<close>

lemma set_control_targets_ok [wf_intros]: "topology_ok s \<Longrightarrow> topology_ok (snd (set_control_targets source kind targets s))"
  by (rule topology_ok_same[of s])
     (auto simp: set_control_targets_def topology_ok_def decisions_ok_def links_ok_def list_ex_iff)

lemma remove_device_everywhere_ok [wf_intros]:
  assumes ok: "topology_ok s"
  shows "topology_ok (snd (remove_device_everywhere d s))"
proof -
  have "mid_ok (s\<lparr>ts_nodes := AList.delete d (ts_nodes s)\<rparr>)"
    using topology_ok_mid[OF ok]
    by (auto simp: mid_ok_def base_ok_def rooms_ok_def nodes_ok_iff index_ok_def decisions_ok_def delete_conv' distinct_delete
        simp del: map_of_eq_Some_iff split: if_splits)
  then show ?thesis by (simp add: remove_device_everywhere_def mid_ok_rebuild)
qed

section \<open>The store as a state machine\<close>

datatype topology_event =
    SyncRoom string hub_key discovered_topology_room canonical_registry
  | Translate string hub_key string string string "string list"
  | RemoveStale hub_key "string list"
  | RemoveWhere hub_key "hub_room_binding \<Rightarrow> bool"
  | RemoveEverywhere hub_key string
  | UpsertBinding string hub_room_binding
  | UpsertManaged string hub_room_binding
  | ReassignLight hub_key string "string option" "string option"
  | ApplyAuthoritative hub_key string "string option" "hub_room_binding option" bool
  | CreateRoom string string
  | RenameRoom string string
  | MergeRooms string string
  | RemoveTopologyRoom string
  | InsertRoom topology_room
  | PlaceDevice string "string option" device_placement bool
  | MoveDevice string string string
  | RemoveTopologyDevice string
  | RestoreLights canonical_registry
  | MigrateLights u64 canonical_registry
  | MigratePolicy "hub_key list"
  | Materialize hub_key
  | ForgetPolicy hub_key
  | ReplaceDecisions hub_key "(string \<times> automation_owner) list"
  | RemapHub hub_key hub_key
  | SetControl string node_control_kind "string list"
  | ApproveBinding hub_key string string u64
  | RevokeBinding hub_key string
  | SetInput input_binding
  | RemoveInput string
  | RemoveInputsOf string
  | SetRequired hub_key bool
  | SetSyncEnabled hub_key bool
  | SetSuspended hub_key bool
  | SetAttention hub_key bool

fun topology_step :: "(string \<Rightarrow> string) \<Rightarrow> topology_event \<Rightarrow> topology_store \<Rightarrow> topology_store" where
  "topology_step lower (SyncRoom uuid k d reg) s = snd (sync_hub_room_with_registry lower uuid k d reg s)"
| "topology_step lower (Translate uuid k r n control lights) s = snd (translate_or_create_with_status uuid k r n control lights s)"
| "topology_step lower (RemoveStale k current) s = snd (remove_stale_bindings k current s)"
| "topology_step lower (RemoveWhere k p) s = snd (remove_room_bindings_for_hub_where k p s)"
| "topology_step lower (RemoveEverywhere k r) s = snd (remove_hub_room_binding_everywhere k r s)"
| "topology_step lower (UpsertBinding i b) s = snd (upsert_room_binding i b s)"
| "topology_step lower (UpsertManaged i b) s = snd (upsert_managed_room_binding i b s)"
| "topology_step lower (ReassignLight k n room hub_room) s = snd (reassign_hub_light_device k n room hub_room s)"
| "topology_step lower (ApplyAuthoritative k n room target managed) s =
     snd (apply_authoritative_hub_light_binding k n room target managed s)"
| "topology_step lower (CreateRoom uuid n) s = snd (create_topology_room uuid n s)"
| "topology_step lower (RenameRoom i n) s = snd (rename_topology_room i n s)"
| "topology_step lower (MergeRooms target source) s = snd (merge_topology_rooms target source s)"
| "topology_step lower (RemoveTopologyRoom i) s = snd (remove_topology_room i s)"
| "topology_step lower (InsertRoom room) s = insert_topology_room room s"
| "topology_step lower (PlaceDevice d parent p create) s = snd (set_device_node_placement d parent p create s)"
| "topology_step lower (MoveDevice d from_room to_room) s = snd (move_device d from_room to_room s)"
| "topology_step lower (RemoveTopologyDevice d) s = snd (remove_device_everywhere d s)"
| "topology_step lower (RestoreLights reg) s = snd (restore_missing_assigned_light_nodes reg s)"
| "topology_step lower (MigrateLights now reg) s = fst (snd (migrate_legacy_light_room_bindings now reg s))"
| "topology_step lower (MigratePolicy hubs) s = snd (migrate_legacy_policy hubs s)"
| "topology_step lower (Materialize k) s = snd (materialize_grandfathered k s)"
| "topology_step lower (ForgetPolicy k) s = snd (forget_policy k s)"
| "topology_step lower (ReplaceDecisions k ds) s = snd (replace_decisions k ds s)"
| "topology_step lower (RemapHub old new) s = snd (remap_topology_hub_key old new s)"
| "topology_step lower (SetControl source kind targets) s = snd (set_control_targets source kind targets s)"
| "topology_step lower (ApproveBinding k r room now) s = approve_binding k r room now s"
| "topology_step lower (RevokeBinding k r) s = revoke_binding k r s"
| "topology_step lower (SetInput b) s = snd (set_input_binding b s)"
| "topology_step lower (RemoveInput i) s = snd (remove_input_binding i s)"
| "topology_step lower (RemoveInputsOf source) s = snd (remove_input_bindings_for_source source s)"
| "topology_step lower (SetRequired k b) s = set_grouped_room_control_required k b s"
| "topology_step lower (SetSyncEnabled k b) s = snd (set_external_room_topology_sync_enabled k b s)"
| "topology_step lower (SetSuspended k b) s = snd (set_external_grouped_dispatch_suspended k b s)"
| "topology_step lower (SetAttention k b) s = snd (set_external_room_topology_sync_attention k b s)"

text \<open>The identifier of a new room is new, and no sync deletes the room its hub room is mapped to.\<close>

fun event_allowed :: "(string \<Rightarrow> string) \<Rightarrow> topology_event \<Rightarrow> topology_store \<Rightarrow> bool" where
  "event_allowed lower (SyncRoom uuid k d reg) s \<longleftrightarrow> map_of (ts_rooms s) uuid = None \<and> \<not> deletes_own_room lower k d s"
| "event_allowed lower (Translate uuid k r n control lights) s \<longleftrightarrow> map_of (ts_rooms s) uuid = None"
| "event_allowed lower (CreateRoom uuid n) s \<longleftrightarrow> map_of (ts_rooms s) uuid = None"
| "event_allowed lower (InsertRoom room) s \<longleftrightarrow> map_of (ts_rooms s) (tr_id room) = None"
| "event_allowed lower _ s \<longleftrightarrow> True"

lemma not_room_id: "i \<notin> store_room_ids s \<longleftrightarrow> map_of (ts_rooms s) i = None"
  by (auto simp: store_room_ids_def)

text \<open>Operations on the rest of the store.\<close>

lemma topology_ok_unrelated:
  "topology_ok s \<Longrightarrow> ts_rooms s' = ts_rooms s \<Longrightarrow> ts_nodes s' = ts_nodes s \<Longrightarrow> ts_index s' = ts_index s \<Longrightarrow>
   ts_decisions s' = ts_decisions s \<Longrightarrow> ts_links s' = ts_links s \<Longrightarrow> topology_ok s'"
  by (rule topology_ok_same[of s]) (auto simp: topology_ok_def decisions_ok_def)

lemma unrelated_ok [wf_intros]:
  assumes "topology_ok s"
  shows "topology_ok (approve_binding k r room now s)" "topology_ok (revoke_binding k r s)"
    "topology_ok (snd (set_input_binding b s))" "topology_ok (snd (remove_input_binding i s))"
    "topology_ok (snd (remove_input_bindings_for_source i s))" "topology_ok (set_grouped_room_control_required k on s)"
    "topology_ok (snd (set_external_room_topology_sync_enabled k on s))"
    "topology_ok (snd (set_external_grouped_dispatch_suspended k on s))"
    "topology_ok (snd (set_external_room_topology_sync_attention k on s))"
  by (rule topology_ok_unrelated[OF assms];
      simp add: approve_binding_def revoke_binding_def set_input_binding_def remove_input_binding_def
        remove_input_bindings_for_source_def set_grouped_room_control_required_def
        set_external_room_topology_sync_enabled_def set_external_grouped_dispatch_suspended_def
        set_external_room_topology_sync_attention_def Let_def split: option.split)+

lemma topology_step_ok:
  assumes "topology_ok s" "event_allowed lower ev s"
  shows "topology_ok (topology_step lower ev s)"
proof (cases ev)
  case (MoveDevice d a b)
  then show ?thesis using assms by (simp add: move_device_def set_device_node_placement_ok)
next
  case (RestoreLights reg)
  then show ?thesis using assms by (simp add: restore_missing_assigned_light_nodes_def attach_repairs_ok)
next
  case (UpsertManaged i b)
  then show ?thesis using assms by (simp add: upsert_managed_room_binding_ok topology_ok_base)
qed (use assms in \<open>auto simp: not_room_id[symmetric] intro: wf_intros\<close>)

interpretation topology_steps: guarded_steps "event_allowed lower" "topology_step lower" topology_ok for lower
  by unfold_locales (rule topology_step_ok)

inductive topology_reachable :: "(string \<Rightarrow> string) \<Rightarrow> topology_store \<Rightarrow> bool" for lower where
  reach_new: "topology_reachable lower topology_new"
| reach_step: "topology_reachable lower s \<Longrightarrow> event_allowed lower ev s \<Longrightarrow> topology_reachable lower (topology_step lower ev s)"

lemma topology_new_ok: "topology_ok topology_new"
  by (simp add: topology_ok_def topology_new_def rooms_ok_def nodes_ok_def index_ok_def decisions_ok_def
      projections_ok_def links_ok_def)

end
