(* ===== verification/TopologyProperties.thy ===== *)
theory TopologyProperties
  imports TopologyEvents
begin

text \<open>
  What the topology store promises: the invariant in every reachable store, the devices of a room, the
  sync of hub rooms, and the consent of the user to automation.
\<close>

section \<open>Invariant\<close>

lemma reachable_topology_ok: "topology_reachable lower s \<Longrightarrow> topology_ok s"
  by (induction rule: topology_reachable.induct) (simp_all add: topology_new_ok topology_steps.step_keeps)

text \<open>The room a sync takes for a duplicate of itself goes, and the index still leads to it.\<close>

lemma sync_deletes_own_room:
  assumes "deletes_own_room lower k d s"
  obtains room where "map_of (ts_index s) (index_key k (dr_hub_room_id d)) = Some room" "freshly_created room s"
    "sync_hub_room_with_registry lower uuid k d reg s = (SyncBound room, apply_approved room (Some room) k reg d s)"
    "map_of (ts_rooms (apply_approved room (Some room) k reg d s)) room = None"
    "map_of (ts_index (apply_approved room (Some room) k reg d s)) (index_key k (dr_hub_room_id d)) = Some room"
proof -
  from assms obtain room where mapped: "map_of (ts_index s) (index_key k (dr_hub_room_id d)) = Some room"
    and small: "freshly_created room s" and approved: "existing_target k (dr_hub_room_id d) s = Some room"
    and twin: "name_matches lower (Some room) k (dr_name d) s \<noteq> []"
    by (auto simp: deletes_own_room_def split: option.splits)
  obtain i n ms where m: "name_matches lower (Some room) k (dr_name d) s = (i, n) # ms"
    using twin by (cases "name_matches lower (Some room) k (dr_name d) s") auto
  have "sync_hub_room_with_registry lower uuid k d reg s = (SyncBound room, apply_approved room (Some room) k reg d s)"
    by (simp add: sync_hub_room_with_registry_def mapped sync_mapped_room_def Let_def small m approved del: map_of_eq_Some_iff)
  moreover have "map_of (ts_rooms (apply_approved room (Some room) k reg d s)) room = None"
    by (simp add: apply_approved_def Let_def rebuild_projections_get set_index_def delete_conv')
  moreover have "map_of (ts_index (apply_approved room (Some room) k reg d s)) (index_key k (dr_hub_room_id d)) = Some room"
    by (simp add: apply_approved_def Let_def set_index_def update_conv')
  ultimately show ?thesis using that mapped small by blast
qed

text \<open>C1: Every store reachable from the empty one by the operations of the topology satisfies the invariant:
keys and identifiers agree, the parent of every device exists, room membership is exactly the placement
of the nodes, the index leads to rooms with the binding, no control link dangles and there is one decision
for a room and a hub. Reachable means that new rooms get identifiers not in use and that no sync on the way deleted the
room of its own hub room; and this condition is the right one: in a reachable store a sync breaks the
invariant exactly when an approved binding names the room the hub room is already mapped to, that room is small enough
to pass for a duplicate and another room has its name.\<close>

theorem topology_invariant:
  assumes "topology_reachable lower s"
  shows "topology_ok s \<and>
    (\<forall>uuid k d reg. map_of (ts_rooms s) uuid = None \<longrightarrow>
       (topology_ok (snd (sync_hub_room_with_registry lower uuid k d reg s)) \<longleftrightarrow> \<not> deletes_own_room lower k d s))"
proof -
  have ok: "topology_ok s" using assms by (rule reachable_topology_ok)
  have "\<not> topology_ok (snd (sync_hub_room_with_registry lower uuid k d reg s))" if del: "deletes_own_room lower k d s" for uuid k d reg
  proof
    assume broken: "topology_ok (snd (sync_hub_room_with_registry lower uuid k d reg s))"
    obtain room where r: "sync_hub_room_with_registry lower uuid k d reg s = (SyncBound room, apply_approved room (Some room) k reg d s)"
        "map_of (ts_rooms (apply_approved room (Some room) k reg d s)) room = None"
        "map_of (ts_index (apply_approved room (Some room) k reg d s)) (index_key k (dr_hub_room_id d)) = Some room"
      using sync_deletes_own_room [OF del, of uuid reg] by metis
    have "index_ok (apply_approved room (Some room) k reg d s)" using broken r(1) by (simp add: topology_ok_def)
    from index_value_known [OF this r(3)] show False using r(2) by (simp add: store_room_ids_def domIff)
  qed
  then show ?thesis using ok sync_ok [OF ok] by (auto simp: not_room_id)
qed

definition demo_hub :: hub_key where
  "demo_hub = \<lparr>hk_type = ''hue'', hk_address = ''h1''\<rparr>"

definition demo_room :: discovered_topology_room where
  "demo_room = \<lparr>dr_hub_room_id = ''r1'', dr_name = ''Kitchen'', dr_authoritative = True, dr_control_id = ''g1'',
     dr_lights = [''l1''], dr_devices = [''d1'']\<rparr>"

definition demo_store :: topology_store where
  "demo_store = topology_step id (SyncRoom ''R1'' demo_hub demo_room registry_new) topology_new"

lemma demo_store_reachable: "topology_reachable id demo_store"
  unfolding demo_store_def
  by (rule reach_step[OF reach_new]) (simp add: topology_new_def deletes_own_room_def)

theorem topology_invariant_witness:
  "topology_ok demo_store \<and> ts_nodes demo_store \<noteq> [] \<and> ts_index demo_store \<noteq> []"
proof -
  have "topology_ok demo_store" using topology_invariant [OF demo_store_reachable] by simp
  moreover have "ts_nodes demo_store \<noteq> [] \<and> ts_index demo_store \<noteq> []" by code_simp
  ultimately show ?thesis by simp
qed

section \<open>Consent\<close>

lemma find_decision:
  assumes "distinct (map decision_key ds)" "d \<in> set ds" "decision_key d = (k, i)"
  shows "find (is_decision i k) ds = Some d"
  using assms by (induction ds) (auto simp: is_decision_def decision_key_def rev_image_eqI)

lemma find_decision_none: "(k, i) \<notin> decision_key ` set ds \<Longrightarrow> find (is_decision i k) ds = None"
  by (force simp: find_None_iff is_decision_def decision_key_def)

text \<open>The owner of a room after the decisions have been rebuilt.\<close>

lemma owner_rebuilt:
  "external_room_automation_owner i k (rebuild_topology_indices s) =
     (let owners = ad_owner ` {d \<in> set (ts_decisions s). decision_key d = (k, i)} in
      if room_has_binding i (\<lambda>b. hb_hub_key b = k) s \<and> owners \<noteq> {}
      then Some (if OwnerExternal \<in> owners then OwnerExternal else OwnerRhythm)
      else if k \<in> ts_grandfathered s then Some OwnerRhythm else None)" (is "_ = (let owners = ?o in ?r owners)")
proof -
  have ds: "ts_decisions (rebuild_topology_indices s) = rebuild_decisions s"
    "ts_grandfathered (rebuild_topology_indices s) = ts_grandfathered s"
    by (simp_all add: rebuild_topology_indices_def)
  have known: "(k, i) \<in> decision_key ` set (rebuild_decisions s) \<longleftrightarrow> room_has_binding i (\<lambda>b. hb_hub_key b = k) s \<and> ?o \<noteq> {}"
    unfolding decision_keys_rebuilt by (auto simp: decision_key_def image_iff)
  show ?thesis
  proof (cases "(k, i) \<in> decision_key ` set (rebuild_decisions s)")
    case False
    then show ?thesis using known by (simp add: external_room_automation_owner_def ds find_decision_none Let_def)
  next
    case True
    then obtain d where d: "d \<in> set (rebuild_decisions s)" "decision_key d = (k, i)" by auto
    have "find (is_decision i k) (rebuild_decisions s) = Some d"
      using rebuild_decisions_distinct d by (rule find_decision)
    then have owner: "external_room_automation_owner i k (rebuild_topology_indices s) = Some (ad_owner d)"
      by (simp add: external_room_automation_owner_def ds)
    have "ad_owner d = OwnerExternal \<longleftrightarrow> OwnerExternal \<in> ?o"
      using rebuild_decisions_external[OF d(1)] d(2) by (auto simp: image_iff)
    then have "ad_owner d = (if OwnerExternal \<in> ?o then OwnerExternal else OwnerRhythm)" by (cases "ad_owner d") auto
    then show ?thesis using True owner unfolding known by (simp add: Let_def)
  qed
qed

lemma upsert_hubs:
  "hb_hub_key ` set (tr_bindings (fold upsert_hub_room_binding bs r)) = hb_hub_key ` set bs \<union> hb_hub_key ` set (tr_bindings r)"
proof (induction bs arbitrary: r)
  case (Cons b bs)
  have "hb_hub_key ` set (tr_bindings (upsert_hub_room_binding b r)) = {hb_hub_key b} \<union> hb_hub_key ` set (tr_bindings r)"
  proof (cases "list_ex (is_binding (hb_hub_key b) (hb_hub_room_id b)) (tr_bindings r)")
    case True
    then have "hb_hub_key b \<in> hb_hub_key ` set (tr_bindings r)" by (auto simp: list_ex_iff is_binding_def intro: rev_image_eqI)
    with True show ?thesis by (auto simp: upsert_hub_room_binding_def modify_first_keys)
  qed (simp add: upsert_hub_room_binding_def Let_def)
  then show ?case using Cons.IH[of "upsert_hub_room_binding b r"] by auto
qed simp

lemma room_has_hub: "room_has_binding i (\<lambda>b. hb_hub_key b = k) s \<longleftrightarrow>
    (\<exists>r. map_of (ts_rooms s) i = Some r \<and> k \<in> hb_hub_key ` set (tr_bindings r))"
  by (auto simp: room_has_binding_def list_ex_iff split: option.split)

text \<open>C10: Who automates a merged room is the join of the explicit choices for the two rooms: external as soon as
one of them chose the external controller, Rhythm if there is a choice and no external one. The choice for one
room therefore also settles the rooms of the hub that came with a room the user never reviewed.\<close>

theorem merge_owner:
  assumes merged: "fst (merge_topology_rooms target source s)"
    and bound: "room_has_binding target (\<lambda>b. hb_hub_key b = k) s \<or> room_has_binding source (\<lambda>b. hb_hub_key b = k) s"
  shows "external_room_automation_owner target k (snd (merge_topology_rooms target source s)) =
     (let owners = ad_owner ` {d \<in> set (ts_decisions s). ad_hub_key d = k \<and> ad_room d \<in> {target, source}} in
      if OwnerExternal \<in> owners then Some OwnerExternal
      else if owners \<noteq> {} \<or> k \<in> ts_grandfathered s then Some OwnerRhythm else None)"
proof -
  from merged obtain src where src: "map_of (ts_rooms s) source = Some src"
    by (auto simp: merge_topology_rooms_def simp del: map_of_eq_Some_iff split: option.splits)
  from merged src obtain tgt where tgt0: "map_of (AList.delete source (ts_rooms s)) target = Some tgt"
    by (cases "map_of (AList.delete source (ts_rooms s)) target") (simp_all add: merge_topology_rooms_def Let_def)
  then have ne: "target \<noteq> source" and tgt: "map_of (ts_rooms s) target = Some tgt" by (auto simp: delete_conv' split: if_splits)
  define m where "m = (fold upsert_hub_room_binding (tr_bindings src) tgt)\<lparr>tr_customized := True\<rparr>"
  obtain s2 where s': "snd (merge_topology_rooms target source s) = rebuild_topology_indices s2"
    and room: "map_of (ts_rooms s2) target = Some m"
    and decs: "ts_decisions s2 = map (\<lambda>d. d\<lparr>ad_room := replace_id source target (ad_room d)\<rparr>) (ts_decisions s)"
    and gf: "ts_grandfathered s2 = ts_grandfathered s"
    using src tgt0 by (simp add: merge_topology_rooms_def Let_def hm_get_modify m_def del: map_of_eq_Some_iff)
  have "room_has_binding target (\<lambda>b. hb_hub_key b = k) s2"
    using bound src tgt unfolding room_has_hub by (auto simp: room m_def upsert_hubs)
  moreover have "{d \<in> set (ts_decisions s2). decision_key d = (k, target)} =
      (\<lambda>d. d\<lparr>ad_room := replace_id source target (ad_room d)\<rparr>) ` {d \<in> set (ts_decisions s). ad_hub_key d = k \<and> ad_room d \<in> {target, source}}"
    by (auto simp: decs decision_key_def replace_id_def)
  then have "ad_owner ` {d \<in> set (ts_decisions s2). decision_key d = (k, target)} =
      ad_owner ` {d \<in> set (ts_decisions s). ad_hub_key d = k \<and> ad_room d \<in> {target, source}}"
    by (simp add: image_image)
  ultimately show ?thesis unfolding s' owner_rebuilt gf by (auto simp: Let_def)
qed

text \<open>A kitchen the user gave to Rhythm absorbs one never reviewed.\<close>

definition reviewed_store :: topology_store where
  "reviewed_store =
     (let s1 = snd (translate_or_create_with_status ''R1'' demo_hub ''r1'' ''Kitchen'' ''g1'' [''l1''] topology_new);
          s2 = snd (replace_decisions demo_hub [(''R1'', OwnerRhythm)] s1)
      in snd (translate_or_create_with_status ''R2'' demo_hub ''r2'' ''Pantry'' ''g2'' [''l2''] s2))"

theorem merge_owner_witness:
  "external_room_automation_owner ''R2'' demo_hub reviewed_store = None \<and>
   external_room_automation_owner ''R1'' demo_hub (snd (merge_topology_rooms ''R1'' ''R2'' reviewed_store)) = Some OwnerRhythm"
proof -
  have m: "fst (merge_topology_rooms ''R1'' ''R2'' reviewed_store)" by code_simp
  have b: "room_has_binding ''R1'' (\<lambda>b. hb_hub_key b = demo_hub) reviewed_store" by code_simp
  have o: "(let owners = ad_owner ` {d \<in> set (ts_decisions reviewed_store). ad_hub_key d = demo_hub \<and> ad_room d \<in> {''R1'', ''R2''}} in
      if OwnerExternal \<in> owners then Some OwnerExternal
      else if owners \<noteq> {} \<or> demo_hub \<in> ts_grandfathered reviewed_store then Some OwnerRhythm else None) = Some OwnerRhythm"
    by code_simp
  have "external_room_automation_owner ''R2'' demo_hub reviewed_store = None" by code_simp
  then show ?thesis using merge_owner[OF m disjI1[OF b]] o by simp
qed

lemma find_filter: "find p xs = (case filter p xs of [] \<Rightarrow> None | x # _ \<Rightarrow> Some x)"
  by (induction xs) auto

lemma find_unique: "d \<in> set xs \<Longrightarrow> p d \<Longrightarrow> (\<And>e. e \<in> set xs \<Longrightarrow> p e \<Longrightarrow> e = d) \<Longrightarrow> find p xs = Some d"
proof (cases "find p xs")
  case None
  moreover assume "d \<in> set xs" "p d"
  ultimately show ?thesis by (simp add: find_None_iff)
next
  case (Some e)
  then have "e \<in> set xs" "p e" by (auto simp: find_Some_iff)
  moreover assume "\<And>e. e \<in> set xs \<Longrightarrow> p e \<Longrightarrow> e = d"
  ultimately have "e = d" by blast
  with Some show ?thesis by simp
qed

lemma sort_key_constant: "(\<And>x. x \<in> set xs \<Longrightarrow> f x = c) \<Longrightarrow> sort_key f xs = xs"
proof (rule sort_key_id_if_sorted)
  assume "\<And>x. x \<in> set xs \<Longrightarrow> f x = c"
  then have "map f xs = map (\<lambda>_. c) xs" by simp
  moreover have "sorted (map (\<lambda>_. c) xs)" by (induction xs) auto
  ultimately show "sorted (map f xs)" by (simp only:)
qed

text \<open>The stable sort by room does not change which decision is found.\<close>

lemma find_decision_sorted: "find (is_decision i k) (sort_key ad_room ds) = find (is_decision i k) ds"
proof -
  have "filter (is_decision i k) (sort_key ad_room ds) = sort_key ad_room (filter (is_decision i k) ds)"
    by (rule filter_sort)
  also have "\<dots> = filter (is_decision i k) ds" by (rule sort_key_constant[of _ _ i]) (simp add: is_decision_def)
  finally show ?thesis by (simp add: find_filter)
qed

lemma find_other_hub:
  "k' \<noteq> k \<Longrightarrow> find (is_decision i k') (filter (\<lambda>d. ad_hub_key d \<noteq> k) ds @ map (\<lambda>(i, ow). \<lparr>ad_room = i, ad_hub_key = k, ad_owner = ow\<rparr>) es) =
     find (is_decision i k') ds"
proof -
  assume k: "k' \<noteq> k"
  have "filter (is_decision i k') (filter (\<lambda>d. ad_hub_key d \<noteq> k) ds) = filter (is_decision i k') ds"
    using k by (induction ds) (auto simp: is_decision_def)
  moreover have "filter (is_decision i k') (map (\<lambda>(i, ow). \<lparr>ad_room = i, ad_hub_key = k, ad_owner = ow\<rparr>) es) = []"
    using k by (auto simp: filter_empty_conv is_decision_def)
  ultimately show ?thesis by (simp add: find_filter)
qed

lemma review_rooms:
  "rooms_ok s \<Longrightarrow> fst ` set (external_automation_rooms_for_hub k s) = {i. room_has_binding i (\<lambda>b. hb_hub_key b = k) s}"
proof -
  assume ok: "rooms_ok s"
  have mem: "(i, r) \<in> set (ts_rooms s) \<longleftrightarrow> map_of (ts_rooms s) i = Some r" for i r
    using ok by (simp add: rooms_ok_def)
  have "fst ` set (external_automation_rooms_for_hub k s) = tr_id ` {r \<in> snd ` set (ts_rooms s). bound_to k r}"
    by (force simp: external_automation_rooms_for_hub_def)
  also have "\<dots> = {i. \<exists>r. (i, r) \<in> set (ts_rooms s) \<and> bound_to k r}"
    using tr_id_key[OF ok] by force
  also have "\<dots> = {i. room_has_binding i (\<lambda>b. hb_hub_key b = k) s}"
    unfolding mem by (auto simp: room_has_binding_def bound_to_def simp del: map_of_eq_Some_iff split: option.splits)
  finally show ?thesis .
qed

text \<open>A review is all or nothing: a submission that is not exactly the rooms of the hub, once each, is an error and
changes nothing; one that is leaves every room of the hub with the owner submitted for it, ends the approval
the hub had from before, and touches no other hub.\<close>

theorem replace_decisions_review:
  assumes "rooms_ok s"
  shows "case replace_decisions k ds s of (res, s') \<Rightarrow>
     (case res of
        Inl _ \<Rightarrow> s' = s \<and> (\<not> distinct (map fst ds) \<or> ds = [] \<or>
          fst ` set ds \<noteq> {i. room_has_binding i (\<lambda>b. hb_hub_key b = k) s})
      | Inr _ \<Rightarrow> {i. room_has_binding i (\<lambda>b. hb_hub_key b = k) s} = fst ` set ds \<and> k \<notin> ts_grandfathered s' \<and>
          (\<forall>(i, ow) \<in> set ds. external_room_automation_owner i k s' = Some ow) \<and>
          (\<forall>i k'. k' \<noteq> k \<longrightarrow> external_room_automation_owner i k' s' = external_room_automation_owner i k' s))"
proof -
  let ?bound = "{i. room_has_binding i (\<lambda>b. hb_hub_key b = k) s}"
  let ?new = "map (\<lambda>(i, ow). \<lparr>ad_room = i, ad_hub_key = k, ad_owner = ow\<rparr>) ds"
  let ?all = "filter (\<lambda>d. ad_hub_key d \<noteq> k) (ts_decisions s) @ ?new"
  note rooms = review_rooms[OF assms, of k]
  consider (none) "?bound = {}" | (bad) "?bound \<noteq> {}" "\<not> distinct (map fst ds) \<or> fst ` set ds \<noteq> ?bound"
    | (good) "?bound \<noteq> {}" "distinct (map fst ds)" "fst ` set ds = ?bound" by blast
  then show ?thesis
  proof cases
    case none
    then show ?thesis by (simp add: replace_decisions_def Let_def rooms)
  next
    case bad
    then show ?thesis by (simp add: replace_decisions_def Let_def rooms)
  next
    case good
    have own: "find (is_decision i k) (sort_key ad_room ?all) = Some \<lparr>ad_room = i, ad_hub_key = k, ad_owner = ow\<rparr>"
      if "(i, ow) \<in> set ds" for i ow
      unfolding find_decision_sorted
    proof (rule find_unique)
      show "\<lparr>ad_room = i, ad_hub_key = k, ad_owner = ow\<rparr> \<in> set ?all" using that by force
      fix e
      assume "e \<in> set ?all" "is_decision i k e"
      then obtain ow' where "e = \<lparr>ad_room = i, ad_hub_key = k, ad_owner = ow'\<rparr>" "(i, ow') \<in> set ds"
        by (auto simp: is_decision_def)
      then show "e = \<lparr>ad_room = i, ad_hub_key = k, ad_owner = ow\<rparr>" using that good(2) eq_key_imp_eq_value by force
    qed (simp add: is_decision_def)
    have other: "find (is_decision i k') (sort_key ad_room ?all) = find (is_decision i k') (ts_decisions s)" if "k' \<noteq> k" for i k'
      unfolding find_decision_sorted using that by (rule find_other_hub)
    have step: "replace_decisions k ds s = (Inr (filter (\<lambda>d. ad_hub_key d = k) (ts_decisions s) \<noteq>
        filter (\<lambda>d. ad_hub_key d = k) (sort_key ad_room ?all) \<or> k \<in> ts_grandfathered s),
        s\<lparr>ts_decisions := sort_key ad_room ?all, ts_grandfathered := ts_grandfathered s - {k}\<rparr>)"
      using good by (simp add: replace_decisions_def Let_def rooms)
    show ?thesis
      unfolding step using good(3) own other by (auto simp: external_room_automation_owner_def simp del: filter_append map_append)
  qed
qed

theorem replace_decisions_review_witness:
  "(let (res, s') = replace_decisions demo_hub [(''R2'', OwnerExternal), (''R1'', OwnerRhythm)] reviewed_store
    in res = Inr True \<and> external_room_automation_owner ''R2'' demo_hub s' = Some OwnerExternal) \<and>
   replace_decisions demo_hub [(''R2'', OwnerExternal)] reviewed_store =
     (Inl ''The submitted room set is stale or incomplete'', reviewed_store)"
proof -
  have ok: "rooms_ok reviewed_store" by code_simp
  have a: "fst (replace_decisions demo_hub [(''R2'', OwnerExternal), (''R1'', OwnerRhythm)] reviewed_store) = Inr True" by code_simp
  have b: "fst (replace_decisions demo_hub [(''R2'', OwnerExternal)] reviewed_store) = Inl ''The submitted room set is stale or incomplete''"
    by code_simp
  show ?thesis
    using replace_decisions_review[OF ok, of "[(''R2'', OwnerExternal), (''R1'', OwnerRhythm)]" demo_hub]
      replace_decisions_review[OF ok, of "[(''R2'', OwnerExternal)]" demo_hub] a b
    by (auto simp: Let_def split_def prod_eq_iff)
qed

section \<open>Sync\<close>

text \<open>Devices the user placed keep their place.\<close>

definition keeps_overrides :: "topology_store \<Rightarrow> topology_store \<Rightarrow> bool" where
  "keeps_overrides s t \<longleftrightarrow>
     (\<forall>d n. map_of (ts_nodes s) d = Some n \<longrightarrow> dn_placement n = UserOverride \<longrightarrow> map_of (ts_nodes t) d = Some n)"

lemma keeps_overrides_trans: "keeps_overrides s t \<Longrightarrow> keeps_overrides t u \<Longrightarrow> keeps_overrides s u"
  by (simp add: keeps_overrides_def del: map_of_eq_Some_iff)

lemma keeps_overrides_nodes: "ts_nodes t = ts_nodes s \<Longrightarrow> keeps_overrides s t"
  by (simp add: keeps_overrides_def)

lemma keeps_overrides_default: "keeps_overrides s (sync_hub_default_device_for_room room d s)"
  by (auto simp: keeps_overrides_def sync_hub_default_device_for_room_def upsert_device_node_def update_conv' hm_get_modify
      simp del: map_of_eq_Some_iff split: option.split)

lemma keeps_overrides_defaults: "keeps_overrides s (fold (sync_hub_default_device_for_room room) ds s)"
proof (induction ds arbitrary: s)
  case Nil
  then show ?case by (simp add: keeps_overrides_nodes)
next
  case (Cons d ds)
  then show ?case using keeps_overrides_trans[OF keeps_overrides_default Cons.IH] by simp
qed

lemma keeps_overrides_detach: "keeps_overrides s (detach_hub_default_devices_for_room room k reg keep s)"
  by (auto simp: keeps_overrides_def detach_hub_default_devices_for_room_def hm_get_hm_map simp del: map_of_eq_Some_iff)

lemma keeps_overrides_sync_devices: "ts_nodes t = ts_nodes s \<Longrightarrow> keeps_overrides s (sync_devices room k reg ds t)"
  unfolding sync_devices_def
  using keeps_overrides_trans[OF keeps_overrides_nodes keeps_overrides_trans[OF keeps_overrides_detach keeps_overrides_defaults]]
  by blast

lemma keeps_overrides_result: "keeps_overrides s t \<Longrightarrow> ts_nodes u = ts_nodes t \<Longrightarrow> keeps_overrides s u"
  by (simp add: keeps_overrides_def)

lemma sync_nodes [simp]:
  "ts_nodes (bind_discovered i k d s) = ts_nodes s" "ts_nodes (set_index k r i s) = ts_nodes s"
  "ts_nodes (insert_discovered_room i k d s) = ts_nodes s" "ts_nodes (revoke_binding k r s) = ts_nodes s"
  by (simp_all add: bind_discovered_def set_index_def insert_discovered_room_def revoke_binding_def)

lemma keeps_overrides_refresh: "keeps_overrides s (refresh_room room a k reg d s)"
  unfolding refresh_room_def by (rule keeps_overrides_result[OF keeps_overrides_sync_devices]) simp_all

lemma keeps_overrides_apply: "keeps_overrides s (apply_approved target dup k reg d s)"
  unfolding apply_approved_def Let_def
  by (rule keeps_overrides_result[OF keeps_overrides_sync_devices[of "bind_discovered target k d s" s target k reg "dr_devices d"]]) (simp_all split: option.split)

lemma keeps_overrides_create: "ts_nodes t = ts_nodes s \<Longrightarrow> keeps_overrides s (create_discovered_room uuid k d t)"
  unfolding create_discovered_room_def
  by (rule keeps_overrides_result[OF keeps_overrides_trans[OF keeps_overrides_nodes keeps_overrides_defaults]]) simp_all

text \<open>C26: A discovery sync never moves a device the user placed: whatever a hub reports for a room, with or without
approved bindings, the node of every device with a user override is as it was, its room included.\<close>

theorem sync_keeps_user_placement:
  assumes "get_device_node d s = Some n" "dn_placement n = UserOverride"
  shows "get_device_node d (snd (sync_hub_room_with_registry lower uuid k room reg s)) = Some n"
proof -
  have "keeps_overrides s (snd (sync_hub_room_with_registry lower uuid k room reg s))"
    by (auto simp: sync_hub_room_with_registry_def sync_mapped_room_def sync_unmapped_room_def Let_def
        keeps_overrides_refresh keeps_overrides_apply keeps_overrides_create split: option.split list.split)
  then show ?thesis using assms unfolding keeps_overrides_def get_device_node_def by blast
qed

definition moved_store :: topology_store where
  "moved_store =
     (let s1 = snd (create_topology_room ''R2'' ''Office'' demo_store) in snd (move_device ''d1'' ''R1'' ''R2'' s1))"

theorem sync_keeps_user_placement_witness:
  "device_parent_room_id ''d1'' (snd (sync_hub_room_with_registry id ''R3'' demo_hub demo_room registry_new moved_store)) = Some ''R2''"
proof -
  let ?n = "\<lparr>dn_id = ''d1'', dn_canonical_id = ''d1'', dn_parent = Some ''R2'', dn_placement = UserOverride\<rparr>"
  have "get_device_node ''d1'' moved_store = Some ?n" by code_simp
  moreover have "dn_placement ?n = UserOverride" by simp
  ultimately have "get_device_node ''d1'' (snd (sync_hub_room_with_registry id ''R3'' demo_hub demo_room registry_new moved_store)) = Some ?n"
    by (rule sync_keeps_user_placement)
  then show ?thesis by (simp add: device_parent_room_id_def get_device_node_def)
qed

text \<open>Later syncs of a hub room whose room is gone.\<close>

lemma room_ids_refresh: "store_room_ids (refresh_room room a k reg d s) = store_room_ids s"
proof -
  have ids: "store_room_ids (fold (sync_hub_default_device_for_room room) ds t) = store_room_ids t" for ds t
    by (induction ds arbitrary: t) (simp_all add: sync_hub_default_device_for_room_def upsert_device_node_def split: option.split)
  show ?thesis by (simp add: refresh_room_def sync_devices_def ids detach_hub_default_devices_for_room_def)
qed

lemma index_refresh: "ts_index (refresh_room room a k reg d s) = ts_index s"
proof -
  have ids: "ts_index (fold (sync_hub_default_device_for_room room) ds t) = ts_index t" for ds t
    by (induction ds arbitrary: t) (simp_all add: sync_hub_default_device_for_room_def upsert_device_node_def split: option.split)
  show ?thesis by (simp add: refresh_room_def sync_devices_def ids detach_hub_default_devices_for_room_def bind_discovered_def)
qed

lemma sync_without_room:
  assumes "map_of (ts_index s) (index_key k (dr_hub_room_id d)) = Some room" and "map_of (ts_rooms s) room = None"
  shows "sync_hub_room_with_registry lower uuid k d reg s = (SyncUpdated room, refresh_room room (dr_authoritative d) k reg d s)"
  using assms by (simp add: sync_hub_room_with_registry_def sync_mapped_room_def freshly_created_def del: map_of_eq_Some_iff)

text \<open>The answers to the reports of a hub on one of its rooms, one after the other, and the store after them.\<close>

fun sync_reports ::
    "(string \<Rightarrow> string) \<Rightarrow> hub_key \<Rightarrow> (string \<times> discovered_topology_room \<times> canonical_registry) list \<Rightarrow> topology_store \<Rightarrow>
     sync_action list \<times> topology_store" where
  "sync_reports lower k [] s = ([], s)"
| "sync_reports lower k ((uuid, d, reg) # ds) s =
     (let (action, s1) = sync_hub_room_with_registry lower uuid k d reg s; (actions, s2) = sync_reports lower k ds s1
      in (action # actions, s2))"

lemma sync_reports_without_room:
  assumes "map_of (ts_index s) (index_key k r) = Some room" and "map_of (ts_rooms s) room = None"
    and "\<forall>(uuid, d, reg) \<in> set ds. dr_hub_room_id d = r"
  shows "case sync_reports lower k ds s of (actions, s') \<Rightarrow>
     actions = replicate (length ds) (SyncUpdated room) \<and> map_of (ts_rooms s') room = None"
  using assms
proof (induction ds arbitrary: s)
  case (Cons x ds)
  obtain uuid d reg where x: "x = (uuid, d, reg)" by (cases x)
  then have r: "dr_hub_room_id d = r" using Cons.prems(3) by simp
  let ?s1 = "refresh_room room (dr_authoritative d) k reg d s"
  have first: "sync_hub_room_with_registry lower uuid k d reg s = (SyncUpdated room, ?s1)"
    using Cons.prems(1,2) by (intro sync_without_room) (simp_all only: r)
  have "map_of (ts_rooms ?s1) room = None"
    using Cons.prems(2) room_ids_refresh [of room "dr_authoritative d" k reg d s] by (simp add: not_room_id [symmetric])
  moreover have "map_of (ts_index ?s1) (index_key k r) = Some room" using Cons.prems(1) by (simp only: index_refresh)
  moreover have "\<forall>(uuid, d, reg) \<in> set ds. dr_hub_room_id d = r" using Cons.prems(3) by simp
  ultimately have "case sync_reports lower k ds ?s1 of (actions, s') \<Rightarrow>
      actions = replicate (length ds) (SyncUpdated room) \<and> map_of (ts_rooms s') room = None"
    by (intro Cons.IH)
  then show ?case by (simp add: x first split: prod.splits)
qed simp

text \<open>C29: An approved binding that names the room its hub room is already mapped to makes the next sync delete that
room when it is small enough to pass for a duplicate (one binding, no device) and another room has its name. The
sync reports the room as bound; and however often the hub reports its room after that, with whatever name and devices,
every one of these syncs reports the room as updated while it stays gone.\<close>

theorem approved_room_deleted:
  assumes "deletes_own_room lower k d s" and "\<forall>(uuid', d', reg') \<in> set later. dr_hub_room_id d' = dr_hub_room_id d"
  shows "\<exists>room. get_topology_room room s \<noteq> None \<and> map_of (ts_index s) (index_key k (dr_hub_room_id d)) = Some room \<and>
     (case sync_hub_room_with_registry lower uuid k d reg s of (action, s1) \<Rightarrow>
        action = SyncBound room \<and> get_topology_room room s1 = None \<and>
        (case sync_reports lower k later s1 of (actions, s2) \<Rightarrow>
           actions = replicate (length later) (SyncUpdated room) \<and> get_topology_room room s2 = None))"
proof -
  obtain room where r: "map_of (ts_index s) (index_key k (dr_hub_room_id d)) = Some room" "freshly_created room s"
    "sync_hub_room_with_registry lower uuid k d reg s = (SyncBound room, apply_approved room (Some room) k reg d s)"
    "map_of (ts_rooms (apply_approved room (Some room) k reg d s)) room = None"
    "map_of (ts_index (apply_approved room (Some room) k reg d s)) (index_key k (dr_hub_room_id d)) = Some room"
    using sync_deletes_own_room [OF assms(1), of uuid reg] by metis
  have "get_topology_room room s \<noteq> None" using r(2) by (simp add: freshly_created_def get_topology_room_def split: option.splits)
  then show ?thesis
    using r(1) sync_reports_without_room [OF r(5,4) assms(2), of lower]
    by (intro exI [of _ room]) (simp add: r(3,4) get_topology_room_def del: map_of_eq_Some_iff)
qed

text \<open>A kitchen whose only binding the user approved, next to another kitchen.\<close>

definition approved_store :: topology_store where
  "approved_store =
     (let s1 = snd (create_topology_room ''R1'' ''Kitchen'' topology_new);
          s2 = approve_binding demo_hub ''r1'' ''R1'' 5 s1;
          s3 = snd (translate_or_create_with_status ''R3'' demo_hub ''r1'' ''Kitchen'' ''g1'' [''l1''] s2)
      in snd (create_topology_room ''R2'' ''Kitchen'' s3))"

theorem approved_room_deleted_witness:
  "get_topology_room ''R1'' approved_store \<noteq> None \<and>
   (case sync_hub_room_with_registry id ''R4'' demo_hub demo_room registry_new approved_store of (action, s1) \<Rightarrow>
      action = SyncBound ''R1'' \<and> get_topology_room ''R1'' s1 = None \<and>
      fst (sync_reports id demo_hub [(''R5'', demo_room, registry_new)] s1) = [SyncUpdated ''R1''])"
proof -
  have del: "deletes_own_room id demo_hub demo_room approved_store" by code_simp
  have idx: "map_of (ts_index approved_store) (index_key demo_hub (dr_hub_room_id demo_room)) = Some ''R1''" by code_simp
  let ?later = "[(''R5'', demo_room, registry_new)]"
  have "\<forall>(uuid', d', reg') \<in> set ?later. dr_hub_room_id d' = dr_hub_room_id demo_room" by simp
  from approved_room_deleted [OF del this, of "''R4''" registry_new] show ?thesis
    unfolding idx by (auto simp: split_def)
qed

text \<open>C28: In every store reached as for the invariant (any operations, and syncs that do not delete the room
  of the device they report), the devices of a room are exactly those placed in it, each once and in
  no other room.\<close>

theorem room_devices_are_placements:
  assumes "topology_reachable lower s" "get_topology_room i s = Some r"
  shows "distinct (map rd_device_id (tr_devices r)) \<and>
     (\<forall>d. d \<in> rd_device_id ` set (tr_devices r) \<longleftrightarrow> device_parent_room_id d s = Some i)"
proof -
  have ok: "topology_ok s" using assms(1) by (induction rule: topology_reachable.induct) (simp_all add: topology_new_ok topology_steps.step_keeps)
  then have nodes: "nodes_ok s" by (simp add: topology_ok_def)
  have id: "dn_canonical_id n = d" if "map_of (ts_nodes s) d = Some n" for d n
    using nodes that unfolding nodes_ok_iff node_ok_def by blast
  have devs: "tr_devices r = room_projection i s" using topology_ok_devices[OF ok] assms(2) by (simp add: get_topology_room_def)
  have placed: "placed_in i s d = Some x \<Longrightarrow> rd_device_id x = d" for d x
    by (auto simp: placed_in_def id simp del: map_of_eq_Some_iff split: option.splits if_splits)
  have "map rd_device_id (List.map_filter (placed_in i s) ds) = filter (\<lambda>d. placed_in i s d \<noteq> None) ds" for ds
    by (induction ds) (auto simp: map_filter_simps placed split: option.split)
  then have "map rd_device_id (tr_devices r) = filter (\<lambda>d. placed_in i s d \<noteq> None) (sort (map fst (ts_nodes s)))"
    by (simp add: devs room_projection_def)
  moreover have "distinct (sort (map fst (ts_nodes s)))" using nodes by (simp add: nodes_ok_def)
  ultimately have "distinct (map rd_device_id (tr_devices r))" by simp
  moreover have "d \<in> rd_device_id ` set (tr_devices r) \<longleftrightarrow> device_parent_room_id d s = Some i" for d
  proof
    assume "d \<in> rd_device_id ` set (tr_devices r)"
    then obtain d' n where "map_of (ts_nodes s) d' = Some n" "dn_parent n = Some i" "d = dn_canonical_id n"
      unfolding devs image_iff Bex_def mem_room_projection by auto
    then show "device_parent_room_id d s = Some i" using id by (simp add: device_parent_room_id_def del: map_of_eq_Some_iff)
  next
    assume "device_parent_room_id d s = Some i"
    then obtain n where n: "map_of (ts_nodes s) d = Some n" "dn_parent n = Some i"
      by (auto simp: device_parent_room_id_def simp del: map_of_eq_Some_iff split: option.splits)
    then have "\<lparr>rd_device_id = dn_canonical_id n, rd_placement = dn_placement n\<rparr> \<in> set (room_projection i s)"
      unfolding mem_room_projection by blast
    then show "d \<in> rd_device_id ` set (tr_devices r)" using id[OF n(1)] unfolding devs by (metis image_eqI room_device.select_convs(1))
  qed
  ultimately show ?thesis by blast
qed

theorem room_devices_are_placements_witness:
  "\<exists>r. get_topology_room ''R1'' demo_store = Some r \<and> rd_device_id ` set (tr_devices r) = {d. device_parent_room_id d demo_store = Some ''R1''} \<and>
     ''d1'' \<in> rd_device_id ` set (tr_devices r)"
proof -
  have "get_topology_room ''R1'' demo_store \<noteq> None" by code_simp
  then obtain r where r: "get_topology_room ''R1'' demo_store = Some r" by blast
  have "device_parent_room_id ''d1'' demo_store = Some ''R1''" by code_simp
  then show ?thesis using room_devices_are_placements[OF demo_store_reachable r] r by blast
qed

end
