(* ===== verification/TopologyDispatch.thy ===== *)
theory TopologyDispatch
  imports TopologyProperties
begin

text \<open>
  What the dispatch plan of a room reaches: the lights of the room that a hub controls, all of them and no
  others, as one group of the hub or one by one; and the route of a single light, which agrees with the plan.
\<close>

section \<open>Lights by hub\<close>

definition dispatched_lights :: "canonical_registry \<Rightarrow> string set \<Rightarrow> topology_room \<Rightarrow> hub_key \<Rightarrow> string set" where
  "dispatched_lights reg required room k =
     ep_native_id ` {e. \<exists>x \<in> set (tr_devices room). controlled_endpoint reg required (rd_device_id x) = Some e \<and> ep_hub_key e = k}"

definition native_ids :: "(hub_key, (string, string) hmap) hmap \<Rightarrow> hub_key \<Rightarrow> string set" where
  "native_ids m k = fst ` set (unwrap_or (map_of m k) [])"

lemma insert_nested_get:
  "map_of (insert_nested k n v m) k' = (if k' = k then Some (AList.update n v (unwrap_or (map_of m k) [])) else map_of m k')"
  by (simp add: insert_nested_def update_conv')

lemma native_ids_insert: "native_ids (insert_nested k n v m) k' = (if k' = k then {n} else {}) \<union> native_ids m k'"
  by (auto simp: native_ids_def insert_nested_get update_conv' simp flip: dom_map_of_conv_image_fst)

definition nested_ok :: "(hub_key, (string, string) hmap) hmap \<Rightarrow> bool" where
  "nested_ok m \<longleftrightarrow> hm_ok m \<and> (\<forall>k ids. map_of m k = Some ids \<longrightarrow> hm_ok ids \<and> ids \<noteq> [])"

lemma update_not_Nil [simp]: "AList.update k v m \<noteq> []"
  by (cases m) auto

lemma nested_ok_insert: "nested_ok m \<Longrightarrow> nested_ok (insert_nested k n v m)"
proof -
  assume ok: "nested_ok m"
  then have "hm_ok (unwrap_or (map_of m k) [])" by (cases "map_of m k") (auto simp: nested_ok_def)
  with ok show ?thesis
    by (auto simp: nested_ok_def insert_nested_get distinct_update simp del: map_of_eq_Some_iff)
       (simp add: insert_nested_def distinct_update)
qed

lemma control_lights_fold:
  assumes "nested_ok m"
  shows "nested_ok (fold (\<lambda>x by_hub. case controlled_endpoint reg required (rd_device_id x) of None \<Rightarrow> by_hub
       | Some e \<Rightarrow> insert_nested (ep_hub_key e) (ep_native_id e) (rd_device_id x) by_hub) xs m) \<and>
     native_ids (fold (\<lambda>x by_hub. case controlled_endpoint reg required (rd_device_id x) of None \<Rightarrow> by_hub
       | Some e \<Rightarrow> insert_nested (ep_hub_key e) (ep_native_id e) (rd_device_id x) by_hub) xs m) k =
     ep_native_id ` {e. \<exists>x \<in> set xs. controlled_endpoint reg required (rd_device_id x) = Some e \<and> ep_hub_key e = k} \<union> native_ids m k"
  using assms
proof (induction xs arbitrary: m)
  case (Cons x xs)
  show ?case
  proof (cases "controlled_endpoint reg required (rd_device_id x)")
    case None
    then show ?thesis using Cons by simp
  next
    case (Some e)
    have "nested_ok (insert_nested (ep_hub_key e) (ep_native_id e) (rd_device_id x) m)"
      using Cons.prems by (rule nested_ok_insert)
    from Cons.IH[OF this] show ?thesis by (auto simp: Some native_ids_insert)
  qed
qed simp

lemma control_lights:
  "nested_ok (control_light_endpoints_by_hub reg required room)"
  "native_ids (control_light_endpoints_by_hub reg required room) k = dispatched_lights reg required room k"
  using control_lights_fold[of "[]" reg required "tr_devices room"]
  by (simp_all add: control_light_endpoints_by_hub_def nested_ok_def dispatched_lights_def native_ids_def)

lemma control_lights_get:
  "map_of (control_light_endpoints_by_hub reg required room) k = Some ids \<Longrightarrow>
     hm_ok ids \<and> ids \<noteq> [] \<and> fst ` set ids = dispatched_lights reg required room k"
  "map_of (control_light_endpoints_by_hub reg required room) k = None \<Longrightarrow> dispatched_lights reg required room k = {}"
proof -
  assume get: "map_of (control_light_endpoints_by_hub reg required room) k = Some ids"
  then show "hm_ok ids \<and> ids \<noteq> [] \<and> fst ` set ids = dispatched_lights reg required room k"
    using control_lights(1)[of reg required room] control_lights(2)[of reg required room k]
    by (simp add: nested_ok_def native_ids_def del: map_of_eq_Some_iff)
next
  assume "map_of (control_light_endpoints_by_hub reg required room) k = None"
  then show "dispatched_lights reg required room k = {}"
    using control_lights(2)[of reg required room k] by (simp add: native_ids_def)
qed

section \<open>Targets of a plan\<close>

definition hub_target ::
    "string set \<Rightarrow> managed_binding list \<Rightarrow> hub_key set \<Rightarrow> topology_room \<Rightarrow> hub_key \<Rightarrow> string set \<Rightarrow> hub_dispatch_target option" where
  "hub_target required managed suspended room k assigned =
     (if display_hub_key k \<in> required then authoritative_grouped_target k assigned managed room
      else if k \<notin> suspended \<and> exact_native_grouped_target k assigned room \<noteq> None then exact_native_grouped_target k assigned room
      else Some (Devices (sorted_list_of_set assigned)))"

lemma grouped_targets:
  "exact_native_grouped_target k assigned room = Some t \<Longrightarrow>
     \<exists>b \<in> set (tr_bindings room). hb_hub_key b = k \<and> set (hb_lights b) = assigned \<and> t = Group (hb_hub_room_id b) (hb_control_id b)"
  "authoritative_grouped_target k assigned managed room = Some t \<Longrightarrow>
     \<exists>b \<in> set (tr_bindings room). hb_hub_key b = k \<and> set (hb_lights b) = assigned \<and> t = Group (hb_hub_room_id b) (hb_control_id b)"
proof -
  have min: "min_by_key f xs = Some x \<Longrightarrow> x \<in> set xs" for f :: "hub_room_binding \<Rightarrow> string" and xs x
    by (induction xs arbitrary: x) (auto split: option.splits if_splits)
  assume "exact_native_grouped_target k assigned room = Some t"
  then show "\<exists>b \<in> set (tr_bindings room). hb_hub_key b = k \<and> set (hb_lights b) = assigned \<and> t = Group (hb_hub_room_id b) (hb_control_id b)"
    by (auto simp: exact_native_grouped_target_def split: if_splits dest!: min)
next
  assume auth: "authoritative_grouped_target k assigned managed room = Some t"
  then obtain b where one: "filter (\<lambda>b. hb_hub_key b = k) (tr_bindings room) = [b]"
    by (auto simp: authoritative_grouped_target_def split: list.splits)
  have "b \<in> set (filter (\<lambda>b. hb_hub_key b = k) (tr_bindings room))" unfolding one by simp
  then have "b \<in> set (tr_bindings room)" "hb_hub_key b = k" by simp_all
  then show "\<exists>b \<in> set (tr_bindings room). hb_hub_key b = k \<and> set (hb_lights b) = assigned \<and> t = Group (hb_hub_room_id b) (hb_control_id b)"
    using auth by (auto simp: authoritative_grouped_target_def one split: if_splits)
qed

lemma sorted_native_ids:
  assumes "hm_ok ids"
  shows "sort (map fst (sort_key (\<lambda>(n, d). (d, n)) ids)) = sorted_list_of_set (fst ` set ids)"
proof -
  have "distinct (map fst (sort_key (\<lambda>(n, d). (d, n)) ids))" using assms by (simp add: distinct_map_sort_key)
  then show ?thesis
    by (intro sorted_distinct_set_unique) (simp_all add: sorted_list_of_set)
qed

lemma plan_hub_targets:
  assumes "hm_ok ids" "ids \<noteq> []"
  shows "dp_targets (plan_hub required managed suspended room (k, ids) plan) = dp_targets plan @
     (case hub_target required managed suspended room k (fst ` set ids) of None \<Rightarrow> [] | Some t \<Rightarrow> [(k, t)])"
  using assms sorted_native_ids[OF assms(1)]
  by (auto simp: plan_hub_def hub_target_def add_group_def add_devices_def Let_def split: option.splits hub_dispatch_target.splits
      dest: grouped_targets)

definition entry_targets ::
    "string set \<Rightarrow> managed_binding list \<Rightarrow> hub_key set \<Rightarrow> topology_room \<Rightarrow> hub_key \<times> (string, string) hmap \<Rightarrow>
     (hub_key \<times> hub_dispatch_target) list" where
  "entry_targets required managed suspended room e =
     (case hub_target required managed suspended room (fst e) (fst ` set (snd e)) of None \<Rightarrow> [] | Some t \<Rightarrow> [(fst e, t)])"

lemma plan_hubs_targets:
  assumes "\<And>e. e \<in> set es \<Longrightarrow> hm_ok (snd e) \<and> snd e \<noteq> []"
  shows "dp_targets (fold (plan_hub required managed suspended room) es plan) =
     dp_targets plan @ concat (map (entry_targets required managed suspended room) es)"
  using assms
proof (induction es arbitrary: plan)
  case (Cons e es)
  then have "hm_ok (snd e)" "snd e \<noteq> []" by auto
  then have "dp_targets (plan_hub required managed suspended room e plan) =
      dp_targets plan @ entry_targets required managed suspended room e"
    using plan_hub_targets[of "snd e" required managed suspended room "fst e" plan] by (simp add: entry_targets_def)
  then show ?case using Cons by simp
qed simp

lemma map_fst_entry_targets: "hm_ok es \<Longrightarrow> distinct (map fst (concat (map (entry_targets required managed suspended room) es)))"
proof (induction es)
  case (Cons e es)
  have "fst ` set (concat (map (entry_targets required managed suspended room) es)) \<subseteq> fst ` set es"
    by (induction es) (auto simp: entry_targets_def split: option.splits)
  with Cons show ?case by (auto simp: entry_targets_def split: option.split)
qed simp

text \<open>The targets of a plan: at most one for a hub, that of the lights of the room the hub controls.\<close>

lemma plan_targets:
  fixes reg required managed suspended room
  defines "ts \<equiv> dp_targets (plan_dispatch reg required managed suspended room)"
  shows "distinct (map fst ts)"
    and "(k, t) \<in> set ts \<longleftrightarrow> dispatched_lights reg required room k \<noteq> {} \<and>
      hub_target required managed suspended room k (dispatched_lights reg required room k) = Some t"
proof -
  let ?m = "control_light_endpoints_by_hub reg required room"
  let ?es = "sort_key (\<lambda>(k, _). display_hub_key k) ?m"
  have hm: "hm_ok ?m" using control_lights(1) by (simp add: nested_ok_def)
  have es: "hm_ok (snd e) \<and> snd e \<noteq> [] \<and> fst ` set (snd e) = dispatched_lights reg required room (fst e)" if "e \<in> set ?es" for e
    using that hm control_lights_get(1)[of reg required room "fst e" "snd e"] by simp
  have ts: "ts = concat (map (entry_targets required managed suspended room) ?es)"
  proof (cases "?m = []")
    case True
    then show ?thesis by (simp add: ts_def plan_dispatch_def empty_plan_def)
  next
    case False
    then have "ts = dp_targets (fold (plan_hub required managed suspended room) ?es empty_plan)"
      by (simp add: ts_def plan_dispatch_def Let_def)
    also have "\<dots> = dp_targets empty_plan @ concat (map (entry_targets required managed suspended room) ?es)"
      by (rule plan_hubs_targets) (use es in blast)
    finally show ?thesis by (simp add: empty_plan_def)
  qed
  have "hm_ok ?es" using hm by (simp add: distinct_map_sort_key)
  then show "distinct (map fst ts)" unfolding ts by (rule map_fst_entry_targets)
  have "(k, t) \<in> set ts \<longleftrightarrow> (\<exists>e \<in> set ?es. fst e = k \<and> hub_target required managed suspended room k (fst ` set (snd e)) = Some t)"
    unfolding ts by (auto simp: entry_targets_def split: option.splits) (metis fst_conv snd_conv)
  also have "\<dots> \<longleftrightarrow> (\<exists>ids. map_of ?m k = Some ids \<and> hub_target required managed suspended room k (fst ` set ids) = Some t)"
    using hm by auto (metis fst_conv snd_conv)
  also have "\<dots> \<longleftrightarrow> dispatched_lights reg required room k \<noteq> {} \<and>
      hub_target required managed suspended room k (dispatched_lights reg required room k) = Some t"
  proof (cases "map_of ?m k")
    case None
    then show ?thesis using control_lights_get(2)[of reg required room k] by simp
  next
    case (Some ids)
    then have ids: "fst ` set ids = dispatched_lights reg required room k" "ids \<noteq> []" using control_lights_get(1) by blast+
    show ?thesis unfolding Some using ids by auto
  qed
  finally show "(k, t) \<in> set ts \<longleftrightarrow> dispatched_lights reg required room k \<noteq> {} \<and>
      hub_target required managed suspended room k (dispatched_lights reg required room k) = Some t" .
qed

lemma finite_room_lights [simp]: "finite (dispatched_lights reg required room k)"
proof -
  have "{e. \<exists>x \<in> set (tr_devices room). controlled_endpoint reg required (rd_device_id x) = Some e \<and> ep_hub_key e = k} \<subseteq>
      (\<lambda>x. the (controlled_endpoint reg required (rd_device_id x))) ` set (tr_devices room)" by force
  then show ?thesis unfolding dispatched_lights_def by (intro finite_imageI) (rule finite_subset[OF _ finite_imageI[OF finite_set]])
qed

text \<open>The groups that fit: bound to the room, with a control of the hub and with the wanted lights and no others.\<close>

definition exact_binding :: "topology_room \<Rightarrow> hub_key \<Rightarrow> string set \<Rightarrow> hub_room_binding \<Rightarrow> bool" where
  "exact_binding room k lights b \<longleftrightarrow>
     b \<in> set (tr_bindings room) \<and> hb_hub_key b = k \<and> hb_control_id b \<noteq> [] \<and> set (hb_lights b) = lights"

definition managed_group :: "managed_binding list \<Rightarrow> topology_room \<Rightarrow> hub_key \<Rightarrow> string \<Rightarrow> bool" where
  "managed_group managed room k hub_room \<longleftrightarrow>
     (\<exists>m \<in> set managed. mb_room m = tr_id room \<and> mb_hub_key m = k \<and> mb_hub_room_id m = hub_room)"

lemma authoritative_iff:
  assumes "assigned \<noteq> {}"
  shows "authoritative_grouped_target k assigned managed room = Some t \<longleftrightarrow>
    (\<exists>b. exact_binding room k assigned b \<and> filter (\<lambda>b. hb_hub_key b = k) (tr_bindings room) = [b] \<and>
       managed_group managed room k (hb_hub_room_id b) \<and> t = Group (hb_hub_room_id b) (hb_control_id b))"
proof -
  have mem: "b \<in> set (tr_bindings room) \<and> hb_hub_key b = k" if "filter (\<lambda>b. hb_hub_key b = k) (tr_bindings room) = [b]" for b
  proof -
    have "b \<in> set (filter (\<lambda>b. hb_hub_key b = k) (tr_bindings room))" unfolding that by simp
    then show ?thesis by simp
  qed
  show ?thesis
  proof (cases "\<exists>b. filter (\<lambda>b. hb_hub_key b = k) (tr_bindings room) = [b]")
    case True
    then obtain b where one: "filter (\<lambda>b. hb_hub_key b = k) (tr_bindings room) = [b]" by blast
    show ?thesis
      using assms mem [OF one] unfolding authoritative_grouped_target_def exact_binding_def managed_group_def one list_ex_iff by auto
  next
    case False
    then have "authoritative_grouped_target k assigned managed room = None"
      by (cases "filter (\<lambda>b. hb_hub_key b = k) (tr_bindings room)" rule: remdups_adj.cases) (simp_all add: authoritative_grouped_target_def)
    then show ?thesis using False by simp
  qed
qed

lemma min_by_key_Some:
  "min_by_key f xs = Some x \<Longrightarrow> x \<in> set xs \<and> (\<forall>y \<in> set xs. f x \<le> f y)"
  "min_by_key f xs = None \<longleftrightarrow> xs = []"
  by (induction xs arbitrary: x) (fastforce split: option.splits if_splits)+

lemma exact_native_iff:
  assumes "assigned \<noteq> {}"
  shows "exact_native_grouped_target k assigned room = None \<longleftrightarrow>
      hk_type k \<in> {HA, ''homeassistant''} \<or> (\<nexists>b. exact_binding room k assigned b)"
    and "exact_native_grouped_target k assigned room = Some t \<Longrightarrow>
      \<exists>b. exact_binding room k assigned b \<and> (\<forall>b'. exact_binding room k assigned b' \<longrightarrow> hb_hub_room_id b \<le> hb_hub_room_id b') \<and>
        t = Group (hb_hub_room_id b) (hb_control_id b)"
  using assms
  by (auto simp: exact_native_grouped_target_def exact_binding_def min_by_key_Some(2) filter_empty_conv split: if_splits
      dest!: min_by_key_Some(1))

lemma if_elim: "if c then a else b \<Longrightarrow> (a \<Longrightarrow> p) \<Longrightarrow> (b \<Longrightarrow> p) \<Longrightarrow> p"
  by (cases c) simp_all

text \<open>C9: A command to a room reaches each hub at most once, and only a hub that controls lights of the room. A hub that
must be addressed by group is reached exactly when the only group of the hub bound to the room has those lights and no
others and is recorded as managed, and then as this group. Every other hub that controls lights of the room is reached:
as the first of its groups bound to the room that have exactly those lights, or, when there is none, when grouped
control of the hub is suspended or when it is Home Assistant, light by light, each of the lights once.\<close>

theorem dispatch_reaches_room_lights:
  fixes reg required managed suspended room
  defines "ts \<equiv> dp_targets (plan_dispatch reg required managed suspended room)"
    and "lights \<equiv> dispatched_lights reg required room"
  shows "distinct (map fst ts) \<and> (\<forall>(k, t) \<in> set ts. lights k \<noteq> {}) \<and>
     (\<forall>k t. lights k \<noteq> {} \<and> display_hub_key k \<in> required \<longrightarrow>
        ((k, t) \<in> set ts \<longleftrightarrow>
           (\<exists>b. exact_binding room k (lights k) b \<and> filter (\<lambda>b. hb_hub_key b = k) (tr_bindings room) = [b] \<and>
              managed_group managed room k (hb_hub_room_id b) \<and> t = Group (hb_hub_room_id b) (hb_control_id b)))) \<and>
     (\<forall>k. lights k \<noteq> {} \<and> display_hub_key k \<notin> required \<longrightarrow>
        (if k \<in> suspended \<or> hk_type k \<in> {HA, ''homeassistant''} \<or> (\<nexists>b. exact_binding room k (lights k) b)
         then (k, Devices (sorted_list_of_set (lights k))) \<in> set ts
         else \<exists>b. exact_binding room k (lights k) b \<and>
           (\<forall>b'. exact_binding room k (lights k) b' \<longrightarrow> hb_hub_room_id b \<le> hb_hub_room_id b') \<and>
           (k, Group (hb_hub_room_id b) (hb_control_id b)) \<in> set ts)) \<and>
     (\<forall>k. distinct (sorted_list_of_set (lights k)) \<and> set (sorted_list_of_set (lights k)) = lights k)"
proof (intro conjI allI impI)
  show "distinct (map fst ts)" unfolding ts_def by (rule plan_targets(1))
  show "\<forall>(k, t) \<in> set ts. lights k \<noteq> {}" unfolding ts_def lights_def by (clarify) (simp add: plan_targets(2))
next
  fix k t
  assume "lights k \<noteq> {} \<and> display_hub_key k \<in> required"
  then show "(k, t) \<in> set ts \<longleftrightarrow>
      (\<exists>b. exact_binding room k (lights k) b \<and> filter (\<lambda>b. hb_hub_key b = k) (tr_bindings room) = [b] \<and>
         managed_group managed room k (hb_hub_room_id b) \<and> t = Group (hb_hub_room_id b) (hb_control_id b))"
    unfolding ts_def plan_targets(2) lights_def hub_target_def using authoritative_iff by simp
next
  fix k
  assume k: "lights k \<noteq> {} \<and> display_hub_key k \<notin> required"
  have mem: "(k, t) \<in> set ts \<longleftrightarrow>
      (if k \<notin> suspended \<and> exact_native_grouped_target k (lights k) room \<noteq> None then exact_native_grouped_target k (lights k) room
       else Some (Devices (sorted_list_of_set (lights k)))) = Some t" for t
    unfolding ts_def plan_targets(2) hub_target_def using k by (simp add: lights_def)
  note iff = exact_native_iff(1) [OF conjunct1 [OF k], of k room]
  show "if k \<in> suspended \<or> hk_type k \<in> {HA, ''homeassistant''} \<or> (\<nexists>b. exact_binding room k (lights k) b)
      then (k, Devices (sorted_list_of_set (lights k))) \<in> set ts
      else \<exists>b. exact_binding room k (lights k) b \<and>
        (\<forall>b'. exact_binding room k (lights k) b' \<longrightarrow> hb_hub_room_id b \<le> hb_hub_room_id b') \<and>
        (k, Group (hb_hub_room_id b) (hb_control_id b)) \<in> set ts"
  proof (cases "k \<in> suspended \<or> exact_native_grouped_target k (lights k) room = None")
    case True
    then show ?thesis unfolding mem iff by auto
  next
    case False
    then obtain t where t: "k \<notin> suspended" "exact_native_grouped_target k (lights k) room = Some t" by auto
    then have "\<not> (k \<in> suspended \<or> hk_type k \<in> {HA, ''homeassistant''} \<or> (\<nexists>b. exact_binding room k (lights k) b))"
      using iff by auto
    moreover have "(k, t) \<in> set ts" unfolding mem using t by simp
    ultimately show ?thesis using exact_native_iff(2) [OF conjunct1 [OF k] t(2)] by auto
  qed
next
  fix k
  show "distinct (sorted_list_of_set (lights k))" "set (sorted_list_of_set (lights k)) = lights k" by (simp_all add: lights_def)
qed

section \<open>A single light\<close>

lemma mem_room_lights:
  "x \<in> set (tr_devices room) \<Longrightarrow> controlled_endpoint reg required (rd_device_id x) = Some e \<Longrightarrow>
   ep_native_id e \<in> dispatched_lights reg required room (ep_hub_key e)"
  by (auto simp: dispatched_lights_def)

lemma map_of_plan_targets:
  "dispatched_lights reg required room k \<noteq> {} \<Longrightarrow>
   map_of (dp_targets (plan_dispatch reg required managed suspended room)) k =
     hub_target required managed suspended room k (dispatched_lights reg required room k)"
proof -
  let ?ts = "dp_targets (plan_dispatch reg required managed suspended room)"
  assume ne: "dispatched_lights reg required room k \<noteq> {}"
  have d: "hm_ok ?ts" by (rule plan_targets(1))
  show ?thesis
  proof (cases "map_of ?ts k")
    case None
    then have "\<nexists>t. (k, t) \<in> set ?ts" using d by (metis map_of_eq_None_iff image_eqI fst_conv)
    then have "\<nexists>t. hub_target required managed suspended room k (dispatched_lights reg required room k) = Some t"
      unfolding plan_targets(2) using ne by blast
    then show ?thesis using None by (metis option.exhaust)
  next
    case (Some t)
    then have "(k, t) \<in> set ?ts" by (rule map_of_SomeD)
    then show ?thesis using Some unfolding plan_targets(2) by simp
  qed
qed

lemma hub_lights_eq: "hub_lights room k reg s = dispatched_lights reg (ts_required s) room k"
  using control_lights(2)[of reg "ts_required s" room k] by (simp add: hub_lights_def native_ids_def)

text \<open>The target of one light: the group that the whole room uses for its hub, or the light alone.\<close>

fun single_target :: "string \<Rightarrow> hub_dispatch_target \<Rightarrow> hub_dispatch_target" where
  "single_target n (Group r c) = Group r c"
| "single_target n (Devices ns) = Devices [n]"

lemma single_grouped [simp]:
  "exact_native_grouped_target k assigned room = Some t \<Longrightarrow> single_target n t = t"
  "authoritative_grouped_target k assigned managed room = Some t \<Longrightarrow> single_target n t = t"
  by (auto dest!: grouped_targets)

text \<open>C27: A light in a room is reached the way the room is: its own route goes to the hub that controls it, as the
group the plan of the room uses for that hub or, where the plan addresses lights one by one, to the light alone;
and where the plan leaves the hub out the light has no route.\<close>

theorem light_route_agrees_with_plan:
  assumes ok: "topology_ok s" and node: "get_device_node d s = Some n" and parent: "dn_parent n = Some i"
  shows "attached_light_dispatch_route n reg s =
     Option.bind (controlled_endpoint reg (ts_required s) d) (\<lambda>e.
       Option.bind (get_topology_room i s) (\<lambda>room.
         map_option (\<lambda>t. (ep_hub_key e, single_target (ep_native_id e) t))
           (map_of (dp_targets (plan_of reg s room)) (ep_hub_key e))))"
proof -
  from node have n: "map_of (ts_nodes s) d = Some n" by (simp only: get_device_node_def)
  then have id: "dn_canonical_id n = d" and room_known: "i \<in> store_room_ids s"
    using ok parent unfolding topology_ok_def nodes_ok_iff node_ok_def by (metis option.case(2))+
  then obtain room where room: "map_of (ts_rooms s) i = Some room" by (auto simp: store_room_ids_def)
  have dev: "\<lparr>rd_device_id = d, rd_placement = dn_placement n\<rparr> \<in> set (tr_devices room)"
    unfolding topology_ok_devices[OF ok room] mem_room_projection using n parent id by blast
  show ?thesis
  proof (cases "controlled_endpoint reg (ts_required s) d")
    case None
    then show ?thesis by (simp add: attached_light_dispatch_route_def parent id)
  next
    case (Some e)
    have "ep_native_id e \<in> dispatched_lights reg (ts_required s) room (ep_hub_key e)"
      using mem_room_lights[OF dev, of reg "ts_required s" e] Some by simp
    then have plan: "map_of (dp_targets (plan_of reg s room)) (ep_hub_key e) =
        hub_target (ts_required s) (ts_managed s) (ts_suspended s) room (ep_hub_key e) (dispatched_lights reg (ts_required s) room (ep_hub_key e))"
      unfolding plan_of_def by (intro map_of_plan_targets) auto
    show ?thesis
      unfolding get_topology_room_def Some bind.bind_lunit room plan
      by (auto simp: attached_light_dispatch_route_def parent id Some room grouped_target_def hub_target_def hub_lights_eq
          grouped_room_control_is_required_def external_grouped_dispatch_is_suspended_def split: option.split)
  qed
qed

definition demo_light :: canonical_device where
  "demo_light = (device_new ''d1'' ''Spot'' Light [] 0)
     \<lparr>cd_endpoints := [\<lparr>ep_hub_key = demo_hub, ep_native_id = ''l1'', ep_preferred = True, ep_active = True, ep_last_seen = 0,
       ep_source_room_name = None\<rparr>]\<rparr>"

definition demo_registry :: canonical_registry where
  "demo_registry = put_device ''d1'' demo_light registry_new"

theorem light_route_agrees_with_plan_witness:
  "Option.bind (get_device_node ''d1'' demo_store) (\<lambda>n. attached_light_dispatch_route n demo_registry demo_store) =
     Some (demo_hub, Group ''r1'' ''g1'')"
proof -
  have ok: "topology_ok demo_store" using demo_store_reachable
    by (induction rule: topology_reachable.induct) (simp_all add: topology_new_ok topology_step_ok)
  let ?n = "\<lparr>dn_id = ''d1'', dn_canonical_id = ''d1'', dn_parent = Some ''R1'', dn_placement = HubDefault\<rparr>"
  have n: "get_device_node ''d1'' demo_store = Some ?n" by code_simp
  have p: "dn_parent ?n = Some ''R1''" by simp
  have r: "Option.bind (controlled_endpoint demo_registry (ts_required demo_store) ''d1'') (\<lambda>e.
       Option.bind (get_topology_room ''R1'' demo_store) (\<lambda>room.
         map_option (\<lambda>t. (ep_hub_key e, single_target (ep_native_id e) t))
           (map_of (dp_targets (plan_of demo_registry demo_store room)) (ep_hub_key e)))) = Some (demo_hub, Group ''r1'' ''g1'')"
    by code_simp
  show ?thesis using light_route_agrees_with_plan[OF ok n p, of demo_registry] r n by simp
qed

theorem dispatch_reaches_room_lights_witness:
  "demo_hub \<in> fst ` set (dp_targets (plan_dispatch demo_registry {} [] {} (the (get_topology_room ''R1'' demo_store))))"
proof -
  let ?room = "the (get_topology_room ''R1'' demo_store)"
  have "list_ex (\<lambda>x. case controlled_endpoint demo_registry {} (rd_device_id x) of None \<Rightarrow> False
      | Some e \<Rightarrow> ep_hub_key e = demo_hub) (tr_devices ?room)" by code_simp
  then obtain x where x: "x \<in> set (tr_devices ?room)" and e: "case controlled_endpoint demo_registry {} (rd_device_id x) of None \<Rightarrow> False
      | Some e \<Rightarrow> ep_hub_key e = demo_hub" unfolding list_ex_iff by (elim bexE)
  have k: "dispatched_lights demo_registry {} ?room demo_hub \<noteq> {}"
  proof (cases "controlled_endpoint demo_registry {} (rd_device_id x)")
    case None
    then show ?thesis using e by (simp only: option.case)
  next
    case (Some a)
    then have "ep_hub_key a = demo_hub" using e by (simp only: option.case)
    with mem_room_lights [OF x Some] show ?thesis by (simp only: empty_iff) blast
  qed
  let ?L = "dispatched_lights demo_registry {} ?room" and ?ts = "dp_targets (plan_dispatch demo_registry {} [] {} ?room)"
  note others = conjunct1 [OF conjunct2 [OF conjunct2 [OF conjunct2 [OF dispatch_reaches_room_lights [of demo_registry "{}" "[]" "{}" ?room]]]]]
  have "?L demo_hub \<noteq> {} \<and> display_hub_key demo_hub \<notin> {}" by (rule conjI [OF k]) (rule notI, erule emptyE)
  note reached = mp [OF spec [OF others, of demo_hub] this]
  have "\<exists>t. (demo_hub, t) \<in> set ?ts"
    by (rule if_elim [OF reached]) (erule exI, elim exE conjE, erule exI)
  then obtain t where "(demo_hub, t) \<in> set ?ts" ..
  then show ?thesis by (rule image_eqI [rotated]) simp
qed

end
