(* ===== verification/DeviceHealth.thy ===== *)
theory DeviceHealth
  imports Identity "HOL-Library.Product_Lexorder" "HOL-Library.Option_ord"
begin

text \<open>
  The ledger of the liveness of devices (\<open>rhythm-os/src/device_health.rs\<close>): proofs of life, failures, the
  admission of a device that is not reachable to the attention of the user, and its resolution.

  Times are \<open>u64\<close> seconds of the wall clock, which may step back. \<open>sha\<close> is SHA-256, and \<open>ids\<close> gives
  the random bytes of the identifiers generated for the record with a key: that of the entry and that of the review.
\<close>

section \<open>State\<close>

definition UNREACHABLE_NO_PROOF_SECS :: u64 where "UNREACHABLE_NO_PROOF_SECS = 86400"
definition UNREACHABLE_FAILURE_SPAN_SECS :: u64 where "UNREACHABLE_FAILURE_SPAN_SECS = 86400"
definition UNREACHABLE_MIN_FAILURES :: u32 where "UNREACHABLE_MIN_FAILURES = 3"
definition UNREACHABLE_FAILURE_SEPARATION_SECS :: u64 where "UNREACHABLE_FAILURE_SEPARATION_SECS = 28800"
definition CONTROLLER_RESTART_GRACE_SECS :: u64 where "CONTROLLER_RESTART_GRACE_SECS = 900"
definition HEALTHY_PEER_MAX_AGE_SECS :: u64 where "HEALTHY_PEER_MAX_AGE_SECS = 1800"
definition UNREACHABLE_SNOOZE_SECS :: u64 where "UNREACHABLE_SNOOZE_SECS = 86400"
definition RESOLVED_RETENTION_SECS :: u64 where "RESOLVED_RETENTION_SECS = 3024000"
definition MAX_DEVICE_HEALTH_RECORDS :: nat where "MAX_DEVICE_HEALTH_RECORDS = 4096"
definition PROOF_PERSIST_INTERVAL_SECS :: u64 where "PROOF_PERSIST_INTERVAL_SECS = 900"
definition DEVICE_HEALTH_SCHEMA_VERSION :: u32 where "DEVICE_HEALTH_SCHEMA_VERSION = 1"

definition hex_encode :: "u8 list \<Rightarrow> string" where
  "hex_encode bytes = concat (map show_hex2 bytes)"

definition generate_entry_id :: "u8 list \<Rightarrow> string" where
  "generate_entry_id bytes = ''unreachable-'' @ hex_encode bytes"

definition generate_review_correlation_id :: "u8 list \<Rightarrow> string" where
  "generate_review_correlation_id bytes = ''unreachable-device-'' @ hex_encode bytes"

definition fabric_fingerprint :: "(string \<Rightarrow> u8 list) \<Rightarrow> string \<Rightarrow> string" where
  "fabric_fingerprint sha v = hex_encode (take 12 (sha v))"

datatype health_status = Monitoring | HealthPending | AwaitingRecovery | HealthSnoozed | Recovered | HealthRemoved

fun is_attention :: "health_status \<Rightarrow> bool" where
  "is_attention HealthPending = True"
| "is_attention AwaitingRecovery = True"
| "is_attention HealthSnoozed = True"
| "is_attention _ = False"

fun health_status_str :: "health_status \<Rightarrow> string" where
  "health_status_str Monitoring = ''monitoring''"
| "health_status_str HealthPending = ''pending''"
| "health_status_str AwaitingRecovery = ''awaiting_recovery''"
| "health_status_str HealthSnoozed = ''snoozed''"
| "health_status_str Recovered = ''recovered''"
| "health_status_str HealthRemoved = ''removed''"

datatype failure_class = AddressResolution | ReadFailure | CommandFailure | SubscriptionFailure

record health_record =
  h_canonical_id :: string
  h_hub_key :: hub_key
  h_native_id :: string
  h_fabric :: string
  h_stream :: "string option"
  h_last_proof :: u64
  h_first_failure :: "u64 option"
  h_last_failure :: "u64 option"
  h_failure_count :: u32
  h_classes :: "failure_class set"
  h_status :: health_status
  h_entry_id :: "string option"
  h_correlation :: "string option"
  h_created_at :: "u64 option"
  h_snoozed_until :: "u64 option"
  h_resolved_at :: "u64 option"

definition health_key :: "hub_key \<Rightarrow> string \<Rightarrow> string" where
  "health_key k n = display_hub_key k @ ''|'' @ n"

definition reset_failure_window :: "health_record \<Rightarrow> health_record" where
  "reset_failure_window r = r\<lparr>h_first_failure := None, h_last_failure := None, h_failure_count := 0, h_classes := {}\<rparr>"

record controller_health =
  ch_connected :: bool
  ch_grace_until :: u64

definition controller_default :: controller_health where
  "controller_default = \<lparr>ch_connected = False, ch_grace_until = 0\<rparr>"

record health_ledger =
  hl_schema :: u32
  hl_records :: "(string, health_record) btmap"
  hl_controllers :: "(string, controller_health) hmap"
  hl_persisted :: "(string, u64) hmap"

datatype health_transition = Admitted | TransRecovered | TransRemoved

record health_update =
  hu_persist :: bool
  hu_transitions :: "(string \<times> health_transition) list"

definition no_update :: health_update where
  "no_update = \<lparr>hu_persist = False, hu_transitions = []\<rparr>"

record active_identity =
  ai_canonical_id :: string
  ai_hub_key :: hub_key
  ai_native_id :: string
  ai_fabric :: "string option"

definition default_with_schema :: health_ledger where
  "default_with_schema = \<lparr>hl_schema = DEVICE_HEALTH_SCHEMA_VERSION, hl_records = [], hl_controllers = [], hl_persisted = []\<rparr>"

section \<open>Loading\<close>

definition loadable :: "health_record \<Rightarrow> bool" where
  "loadable r \<longleftrightarrow> h_canonical_id r \<noteq> [] \<and> h_native_id r \<noteq> [] \<and> h_fabric r \<noteq> [] \<and> 0 < h_last_proof r"

definition normalize_record :: "(string \<Rightarrow> u8 list \<times> u8 list) \<Rightarrow> string \<Rightarrow> health_record \<Rightarrow> health_record" where
  "normalize_record ids key r =
     (let r1 = r\<lparr>h_failure_count := min (h_failure_count r) 10000\<rparr>;
          r2 = (if h_failure_count r1 = 0 then reset_failure_window r1 else r1)
      in if is_attention (h_status r2)
         then r2\<lparr>h_entry_id := get_or (generate_entry_id (fst (ids key))) (h_entry_id r2), h_correlation := get_or (generate_review_correlation_id (snd (ids key))) (h_correlation r2)\<rparr>
         else r2)"

text \<open>When a record last mattered, and the loop that evicts the oldest; \<open>min_by_key\<close> takes the first of equals.\<close>

definition record_age :: "health_record \<Rightarrow> u64" where
  "record_age r = unwrap_or (opt_or (h_resolved_at r) (h_last_failure r)) (h_last_proof r)"

fun oldest_record :: "(string \<times> health_record) list \<Rightarrow> (string \<times> health_record) option" where
  "oldest_record [] = None"
| "oldest_record (e # es) =
     (case oldest_record es of
        None \<Rightarrow> Some e
      | Some o' \<Rightarrow> if record_age (snd o') < record_age (snd e) then Some o' else Some e)"

lemma oldest_record_mem: "oldest_record es = Some e \<Longrightarrow> e \<in> set es"
  by (induction es arbitrary: e) (auto split: option.splits if_splits)

lemma length_delete_less: "(k, v) \<in> set m \<Longrightarrow> length (AList.delete k m) < length m"
  by (simp add: AList.delete_eq length_filter_less)

function evict_records :: "(string, health_record) btmap \<Rightarrow> (string, health_record) btmap" where
  "evict_records m =
     (if length m \<le> MAX_DEVICE_HEALTH_RECORDS then m
      else case oldest_record m of None \<Rightarrow> m | Some e \<Rightarrow> evict_records (AList.delete (fst e) m))"
  by pat_completeness auto

termination evict_records
  by (relation "measure length") (auto dest!: oldest_record_mem intro: length_delete_less)

definition normalized :: "(string \<Rightarrow> u8 list \<times> u8 list) \<Rightarrow> health_ledger \<Rightarrow> health_ledger" where
  "normalized ids l =
     (if hl_schema l \<noteq> DEVICE_HEALTH_SCHEMA_VERSION then default_with_schema
      else
        let records = evict_records (map (\<lambda>(k, r). (k, normalize_record ids k r)) (filter (\<lambda>(_, r). loadable r) (hl_records l)))
        in l\<lparr>hl_schema := DEVICE_HEALTH_SCHEMA_VERSION, hl_records := records, hl_controllers := [],
             hl_persisted := map (\<lambda>(k, r). (k, h_last_proof r)) records\<rparr>)"

section \<open>Controllers\<close>

definition modify_controller :: "hub_key \<Rightarrow> (controller_health \<Rightarrow> controller_health) \<Rightarrow> health_ledger \<Rightarrow> health_ledger" where
  "modify_controller k f l = l\<lparr>hl_controllers :=
     AList.update (display_hub_key k) (f (unwrap_or (map_of (hl_controllers l) (display_hub_key k)) controller_default)) (hl_controllers l)\<rparr>"

definition note_controller_connected :: "hub_key \<Rightarrow> u64 \<Rightarrow> health_ledger \<Rightarrow> health_ledger" where
  "note_controller_connected k now = modify_controller k (\<lambda>c. c\<lparr>ch_connected := True,
     ch_grace_until := max (ch_grace_until c) (sat_add now CONTROLLER_RESTART_GRACE_SECS)\<rparr>)"

definition note_controller_disconnected :: "hub_key \<Rightarrow> health_ledger \<Rightarrow> health_ledger" where
  "note_controller_disconnected k = modify_controller k (\<lambda>c. c\<lparr>ch_connected := False\<rparr>)"

definition note_controller_stream_reset :: "hub_key \<Rightarrow> u64 \<Rightarrow> health_ledger \<Rightarrow> health_ledger" where
  "note_controller_stream_reset k now =
     modify_controller k (\<lambda>c. c\<lparr>ch_grace_until := sat_add now CONTROLLER_RESTART_GRACE_SECS\<rparr>)"

definition controller_healthy :: "hub_key \<Rightarrow> u64 \<Rightarrow> health_ledger \<Rightarrow> bool" where
  "controller_healthy k now l \<longleftrightarrow>
     (case map_of (hl_controllers l) (display_hub_key k) of
        None \<Rightarrow> False
      | Some c \<Rightarrow> ch_connected c \<and> ch_grace_until c \<le> now)"

section \<open>Evidence\<close>

definition same_identity :: "(string \<Rightarrow> u8 list) \<Rightarrow> string \<Rightarrow> string \<Rightarrow> health_record \<Rightarrow> bool" where
  "same_identity sha canonical fabric r \<longleftrightarrow> h_canonical_id r = canonical \<and> h_fabric r = fabric_fingerprint sha fabric"

definition stream_fingerprint :: "(string \<Rightarrow> u8 list) \<Rightarrow> string option \<Rightarrow> string option" where
  "stream_fingerprint sha stream = map_option (fabric_fingerprint sha) (opt_filter (\<lambda>v. v \<noteq> []) stream)"

definition new_health_record ::
    "(string \<Rightarrow> u8 list) \<Rightarrow> string \<Rightarrow> hub_key \<Rightarrow> string \<Rightarrow> string \<Rightarrow> string option \<Rightarrow> u64 \<Rightarrow> health_record" where
  "new_health_record sha canonical k n fabric stream now =
     \<lparr>h_canonical_id = canonical, h_hub_key = k, h_native_id = n, h_fabric = fabric_fingerprint sha fabric,
      h_stream = stream_fingerprint sha stream, h_last_proof = now, h_first_failure = None, h_last_failure = None,
      h_failure_count = 0, h_classes = {}, h_status = Monitoring, h_entry_id = None, h_correlation = None,
      h_created_at = None, h_snoozed_until = None, h_resolved_at = None\<rparr>"

definition proven :: "string option \<Rightarrow> u64 \<Rightarrow> health_record \<Rightarrow> health_record" where
  "proven stream now r =
     (let r1 = r\<lparr>h_last_proof := max (h_last_proof r) now, h_stream := opt_or stream (h_stream r)\<rparr>
      in if is_attention (h_status r) then r1\<lparr>h_status := Recovered, h_resolved_at := Some now, h_snoozed_until := None\<rparr>
         else if h_status r = Monitoring then reset_failure_window r1
         else r1)"

definition note_proof ::
    "(string \<Rightarrow> u8 list) \<Rightarrow> string \<Rightarrow> hub_key \<Rightarrow> string \<Rightarrow> string \<Rightarrow> string option \<Rightarrow> u64 \<Rightarrow> health_ledger \<Rightarrow>
     health_update \<times> health_ledger" where
  "note_proof sha canonical k n fabric stream now l =
     (if canonical = [] \<or> n = [] \<or> fabric = [] \<or> now = 0 then (no_update, l)
      else
        let key = health_key k n;
            changed = (case map_of (hl_records l) key of None \<Rightarrow> False | Some r \<Rightarrow> \<not> same_identity sha canonical fabric r);
            persisted = (if changed then AList.delete key (hl_persisted l) else hl_persisted l);
            old = unwrap_or (opt_filter (\<lambda>_. \<not> changed) (map_of (hl_records l) key))
              (new_health_record sha canonical k n fabric stream now);
            resolved = is_attention (h_status old);
            last = unwrap_or (map_of persisted key) 0;
            persist = (resolved \<or> changed \<or> last = 0 \<or> PROOF_PERSIST_INTERVAL_SECS \<le> sat_sub now last)
        in (\<lparr>hu_persist = persist,
             hu_transitions = (case h_entry_id old of Some e \<Rightarrow> if resolved then [(e, TransRecovered)] else [] | None \<Rightarrow> [])\<rparr>,
            l\<lparr>hl_records := bt_insert key (proven (stream_fingerprint sha stream) now old) (hl_records l),
              hl_persisted := (if persist then AList.update key now persisted else persisted)\<rparr>))"

definition reopened :: "health_record \<Rightarrow> health_record" where
  "reopened r =
     (if h_status r = Recovered \<or> h_status r = HealthRemoved
      then reset_failure_window (r\<lparr>h_status := Monitoring, h_entry_id := None, h_correlation := None, h_created_at := None,
        h_resolved_at := None, h_snoozed_until := None\<rparr>)
      else r)"

definition counted_failure :: "failure_class \<Rightarrow> u64 \<Rightarrow> health_record \<Rightarrow> health_record" where
  "counted_failure c now r = r\<lparr>h_first_failure := get_or now (h_first_failure r), h_last_failure := Some now,
     h_failure_count := min (sat_add (h_failure_count r) 1) 10000, h_classes := h_classes r \<union> {c}\<rparr>"

definition note_failure ::
    "(string \<Rightarrow> u8 list) \<Rightarrow> string \<Rightarrow> hub_key \<Rightarrow> string \<Rightarrow> string \<Rightarrow> string option \<Rightarrow> failure_class \<Rightarrow> u64 \<Rightarrow> health_ledger \<Rightarrow>
     health_update \<times> health_ledger" where
  "note_failure sha canonical k n fabric stream c now l =
     (let key = health_key k n in
      case map_of (hl_records l) key of
        None \<Rightarrow> (no_update, l)
      | Some r \<Rightarrow>
          if \<not> same_identity sha canonical fabric r \<or> \<not> controller_healthy k now l \<or>
             now < h_last_proof r \<or> now < unwrap_or (h_last_failure r) 0
          then (no_update, l)
          else
            let r1 = reopened (r\<lparr>h_stream := opt_or (stream_fingerprint sha stream) (h_stream r)\<rparr>);
                separated = (UNREACHABLE_FAILURE_SEPARATION_SECS \<le> sat_sub now (unwrap_or (h_last_failure r1) 0))
            in if h_first_failure r1 \<noteq> None \<and> \<not> separated
               then (no_update, l\<lparr>hl_records := hm_modify key (\<lambda>_. r1) (hl_records l)\<rparr>)
               else (no_update\<lparr>hu_persist := True\<rparr>,
                     l\<lparr>hl_records := hm_modify key (\<lambda>_. counted_failure c now r1) (hl_records l)\<rparr>))"

section \<open>Admission\<close>

text \<open>The two newest proofs of the devices that share a controller and a fabric.\<close>

record peer_proof_summary =
  pp_newest :: "(string \<times> u64) option"
  pp_second :: u64

definition peer_default :: peer_proof_summary where
  "peer_default = \<lparr>pp_newest = None, pp_second = 0\<rparr>"

definition peer_observe :: "string \<Rightarrow> u64 \<Rightarrow> peer_proof_summary \<Rightarrow> peer_proof_summary" where
  "peer_observe key proof s =
     (case pp_newest s of
        None \<Rightarrow> s\<lparr>pp_newest := Some (key, proof)\<rparr>
      | Some (k, at') \<Rightarrow>
          if at' < proof then s\<lparr>pp_second := max (pp_second s) at', pp_newest := Some (key, proof)\<rparr>
          else if key \<noteq> k then s\<lparr>pp_second := max (pp_second s) proof\<rparr>
          else s)"

definition newest_excluding :: "string \<Rightarrow> peer_proof_summary \<Rightarrow> u64 option" where
  "newest_excluding key s =
     (case pp_newest s of
        None \<Rightarrow> None
      | Some (k, at') \<Rightarrow> if k \<noteq> key then Some at' else if 0 < pp_second s then Some (pp_second s) else None)"

definition peer_group :: "health_record \<Rightarrow> hub_key \<times> string" where
  "peer_group r = (h_hub_key r, h_fabric r)"

definition peer_proofs :: "(string \<times> health_record) list \<Rightarrow> (hub_key \<times> string, peer_proof_summary) hmap" where
  "peer_proofs rs = fold (\<lambda>(key, r) m.
     AList.update (peer_group r) (peer_observe key (h_last_proof r) (unwrap_or (map_of m (peer_group r)) peer_default)) m) rs []"

definition peer_healthy :: "u64 \<Rightarrow> u64 \<Rightarrow> u64 option \<Rightarrow> bool" where
  "peer_healthy now first newest \<longleftrightarrow>
     (case newest of None \<Rightarrow> False
      | Some proof \<Rightarrow> first \<le> proof \<and> proof \<le> now \<and> sat_sub now proof \<le> HEALTHY_PEER_MAX_AGE_SECS)"

text \<open>Whether \<open>evaluate\<close> admits a record: the conditions of its \<open>continue\<close>s, in order.\<close>

definition admissible :: "health_ledger \<Rightarrow> (hub_key \<times> string, peer_proof_summary) hmap \<Rightarrow> u64 \<Rightarrow> string \<Rightarrow> health_record \<Rightarrow> bool" where
  "admissible l peers now key r \<longleftrightarrow>
     (h_status r = Monitoring \<or> h_status r = HealthSnoozed) \<and>
     \<not> (h_status r = HealthSnoozed \<and> (case h_snoozed_until r of None \<Rightarrow> False | Some t \<Rightarrow> now < t)) \<and>
     (case (h_first_failure r, h_last_failure r) of
        (Some t0, Some t1) \<Rightarrow>
          h_last_proof r \<le> now \<and> t1 \<le> now \<and>
          controller_healthy (h_hub_key r) now l \<and>
          peer_healthy now t0 (Option.bind (map_of peers (peer_group r)) (newest_excluding key)) \<and>
          UNREACHABLE_NO_PROOF_SECS \<le> sat_sub now (h_last_proof r) \<and>
          UNREACHABLE_FAILURE_SPAN_SECS \<le> sat_sub t1 t0 \<and>
          UNREACHABLE_MIN_FAILURES \<le> h_failure_count r
      | _ \<Rightarrow> False)"

definition admit_record :: "(string \<Rightarrow> u8 list \<times> u8 list) \<Rightarrow> u64 \<Rightarrow> string \<Rightarrow> health_record \<Rightarrow> health_record" where
  "admit_record ids now key r = r\<lparr>h_status := HealthPending, h_snoozed_until := None,
     h_entry_id := get_or (generate_entry_id (fst (ids key))) (h_entry_id r),
     h_correlation := get_or (generate_review_correlation_id (snd (ids key))) (h_correlation r),
     h_created_at := get_or now (h_created_at r)\<rparr>"

definition evaluate :: "(string \<Rightarrow> u8 list \<times> u8 list) \<Rightarrow> u64 \<Rightarrow> health_ledger \<Rightarrow> health_update \<times> health_ledger" where
  "evaluate ids now l =
     (let peers = peer_proofs (hl_records l);
          admitted = filter (\<lambda>(key, r). admissible l peers now key r) (hl_records l)
      in (\<lparr>hu_persist = (admitted \<noteq> []),
           hu_transitions = map (\<lambda>(key, r).
             (unwrap_or (h_entry_id r) (generate_entry_id (fst (ids key))), Admitted)) admitted\<rparr>,
          l\<lparr>hl_records := map (\<lambda>(key, r).
             (key, if admissible l peers now key r then admit_record ids now key r else r)) (hl_records l)\<rparr>))"

section \<open>Reconciliation with the topology\<close>

definition identity_matches :: "health_record \<Rightarrow> active_identity \<Rightarrow> bool" where
  "identity_matches r a \<longleftrightarrow> ai_canonical_id a = h_canonical_id r \<and> ai_hub_key a = h_hub_key r \<and>
     ai_native_id a = h_native_id r \<and> (case ai_fabric a of None \<Rightarrow> True | Some f \<Rightarrow> f = h_fabric r)"

definition gone :: "active_identity list \<Rightarrow> health_record \<Rightarrow> bool" where
  "gone active r \<longleftrightarrow> \<not> list_ex (identity_matches r) active \<and> h_status r \<noteq> HealthRemoved"

definition removed_record :: "u64 \<Rightarrow> health_record \<Rightarrow> health_record" where
  "removed_record now r = r\<lparr>h_status := HealthRemoved, h_resolved_at := Some now, h_snoozed_until := None\<rparr>"

definition retained :: "u64 \<Rightarrow> health_record \<Rightarrow> bool" where
  "retained now r \<longleftrightarrow> \<not> (h_status r = Recovered \<or> h_status r = HealthRemoved) \<or>
     (case h_resolved_at r of None \<Rightarrow> False | Some t \<Rightarrow> sat_sub now t \<le> RESOLVED_RETENTION_SECS)"

definition reconcile_active ::
    "(string \<Rightarrow> u8 list \<times> u8 list) \<Rightarrow> active_identity list \<Rightarrow> u64 \<Rightarrow> health_ledger \<Rightarrow> health_update \<times> health_ledger" where
  "reconcile_active ids active now l =
     (let lost = filter (\<lambda>(_, r). gone active r) (hl_records l);
          marked = map (\<lambda>(key, r). (key, if gone active r then removed_record now r else r)) (hl_records l);
          kept = filter (\<lambda>(_, r). retained now r) marked
      in (\<lparr>hu_persist = (lost \<noteq> [] \<or> length kept \<noteq> length marked),
           hu_transitions = map (\<lambda>(key, r). (unwrap_or (h_entry_id r) (generate_entry_id (fst (ids key))), TransRemoved))
             (filter (\<lambda>(_, r). is_attention (h_status r)) lost)\<rparr>,
          l\<lparr>hl_records := kept\<rparr>))"

section \<open>Review\<close>

definition visible_records :: "health_ledger \<Rightarrow> health_record list" where
  "visible_records l = sort_key (\<lambda>r. (h_created_at r, h_entry_id r))
     (filter (\<lambda>r. h_status r = HealthPending \<or> h_status r = AwaitingRecovery) (map snd (hl_records l)))"

definition find_entry :: "string \<Rightarrow> health_ledger \<Rightarrow> (string \<times> health_record) option" where
  "find_entry entry l = find (\<lambda>(_, r). h_entry_id r = Some entry) (hl_records l)"

definition review_entry :: "(health_record \<Rightarrow> health_record) \<Rightarrow> string \<Rightarrow> health_ledger \<Rightarrow> bool \<times> health_ledger" where
  "review_entry f entry l =
     (case find_entry entry l of
        None \<Rightarrow> (False, l)
      | Some (key, r) \<Rightarrow>
          if \<not> is_attention (h_status r) then (False, l)
          else (True, l\<lparr>hl_records := hm_modify key f (hl_records l)\<rparr>))"

definition snooze :: "string \<Rightarrow> u64 \<Rightarrow> health_ledger \<Rightarrow> bool \<times> health_ledger" where
  "snooze entry now = review_entry (\<lambda>r. r\<lparr>h_status := HealthSnoozed,
     h_snoozed_until := Some (sat_add now UNREACHABLE_SNOOZE_SECS)\<rparr>) entry"

definition await_recovery :: "string \<Rightarrow> health_ledger \<Rightarrow> bool \<times> health_ledger" where
  "await_recovery entry = review_entry (\<lambda>r. r\<lparr>h_status := AwaitingRecovery, h_snoozed_until := None\<rparr>) entry"

definition is_actionable :: "string \<Rightarrow> health_ledger \<Rightarrow> bool" where
  "is_actionable entry l \<longleftrightarrow> list_ex (\<lambda>(_, r). h_entry_id r = Some entry \<and> is_attention (h_status r)) (hl_records l)"

definition review_correlation_for_entry :: "string \<Rightarrow> health_ledger \<Rightarrow> string option" where
  "review_correlation_for_entry entry l = Option.bind (find_entry entry l) (\<lambda>(_, r). h_correlation r)"

end
