(* ===== verification/DeviceHealthLedger.thy ===== *)
theory DeviceHealthLedger
  imports DeviceHealth
begin

text \<open>
  The ledger of device health as a system of events, its invariant, and what a record owes to the events: an
  admission to the attention of the user rests on reports of failure and on the life of a peer.
\<close>

section \<open>The peers of a device\<close>

definition observations :: "hub_key \<times> string \<Rightarrow> (string \<times> health_record) list \<Rightarrow> (string \<times> u64) list" where
  "observations g rs = map (\<lambda>(k, r). (k, h_last_proof r)) (filter (\<lambda>(k, r). peer_group r = g) rs)"

definition summary :: "(string \<times> u64) list \<Rightarrow> peer_proof_summary" where
  "summary obs = fold (\<lambda>(k, t). peer_observe k t) obs peer_default"

lemma observations_snoc:
  "observations g (rs @ [(k, r)]) = observations g rs @ (if peer_group r = g then [(k, h_last_proof r)] else [])"
  by (simp add: observations_def)

lemma peer_proofs_snoc:
  "peer_proofs (rs @ [(k, r)]) =
     AList.update (peer_group r) (peer_observe k (h_last_proof r) (unwrap_or (map_of (peer_proofs rs) (peer_group r)) peer_default))
       (peer_proofs rs)"
  by (simp add: peer_proofs_def)

lemma map_of_peer_proofs:
  "map_of (peer_proofs rs) g = (if observations g rs = [] then None else Some (summary (observations g rs)))"
proof (induction rs arbitrary: g rule: rev_induct)
  case Nil
  then show ?case by (simp add: peer_proofs_def observations_def)
next
  case (snoc kr rs)
  obtain k r where kr: "kr = (k, r)" by fastforce
  show ?case
    unfolding kr peer_proofs_snoc observations_snoc update_conv'
    by (simp add: snoc.IH summary_def)
qed

definition summarises :: "peer_proof_summary \<Rightarrow> (string \<times> u64) list \<Rightarrow> bool" where
  "summarises s obs \<longleftrightarrow>
     (case pp_newest s of
        None \<Rightarrow> obs = [] \<and> pp_second s = 0
      | Some (k, t) \<Rightarrow>
          (k, t) \<in> set obs \<and> (\<forall>(k', t') \<in> set obs. t' \<le> t \<and> (k' \<noteq> k \<longrightarrow> t' \<le> pp_second s)) \<and>
          (pp_second s = 0 \<or> (\<exists>k'. k' \<noteq> k \<and> (k', pp_second s) \<in> set obs)))"

lemma summarises_observe:
  assumes "summarises s obs" and new: "k \<notin> fst ` set obs"
  shows "summarises (peer_observe k t s) (obs @ [(k, t)])"
proof (cases "pp_newest s")
  case None
  then show ?thesis using assms by (simp add: summarises_def peer_observe_def)
next
  case (Some kt)
  obtain k0 t0 where kt: "kt = (k0, t0)" by fastforce
  have mem: "(k0, t0) \<in> set obs" and bound: "\<And>k' t'. (k', t') \<in> set obs \<Longrightarrow> t' \<le> t0"
    and second: "\<And>k' t'. (k', t') \<in> set obs \<Longrightarrow> k' \<noteq> k0 \<Longrightarrow> t' \<le> pp_second s"
    and reached: "pp_second s = 0 \<or> (\<exists>k'. k' \<noteq> k0 \<and> (k', pp_second s) \<in> set obs)"
    using assms(1) by (auto simp: summarises_def Some kt)
  have ne: "k \<noteq> k0" and other: "\<And>k' t'. (k', t') \<in> set obs \<Longrightarrow> k' \<noteq> k" using new mem by force+
  have sec: "pp_second s \<le> t0" using reached bound by (auto simp: word_le_nat_alt)
  show ?thesis
  proof (cases "t0 < t")
    case True
    have obs: "peer_observe k t s = s\<lparr>pp_second := t0, pp_newest := Some (k, t)\<rparr>"
      using True sec by (simp add: peer_observe_def Some kt max_def)
    show ?thesis unfolding obs summarises_def using True mem ne bound other by fastforce
  next
    case False
    have obs: "peer_observe k t s = s\<lparr>pp_second := max (pp_second s) t\<rparr>"
      using False ne by (simp add: peer_observe_def Some kt)
    have "max (pp_second s) t = 0 \<or> (\<exists>k'. k' \<noteq> k0 \<and> (k', max (pp_second s) t) \<in> set (obs @ [(k, t)]))"
    proof (cases "pp_second s \<le> t")
      case True
      then show ?thesis using ne by (auto simp: max_def)
    next
      case False
      then show ?thesis using reached by (auto simp: max_def)
    qed
    then show ?thesis unfolding obs summarises_def using False mem ne bound second by (force simp: Some kt le_max_iff_disj)
  qed
qed

lemma summary_summarises: "distinct (map fst obs) \<Longrightarrow> summarises (summary obs) obs"
proof (induction obs rule: rev_induct)
  case Nil
  then show ?case by (simp add: summary_def summarises_def peer_default_def)
next
  case (snoc kt obs)
  obtain k t where kt: "kt = (k, t)" by fastforce
  have "summarises (peer_observe k t (summary obs)) (obs @ [(k, t)])"
    using snoc kt by (intro summarises_observe) auto
  then show ?case by (simp add: kt summary_def)
qed

text \<open>The newest proof of a device of a group other than the one with a key.\<close>

definition newest_peer :: "hub_key \<times> string \<Rightarrow> string \<Rightarrow> (string \<times> health_record) list \<Rightarrow> u64 option" where
  "newest_peer g key rs =
     (let ts = map (\<lambda>(_, r). h_last_proof r) (filter (\<lambda>(k, r). peer_group r = g \<and> k \<noteq> key) rs)
      in if ts = [] then None else Some (Max (set ts)))"

lemma newest_peer_obs:
  "newest_peer g key rs =
     (let ts = map snd (filter (\<lambda>(k, t). k \<noteq> key) (observations g rs)) in if ts = [] then None else Some (Max (set ts)))"
proof -
  have "map (\<lambda>(_, r). h_last_proof r) (filter (\<lambda>(k, r). peer_group r = g \<and> k \<noteq> key) rs) =
      map snd (filter (\<lambda>(k, t). k \<noteq> key) (observations g rs))"
    by (induction rs) (auto simp: observations_def)
  then show ?thesis by (simp only: newest_peer_def)
qed

lemma newest_excluding_summary:
  assumes s: "summarises s obs" and pos: "\<And>k t. (k, t) \<in> set obs \<Longrightarrow> 0 < t" and d: "distinct (map fst obs)"
  shows "newest_excluding key s =
     (let ts = map snd (filter (\<lambda>(k, t). k \<noteq> key) obs) in if ts = [] then None else Some (Max (set ts)))"
proof (cases "pp_newest s")
  case None
  then show ?thesis using s by (simp add: newest_excluding_def summarises_def)
next
  case (Some kt)
  obtain k0 t0 where kt: "kt = (k0, t0)" by fastforce
  let ?ts = "map snd (filter (\<lambda>(k, t). k \<noteq> key) obs)"
  have mem: "(k0, t0) \<in> set obs" and bound: "\<And>k' t'. (k', t') \<in> set obs \<Longrightarrow> t' \<le> t0"
    and second: "\<And>k' t'. (k', t') \<in> set obs \<Longrightarrow> k' \<noteq> k0 \<Longrightarrow> t' \<le> pp_second s"
    and reached: "pp_second s = 0 \<or> (\<exists>k'. k' \<noteq> k0 \<and> (k', pp_second s) \<in> set obs)"
    using s by (auto simp: summarises_def Some kt)
  have ts: "set ?ts = {t. \<exists>k. (k, t) \<in> set obs \<and> k \<noteq> key}" by force
  show ?thesis
  proof (cases "k0 = key")
    case False
    then have t0: "t0 \<in> set ?ts" using mem unfolding ts by blast
    have "Max (set ?ts) = t0" by (rule Max_eqI[OF _ _ t0]) (use bound in \<open>auto\<close>)
    moreover have "?ts \<noteq> []" using t0 by (metis empty_iff list.set(1))
    ultimately show ?thesis using False by (simp add: newest_excluding_def Some kt Let_def)
  next
    case True
    show ?thesis
    proof (cases "0 < pp_second s")
      case pos2: True
      then have mem2: "pp_second s \<in> set ?ts" using reached True unfolding ts by auto
      have "Max (set ?ts) = pp_second s" by (rule Max_eqI[OF _ _ mem2]) (use second True in \<open>auto\<close>)
      moreover have "?ts \<noteq> []" using mem2 by (metis empty_iff list.set(1))
      ultimately show ?thesis using True pos2 by (simp add: newest_excluding_def Some kt Let_def)
    next
      case zero: False
      have "?ts = []"
      proof (rule ccontr)
        assume "?ts \<noteq> []"
        then obtain t where "t \<in> set ?ts" by (meson list.set_sel(1))
        then obtain k where k: "(k, t) \<in> set obs" "k \<noteq> key" unfolding ts by blast
        then have "t \<le> pp_second s" using second True by blast
        then show False using pos[OF k(1)] zero by simp
      qed
      then show ?thesis using True zero by (simp add: newest_excluding_def Some kt)
    qed
  qed
qed

lemma distinct_observations: "distinct (map fst rs) \<Longrightarrow> distinct (map fst (observations g rs))"
proof -
  have keys: "map fst (observations g rs) = map fst (filter (\<lambda>(k, r). peer_group r = g) rs)"
    by (simp add: observations_def split_def comp_def)
  show "distinct (map fst rs) \<Longrightarrow> distinct (map fst (observations g rs))"
    unfolding keys by (rule distinct_map_filter)
qed

lemma peers_newest:
  assumes d: "distinct (map fst rs)" and pos: "\<And>k r. (k, r) \<in> set rs \<Longrightarrow> 0 < h_last_proof r"
  shows "Option.bind (map_of (peer_proofs rs) g) (newest_excluding key) = newest_peer g key rs"
proof (cases "observations g rs = []")
  case True
  then show ?thesis by (simp add: map_of_peer_proofs newest_peer_obs)
next
  case False
  have "newest_excluding key (summary (observations g rs)) = newest_peer g key rs"
    unfolding newest_peer_obs
    by (rule newest_excluding_summary[OF summary_summarises])
      (use d pos distinct_observations[OF d] in \<open>auto simp: observations_def\<close>)
  then show ?thesis using False by (simp add: map_of_peer_proofs)
qed

end
