(* ===== verification/DeviceHealthTrace.thy ===== *)
theory DeviceHealthTrace
  imports DeviceHealthLedger
begin

text \<open>
  The ledger of device health over a trace of events: proofs of life, failures, changes of the controllers,
  the periodic evaluation and reconciliation, the answers of the user, and restarts. Every record is shown to be
  backed by the events: its last proof is one of them, and so are the failures its window counts.
\<close>

datatype health_event =
    HProof string hub_key string string "string option" u64
  | HFailure string hub_key string string "string option" failure_class u64
  | HConnected hub_key u64
  | HDisconnected hub_key
  | HStreamReset hub_key u64
  | HEvaluate "string \<Rightarrow> u8 list \<times> u8 list" u64
  | HReconcile "string \<Rightarrow> u8 list \<times> u8 list" "active_identity list" u64
  | HSnooze string u64
  | HAwait string
  | HReload "string \<Rightarrow> u8 list \<times> u8 list"

fun health_step :: "(string \<Rightarrow> u8 list) \<Rightarrow> health_event \<Rightarrow> health_ledger \<Rightarrow> health_update \<times> health_ledger" where
  "health_step sha (HProof c k n f s t) l = note_proof sha c k n f s t l"
| "health_step sha (HFailure c k n f s cl t) l = note_failure sha c k n f s cl t l"
| "health_step sha (HConnected k t) l = (no_update, note_controller_connected k t l)"
| "health_step sha (HDisconnected k) l = (no_update, note_controller_disconnected k l)"
| "health_step sha (HStreamReset k t) l = (no_update, note_controller_stream_reset k t l)"
| "health_step sha (HEvaluate ids t) l = evaluate ids t l"
| "health_step sha (HReconcile ids active t) l = reconcile_active ids active t l"
| "health_step sha (HSnooze entry t) l = (no_update, snd (snooze entry t l))"
| "health_step sha (HAwait entry) l = (no_update, snd (await_recovery entry l))"
| "health_step sha (HReload ids) l = (no_update, normalized ids l)"

definition health_run :: "(string \<Rightarrow> u8 list) \<Rightarrow> health_event list \<Rightarrow> health_ledger" where
  "health_run sha evs = fold (\<lambda>e l. snd (health_step sha e l)) evs default_with_schema"

lemma health_run_Nil [simp]: "health_run sha [] = default_with_schema"
  and health_run_snoc [simp]: "health_run sha (evs @ [e]) = snd (health_step sha e (health_run sha evs))"
  by (simp_all add: health_run_def)

fun event_time :: "health_event \<Rightarrow> u64 option" where
  "event_time (HProof _ _ _ _ _ t) = Some t"
| "event_time (HFailure _ _ _ _ _ _ t) = Some t"
| "event_time (HConnected _ t) = Some t"
| "event_time (HStreamReset _ t) = Some t"
| "event_time (HEvaluate _ t) = Some t"
| "event_time (HReconcile _ _ t) = Some t"
| "event_time (HSnooze _ t) = Some t"
| "event_time _ = None"

text \<open>When an event proves the life of the endpoint with a key.\<close>

fun proof_at :: "string \<Rightarrow> health_event \<Rightarrow> u64 option" where
  "proof_at key (HProof c k n f s t) = (if health_key k n = key \<and> c \<noteq> [] \<and> n \<noteq> [] \<and> f \<noteq> [] \<and> t \<noteq> 0 then Some t else None)"
| "proof_at key _ = None"

section \<open>What an operation does to the records\<close>

abbreviation record_at :: "health_ledger \<Rightarrow> string \<Rightarrow> health_record option" where
  "record_at l \<equiv> map_of (hl_records l)"

lemma record_at_proof:
  assumes "bt_ok (hl_records l)" and "proof_at (health_key k n) (HProof c k n f s t) = Some t"
  shows "record_at (snd (note_proof sha c k n f s t l)) = (record_at l)(health_key k n \<mapsto>
     proven (stream_fingerprint sha s) t
       (unwrap_or (opt_filter (same_identity sha c f) (record_at l (health_key k n))) (new_health_record sha c k n f s t)))"
  using assms
  by (auto simp: note_proof_def Let_def bt_get_insert split: if_splits option.split)

lemma proof_ignored:
  "proof_at (health_key k n) (HProof c k n f s t) = None \<Longrightarrow> note_proof sha c k n f s t l = (no_update, l)"
  by (auto simp: note_proof_def split: if_splits)

lemma record_at_modify [simp]:
  "record_at (l\<lparr>hl_records := hm_modify key f (hl_records l)\<rparr>) = (record_at l)(key := map_option f (record_at l key))"
  by (simp add: hm_get_modify)

lemma map_of_filter_values:
  "distinct (map fst m) \<Longrightarrow> map_of (filter (\<lambda>(_, v). P v) m) k = opt_filter P (map_of m k)"
  by (induction m) (auto simp: map_of_eq_None_iff[symmetric] split: option.split dest: weak_map_of_SomeI map_of_SomeD)

lemma map_fst_keyed_map [simp]: "map fst (map (\<lambda>(k, v). (k, f k v)) m) = map fst m"
  by (simp add: comp_def split_def)

lemma bt_ok_filter: "bt_ok m \<Longrightarrow> bt_ok (filter P m)"
  by (simp add: sorted_wrt_map sorted_wrt_filter)

lemma evict_records_sub:
  "set (evict_records m) \<subseteq> set m \<and> (bt_ok m \<longrightarrow> bt_ok (evict_records m)) \<and>
   (length m \<le> MAX_DEVICE_HEALTH_RECORDS \<longrightarrow> evict_records m = m) \<and> length (evict_records m) \<le> MAX_DEVICE_HEALTH_RECORDS"
proof (induction m rule: evict_records.induct)
  case (1 m)
  show ?case
  proof (cases "length m \<le> MAX_DEVICE_HEALTH_RECORDS")
    case False
    then obtain e where e: "oldest_record m = Some e"
      by (cases "oldest_record m"; cases m) (auto split: option.splits if_splits)
    have "set (AList.delete (fst e) m) \<subseteq> set m" and "bt_ok m \<Longrightarrow> bt_ok (AList.delete (fst e) m)"
      by (auto simp: AList.delete_eq intro: bt_ok_filter)
    then show ?thesis using 1[OF False e] False e by (subst (1 2 3 4) evict_records.simps) auto
  qed (subst (1 2 3 4) evict_records.simps, simp)
qed

declare evict_records.simps [simp del]

lemma record_at_normalized:
  assumes "bt_ok (hl_records l)" and "record_at (normalized ids l) key = Some r'"
  shows "\<exists>r. record_at l key = Some r \<and> loadable r \<and> r' = normalize_record ids key r"
proof -
  let ?m = "map (\<lambda>(k, r). (k, normalize_record ids k r)) (filter (\<lambda>(_, r). loadable r) (hl_records l))"
  have "(key, r') \<in> set ?m"
    using assms(2) evict_records_sub[of ?m] by (auto simp: normalized_def default_with_schema_def Let_def split: if_splits dest!: map_of_SomeD)
  moreover have "distinct (map fst (hl_records l))" using assms(1) by (rule bt_ok_distinct)
  ultimately show ?thesis by (auto simp: map_of_eq_Some_iff)
qed

text \<open>A record that an operation takes over with its identity, its last proof, and its window or none.\<close>

definition live :: "health_status \<Rightarrow> bool" where
  "live st \<longleftrightarrow> st = Monitoring \<or> is_attention st"

definition carried :: "health_record \<Rightarrow> health_record \<Rightarrow> bool" where
  "carried r r' \<longleftrightarrow>
     h_canonical_id r' = h_canonical_id r \<and> h_hub_key r' = h_hub_key r \<and> h_native_id r' = h_native_id r \<and>
     h_fabric r' = h_fabric r \<and> h_last_proof r' = h_last_proof r \<and>
     ((h_first_failure r' = h_first_failure r \<and> h_last_failure r' = h_last_failure r \<and>
       h_failure_count r' \<le> h_failure_count r \<and> (live (h_status r') \<longrightarrow> live (h_status r))) \<or>
      (h_first_failure r' = None \<and> h_last_failure r' = None \<and> h_failure_count r' = 0))"

lemma carried_refl [simp]: "carried r r"
  by (simp add: carried_def)

lemma carried_normalize: "carried r (normalize_record ids key r)"
  by (simp add: carried_def normalize_record_def reset_failure_window_def Let_def)

lemma carried_reopened: "carried r (reopened (r\<lparr>h_stream := s\<rparr>))"
  by (auto simp: carried_def reopened_def reset_failure_window_def)

lemma live_reopened [simp]: "live (h_status (reopened r))"
  by (cases "h_status r") (auto simp: reopened_def live_def reset_failure_window_def)

lemma carried_admit: "h_status r = Monitoring \<or> h_status r = HealthSnoozed \<Longrightarrow> carried r (admit_record ids now key r)"
  by (auto simp: carried_def admit_record_def live_def)

lemma carried_removed: "carried r (removed_record now r)"
  by (simp add: carried_def removed_record_def live_def)

lemma find_entry_record:
  assumes "bt_ok (hl_records l)" and "find_entry entry l = Some (k, r)"
  shows "record_at l k = Some r" and "h_entry_id r = Some entry"
proof -
  have "(k, r) \<in> set (hl_records l) \<and> h_entry_id r = Some entry"
    using assms(2) unfolding find_entry_def find_Some_iff by (metis (mono_tags, lifting) case_prod_conv nth_mem)
  then show "record_at l k = Some r" and "h_entry_id r = Some entry"
    using bt_ok_distinct[OF assms(1)] by (auto simp: map_of_eq_Some_iff)
qed

lemma record_at_reviewed:
  assumes "bt_ok (hl_records l)" and "record_at (snd (review_entry f entry l)) key = Some r'"
  shows "\<exists>r. record_at l key = Some r \<and> (r' = r \<or> (is_attention (h_status r) \<and> r' = f r))"
proof (cases "find_entry entry l")
  case None
  then show ?thesis using assms(2) by (simp add: review_entry_def)
next
  case (Some kr)
  obtain k r where kr: "kr = (k, r)" by fastforce
  have "record_at l k = Some r" using find_entry_record(1)[OF assms(1)] Some kr by simp
  then show ?thesis using assms(2) by (auto simp: review_entry_def Some kr hm_get_modify split: if_splits)
qed


lemma record_at_failure:
  assumes "record_at (snd (note_failure sha c k n f s cl t l)) key = Some r'"
  shows "(\<exists>r. record_at l key = Some r \<and> carried r r') \<or>
     (\<exists>r r1. record_at l key = Some r \<and> key = health_key k n \<and> same_identity sha c f r \<and> carried r r1 \<and> live (h_status r1) \<and>
        h_last_proof r \<le> t \<and> (h_first_failure r1 = None \<or>
          UNREACHABLE_FAILURE_SEPARATION_SECS \<le> sat_sub t (unwrap_or (h_last_failure r1) 0)) \<and>
        r' = counted_failure cl t r1)"
proof (cases "record_at l (health_key k n)")
  case None
  then show ?thesis using assms by (auto simp: note_failure_def)
next
  case (Some r)
  define r1 where "r1 = reopened (r\<lparr>h_stream := opt_or (stream_fingerprint sha s) (h_stream r)\<rparr>)"
  have r1: "carried r r1" "live (h_status r1)" by (simp_all add: r1_def carried_reopened)
  show ?thesis
    using assms r1 unfolding note_failure_def Some option.case Let_def r1_def[symmetric]
    by (auto simp: Some hm_get_modify not_less split: if_splits)
qed

lemma record_at_evaluated:
  "record_at (snd (evaluate ids t l)) key =
     map_option (\<lambda>r. if admissible l (peer_proofs (hl_records l)) t key r then admit_record ids t key r else r) (record_at l key)"
  by (simp add: evaluate_def Let_def map_of_keyed_map)

lemma record_at_reconciled:
  assumes "bt_ok (hl_records l)"
  shows "record_at (snd (reconcile_active ids active t l)) key =
     opt_filter (retained t) (map_option (\<lambda>r. if gone active r then removed_record t r else r) (record_at l key))"
proof -
  let ?m = "map (\<lambda>(key, r). (key, if gone active r then removed_record t r else r)) (hl_records l)"
  have "distinct (map fst ?m)" unfolding map_fst_keyed_map by (rule bt_ok_distinct[OF assms])
  then show ?thesis by (simp only: reconcile_active_def Let_def snd_conv health_ledger.simps map_of_filter_values map_of_keyed_map)
    (simp add: map_of_filter_values map_of_keyed_map)
qed

lemma records_controller [simp]:
  "hl_records (note_controller_connected k t l) = hl_records l"
  "hl_records (note_controller_disconnected k l) = hl_records l"
  "hl_records (note_controller_stream_reset k t l) = hl_records l"
  by (simp_all add: note_controller_connected_def note_controller_disconnected_def note_controller_stream_reset_def modify_controller_def)

text \<open>Where a record comes from.\<close>

lemma step_record:
  assumes ok: "bt_ok (hl_records l)" and r': "record_at (snd (health_step sha e l)) key = Some r'"
  obtains (kept) r where "record_at l key = Some r" "carried r r'" "proof_at key e = None"
  | (proved) c k n f s t r where "e = HProof c k n f s t" "key = health_key k n" "proof_at key e = Some t" "r' = proven (stream_fingerprint sha s) t r"
      "same_identity sha c f r" "r = new_health_record sha c k n f s t \<or> record_at l key = Some r"
  | (failed) c k n f s cl t r r1 where "e = HFailure c k n f s cl t" "key = health_key k n" "record_at l key = Some r" "same_identity sha c f r"
      "carried r r1" "live (h_status r1)" "h_last_proof r \<le> t"
      "h_first_failure r1 = None \<or> UNREACHABLE_FAILURE_SEPARATION_SECS \<le> sat_sub t (unwrap_or (h_last_failure r1) 0)"
      "r' = counted_failure cl t r1"
proof (cases e)
  case (HProof c k n f s t)
  show ?thesis
  proof (cases "proof_at (health_key k n) e")
    case None
    then show ?thesis using r' kept[of r'] proof_ignored[of k n c f s t] by (auto simp: HProof split: if_splits)
  next
    case (Some t')
    then have p: "proof_at (health_key k n) (HProof c k n f s t) = Some t" by (auto simp: HProof split: if_splits)
    show ?thesis
    proof (cases "key = health_key k n")
      case True
      let ?r = "unwrap_or (opt_filter (same_identity sha c f) (record_at l key)) (new_health_record sha c k n f s t)"
      have "same_identity sha c f ?r"
        by (cases "record_at l key") (auto simp: same_identity_def new_health_record_def)
      moreover have "?r = new_health_record sha c k n f s t \<or> record_at l key = Some ?r"
        by (cases "record_at l key") auto
      moreover have "r' = proven (stream_fingerprint sha s) t ?r" and "proof_at key e = Some t"
        using r' p True by (simp_all add: HProof record_at_proof[OF ok p])
      ultimately show ?thesis by (intro proved[OF HProof True])
    next
      case False
      then show ?thesis using kept[of r'] r' by (simp add: HProof record_at_proof[OF ok p])
    qed
  qed
next
  case (HFailure c k n f s cl t)
  have none: "proof_at key e = None" by (simp add: HFailure)
  show ?thesis using record_at_failure[of sha c k n f s cl t l key r'] r' HFailure none by (auto intro: kept failed)
next
  case (HEvaluate ids t)
  then show ?thesis using r' kept by (auto simp: record_at_evaluated admissible_def carried_admit split: if_splits)
next
  case (HReconcile ids active t)
  then show ?thesis using r' kept
    by (auto simp: record_at_reconciled[OF ok] carried_removed dest!: opt_filter_SomeD split: if_splits)
next
  case (HSnooze entry t)
  then show ?thesis using r' kept record_at_reviewed[OF ok, of _ entry key r']
    by (fastforce simp: snooze_def carried_def live_def)
next
  case (HAwait entry)
  then show ?thesis using r' kept record_at_reviewed[OF ok, of _ entry key r']
    by (fastforce simp: await_recovery_def carried_def live_def)
next
  case (HReload ids)
  then show ?thesis using r' kept record_at_normalized[OF ok, of ids key r'] carried_normalize by auto
qed (use r' kept in \<open>auto\<close>)

lemma step_bt_ok: "bt_ok (hl_records l) \<Longrightarrow> bt_ok (hl_records (snd (health_step sha e l)))"
proof (cases e)
  case (HProof c k n f s t)
  then show "bt_ok (hl_records l) \<Longrightarrow> ?thesis" by (simp add: note_proof_def Let_def bt_ok_insert)
next
  case (HFailure c k n f s cl t)
  then show "bt_ok (hl_records l) \<Longrightarrow> ?thesis" by (auto simp: note_failure_def Let_def split: option.split)
next
  case (HEvaluate ids t)
  then show "bt_ok (hl_records l) \<Longrightarrow> ?thesis" by (simp add: evaluate_def Let_def comp_def split_def)
next
  case (HReconcile ids active t)
  let ?m = "map (\<lambda>(key, r). (key, if gone active r then removed_record t r else r)) (hl_records l)"
  have "bt_ok (hl_records l) \<Longrightarrow> bt_ok (filter (\<lambda>(_, r). retained t r) ?m)"
    by (intro bt_ok_filter, simp only: map_fst_keyed_map)
  then show "bt_ok (hl_records l) \<Longrightarrow> ?thesis"
    by (simp add: HReconcile reconcile_active_def Let_def del: map_map)
next
  case (HSnooze entry t)
  then show "bt_ok (hl_records l) \<Longrightarrow> ?thesis" by (auto simp: snooze_def review_entry_def split: option.split)
next
  case (HAwait entry)
  then show "bt_ok (hl_records l) \<Longrightarrow> ?thesis" by (auto simp: await_recovery_def review_entry_def split: option.split)
next
  case (HReload ids)
  let ?m = "map (\<lambda>(k, r). (k, normalize_record ids k r)) (filter (\<lambda>(_, r). loadable r) (hl_records l))"
  show "bt_ok (hl_records l) \<Longrightarrow> ?thesis"
    using evict_records_sub[of ?m] bt_ok_filter[of "hl_records l"] map_fst_keyed_map[of "normalize_record ids" "filter (\<lambda>(_, r). loadable r) (hl_records l)"]
    by (simp add: HReload normalized_def default_with_schema_def Let_def del: map_map)
qed auto

interpretation health_steps: guarded_steps "\<lambda>_ _. True" "\<lambda>e l. snd (health_step sha e l)" "\<lambda>l. bt_ok (hl_records l)" for sha
  by unfold_locales (rule step_bt_ok)

lemma run_bt_ok: "bt_ok (hl_records (health_run sha evs))"
  unfolding health_run_def by (rule health_steps.free_run_keeps) (simp_all add: default_with_schema_def)

end
