(* ===== verification/DeviceHealthProperties.thy ===== *)
theory DeviceHealthProperties
  imports DeviceHealthTrace
begin

text \<open>The properties of the ledger of device health.\<close>

section \<open>Every record is backed by the trace\<close>

definition failure_report :: "(string \<Rightarrow> u8 list) \<Rightarrow> health_event list \<Rightarrow> string \<Rightarrow> string \<Rightarrow> string \<Rightarrow> u64 \<Rightarrow> bool" where
  "failure_report sha evs key c fabric t \<longleftrightarrow>
     (\<exists>k n f s cl. HFailure c k n f s cl t \<in> set evs \<and> health_key k n = key \<and> fabric_fingerprint sha f = fabric)"

definition proof_report :: "(string \<Rightarrow> u8 list) \<Rightarrow> health_event list \<Rightarrow> string \<Rightarrow> string \<Rightarrow> string \<Rightarrow> u64 \<Rightarrow> bool" where
  "proof_report sha evs key c fabric t \<longleftrightarrow>
     (\<exists>k n f s. HProof c k n f s t \<in> set evs \<and> health_key k n = key \<and> fabric_fingerprint sha f = fabric)"

definition separated :: "u64 list \<Rightarrow> bool" where
  "separated = sorted_wrt (\<lambda>a b. unat a + 28800 \<le> unat b)"

definition window_of :: "health_record \<Rightarrow> u64 list \<Rightarrow> bool" where
  "window_of r ts \<longleftrightarrow> separated ts \<and> unat (h_failure_count r) \<le> length ts \<and>
     h_first_failure r = (if ts = [] then None else Some (hd ts)) \<and>
     h_last_failure r = (if ts = [] then None else Some (last ts)) \<and>
     (live (h_status r) \<longrightarrow> (\<forall>t \<in> set ts. h_last_proof r \<le> t))"

definition backed :: "(string \<Rightarrow> u8 list) \<Rightarrow> health_event list \<Rightarrow> string \<Rightarrow> health_record \<Rightarrow> bool" where
  "backed sha evs key r \<longleftrightarrow>
     proof_report sha evs key (h_canonical_id r) (h_fabric r) (h_last_proof r) \<and> 0 < h_last_proof r \<and>
     (\<exists>ts. window_of r ts \<and> (\<forall>t \<in> set ts. failure_report sha evs key (h_canonical_id r) (h_fabric r) t))"

lemma reports_snoc:
  "failure_report sha evs key c f t \<Longrightarrow> failure_report sha (evs @ es) key c f t"
  "proof_report sha evs key c f t \<Longrightarrow> proof_report sha (evs @ es) key c f t"
  unfolding failure_report_def proof_report_def set_append by blast+

lemma backed_snoc: "backed sha evs key r \<Longrightarrow> backed sha (evs @ es) key r"
  by (auto simp: backed_def intro: reports_snoc)

lemma window_carried: "window_of r ts \<Longrightarrow> carried r r' \<Longrightarrow> window_of r' ts \<or> window_of r' []"
  by (auto simp: window_of_def carried_def separated_def word_le_nat_alt)

lemma backed_carried: "backed sha evs key r \<Longrightarrow> carried r r' \<Longrightarrow> backed sha evs key r'"
proof -
  assume b: "backed sha evs key r" and c: "carried r r'"
  have same: "h_canonical_id r' = h_canonical_id r" "h_fabric r' = h_fabric r" "h_last_proof r' = h_last_proof r"
    using c by (auto simp: carried_def)
  show ?thesis using b window_carried[OF _ c] unfolding backed_def same by fastforce
qed

lemma separated_snoc:
  "separated ts \<Longrightarrow> ts \<noteq> [] \<Longrightarrow> unat (last ts) + 28800 \<le> unat t \<Longrightarrow> separated (ts @ [t])"
proof -
  assume s: "separated ts" and ne: "ts \<noteq> []" and t: "unat (last ts) + 28800 \<le> unat t"
  have "unat a + 28800 \<le> unat t" if "a \<in> set ts" for a
  proof -
    obtain us where us: "ts = us @ [last ts]" using ne by (metis append_butlast_last_id)
    then have "a = last ts \<or> a \<in> set us" using that by (metis Un_iff empty_iff empty_set insertE list.simps(15) set_append)
    then have "unat a \<le> unat (last ts)" using s us unfolding separated_def by (metis (no_types, lifting) add_leD1 in_set_conv_decomp list.set_intros(1) order_refl sorted_wrt_append)
    then show ?thesis using t by simp
  qed
  then show ?thesis using s by (simp add: separated_def sorted_wrt_append)
qed

lemma window_counted:
  assumes w: "window_of r ts" and lp: "h_last_proof r \<le> t"
    and sep: "h_first_failure r = None \<or> UNREACHABLE_FAILURE_SEPARATION_SECS \<le> sat_sub t (unwrap_or (h_last_failure r) 0)"
    and l: "live (h_status r)"
  shows "window_of (counted_failure cl t r) (ts @ [t])"
proof -
  have "unat (min (sat_add (h_failure_count r) 1) 10000) \<le> Suc (unat (h_failure_count r))"
    by (simp add: min_def unat_sat_add word_le_nat_alt)
  then have n: "unat (min (sat_add (h_failure_count r) 1) 10000) \<le> Suc (length ts)"
    using w by (simp add: window_of_def)
  show ?thesis
  proof (cases "ts = []")
    case True
    then show ?thesis using w n lp by (auto simp: window_of_def counted_failure_def get_or_def separated_def)
  next
    case False
    then have "28800 \<le> sat_sub t (last ts)" using w sep by (simp add: window_of_def UNREACHABLE_FAILURE_SEPARATION_SECS_def)
    then have "unat (last ts) + 28800 \<le> unat t"
      by (simp add: sat_sub_def word_le_nat_alt unat_sub split: if_splits)
    then have "separated (ts @ [t])" using w False by (intro separated_snoc) (simp_all add: window_of_def)
    then show ?thesis using w n lp l False by (auto simp: window_of_def counted_failure_def get_or_def)
  qed
qed

lemma backed_new: "0 < t \<Longrightarrow> HProof c k n f s t \<in> set evs \<Longrightarrow> backed sha evs (health_key k n) (new_health_record sha c k n f s t)"
proof -
  assume t: "0 < t" and e: "HProof c k n f s t \<in> set evs"
  have "proof_report sha evs (health_key k n) c (fabric_fingerprint sha f) t" unfolding proof_report_def using e by blast
  then show ?thesis using t by (auto simp: backed_def new_health_record_def window_of_def separated_def intro!: exI[of _ "[]"])
qed

lemma backed_proven:
  assumes b: "backed sha evs (health_key k n) r" and i: "same_identity sha c f r" and e: "HProof c k n f s t \<in> set evs" and t: "0 < t"
  shows "backed sha evs (health_key k n) (proven s' t r)"
proof -
  have same: "h_canonical_id (proven s' t r) = h_canonical_id r" "h_fabric (proven s' t r) = h_fabric r"
    "h_last_proof (proven s' t r) = max (h_last_proof r) t"
    by (simp_all add: proven_def Let_def reset_failure_window_def)
  have "proof_report sha evs (health_key k n) (h_canonical_id r) (h_fabric r) (max (h_last_proof r) t)"
    using b i e by (auto simp: backed_def max_def same_identity_def proof_report_def)
  moreover have "0 < max (h_last_proof r) t" using t by (simp add: less_max_iff_disj)
  moreover from b obtain ts where "window_of r ts" and fr: "\<forall>t \<in> set ts. failure_report sha evs (health_key k n) (h_canonical_id r) (h_fabric r) t"
    by (auto simp: backed_def)
  then have "window_of (proven s' t r) ts \<or> window_of (proven s' t r) []"
    by (cases "h_status r") (auto simp: window_of_def proven_def Let_def reset_failure_window_def live_def separated_def)
  ultimately show ?thesis using fr unfolding backed_def same by fastforce
qed

lemma backed_counted:
  assumes b: "backed sha evs (health_key k n) r" and i: "same_identity sha c f r" and e: "HFailure c k n f s cl t \<in> set evs"
    and w: "h_last_proof r \<le> t" "live (h_status r)"
      "h_first_failure r = None \<or> UNREACHABLE_FAILURE_SEPARATION_SECS \<le> sat_sub t (unwrap_or (h_last_failure r) 0)"
  shows "backed sha evs (health_key k n) (counted_failure cl t r)"
proof -
  have same: "h_canonical_id (counted_failure cl t r) = h_canonical_id r" "h_fabric (counted_failure cl t r) = h_fabric r"
    "h_last_proof (counted_failure cl t r) = h_last_proof r"
    by (simp_all add: counted_failure_def)
  have "failure_report sha evs (health_key k n) (h_canonical_id r) (h_fabric r) t"
    using i e unfolding failure_report_def same_identity_def by (intro exI[of _ k] exI[of _ n] exI[of _ f] exI[of _ s] exI[of _ cl]) simp
  then show ?thesis using b window_counted[OF _ w(1,3,2), of _ cl] unfolding backed_def same by fastforce
qed

lemma carried_same: "carried r r1 \<Longrightarrow> same_identity sha c f r \<Longrightarrow> same_identity sha c f r1"
  "carried r r1 \<Longrightarrow> h_last_proof r1 = h_last_proof r"
  by (auto simp: carried_def same_identity_def)

lemma run_backed: "record_at (health_run sha evs) key = Some r \<Longrightarrow> backed sha evs key r"
proof (induction evs arbitrary: key r rule: rev_induct)
  case Nil
  then show ?case by (simp add: default_with_schema_def)
next
  case (snoc e evs)
  let ?l = "health_run sha evs"
  have IH: "backed sha (evs @ [e]) key r" if "record_at ?l key = Some r" for key r
    using snoc.IH[OF that] by (rule backed_snoc)
  have step: "record_at (snd (health_step sha e ?l)) key = Some r" using snoc.prems by simp
  show ?case
  proof (cases rule: step_record[OF run_bt_ok step])
    case (1 old)
    then show ?thesis using backed_carried[OF IH] by blast
  next
    case (2 c k n f s t old)
    then have t: "0 < t" by (simp add: word_neq_0_conv split: if_splits)
    have b: "backed sha (evs @ [e]) (health_key k n) old"
      using 2(6) IH backed_new[OF t, of c k n f s "evs @ [e]" sha] by (auto simp: 2(1,2))
    have "HProof c k n f s t \<in> set (evs @ [e])" by (simp add: 2(1))
    then show ?thesis unfolding 2(4) 2(2) by (rule backed_proven[OF b 2(5) _ t])
  next
    case (3 c k n f s cl t old r1)
    have b: "backed sha (evs @ [e]) (health_key k n) r1" using backed_carried[OF IH[OF 3(3)] 3(5)] unfolding 3(2) .
    have "HFailure c k n f s cl t \<in> set (evs @ [e])" and "h_last_proof r1 \<le> t" using 3(1,7) carried_same(2)[OF 3(5)] by simp_all
    then show ?thesis unfolding 3(9) 3(2) by (rule backed_counted[OF b carried_same(1)[OF 3(5,4)] _ _ 3(6) 3(8)])
  qed
qed

text \<open>While the clock does not step back, the last proof of a record is the newest of all.\<close>

lemma proof_at_time: "proof_at key e = Some t \<Longrightarrow> event_time e = Some t"
  by (cases e) (auto split: if_splits)

lemma run_newest:
  assumes "sorted (List.map_filter event_time evs)" and "record_at (health_run sha evs) key = Some r" and "e \<in> set evs" and "proof_at key e = Some t"
  shows "t \<le> h_last_proof r"
  using assms
proof (induction evs arbitrary: r e t rule: rev_induct)
  case (snoc e' evs)
  let ?l = "health_run sha evs"
  have sorted: "sorted (List.map_filter event_time evs)" and earlier: "\<And>e t t'. e \<in> set evs \<Longrightarrow> event_time e = Some t \<Longrightarrow> event_time e' = Some t' \<Longrightarrow> t \<le> t'"
    using snoc.prems(1) by (fastforce simp: map_filter_def sorted_append)+
  have IH: "t \<le> h_last_proof r" if "record_at ?l key = Some r" "e \<in> set evs" "proof_at key e = Some t" for r e t
    using snoc.IH[OF sorted that] .
  have step: "record_at (snd (health_step sha e' ?l)) key = Some r" using snoc.prems(2) by simp
  show ?case
  proof (cases rule: step_record[OF run_bt_ok step])
    case (1 old)
    then have "e \<in> set evs" using snoc.prems(3,4) by auto
    then show ?thesis using IH[OF 1(1) _ snoc.prems(4)] carried_same(2)[OF 1(2)] by simp
  next
    case (2 c k n f s t' old)
    have "t \<le> t'"
      using snoc.prems(3,4) earlier[of e t t'] proof_at_time[OF 2(3)] proof_at_time[OF snoc.prems(4)] 2(3) by auto
    moreover have "t' \<le> h_last_proof r" by (simp add: 2(4) proven_def Let_def reset_failure_window_def)
    ultimately show ?thesis by simp
  next
    case (3 c k n f s cl t' old r1)
    then have "e \<in> set evs" using snoc.prems(3,4) by auto
    then show ?thesis using IH[OF 3(3) _ snoc.prems(4)] carried_same(2)[OF 3(5)] by (simp add: 3(9) counted_failure_def)
  qed
qed simp


section \<open>Admission\<close>

lemma run_positive: "(k, r) \<in> set (hl_records (health_run sha evs)) \<Longrightarrow> 0 < h_last_proof r"
  using run_backed[of sha evs k r] bt_ok_distinct[OF run_bt_ok] by (simp add: map_of_eq_Some_iff backed_def)

text \<open>The two newest proofs that the evaluation keeps of each controller and fabric are enough: for every record they
give the newest proof of the other devices of its group, and nothing when it has no peer.\<close>

theorem peer_summary_newest:
  assumes "distinct (map fst rs)" and "\<forall>(k, r) \<in> set rs. 0 < h_last_proof r"
  shows "Option.bind (map_of (peer_proofs rs) g) (newest_excluding key) =
     (let ts = map (\<lambda>(_, r). h_last_proof r) (filter (\<lambda>(k, r). peer_group r = g \<and> k \<noteq> key) rs)
      in if ts = [] then None else Some (Max (set ts)))"
  using peers_newest[of rs g key] assms by (fastforce simp: newest_peer_def)

definition demo_sha :: "string \<Rightarrow> u8 list" where
  "demo_sha v = map (\<lambda>c. of_nat (of_char c)) v"

definition demo_ids :: "string \<Rightarrow> u8 list \<times> u8 list" where
  "demo_ids key = ([1], [2])"

definition health_hub :: hub_key where
  "health_hub = \<lparr>hk_type = ''matter'', hk_address = ''local''\<rparr>"

definition demo_health_trace :: "health_event list" where
  "demo_health_trace =
     [HConnected health_hub 1, HProof ''c1'' health_hub ''n1'' ''f'' None 10, HProof ''c2'' health_hub ''n2'' ''f'' None 10,
      HFailure ''c1'' health_hub ''n1'' ''f'' None ReadFailure 1000, HFailure ''c1'' health_hub ''n1'' ''f'' None ReadFailure 40000,
      HFailure ''c1'' health_hub ''n1'' ''f'' None CommandFailure 90000, HProof ''c2'' health_hub ''n2'' ''f'' None 90000]"

definition demo_health :: health_ledger where
  "demo_health = health_run demo_sha demo_health_trace"

theorem peer_summary_newest_witness:
  "Option.bind (map_of (peer_proofs (hl_records demo_health)) (health_hub, ''66'')) (newest_excluding ''matter@local|n1'') = Some 90000"
proof -
  have "distinct (map fst (hl_records demo_health))" and "\<forall>(k, r) \<in> set (hl_records demo_health). 0 < h_last_proof r"
    unfolding demo_health_def using bt_ok_distinct[OF run_bt_ok] run_positive by blast+
  note peer_summary_newest[OF this, of "(health_hub, ''66'')" "''matter@local|n1''"]
  moreover have "map (\<lambda>(_, r). h_last_proof r) (filter (\<lambda>(k, r). peer_group r = (health_hub, ''66'') \<and> k \<noteq> ''matter@local|n1'')
     (hl_records demo_health)) = [90000]" by code_simp
  ultimately show ?thesis by simp
qed

definition attention_evidence :: "(string \<Rightarrow> u8 list) \<Rightarrow> health_event list \<Rightarrow> u64 \<Rightarrow> string \<Rightarrow> health_record \<Rightarrow> bool" where
  "attention_evidence sha evs now key r \<longleftrightarrow>
     controller_healthy (h_hub_key r) now (health_run sha evs) \<and>
     (\<forall>e \<in> set evs. \<forall>t. proof_at key e = Some t \<longrightarrow> unat t + 86400 \<le> unat now) \<and>
     (\<exists>ts key' r'.
        3 \<le> length ts \<and> separated ts \<and> unat (hd ts) + 86400 \<le> unat (last ts) \<and> last ts \<le> now \<and>
        (\<forall>t \<in> set ts. failure_report sha evs key (h_canonical_id r) (h_fabric r) t \<and> h_last_proof r \<le> t) \<and>
        record_at (health_run sha evs) key' = Some r' \<and> key' \<noteq> key \<and> peer_group r' = peer_group r \<and>
        proof_report sha evs key' (h_canonical_id r') (h_fabric r') (h_last_proof r') \<and>
        hd ts \<le> h_last_proof r' \<and> h_last_proof r' \<le> now \<and> unat now \<le> unat (h_last_proof r') + 1800)"

lemma admissible_evidence:
  assumes clock: "sorted (List.map_filter event_time evs @ [now])" and r: "record_at (health_run sha evs) key = Some r"
    and adm: "admissible (health_run sha evs) (peer_proofs (hl_records (health_run sha evs))) now key r"
  shows "attention_evidence sha evs now key r"
proof -
  let ?l = "health_run sha evs"
  have d: "distinct (map fst (hl_records ?l))" by (rule bt_ok_distinct[OF run_bt_ok])
  from adm obtain t0 t1 where w: "h_first_failure r = Some t0" "h_last_failure r = Some t1" "h_last_proof r \<le> now" "t1 \<le> now"
      "controller_healthy (h_hub_key r) now ?l" "UNREACHABLE_NO_PROOF_SECS \<le> sat_sub now (h_last_proof r)"
      "UNREACHABLE_FAILURE_SPAN_SECS \<le> sat_sub t1 t0" "UNREACHABLE_MIN_FAILURES \<le> h_failure_count r"
    and live: "live (h_status r)"
    and peer: "peer_healthy now t0 (Option.bind (map_of (peer_proofs (hl_records ?l)) (peer_group r)) (newest_excluding key))"
    by (auto simp: admissible_def live_def split: option.splits)
  obtain ts where ts: "window_of r ts" "\<forall>t \<in> set ts. failure_report sha evs key (h_canonical_id r) (h_fabric r) t"
    using run_backed[OF r] by (auto simp: backed_def)
  have ne: "ts \<noteq> []" "hd ts = t0" "last ts = t1" and sep: "separated ts" and after: "\<forall>t \<in> set ts. h_last_proof r \<le> t"
    and n: "unat (h_failure_count r) \<le> length ts"
    using ts(1) w(1,2) live by (auto simp: window_of_def split: if_splits)
  have "3 \<le> unat (h_failure_count r)" using w(8) by (simp add: UNREACHABLE_MIN_FAILURES_def word_le_nat_alt)
  then have three: "3 \<le> length ts" using n by simp
  have span: "unat t0 + 86400 \<le> unat t1" using w(7)
    by (simp add: UNREACHABLE_FAILURE_SPAN_SECS_def sat_sub_def word_le_nat_alt unat_sub split: if_splits)
  have old: "unat (h_last_proof r) + 86400 \<le> unat now" using w(3,6)
    by (simp add: UNREACHABLE_NO_PROOF_SECS_def sat_sub_def word_le_nat_alt unat_sub split: if_splits)
  have silent: "unat t + 86400 \<le> unat now" if "e \<in> set evs" "proof_at key e = Some t" for e t
    using run_newest[OF _ r that] clock old by (simp add: sorted_append word_le_nat_alt)
  have pos: "\<And>k r. (k, r) \<in> set (hl_records ?l) \<Longrightarrow> 0 < h_last_proof r" by (rule run_positive)
  from peer obtain p where p: "newest_peer (peer_group r) key (hl_records ?l) = Some p" "t0 \<le> p" "p \<le> now" "sat_sub now p \<le> HEALTHY_PEER_MAX_AGE_SECS"
    using peers_newest[OF d pos, where g = "peer_group r" and key = key] by (auto simp: peer_healthy_def split: option.splits)
  then have "p \<in> set (map (\<lambda>(_, r). h_last_proof r) (filter (\<lambda>(k, r'). peer_group r' = peer_group r \<and> k \<noteq> key) (hl_records ?l)))"
    by (auto simp: newest_peer_def Let_def simp del: set_map set_filter split: if_splits intro!: Max_in)
  then obtain key' r' where r': "(key', r') \<in> set (hl_records ?l)" "peer_group r' = peer_group r" "key' \<noteq> key" "h_last_proof r' = p" by auto
  then have look': "record_at ?l key' = Some r'" using d by simp
  have "proof_report sha evs key' (h_canonical_id r') (h_fabric r') (h_last_proof r')" using run_backed[OF look'] by (simp add: backed_def)
  moreover have "unat now \<le> unat p + 1800" using p(3,4)
    by (auto simp: HEALTHY_PEER_MAX_AGE_SECS_def sat_sub_def word_le_nat_alt unat_sub split: if_splits)
  ultimately show ?thesis unfolding attention_evidence_def using w(4,5) silent three sep span ts(2) after look' r' p(2,3) ne by blast
qed

text \<open>An evaluation raises a record when it turns it into one that waits for the user.\<close>

definition raised :: "(string \<Rightarrow> u8 list \<times> u8 list) \<Rightarrow> u64 \<Rightarrow> health_ledger \<Rightarrow> string \<Rightarrow> health_record \<Rightarrow> string option \<Rightarrow> bool" where
  "raised ids now l key r entry \<longleftrightarrow>
     record_at l key = Some r \<and> h_status r \<noteq> HealthPending \<and>
     (\<exists>r'. record_at (snd (evaluate ids now l)) key = Some r' \<and> h_status r' = HealthPending \<and> h_entry_id r' = entry)"

lemma raised_iff:
  assumes "distinct (map fst (hl_records l))"
  shows "raised ids now l key r entry \<longleftrightarrow>
     record_at l key = Some r \<and> admissible l (peer_proofs (hl_records l)) now key r \<and>
     entry = Some (unwrap_or (h_entry_id r) (generate_entry_id (fst (ids key))))"
proof (cases "record_at l key = Some r")
  case True
  let ?adm = "admissible l (peer_proofs (hl_records l)) now key r"
  have "record_at (snd (evaluate ids now l)) key = Some (if ?adm then admit_record ids now key r else r)"
    using True by (simp add: evaluate_def Let_def map_of_keyed_map)
  then show ?thesis using True by (cases "h_entry_id r") (auto simp: raised_def admissible_def admit_record_def get_or_def)
qed (simp add: raised_def)

lemma admitted_iff_raised:
  assumes "distinct (map fst (hl_records l))"
  shows "(entry, Admitted) \<in> set (hu_transitions (fst (evaluate ids now l))) \<longleftrightarrow> (\<exists>key r. raised ids now l key r (Some entry))"
  using assms unfolding raised_iff[OF assms] by (fastforce simp: evaluate_def Let_def image_iff map_of_eq_Some_iff)

text \<open>C3: A device comes to the attention of the user only on evidence against that very device, whatever restarts,
resets and answers lie between. An evaluation reports an entry as admitted exactly when it raises a record of the
ledger to that entry. For every record it raises, provided that the clock of the events never steps back: every
proof of life of the endpoint is at least a day old; at least three failures of it were reported, each 8 hours or
more after the one before, none before the last proof, the first and the last at least a day apart; and in the last
half hour, but after the first of these failures, another endpoint of the same controller and fabric was proven alive.\<close>

theorem attention_needs_evidence:
  assumes clock: "sorted (List.map_filter event_time evs @ [now])"
  shows "(\<forall>entry. (entry, Admitted) \<in> set (hu_transitions (fst (evaluate ids now (health_run sha evs)))) \<longleftrightarrow>
            (\<exists>key r. raised ids now (health_run sha evs) key r (Some entry))) \<and>
     (\<forall>key r entry. raised ids now (health_run sha evs) key r entry \<longrightarrow> entry \<noteq> None \<and> attention_evidence sha evs now key r)"
proof -
  have d: "distinct (map fst (hl_records (health_run sha evs)))" by (rule bt_ok_distinct[OF run_bt_ok])
  show ?thesis using admitted_iff_raised[OF d] admissible_evidence[OF clock] unfolding raised_iff[OF d] by blast
qed

theorem attention_needs_evidence_witness:
  "\<exists>key r. raised demo_ids 90060 demo_health key r (Some ''unreachable-01'') \<and> attention_evidence demo_sha demo_health_trace 90060 key r"
proof -
  have a: "(''unreachable-01'', Admitted) \<in> set (hu_transitions (fst (evaluate demo_ids 90060 (health_run demo_sha demo_health_trace))))"
    by code_simp
  have "sorted (List.map_filter event_time demo_health_trace @ [90060])" by code_simp
  note attention_needs_evidence[OF this, of demo_ids demo_sha]
  with a show ?thesis unfolding demo_health_def by blast
qed


section \<open>The invariant\<close>

definition health_record_ok :: "string \<Rightarrow> health_record \<Rightarrow> bool" where
  "health_record_ok key r \<longleftrightarrow>
     key = health_key (h_hub_key r) (h_native_id r) \<and> h_canonical_id r \<noteq> [] \<and> h_native_id r \<noteq> [] \<and>
     h_failure_count r \<le> 10000 \<and> (h_first_failure r = None \<longleftrightarrow> h_failure_count r = 0) \<and>
     (h_last_failure r = None \<longleftrightarrow> h_failure_count r = 0) \<and> (h_classes r = {} \<longleftrightarrow> h_failure_count r = 0) \<and>
     (is_attention (h_status r) \<longrightarrow> h_entry_id r \<noteq> None \<and> h_correlation r \<noteq> None \<and> h_created_at r \<noteq> None) \<and>
     (h_snoozed_until r \<noteq> None \<longleftrightarrow> h_status r = HealthSnoozed) \<and>
     (h_resolved_at r \<noteq> None \<longleftrightarrow> h_status r = Recovered \<or> h_status r = HealthRemoved)"

lemma health_record_ok_new: "c \<noteq> [] \<Longrightarrow> n \<noteq> [] \<Longrightarrow> health_record_ok (health_key k n) (new_health_record sha c k n f s t)"
  by (simp add: health_record_ok_def new_health_record_def)

lemma health_record_ok_proven: "health_record_ok key r \<Longrightarrow> health_record_ok key (proven s t r)"
  by (cases "h_status r") (auto simp: health_record_ok_def proven_def reset_failure_window_def Let_def)

lemma health_record_ok_reopened: "health_record_ok key r \<Longrightarrow> health_record_ok key (reopened (r\<lparr>h_stream := s\<rparr>))"
  by (cases "h_status r") (auto simp: health_record_ok_def reopened_def reset_failure_window_def)

lemma health_record_ok_counted: "health_record_ok key r \<Longrightarrow> health_record_ok key (counted_failure cl t r)"
proof -
  assume r: "health_record_ok key r"
  have "min (sat_add (h_failure_count r) 1) 10000 \<noteq> 0" by (simp add: min_def)
  then show ?thesis using r by (auto simp: health_record_ok_def counted_failure_def get_or_def)
qed

lemma health_record_ok_normalize: "health_record_ok key r \<Longrightarrow> health_record_ok key (normalize_record ids key r)"
  by (cases "h_failure_count r = 0"; cases "is_attention (h_status r)")
    (simp_all add: health_record_ok_def normalize_record_def reset_failure_window_def Let_def get_or_def)

lemma health_record_ok_admit:
  "health_record_ok key r \<Longrightarrow> h_status r = Monitoring \<or> h_status r = HealthSnoozed \<Longrightarrow> health_record_ok key (admit_record ids t key r)"
  by (cases "h_status r") (simp_all add: health_record_ok_def admit_record_def get_or_def)

lemma health_record_ok_removed: "health_record_ok key r \<Longrightarrow> health_record_ok key (removed_record t r)"
  by (auto simp: health_record_ok_def removed_record_def)

lemma health_record_ok_answered:
  "health_record_ok key r \<Longrightarrow> is_attention (h_status r) \<Longrightarrow> health_record_ok key (r\<lparr>h_status := HealthSnoozed, h_snoozed_until := Some t\<rparr>)"
  "health_record_ok key r \<Longrightarrow> is_attention (h_status r) \<Longrightarrow> health_record_ok key (r\<lparr>h_status := AwaitingRecovery, h_snoozed_until := None\<rparr>)"
  by (cases "h_status r"; simp add: health_record_ok_def)+


lemma health_record_ok_failed:
  assumes ok: "record_at l (health_key k n) = Some r0 \<Longrightarrow> health_record_ok (health_key k n) r0"
    and same: "\<And>r. record_at l key = Some r \<Longrightarrow> health_record_ok key r"
    and r': "record_at (snd (note_failure sha c k n f s cl t l)) key = Some r'"
  shows "health_record_ok key r'"
proof (cases "record_at l (health_key k n)")
  case None
  then show ?thesis using same r' by (simp add: note_failure_def)
next
  case (Some r)
  show ?thesis
  proof (cases "key = health_key k n")
    case True
    then have "health_record_ok key r" using same Some by simp
    then show ?thesis
      using r' health_record_ok_reopened health_record_ok_counted unfolding note_failure_def Some option.case Let_def
      by (auto simp: True Some hm_get_modify split: if_splits)
  next
    case False
    then show ?thesis using same r' unfolding note_failure_def Some option.case Let_def by (auto simp: hm_get_modify split: if_splits)
  qed
qed

lemma step_record_ok:
  assumes bt: "bt_ok (hl_records l)" and ok: "\<And>key r. record_at l key = Some r \<Longrightarrow> health_record_ok key r"
    and r': "record_at (snd (health_step sha e l)) key = Some r'"
  shows "health_record_ok key r'"
proof (cases e)
  case (HProof c k n f s t)
  show ?thesis
  proof (cases rule: step_record[OF bt r'])
    case (1 r)
    then have "record_at (snd (note_proof sha c k n f s t l)) key = record_at l key"
      by (cases "proof_at (health_key k n) e") (auto simp: HProof proof_ignored record_at_proof[OF bt] split: if_splits)
    then show ?thesis using r' ok HProof by simp
  next
    case (2 c k n f s t r)
    then have "health_record_ok key r" using ok health_record_ok_new[of c n k sha f s t] by (auto split: if_splits)
    then show ?thesis unfolding 2(4) by (rule health_record_ok_proven)
  qed (simp add: HProof)
next
  case (HFailure c k n f s cl t)
  then show ?thesis using health_record_ok_failed[OF ok ok] r' by auto
next
  case (HEvaluate ids t)
  then show ?thesis using r' ok by (auto simp: record_at_evaluated admissible_def health_record_ok_admit split: if_splits)
next
  case (HReconcile ids active t)
  then show ?thesis using r' ok
    by (auto simp: record_at_reconciled[OF bt] health_record_ok_removed dest!: opt_filter_SomeD split: if_splits)
next
  case (HSnooze entry t)
  then show ?thesis using r' ok record_at_reviewed[OF bt, of _ entry key r'] health_record_ok_answered(1)
    by (fastforce simp: snooze_def)
next
  case (HAwait entry)
  then show ?thesis using r' ok record_at_reviewed[OF bt, of _ entry key r'] health_record_ok_answered(2)
    by (fastforce simp: await_recovery_def)
next
  case (HReload ids)
  then show ?thesis using r' ok record_at_normalized[OF bt, of ids key r'] health_record_ok_normalize by auto
qed (use r' ok in \<open>auto\<close>)

lemma run_record_ok: "record_at (health_run sha evs) key = Some r \<Longrightarrow> health_record_ok key r"
proof (induction evs arbitrary: key r rule: rev_induct)
  case Nil
  then show ?case by (simp add: default_with_schema_def)
next
  case (snoc e evs)
  then show ?case using step_record_ok[OF run_bt_ok snoc.IH] by simp
qed

text \<open>C35: Whatever the events and restarts, the records stay ordered by key and each is filed under the key of its endpoint;
its failures are counted up to 10000, and the first, the last and the classes are known exactly when the count is not
zero; a record that needs attention has an entry, a correlation and a date; exactly the snoozed have an end of
the snooze and exactly the resolved a date of resolution.\<close>

theorem health_invariant:
  "bt_ok (hl_records (health_run sha evs)) \<and>
   list_all (\<lambda>(key, r). health_record_ok key r) (hl_records (health_run sha evs))"
  using run_bt_ok run_record_ok bt_ok_distinct[OF run_bt_ok] by (fastforce simp: list_all_iff)

section \<open>How an entry is resolved\<close>

lemma run_schema: "hl_schema (health_run sha evs) = DEVICE_HEALTH_SCHEMA_VERSION"
proof (induction evs rule: rev_induct)
  case (snoc e evs)
  have "hl_schema (snd (health_step sha e l)) = DEVICE_HEALTH_SCHEMA_VERSION" if "hl_schema l = DEVICE_HEALTH_SCHEMA_VERSION" for l
    using that
    by (cases e) (auto simp: note_proof_def note_failure_def note_controller_connected_def note_controller_disconnected_def
      note_controller_stream_reset_def modify_controller_def evaluate_def reconcile_active_def snooze_def await_recovery_def
      review_entry_def normalized_def default_with_schema_def Let_def split: option.split)
  then show ?case using snoc by simp
qed (simp add: default_with_schema_def)

lemma reviewed_attention:
  assumes bt: "bt_ok (hl_records l)" and r: "record_at l key = Some r" and a: "is_attention (h_status r)"
    and f: "\<And>r. is_attention (h_status (f r)) \<and> h_entry_id (f r) = h_entry_id r \<and> h_correlation (f r) = h_correlation r"
  shows "\<exists>r'. record_at (snd (review_entry f entry l)) key = Some r' \<and> is_attention (h_status r') \<and>
     h_entry_id r' = h_entry_id r \<and> h_correlation r' = h_correlation r"
proof (cases "find_entry entry l")
  case None
  then show ?thesis using r a by (simp add: review_entry_def)
next
  case (Some kr)
  then show ?thesis using r a f by (cases kr) (auto simp: review_entry_def hm_get_modify)
qed

lemma failed_attention:
  assumes r: "record_at l key = Some r" and a: "is_attention (h_status r)"
  shows "\<exists>r'. record_at (snd (note_failure sha c k n f s cl t l)) key = Some r' \<and> is_attention (h_status r') \<and>
     h_entry_id r' = h_entry_id r \<and> h_correlation r' = h_correlation r"
proof (cases "record_at l (health_key k n)")
  case None
  then show ?thesis using r a by (simp add: note_failure_def)
next
  case (Some r0)
  have re: "reopened (r\<lparr>h_stream := x\<rparr>) = r\<lparr>h_stream := x\<rparr>" for x using a by (cases "h_status r") (simp_all add: reopened_def)
  show ?thesis
  proof (cases "key = health_key k n")
    case True
    then have "r0 = r" using r Some by simp
    then show ?thesis using r a unfolding note_failure_def Some option.case Let_def
      by (auto simp: True hm_get_modify re counted_failure_def)
  next
    case False
    then show ?thesis using r a unfolding note_failure_def Some option.case Let_def by (auto simp: hm_get_modify)
  qed
qed

lemma proof_attention:
  assumes bt: "bt_ok (hl_records l)" and r: "record_at l key = Some r" and a: "is_attention (h_status r)" and i: "h_entry_id r = Some i"
  shows "record_at (snd (note_proof sha c k n f s t l)) key = Some r \<or>
    key = health_key k n \<and> same_identity sha c f r \<and> hu_transitions (fst (note_proof sha c k n f s t l)) = [(i, TransRecovered)] \<and>
      (\<exists>r'. record_at (snd (note_proof sha c k n f s t l)) key = Some r' \<and> h_status r' = Recovered) \<or>
    key = health_key k n \<and> \<not> same_identity sha c f r"
proof (cases "proof_at (health_key k n) (HProof c k n f s t)")
  case None
  then show ?thesis using r by (simp add: proof_ignored)
next
  case (Some t')
  then have p: "proof_at (health_key k n) (HProof c k n f s t) = Some t" by (auto split: if_splits)
  then have valid: "c \<noteq> []" "n \<noteq> []" "f \<noteq> []" "t \<noteq> 0" by (auto split: if_splits)
  show ?thesis
  proof (cases "key = health_key k n \<and> same_identity sha c f r")
    case True
    then have "h_status (proven (stream_fingerprint sha s) t r) = Recovered" using a by (simp add: proven_def Let_def)
    moreover have "hu_transitions (fst (note_proof sha c k n f s t l)) = [(i, TransRecovered)]"
      using True r a i valid by (simp add: note_proof_def Let_def split: option.split)
    ultimately show ?thesis using True r by (auto simp: record_at_proof[OF bt p])
  next
    case False
    then show ?thesis using r by (cases "key = health_key k n") (auto simp: record_at_proof[OF bt p])
  qed
qed

lemma reload_keeps:
  assumes bt: "bt_ok (hl_records l)" and r: "record_at l key = Some r" and load: "loadable r"
    and schema: "hl_schema l = DEVICE_HEALTH_SCHEMA_VERSION" and few: "length (hl_records l) \<le> MAX_DEVICE_HEALTH_RECORDS"
  shows "record_at (normalized ids l) key = Some (normalize_record ids key r)"
proof -
  let ?m = "map (\<lambda>(k, r). (k, normalize_record ids k r)) (filter (\<lambda>(_, r). loadable r) (hl_records l))"
  have "length ?m \<le> MAX_DEVICE_HEALTH_RECORDS"
    unfolding length_map using few length_filter_le[of "\<lambda>(_, r). loadable r" "hl_records l"] by linarith
  then have "evict_records ?m = ?m" using evict_records_sub[of ?m] by blast
  then show ?thesis
    using r load schema bt_ok_distinct[OF bt] by (simp add: normalized_def Let_def map_of_keyed_map map_of_filter_values)
qed

text \<open>C34: An entry for the attention of the user stays, with its identifiers, until one of these: the exact endpoint is
proven alive on the same fabric, and the recovery of the entry is reported; the topology no longer has the endpoint,
and its removal is reported; the endpoint is proven alive as another device or on another fabric; or a restart
evicts it for want of room or finds its fabric empty.\<close>

theorem attention_resolution:
  assumes run: "l = health_run sha evs" and r: "record_at l key = Some r" and a: "is_attention (h_status r)"
    and step: "health_step sha e l = (u, l')"
  shows "(\<exists>r'. record_at l' key = Some r' \<and> is_attention (h_status r') \<and> h_entry_id r' = h_entry_id r \<and> h_correlation r' = h_correlation r) \<or>
     (\<exists>c k n f s t r'. e = HProof c k n f s t \<and> key = health_key k n \<and> c = h_canonical_id r \<and> fabric_fingerprint sha f = h_fabric r \<and>
        hu_transitions u = [(the (h_entry_id r), TransRecovered)] \<and> record_at l' key = Some r' \<and> h_status r' = Recovered) \<or>
     (\<exists>ids active t. e = HReconcile ids active t \<and> \<not> list_ex (identity_matches r) active \<and>
        (the (h_entry_id r), TransRemoved) \<in> set (hu_transitions u)) \<or>
     (\<exists>c k n f s t. e = HProof c k n f s t \<and> key = health_key k n \<and> \<not> same_identity sha c f r) \<or>
     (\<exists>ids. e = HReload ids \<and> (MAX_DEVICE_HEALTH_RECORDS < length (hl_records l) \<or> h_fabric r = []))"
proof -
  have bt: "bt_ok (hl_records l)" and ok: "health_record_ok key r" and pos: "0 < h_last_proof r"
    using run r run_bt_ok run_record_ok run_backed by (auto simp: backed_def)
  obtain i j where entry: "h_entry_id r = Some i" "h_correlation r = Some j" using ok a by (auto simp: health_record_ok_def)
  have l': "l' = snd (health_step sha e l)" and u: "u = fst (health_step sha e l)" using step by simp_all
  show ?thesis
  proof (cases e)
    case (HProof c k n f s t)
    then show ?thesis using proof_attention[OF bt r a entry(1), of sha c k n f s t] a entry by (auto simp: l' u same_identity_def)
  next
    case (HFailure c k n f s cl t)
    then show ?thesis using failed_attention[OF r a] by (simp add: l')
  next
    case (HEvaluate ids t)
    then show ?thesis using r a entry by (auto simp: l' record_at_evaluated admit_record_def get_or_def)
  next
    case (HReconcile ids active t)
    have "(key, r) \<in> set (hl_records l)" using r by (rule map_of_SomeD)
    then have "gone active r \<Longrightarrow> (the (h_entry_id r), TransRemoved) \<in> set (hu_transitions u)"
      using a entry(1) by (force simp: u HReconcile reconcile_active_def Let_def image_iff)
    moreover have "retained t r" using a by (cases "h_status r") (simp_all add: retained_def)
    ultimately show ?thesis
      using r a by (cases "gone active r") (auto simp: l' HReconcile record_at_reconciled[OF bt] gone_def)
  next
    case (HSnooze entry t)
    then show ?thesis using reviewed_attention[OF bt r a] by (simp add: l' snooze_def)
  next
    case (HAwait entry)
    then show ?thesis using reviewed_attention[OF bt r a] by (simp add: l' await_recovery_def)
  next
    case (HReload ids)
    have "h_fabric r \<noteq> [] \<Longrightarrow> loadable r" using ok pos by (simp add: loadable_def health_record_ok_def)
    then show ?thesis
      using reload_keeps[OF bt r, of ids] run_schema[of sha evs] a entry
      by (cases "length (hl_records l) \<le> MAX_DEVICE_HEALTH_RECORDS \<and> h_fabric r \<noteq> []")
        (auto simp: l' HReload run normalize_record_def Let_def reset_failure_window_def get_or_def)
  qed (use r a in \<open>simp_all add: l'\<close>)
qed

definition demo_attention :: health_ledger where
  "demo_attention = health_run demo_sha (demo_health_trace @ [HEvaluate demo_ids 90060])"

definition demo_attention_record :: health_record where
  "demo_attention_record =
     \<lparr>h_canonical_id = ''c1'', h_hub_key = health_hub, h_native_id = ''n1'', h_fabric = ''66'', h_stream = None,
      h_last_proof = 10, h_first_failure = Some 1000, h_last_failure = Some 90000, h_failure_count = 3,
      h_classes = {ReadFailure, CommandFailure}, h_status = HealthPending, h_entry_id = Some ''unreachable-01'',
      h_correlation = Some ''unreachable-device-02'', h_created_at = Some 90060, h_snoozed_until = None, h_resolved_at = None\<rparr>"

lemma demo_attention_at: "record_at demo_attention ''matter@local|n1'' = Some demo_attention_record"
  by code_simp

theorem attention_resolution_witness:
  "\<exists>r'. record_at (snd (health_step demo_sha (HSnooze ''unreachable-01'' 90061) demo_attention)) ''matter@local|n1'' = Some r' \<and>
     is_attention (h_status r') \<and> h_correlation r' = Some ''unreachable-device-02''"
proof -
  have a: "is_attention (h_status demo_attention_record)" by code_simp
  have "\<exists>r'. record_at (snd (health_step demo_sha (HSnooze ''unreachable-01'' 90061) demo_attention)) ''matter@local|n1'' = Some r' \<and>
      is_attention (h_status r') \<and> h_correlation r' = h_correlation demo_attention_record"
    using attention_resolution[where sha = demo_sha and e = "HSnooze ''unreachable-01'' 90061",
      OF demo_attention_def demo_attention_at a prod.collapse[symmetric]] by auto
  then show ?thesis by (simp add: demo_attention_record_def)
qed

text \<open>A proof of life of the endpoint as another canonical device, or on another fabric, drops the entry of the endpoint
that waits for the user: it is not reported as recovered or removed, and its entry is no longer actionable.\<close>

theorem identity_change_drops_entry:
  assumes "bt_ok (hl_records l)" and "record_at l (health_key k n) = Some r" and "\<not> same_identity sha c f r"
    and "c \<noteq> []" and "n \<noteq> []" and "f \<noteq> []" and "t \<noteq> 0"
  shows "hu_transitions (fst (note_proof sha c k n f s t l)) = [] \<and>
     (\<exists>r'. record_at (snd (note_proof sha c k n f s t l)) (health_key k n) = Some r' \<and> h_status r' = Monitoring \<and> h_entry_id r' = None)"
proof
  show "hu_transitions (fst (note_proof sha c k n f s t l)) = []"
    using assms by (simp add: note_proof_def Let_def new_health_record_def)
  have p: "proof_at (health_key k n) (HProof c k n f s t) = Some t" using assms by simp
  show "\<exists>r'. record_at (snd (note_proof sha c k n f s t l)) (health_key k n) = Some r' \<and> h_status r' = Monitoring \<and> h_entry_id r' = None"
    using assms by (simp add: record_at_proof[OF assms(1) p] new_health_record_def proven_def Let_def reset_failure_window_def)
qed

theorem identity_change_drops_entry_witness:
  "is_actionable ''unreachable-01'' demo_attention \<and>
   hu_transitions (fst (note_proof demo_sha ''c9'' health_hub ''n1'' ''f'' None 90061 demo_attention)) = []"
proof
  show "is_actionable ''unreachable-01'' demo_attention" by code_simp
  have "bt_ok (hl_records demo_attention)" unfolding demo_attention_def by (rule run_bt_ok)
  moreover have "record_at demo_attention (health_key health_hub ''n1'') = Some demo_attention_record" by code_simp
  moreover have "\<not> same_identity demo_sha ''c9'' ''f'' demo_attention_record" by code_simp
  ultimately show "hu_transitions (fst (note_proof demo_sha ''c9'' health_hub ''n1'' ''f'' None 90061 demo_attention)) = []"
    using identity_change_drops_entry[of demo_attention health_hub "''n1''" demo_attention_record demo_sha "''c9''" "''f''" 90061 None] by simp
qed

end
