(* ===== verification/LightUsage.thy ===== *)
theory LightUsage
  imports RustStr "HOL-Library.Product_Lexorder"
begin

text \<open>
  The ledger of observed light usage (\<open>rhythm-os/src/light_usage.rs\<close>): intervals between observations of a
  subject are credited to a segment for each day, evicted when there are too many or they are too old, saved at
  checkpoints and uploaded in batches.

  Wall-clock times and counters are \<open>u64\<close> milliseconds; an \<open>Instant\<close> and a \<open>Duration\<close> are an \<open>int\<close> of
  nanoseconds. \<open>ue_bytes\<close> is the length of the ledger written as JSON, \<open>ue_date\<close>, \<open>ue_midnight\<close> and
  \<open>ue_valid_date\<close> are the calendar of chrono. The identifier that the loop over \<open>random_opaque_id\<close> ends with is
  the argument \<open>nid\<close>.
\<close>

section \<open>State\<close>

type_synonym instant = int

definition LIGHT_USAGE_SCHEMA_VERSION :: u8 where "LIGHT_USAGE_SCHEMA_VERSION = 1"
definition LIGHT_USAGE_LEDGER_BYTES_LIMIT :: u64 where "LIGHT_USAGE_LEDGER_BYTES_LIMIT = 2097152"
definition LIGHT_USAGE_CLOUD_BATCH_LIMIT :: nat where "LIGHT_USAGE_CLOUD_BATCH_LIMIT = 512"
definition LIGHT_USAGE_SEGMENT_LIMIT :: nat where "LIGHT_USAGE_SEGMENT_LIMIT = 1024"
definition LIGHT_USAGE_RETENTION_MS :: u64 where "LIGHT_USAGE_RETENTION_MS = 3024000000"
definition LIGHT_USAGE_CHECKPOINT_INTERVAL :: int where "LIGHT_USAGE_CHECKPOINT_INTERVAL = 900000000000"
definition LIGHT_USAGE_CLOUD_INTERVAL :: int where "LIGHT_USAGE_CLOUD_INTERVAL = 21600000000000"
definition LIGHT_USAGE_CLOCK_TOLERANCE_MS :: u64 where "LIGHT_USAGE_CLOCK_TOLERANCE_MS = 1200000"

definition duration_since :: "instant \<Rightarrow> instant \<Rightarrow> int" where
  "duration_since later earlier = max 0 (later - earlier)"

definition as_millis :: "int \<Rightarrow> u64" where
  "as_millis d = of_int (min (d div 1000000) 18446744073709551615)"

datatype subject_kind = Bulb | RoomAggregate

datatype observation_source = Periodic | SyncPoll | LiveSubscription | AuthoritativeRefresh

definition is_live :: "observation_source \<Rightarrow> bool" where
  "is_live s \<longleftrightarrow> s = LiveSubscription"

record source_summary =
  so_periodic :: u64
  so_sync_poll :: u64
  so_live :: u64
  so_refresh :: u64

definition source_default :: source_summary where
  "source_default = \<lparr>so_periodic = 0, so_sync_poll = 0, so_live = 0, so_refresh = 0\<rparr>"

fun record_source :: "observation_source \<Rightarrow> source_summary \<Rightarrow> source_summary" where
  "record_source Periodic s = s\<lparr>so_periodic := sat_add (so_periodic s) 1\<rparr>"
| "record_source SyncPoll s = s\<lparr>so_sync_poll := sat_add (so_sync_poll s) 1\<rparr>"
| "record_source LiveSubscription s = s\<lparr>so_live := sat_add (so_live s) 1\<rparr>"
| "record_source AuthoritativeRefresh s = s\<lparr>so_refresh := sat_add (so_refresh s) 1\<rparr>"

record usage_segment =
  us_id :: string
  us_subject :: string
  us_kind :: subject_kind
  us_date :: string
  us_revision :: u64
  us_synced :: u64
  us_on :: u64
  us_covered :: u64
  us_uncertainty :: u64
  us_observations :: u64
  us_transitions :: u64
  us_first :: u64
  us_last :: u64
  us_sources :: source_summary

definition normalize_segment :: "usage_segment \<Rightarrow> usage_segment" where
  "normalize_segment s =
     (let rev = max (us_revision s) 1
      in s\<lparr>us_revision := rev, us_synced := min (us_synced s) rev, us_on := min (us_on s) (us_covered s),
           us_uncertainty := min (us_uncertainty s) (us_covered s),
           us_last := (if us_last s < us_first s then us_first s else us_last s)\<rparr>)"

definition segment_dirty :: "usage_segment \<Rightarrow> bool" where
  "segment_dirty s \<longleftrightarrow> us_synced s < us_revision s"

record usage_baseline =
  ub_on :: bool
  ub_epoch :: u64
  ub_instant :: instant
  ub_segment :: string

record usage_ledger =
  ul_schema :: u8
  ul_segments :: "(string, usage_segment) hmap"
  ul_order :: "string list"
  ul_dropped :: u64
  ul_discontinuities :: u64
  ul_excluded :: u64
  ul_last_checkpoint :: "u64 option"
  ul_last_attempt :: "u64 option"
  ul_last_ack :: "u64 option"
  ul_cloud_status :: "string option"
  ul_pending :: "string option"
  ul_baselines :: "(string, usage_baseline) hmap"
  ul_dirty :: bool
  ul_generation :: u64
  ul_checkpointing :: bool
  ul_checkpoint_anchor :: "instant option"
  ul_force_checkpoint :: bool
  ul_uploading :: bool
  ul_cloud_anchor :: "instant option"
  ul_force_cloud :: bool

definition ledger_default :: usage_ledger where
  "ledger_default = \<lparr>ul_schema = LIGHT_USAGE_SCHEMA_VERSION, ul_segments = [], ul_order = [], ul_dropped = 0,
     ul_discontinuities = 0, ul_excluded = 0, ul_last_checkpoint = None, ul_last_attempt = None, ul_last_ack = None,
     ul_cloud_status = None, ul_pending = None, ul_baselines = [], ul_dirty = False, ul_generation = 0,
     ul_checkpointing = False, ul_checkpoint_anchor = None, ul_force_checkpoint = False, ul_uploading = False,
     ul_cloud_anchor = None, ul_force_cloud = False\<rparr>"

record usage_env =
  ue_bytes :: "usage_ledger \<Rightarrow> u64"
  ue_date :: "u64 \<Rightarrow> string"
  ue_midnight :: "u64 \<Rightarrow> u64 option"
  ue_valid_date :: "string \<Rightarrow> bool"

abbreviation segment_at :: "usage_ledger \<Rightarrow> string \<Rightarrow> usage_segment option" where
  "segment_at l \<equiv> map_of (ul_segments l)"

abbreviation baseline_at :: "usage_ledger \<Rightarrow> string \<Rightarrow> usage_baseline option" where
  "baseline_at l \<equiv> map_of (ul_baselines l)"

definition any_dirty :: "usage_ledger \<Rightarrow> bool" where
  "any_dirty l \<longleftrightarrow> list_ex (\<lambda>(_, s). segment_dirty s) (ul_segments l)"

definition active_ids :: "usage_ledger \<Rightarrow> string set" where
  "active_ids l = set (map (\<lambda>(_, b). ub_segment b) (ul_baselines l))"

section \<open>Validation\<close>

definition subject_char :: "char \<Rightarrow> bool" where
  "subject_char c \<longleftrightarrow> is_ascii_alphanumeric c \<or> c \<in> {CHR ''-'', CHR ''_'', CHR ''.'', CHR '':''}"

definition valid_subject_id :: "string \<Rightarrow> bool" where
  "valid_subject_id v \<longleftrightarrow> v \<noteq> [] \<and> length v \<le> 160 \<and> list_all subject_char v"

definition valid_opaque_id :: "string \<Rightarrow> bool" where
  "valid_opaque_id v \<longleftrightarrow> length v = 32 \<and> list_all (\<lambda>c. c \<in> set ''0123456789abcdef'') v"

definition proportional :: "u64 \<Rightarrow> u64 \<Rightarrow> u64 \<Rightarrow> u64" where
  "proportional v n d =
     (if v = 0 \<or> n = 0 \<or> d = 0 then 0
      else ucast (min ((ucast v :: u128) * ucast n div ucast d) (ucast (- 1 :: u64))))"

section \<open>Segments\<close>

definition mark_dirty :: "instant \<Rightarrow> usage_ledger \<Rightarrow> usage_ledger" where
  "mark_dirty now l = l\<lparr>ul_dirty := True, ul_generation := sat_add (ul_generation l) 1,
     ul_checkpoint_anchor := get_or now (ul_checkpoint_anchor l), ul_cloud_anchor := get_or now (ul_cloud_anchor l)\<rparr>"

definition drop_segment :: "string \<Rightarrow> usage_ledger \<Rightarrow> usage_ledger" where
  "drop_segment i l = l\<lparr>ul_segments := AList.delete i (ul_segments l), ul_dropped := sat_add (ul_dropped l) 1\<rparr>"

definition evict_first :: "(string \<Rightarrow> bool) \<Rightarrow> usage_ledger \<Rightarrow> usage_ledger option" where
  "evict_first P l = map_option (\<lambda>i. drop_segment i (l\<lparr>ul_order := remove1 i (ul_order l)\<rparr>)) (find P (ul_order l))"

fun prune_scan :: "nat \<Rightarrow> u64 \<Rightarrow> usage_ledger \<Rightarrow> usage_ledger" where
  "prune_scan 0 floor' l = l"
| "prune_scan (Suc n) floor' l =
     (case ul_order l of
        [] \<Rightarrow> l
      | i # rest \<Rightarrow>
          let aged = (case segment_at l i of None \<Rightarrow> False | Some s \<Rightarrow> us_last s < floor');
              capped = (LIGHT_USAGE_SEGMENT_LIMIT < length (ul_segments l));
              l' = (if (aged \<or> capped) \<and> i \<notin> active_ids l then drop_segment i (l\<lparr>ul_order := rest\<rparr>)
                    else l\<lparr>ul_order := rest @ [i]\<rparr>)
          in if length (ul_segments l') \<le> LIGHT_USAGE_SEGMENT_LIMIT \<and>
                (case ul_order l' of [] \<Rightarrow> True
                 | j # _ \<Rightarrow> (case segment_at l' j of None \<Rightarrow> True | Some s \<Rightarrow> floor' \<le> us_last s))
             then l' else prune_scan n floor' l')"

definition prune_closed_segments :: "u64 \<Rightarrow> usage_ledger \<Rightarrow> usage_ledger" where
  "prune_closed_segments now l = prune_scan (length (ul_order l)) (sat_sub now LIGHT_USAGE_RETENTION_MS) l"

lemma find_length_remove1: "find P xs = Some i \<Longrightarrow> length (remove1 i xs) < length xs"
  by (auto simp: find_Some_iff length_remove1)

function enforce_serialized_byte_limit :: "usage_env \<Rightarrow> string option \<Rightarrow> usage_ledger \<Rightarrow> bool \<times> usage_ledger" where
  "enforce_serialized_byte_limit env protected l =
     (if ue_bytes env l \<le> LIGHT_USAGE_LEDGER_BYTES_LIMIT then (True, l)
      else case evict_first (\<lambda>i. i \<notin> active_ids l \<and> protected \<noteq> Some i) l of
        None \<Rightarrow> (False, l)
      | Some l' \<Rightarrow> enforce_serialized_byte_limit env protected l')"
  by pat_completeness auto

termination enforce_serialized_byte_limit
  by (relation "measure (\<lambda>(_, _, l). length (ul_order l))")
    (auto simp: evict_first_def drop_segment_def find_length_remove1)

declare enforce_serialized_byte_limit.simps [simp del]

definition fresh_segment ::
    "string \<Rightarrow> string \<Rightarrow> subject_kind \<Rightarrow> string \<Rightarrow> observation_source \<Rightarrow> u64 \<Rightarrow> bool \<Rightarrow> usage_segment" where
  "fresh_segment nid subject kind date source epoch counted =
     \<lparr>us_id = nid, us_subject = subject, us_kind = kind, us_date = date, us_revision = 1, us_synced = 0, us_on = 0,
      us_covered = 0, us_uncertainty = 0, us_observations = (if counted then 1 else 0), us_transitions = 0,
      us_first = epoch, us_last = epoch, us_sources = (if counted then record_source source source_default else source_default)\<rparr>"

definition new_segment ::
    "usage_env \<Rightarrow> string \<Rightarrow> string \<Rightarrow> subject_kind \<Rightarrow> string \<Rightarrow> observation_source \<Rightarrow> u64 \<Rightarrow> bool \<Rightarrow> usage_ledger \<Rightarrow>
     string option \<times> usage_ledger" where
  "new_segment env nid subject kind date source epoch counted l =
     (let l1 = prune_closed_segments epoch l;
          l2 = (if LIGHT_USAGE_SEGMENT_LIMIT \<le> length (ul_segments l1)
                then unwrap_or (evict_first (\<lambda>i. i \<notin> active_ids l1) l1) l1 else l1)
      in if LIGHT_USAGE_SEGMENT_LIMIT \<le> length (ul_segments l2)
         then (None, l2\<lparr>ul_dropped := sat_add (ul_dropped l2) 1\<rparr>)
         else
           let l3 = l2\<lparr>ul_segments := AList.update nid (fresh_segment nid subject kind date source epoch counted) (ul_segments l2),
                       ul_order := ul_order l2 @ [nid]\<rparr>
           in case enforce_serialized_byte_limit env (Some nid) l3 of
                (True, l4) \<Rightarrow> (Some nid, l4)
              | (False, l4) \<Rightarrow> (None, drop_segment nid (l4\<lparr>ul_order := filter (\<lambda>i. i \<noteq> nid) (ul_order l4)\<rparr>)))"

definition accrued ::
    "u64 \<Rightarrow> u64 \<Rightarrow> u64 \<Rightarrow> bool \<Rightarrow> observation_source \<Rightarrow> u64 \<Rightarrow> bool \<Rightarrow> usage_segment \<Rightarrow> usage_segment" where
  "accrued covered on uncertainty transition source epoch counted s =
     (let c = sat_add (us_covered s) covered
      in s\<lparr>us_covered := c, us_on := min (sat_add (us_on s) on) c,
           us_uncertainty := min (sat_add (us_uncertainty s) uncertainty) c,
           us_transitions := sat_add (us_transitions s) (if transition then 1 else 0),
           us_observations := (if counted then sat_add (us_observations s) 1 else us_observations s),
           us_sources := (if counted then record_source source (us_sources s) else us_sources s),
           us_last := max (us_last s) epoch, us_revision := sat_add (us_revision s) 1\<rparr>)"

definition accrue_segment ::
    "string \<Rightarrow> u64 \<Rightarrow> u64 \<Rightarrow> u64 \<Rightarrow> bool \<Rightarrow> observation_source \<Rightarrow> u64 \<Rightarrow> bool \<Rightarrow> usage_ledger \<Rightarrow> usage_ledger" where
  "accrue_segment i covered on uncertainty transition source epoch counted l =
     l\<lparr>ul_segments := hm_modify i (accrued covered on uncertainty transition source epoch counted) (ul_segments l)\<rparr>"

section \<open>Observations\<close>

definition start_baseline ::
    "usage_env \<Rightarrow> string \<Rightarrow> string \<Rightarrow> subject_kind \<Rightarrow> bool \<Rightarrow> observation_source \<Rightarrow> instant \<Rightarrow> u64 \<Rightarrow> usage_ledger \<Rightarrow> usage_ledger" where
  "start_baseline env nid subject kind on source inst epoch l =
     mark_dirty inst
       (case new_segment env nid subject kind (ue_date env epoch) source epoch True l of
          (None, l1) \<Rightarrow> l1
        | (Some i, l1) \<Rightarrow> l1\<lparr>ul_baselines := AList.update subject
            \<lparr>ub_on = on, ub_epoch = epoch, ub_instant = inst, ub_segment = i\<rparr> (ul_baselines l1)\<rparr>)"

text \<open>What an interval credits: the time with the light on and the part of it that is uncertain.\<close>

definition interval_credit :: "bool \<Rightarrow> bool \<Rightarrow> bool \<Rightarrow> u64 \<Rightarrow> u64 \<times> u64" where
  "interval_credit was_on on live' elapsed =
     (if was_on = on \<or> live' then (if was_on then elapsed else 0, 0)
      else let midpoint = elapsed div 2 in (if was_on then midpoint else sat_sub elapsed midpoint, midpoint))"

text \<open>The part of an interval before midnight: covered, on, uncertain, and whether the light changed there.\<close>

definition split_before :: "bool \<Rightarrow> bool \<Rightarrow> bool \<Rightarrow> u64 \<Rightarrow> u64 \<Rightarrow> u64 \<Rightarrow> u64 \<times> u64 \<times> u64 \<times> bool" where
  "split_before was_on on live' elapsed wall_total before_wall =
     (let (on_ms, uncertainty) = interval_credit was_on on live' elapsed;
          changed = (was_on \<noteq> on);
          before_covered = proportional elapsed before_wall wall_total;
          midpoint = elapsed div 2;
          before_on = (if changed \<and> \<not> live'
                       then (if was_on then min before_covered midpoint else sat_sub before_covered midpoint)
                       else proportional on_ms before_covered (max elapsed 1));
          before_uncertainty = proportional uncertainty before_covered (max elapsed 1)
      in (before_covered, before_on, before_uncertainty,
          changed \<and> proportional wall_total midpoint (max elapsed 1) < before_wall))"

definition wall_discontinuous :: "u64 option \<Rightarrow> u64 \<Rightarrow> bool" where
  "wall_discontinuous delta elapsed =
     (case delta of None \<Rightarrow> True
      | Some w \<Rightarrow> LIGHT_USAGE_CLOCK_TOLERANCE_MS < (if w \<le> elapsed then elapsed - w else w - elapsed))"

definition wall_delta :: "u64 \<Rightarrow> u64 \<Rightarrow> u64 option" where
  "wall_delta now before = (if before \<le> now then Some (now - before) else None)"

definition accrue_interval ::
    "usage_env \<Rightarrow> string \<Rightarrow> string \<Rightarrow> subject_kind \<Rightarrow> bool \<Rightarrow> observation_source \<Rightarrow> instant \<Rightarrow> u64 \<Rightarrow> usage_baseline \<Rightarrow>
     usage_ledger \<Rightarrow> usage_ledger" where
  "accrue_interval env nid subject kind on source inst epoch prev l =
     (let elapsed = as_millis (duration_since inst (ub_instant prev));
          changed = (ub_on prev \<noteq> on);
          (on_ms, uncertainty) = interval_credit (ub_on prev) on (is_live source) elapsed;
          rebase = (\<lambda>i l. l\<lparr>ul_baselines := AList.update subject
            \<lparr>ub_on = on, ub_epoch = epoch, ub_instant = inst, ub_segment = i\<rparr> (ul_baselines l)\<rparr>)
      in if ue_date env (ub_epoch prev) = ue_date env epoch
         then mark_dirty inst (rebase (ub_segment prev)
                (accrue_segment (ub_segment prev) elapsed on_ms uncertainty changed source epoch True l))
         else
           let wall_total = max (unwrap_or (wall_delta epoch (ub_epoch prev)) elapsed) 1;
               boundary = unwrap_or (ue_midnight env (ub_epoch prev)) epoch;
               before_wall = min (sat_sub boundary (ub_epoch prev)) wall_total;
               (before_covered, before_on, before_uncertainty, transition_before) =
                 split_before (ub_on prev) on (is_live source) elapsed wall_total before_wall;
               l1 = accrue_segment (ub_segment prev) before_covered before_on before_uncertainty transition_before source
                 (sat_sub boundary 1) False l
           in (case new_segment env nid subject kind (ue_date env epoch) source epoch False l1 of
                 (None, l2) \<Rightarrow> mark_dirty inst (l2\<lparr>ul_baselines := AList.delete subject (ul_baselines l2)\<rparr>)
               | (Some i, l2) \<Rightarrow>
                   let l3 = accrue_segment i (sat_sub elapsed before_covered) (sat_sub on_ms before_on)
                     (sat_sub uncertainty before_uncertainty) (changed \<and> \<not> transition_before) source epoch True l2
                   in mark_dirty inst (rebase i (l3\<lparr>ul_force_checkpoint := True, ul_force_cloud := True\<rparr>))))"

definition record_observation ::
    "usage_env \<Rightarrow> string \<Rightarrow> string \<Rightarrow> subject_kind \<Rightarrow> bool \<Rightarrow> observation_source \<Rightarrow> instant \<Rightarrow> u64 \<Rightarrow> int \<Rightarrow> usage_ledger \<Rightarrow> usage_ledger" where
  "record_observation env nid subject kind on source inst epoch budget l =
     (if \<not> valid_subject_id subject then l
      else case baseline_at l subject of
        None \<Rightarrow> start_baseline env nid subject kind on source inst epoch l
      | Some prev \<Rightarrow>
          if (case segment_at l (ub_segment prev) of None \<Rightarrow> True | Some s \<Rightarrow> us_kind s \<noteq> kind)
          then start_baseline env nid subject kind on source inst epoch l
          else
            let elapsed = duration_since inst (ub_instant prev);
                torn = wall_discontinuous (wall_delta epoch (ub_epoch prev)) (as_millis elapsed)
            in if budget < elapsed \<or> torn
               then start_baseline env nid subject kind on source inst epoch
                 (if torn then l\<lparr>ul_discontinuities := sat_add (ul_discontinuities l) 1\<rparr> else l)
               else accrue_interval env nid subject kind on source inst epoch prev l)"

definition close_subject :: "string \<Rightarrow> usage_ledger \<Rightarrow> usage_ledger" where
  "close_subject subject l = l\<lparr>ul_baselines := AList.delete subject (ul_baselines l)\<rparr>"

definition record_excluded_source :: "instant \<Rightarrow> usage_ledger \<Rightarrow> usage_ledger" where
  "record_excluded_source now l = mark_dirty now (l\<lparr>ul_excluded := sat_add (ul_excluded l) 1\<rparr>)"

section \<open>Loading and saving\<close>

definition normalize_order :: "usage_ledger \<Rightarrow> string list" where
  "normalize_order l =
     (let seen = rev (remdups (rev (filter (\<lambda>i. i \<in> fst ` set (ul_segments l)) (ul_order l))));
          missing = map (\<lambda>(_, s). (us_first s, us_id s)) (filter (\<lambda>(_, s). us_id s \<notin> set seen) (ul_segments l))
      in seen @ map snd (sort missing))"

definition ledger_normalized :: "usage_env \<Rightarrow> u64 \<Rightarrow> usage_ledger \<Rightarrow> usage_ledger option" where
  "ledger_normalized env now l =
     (if LIGHT_USAGE_SCHEMA_VERSION < ul_schema l then None
      else
        let kept = filter (\<lambda>(i, s). us_id s = i \<and> valid_opaque_id i \<and> valid_subject_id (us_subject s) \<and> ue_valid_date env (us_date s))
              (ul_segments l);
            l1 = l\<lparr>ul_schema := LIGHT_USAGE_SCHEMA_VERSION, ul_segments := hm_map normalize_segment kept\<rparr>;
            dirty = any_dirty l1
        in Some (prune_closed_segments now (l1\<lparr>ul_order := normalize_order l1, ul_baselines := [], ul_dirty := dirty,
             ul_generation := 0, ul_checkpointing := False, ul_checkpoint_anchor := None, ul_force_checkpoint := False,
             ul_uploading := False, ul_cloud_anchor := None, ul_force_cloud := dirty\<rparr>)))"

definition persisted_view :: "u64 \<Rightarrow> usage_ledger \<Rightarrow> usage_ledger" where
  "persisted_view epoch l = l\<lparr>ul_last_checkpoint := Some epoch, ul_baselines := [], ul_dirty := False, ul_generation := 0,
     ul_checkpointing := False, ul_checkpoint_anchor := None, ul_force_checkpoint := False, ul_uploading := False,
     ul_cloud_anchor := None, ul_force_cloud := False\<rparr>"

definition persisted_snapshot :: "usage_env \<Rightarrow> u64 \<Rightarrow> usage_ledger \<Rightarrow> usage_ledger \<times> usage_ledger" where
  "persisted_snapshot env epoch l =
     (let l1 = snd (enforce_serialized_byte_limit env None l) in (persisted_view epoch l1, l1))"

definition begin_checkpoint ::
    "usage_env \<Rightarrow> instant \<Rightarrow> u64 \<Rightarrow> usage_ledger \<Rightarrow> (u64 \<times> usage_ledger) option \<times> usage_ledger" where
  "begin_checkpoint env now epoch l =
     (if ul_checkpointing l \<or> \<not> ul_dirty l then (None, l)
      else
        let anchor = unwrap_or (ul_checkpoint_anchor l) now;
            l1 = l\<lparr>ul_checkpoint_anchor := Some anchor\<rparr>
        in if \<not> ul_force_checkpoint l1 \<and> duration_since now anchor < LIGHT_USAGE_CHECKPOINT_INTERVAL then (None, l1)
           else
             let l2 = l1\<lparr>ul_checkpointing := True, ul_force_checkpoint := False\<rparr>;
                 (snap, l3) = persisted_snapshot env epoch l2
             in (Some (ul_generation l2, snap), l3))"

definition complete_checkpoint :: "u64 \<Rightarrow> bool \<Rightarrow> instant \<Rightarrow> u64 \<Rightarrow> usage_ledger \<Rightarrow> usage_ledger" where
  "complete_checkpoint generation ok now epoch l =
     (let l1 = l\<lparr>ul_checkpointing := False, ul_checkpoint_anchor := Some now\<rparr>
      in if ok then l1\<lparr>ul_last_checkpoint := Some epoch, ul_dirty := (if ul_generation l1 = generation then False else ul_dirty l1)\<rparr>
         else l1)"

text \<open>What is written when the ledger is dropped with a storage configured.\<close>

definition shutdown_flush :: "usage_env \<Rightarrow> u64 \<Rightarrow> usage_ledger \<Rightarrow> usage_ledger option" where
  "shutdown_flush env epoch l = (if ul_dirty l then Some (fst (persisted_snapshot env epoch l)) else None)"

section \<open>Upload\<close>

record upload_segment =
  up_id :: string
  up_subject :: string
  up_kind :: subject_kind
  up_date :: string
  up_revision :: u64
  up_on :: u64
  up_covered :: u64
  up_uncertainty :: u64
  up_observations :: u64
  up_transitions :: u64
  up_first :: u64
  up_last :: u64
  up_sources :: source_summary

definition upload_of :: "usage_segment \<Rightarrow> upload_segment" where
  "upload_of s = \<lparr>up_id = us_id s, up_subject = us_subject s, up_kind = us_kind s, up_date = us_date s,
     up_revision = us_revision s, up_on = us_on s, up_covered = us_covered s, up_uncertainty = us_uncertainty s,
     up_observations = us_observations s, up_transitions = us_transitions s, up_first = us_first s, up_last = us_last s,
     up_sources = us_sources s\<rparr>"

record cloud_batch =
  cb_schema :: u8
  cb_id :: string
  cb_capped :: bool
  cb_segments :: "upload_segment list"

definition force_cloud_upload :: "instant \<Rightarrow> usage_ledger \<Rightarrow> usage_ledger" where
  "force_cloud_upload now l =
     (if any_dirty l then l\<lparr>ul_force_cloud := True, ul_cloud_anchor := get_or now (ul_cloud_anchor l)\<rparr> else l)"

definition mark_cloud_unavailable :: "string \<Rightarrow> instant \<Rightarrow> usage_ledger \<Rightarrow> usage_ledger" where
  "mark_cloud_unavailable status now l = mark_dirty now (l\<lparr>ul_uploading := False, ul_force_cloud := False,
     ul_cloud_status := Some (if status = ''disabled'' then ''disabled'' else ''not_configured'')\<rparr>)"

definition cloud_upload_due :: "instant \<Rightarrow> usage_ledger \<Rightarrow> bool \<times> usage_ledger" where
  "cloud_upload_due now l =
     (if ul_uploading l \<or> \<not> any_dirty l then (False, l)
      else
        let anchor = unwrap_or (ul_cloud_anchor l) now
        in (ul_force_cloud l \<or> LIGHT_USAGE_CLOUD_INTERVAL \<le> duration_since now anchor, l\<lparr>ul_cloud_anchor := Some anchor\<rparr>))"

definition dirty_segments :: "usage_ledger \<Rightarrow> usage_segment list" where
  "dirty_segments l = sort_key (\<lambda>s. (us_date s, us_id s)) (filter segment_dirty (map snd (ul_segments l)))"

definition begin_cloud_upload ::
    "string \<Rightarrow> instant \<Rightarrow> u64 \<Rightarrow> usage_ledger \<Rightarrow> cloud_batch option \<times> usage_ledger" where
  "begin_cloud_upload bid now epoch l =
     (case cloud_upload_due now l of
        (False, l1) \<Rightarrow> (None, l1)
      | (True, l1) \<Rightarrow>
          let batch_id = unwrap_or (ul_pending l1) bid;
              l2 = l1\<lparr>ul_pending := Some batch_id\<rparr>;
              segments = dirty_segments l2
          in if segments = [] then (None, l2)
             else (Some \<lparr>cb_schema = LIGHT_USAGE_SCHEMA_VERSION, cb_id = batch_id,
                     cb_capped = (LIGHT_USAGE_CLOUD_BATCH_LIMIT < length segments),
                     cb_segments = map upload_of (take LIGHT_USAGE_CLOUD_BATCH_LIMIT segments)\<rparr>,
                   mark_dirty now (l2\<lparr>ul_uploading := True, ul_force_cloud := False, ul_last_attempt := Some epoch,
                     ul_cloud_status := Some ''pending''\<rparr>)))"

definition acknowledge :: "upload_segment \<Rightarrow> (string, usage_segment) hmap \<Rightarrow> (string, usage_segment) hmap" where
  "acknowledge u = hm_modify (up_id u) (\<lambda>s. s\<lparr>us_synced := max (us_synced s) (min (up_revision u) (us_revision s))\<rparr>)"

definition complete_cloud_upload :: "cloud_batch \<Rightarrow> bool \<Rightarrow> instant \<Rightarrow> u64 \<Rightarrow> usage_ledger \<Rightarrow> usage_ledger" where
  "complete_cloud_upload batch acked now epoch l =
     (let l1 = l\<lparr>ul_uploading := False, ul_cloud_anchor := Some now\<rparr>
      in mark_dirty now
           (if acked \<and> ul_pending l1 = Some (cb_id batch)
            then
              let l2 = l1\<lparr>ul_segments := fold acknowledge (cb_segments batch) (ul_segments l1)\<rparr>
              in l2\<lparr>ul_last_ack := Some epoch, ul_cloud_status := Some (if cb_capped batch then ''backlog_capped'' else ''ok''),
                    ul_pending := None, ul_force_cloud := any_dirty l2\<rparr>
            else l1\<lparr>ul_cloud_status := Some ''schema_unacknowledged''\<rparr>))"

definition fail_cloud_upload :: "string \<Rightarrow> instant \<Rightarrow> usage_ledger \<Rightarrow> usage_ledger" where
  "fail_cloud_upload status now l = mark_dirty now (l\<lparr>ul_uploading := False, ul_cloud_anchor := Some now,
     ul_cloud_status := Some (if status = ''auth_failed'' then ''auth_failed'' else ''failed'')\<rparr>)"

section \<open>Diagnostics\<close>

definition age_ms :: "u64 \<Rightarrow> u64 option \<Rightarrow> u64 option" where
  "age_ms now t = map_option (sat_sub now) t"

definition subjects_of :: "subject_kind \<Rightarrow> usage_ledger \<Rightarrow> nat" where
  "subjects_of k l = card (set (map us_subject (filter (\<lambda>s. us_kind s = k) (map snd (ul_segments l)))))"

definition sat_total :: "(usage_segment \<Rightarrow> u64) \<Rightarrow> usage_ledger \<Rightarrow> u64" where
  "sat_total f l = fold (\<lambda>s total. sat_add total (f s)) (map snd (ul_segments l)) 0"

record usage_diagnostics =
  ud_schema :: u8
  ud_subjects :: nat
  ud_bulbs :: nat
  ud_rooms :: nat
  ud_open :: nat
  ud_segments :: nat
  ud_dirty :: nat
  ud_acknowledged :: nat
  ud_on :: u64
  ud_covered :: u64
  ud_uncertainty :: u64
  ud_observations :: u64
  ud_dropped :: u64
  ud_discontinuities :: u64
  ud_excluded :: u64
  ud_checkpoint_age :: "u64 option"
  ud_attempt_age :: "u64 option"
  ud_ack_age :: "u64 option"
  ud_cloud_status :: string
  ud_pending :: bool
  ud_oldest :: "string option"

definition diagnostics :: "u64 \<Rightarrow> usage_ledger \<Rightarrow> usage_diagnostics" where
  "diagnostics now l =
     (let dirty = filter segment_dirty (map snd (ul_segments l));
          bulbs = subjects_of Bulb l; rooms = subjects_of RoomAggregate l
      in \<lparr>ud_schema = ul_schema l, ud_subjects = bulbs + rooms, ud_bulbs = bulbs, ud_rooms = rooms,
          ud_open = length (ul_baselines l), ud_segments = length (ul_segments l), ud_dirty = length dirty,
          ud_acknowledged = length (ul_segments l) - length dirty, ud_on = sat_total us_on l, ud_covered = sat_total us_covered l,
          ud_uncertainty = sat_total us_uncertainty l, ud_observations = sat_total us_observations l, ud_dropped = ul_dropped l,
          ud_discontinuities = ul_discontinuities l, ud_excluded = ul_excluded l, ud_checkpoint_age = age_ms now (ul_last_checkpoint l),
          ud_attempt_age = age_ms now (ul_last_attempt l), ud_ack_age = age_ms now (ul_last_ack l),
          ud_cloud_status = unwrap_or (ul_cloud_status l) ''not_configured'', ud_pending = (ul_pending l \<noteq> None),
          ud_oldest = (if dirty = [] then None else Some (Min (set (map us_date dirty))))\<rparr>)"

end
