(* ===== verification/LightUsageInvariant.thy ===== *)
theory LightUsageInvariant
  imports LightUsage "HOL-Library.Multiset"
begin

text \<open>
  The usage ledger as a system of events, and its invariant: the counters of a segment are consistent, the order of
  eviction lists exactly the segments, every open subject has its segment, and there are at most 1024 segments.
\<close>

declare map_of_eq_Some_iff [simp del]

section \<open>Eviction\<close>

definition order_ok :: "usage_ledger \<Rightarrow> bool" where
  "order_ok l \<longleftrightarrow> hm_ok (ul_segments l) \<and> distinct (ul_order l) \<and> set (ul_order l) = dom (segment_at l)"

text \<open>\<open>l'\<close> is \<open>l\<close> less some segments that are neither open nor protected.\<close>

definition evicted :: "string set \<Rightarrow> usage_ledger \<Rightarrow> usage_ledger \<Rightarrow> bool" where
  "evicted keep l l' \<longleftrightarrow>
     l' = l\<lparr>ul_segments := ul_segments l', ul_order := ul_order l', ul_dropped := ul_dropped l'\<rparr> \<and>
     (\<forall>i. segment_at l' i = segment_at l i \<or> segment_at l' i = None \<and> i \<notin> active_ids l \<union> keep) \<and>
     (order_ok l \<longrightarrow> order_ok l') \<and> length (ul_segments l') \<le> length (ul_segments l)"

lemma evicted_at: "evicted keep l l' \<Longrightarrow> segment_at l' i = segment_at l i \<or> segment_at l' i = None \<and> i \<notin> active_ids l \<union> keep"
  unfolding evicted_def by (elim conjE allE)

lemma evicted_refl [simp, intro]: "evicted keep l l"
  by (simp add: evicted_def)

lemma evicted_active: "evicted keep l l' \<Longrightarrow> active_ids l' = active_ids l"
  by (cases l; cases l') (simp add: evicted_def active_ids_def)

lemma evicted_trans: "evicted keep a b \<Longrightarrow> evicted keep b c \<Longrightarrow> evicted keep a c"
proof -
  assume ab: "evicted keep a b" and bc: "evicted keep b c"
  have act: "active_ids b = active_ids a" by (rule evicted_active[OF ab])
  have "c = a\<lparr>ul_segments := ul_segments c, ul_order := ul_order c, ul_dropped := ul_dropped c\<rparr>"
    using ab bc by (cases a; cases b; cases c) (simp add: evicted_def)
  moreover have "segment_at c i = segment_at a i \<or> segment_at c i = None \<and> i \<notin> active_ids a \<union> keep" for i
    using ab bc act unfolding evicted_def by metis
  ultimately show ?thesis using ab bc by (simp add: evicted_def)
qed

lemma evicted_mono: "evicted keep l l' \<Longrightarrow> keep' \<subseteq> keep \<Longrightarrow> evicted keep' l l'"
  unfolding evicted_def by blast

lemma order_ok_drop: "order_ok l \<Longrightarrow> order_ok (drop_segment i (l\<lparr>ul_order := remove1 i (ul_order l)\<rparr>))"
  by (auto simp: order_ok_def drop_segment_def distinct_delete delete_conv' set_remove1_eq split: if_splits)

lemma evicted_drop:
  "i \<notin> active_ids l \<union> keep \<Longrightarrow> evicted keep l (drop_segment i (l\<lparr>ul_order := remove1 i (ul_order l)\<rparr>))"
  using order_ok_drop[of l i] length_delete_le[of i "ul_segments l"]
  by (auto simp: evicted_def drop_segment_def delete_conv')

lemma evict_first_evicted:
  assumes "evict_first P l = Some l'" and "\<And>i. P i \<Longrightarrow> i \<notin> active_ids l \<union> keep"
  shows "evicted keep l l'"
  using assms evicted_drop by (auto simp: evict_first_def find_Some_iff)

lemma order_ok_rotate: "order_ok l \<Longrightarrow> ul_order l = i # rest \<Longrightarrow> order_ok (l\<lparr>ul_order := rest @ [i]\<rparr>)"
  by (auto simp: order_ok_def)

lemma evicted_rotate: "ul_order l = i # rest \<Longrightarrow> evicted keep l (l\<lparr>ul_order := rest @ [i]\<rparr>)"
  using order_ok_rotate[of l i rest] by (simp add: evicted_def)

lemma prune_step:
  assumes "ul_order l = i # rest"
  shows "evicted {} l (if (aged \<or> capped) \<and> i \<notin> active_ids l then drop_segment i (l\<lparr>ul_order := rest\<rparr>)
                    else l\<lparr>ul_order := rest @ [i]\<rparr>)"
  using evicted_rotate[OF assms] evicted_drop[of i l "{}"] assms by simp

lemma prune_scan_evicted: "evicted {} l (prune_scan n fl l)"
proof (induction n fl l rule: prune_scan.induct)
  case (2 n fl l)
  show ?case
  proof (cases "ul_order l")
    case (Cons i rest)
    define l' where "l' = (if ((case segment_at l i of None \<Rightarrow> False | Some s \<Rightarrow> us_last s < fl) \<or>
        LIGHT_USAGE_SEGMENT_LIMIT < length (ul_segments l)) \<and> i \<notin> active_ids l then drop_segment i (l\<lparr>ul_order := rest\<rparr>)
      else l\<lparr>ul_order := rest @ [i]\<rparr>)"
    have step: "evicted {} l l'" unfolding l'_def by (rule prune_step[OF Cons])
    have IH: "evicted {} l' (prune_scan n fl l')" if "\<not> (length (ul_segments l') \<le> LIGHT_USAGE_SEGMENT_LIMIT \<and>
        (case ul_order l' of [] \<Rightarrow> True | j # _ \<Rightarrow> (case segment_at l' j of None \<Rightarrow> True | Some s \<Rightarrow> fl \<le> us_last s)))"
      using 2[OF Cons refl refl l'_def that] .
    show ?thesis
      using step IH evicted_trans unfolding prune_scan.simps Cons list.case Let_def l'_def[symmetric] by auto
  qed simp
qed simp

lemma prune_evicted: "evicted {} l (prune_closed_segments now l)"
  by (simp add: prune_closed_segments_def prune_scan_evicted)

lemma enforce_evicted: "evicted (set_option prot) l (snd (enforce_serialized_byte_limit env prot l))"
proof (induction env prot l rule: enforce_serialized_byte_limit.induct)
  case (1 env prot l)
  show ?case
  proof (cases "ue_bytes env l \<le> LIGHT_USAGE_LEDGER_BYTES_LIMIT")
    case False
    show ?thesis
    proof (cases "evict_first (\<lambda>i. i \<notin> active_ids l \<and> prot \<noteq> Some i) l")
      case None
      then show ?thesis using False by (subst enforce_serialized_byte_limit.simps) simp
    next
      case (Some l')
      have "evicted (set_option prot) l l'" by (rule evict_first_evicted[OF Some]) (cases prot; auto)
      then show ?thesis using 1[OF False Some] evicted_trans False Some by (subst enforce_serialized_byte_limit.simps) auto
    qed
  qed (subst enforce_serialized_byte_limit.simps, simp)
qed

section \<open>The invariant\<close>

definition segment_ok :: "string \<Rightarrow> usage_segment \<Rightarrow> bool" where
  "segment_ok i s \<longleftrightarrow> us_id s = i \<and> us_on s \<le> us_covered s \<and> us_uncertainty s \<le> us_covered s \<and>
     1 \<le> us_revision s \<and> us_synced s \<le> us_revision s"

definition usage_ok :: "usage_ledger \<Rightarrow> bool" where
  "usage_ok l \<longleftrightarrow> order_ok l \<and> (\<forall>i s. segment_at l i = Some s \<longrightarrow> segment_ok i s) \<and> hm_ok (ul_baselines l) \<and>
     (\<forall>subject b. baseline_at l subject = Some b \<longrightarrow> (\<exists>s. segment_at l (ub_segment b) = Some s \<and> us_subject s = subject)) \<and>
     length (ul_segments l) \<le> LIGHT_USAGE_SEGMENT_LIMIT"

lemma usage_ok_same:
  "usage_ok l \<Longrightarrow> ul_segments l' = ul_segments l \<Longrightarrow> ul_order l' = ul_order l \<Longrightarrow> ul_baselines l' = ul_baselines l \<Longrightarrow> usage_ok l'"
  by (simp add: usage_ok_def order_ok_def)

lemma usage_ok_mark_dirty [simp]: "usage_ok (mark_dirty now l) \<longleftrightarrow> usage_ok l"
  by (simp add: usage_ok_def order_ok_def mark_dirty_def)

lemma usage_ok_fields [simp]:
  "usage_ok (l\<lparr>ul_excluded := n\<rparr>) \<longleftrightarrow> usage_ok l"
  "usage_ok (l\<lparr>ul_last_checkpoint := t\<rparr>) \<longleftrightarrow> usage_ok l"
  "usage_ok (l\<lparr>ul_last_attempt := t\<rparr>) \<longleftrightarrow> usage_ok l"
  "usage_ok (l\<lparr>ul_last_ack := t\<rparr>) \<longleftrightarrow> usage_ok l"
  "usage_ok (l\<lparr>ul_cloud_status := s\<rparr>) \<longleftrightarrow> usage_ok l"
  "usage_ok (l\<lparr>ul_pending := s\<rparr>) \<longleftrightarrow> usage_ok l"
  "usage_ok (l\<lparr>ul_dirty := b\<rparr>) \<longleftrightarrow> usage_ok l"
  "usage_ok (l\<lparr>ul_checkpointing := b\<rparr>) \<longleftrightarrow> usage_ok l"
  "usage_ok (l\<lparr>ul_checkpoint_anchor := a\<rparr>) \<longleftrightarrow> usage_ok l"
  "usage_ok (l\<lparr>ul_force_checkpoint := b\<rparr>) \<longleftrightarrow> usage_ok l"
  "usage_ok (l\<lparr>ul_uploading := b\<rparr>) \<longleftrightarrow> usage_ok l"
  "usage_ok (l\<lparr>ul_cloud_anchor := a\<rparr>) \<longleftrightarrow> usage_ok l"
  "usage_ok (l\<lparr>ul_force_cloud := b\<rparr>) \<longleftrightarrow> usage_ok l"
  by (simp_all add: usage_ok_def order_ok_def)

lemma baseline_active: "baseline_at l subject = Some b \<Longrightarrow> ub_segment b \<in> active_ids l"
  by (force simp: active_ids_def dest: map_of_SomeD)

lemma evicted_fields:
  assumes "evicted keep l l'"
  shows "ul_baselines l' = ul_baselines l" and "\<And>i s. segment_at l' i = Some s \<Longrightarrow> segment_at l i = Some s"
    and "\<And>i. i \<in> active_ids l \<union> keep \<Longrightarrow> segment_at l' i = segment_at l i"
proof -
  show "ul_baselines l' = ul_baselines l" using assms by (cases l; cases l') (simp add: evicted_def)
  fix i s
  show "segment_at l' i = Some s \<Longrightarrow> segment_at l i = Some s" using evicted_at[OF assms, of i] by auto
  show "i \<in> active_ids l \<union> keep \<Longrightarrow> segment_at l' i = segment_at l i" using evicted_at[OF assms, of i] by auto
qed

lemma usage_ok_evicted:
  assumes ok: "usage_ok l" and e: "evicted keep l l'"
  shows "usage_ok l'"
proof -
  have base: "\<exists>s. segment_at l' (ub_segment b) = Some s \<and> us_subject s = subject" if "baseline_at l subject = Some b" for subject b
    using ok that evicted_fields(3)[OF e, of "ub_segment b"] baseline_active[OF that] unfolding usage_ok_def by fastforce
  show ?thesis
    using ok e base evicted_fields(1,2)[OF e] unfolding usage_ok_def evicted_def by auto
qed

lemma order_ok_length: "order_ok l \<Longrightarrow> length (ul_segments l) = card (dom (segment_at l))"
  by (simp add: order_ok_def dom_map_of_conv_image_fst distinct_card flip: set_map)

section \<open>A new segment\<close>

text \<open>\<open>l'\<close> is \<open>l\<close> with the segment \<open>s\<close> added, and perhaps less some segments that are not open.\<close>

definition extended :: "usage_segment \<Rightarrow> usage_ledger \<Rightarrow> usage_ledger \<Rightarrow> bool" where
  "extended s l l' \<longleftrightarrow>
     l' = l\<lparr>ul_segments := ul_segments l', ul_order := ul_order l', ul_dropped := ul_dropped l'\<rparr> \<and>
     segment_at l' (us_id s) = Some s \<and>
     (\<forall>i. i \<noteq> us_id s \<longrightarrow> segment_at l' i = segment_at l i \<or> segment_at l' i = None \<and> i \<notin> active_ids l) \<and>
     (order_ok l \<longrightarrow> order_ok l') \<and> length (ul_segments l') \<le> LIGHT_USAGE_SEGMENT_LIMIT"

definition room_made :: "u64 \<Rightarrow> usage_ledger \<Rightarrow> usage_ledger" where
  "room_made epoch l =
     (let l1 = prune_closed_segments epoch l
      in if LIGHT_USAGE_SEGMENT_LIMIT \<le> length (ul_segments l1)
         then unwrap_or (evict_first (\<lambda>i. i \<notin> active_ids l1) l1) l1 else l1)"

lemma room_made_evicted: "evicted {} l (room_made epoch l)"
proof -
  let ?l1 = "prune_closed_segments epoch l"
  have "evicted {} ?l1 (unwrap_or (evict_first (\<lambda>i. i \<notin> active_ids ?l1) ?l1) ?l1)"
    using evict_first_evicted[of "\<lambda>i. i \<notin> active_ids ?l1" ?l1 _ "{}"]
    by (cases "evict_first (\<lambda>i. i \<notin> active_ids ?l1) ?l1") auto
  then show ?thesis using prune_evicted[of l epoch] evicted_trans by (auto simp: room_made_def Let_def)
qed

definition inserted :: "usage_segment \<Rightarrow> usage_ledger \<Rightarrow> usage_ledger" where
  "inserted s l = l\<lparr>ul_segments := AList.update (us_id s) s (ul_segments l), ul_order := ul_order l @ [us_id s]\<rparr>"

lemma new_segment_eq:
  "new_segment env nid subject kind date source epoch counted l =
     (let l2 = room_made epoch l
      in if LIGHT_USAGE_SEGMENT_LIMIT \<le> length (ul_segments l2)
         then (None, l2\<lparr>ul_dropped := sat_add (ul_dropped l2) 1\<rparr>)
         else case enforce_serialized_byte_limit env (Some nid) (inserted (fresh_segment nid subject kind date source epoch counted) l2) of
                (True, l4) \<Rightarrow> (Some nid, l4)
              | (False, l4) \<Rightarrow> (None, drop_segment nid (l4\<lparr>ul_order := filter (\<lambda>i. i \<noteq> nid) (ul_order l4)\<rparr>)))"
  by (simp add: new_segment_def room_made_def inserted_def fresh_segment_def Let_def)

lemma order_ok_inserted: "order_ok l \<Longrightarrow> segment_at l (us_id s) = None \<Longrightarrow> order_ok (inserted s l)"
  by (auto simp: order_ok_def inserted_def distinct_update update_conv' domIff)

lemma length_update_new: "map_of m k = None \<Longrightarrow> length (AList.update k v m) = Suc (length m)"
  by (induction m) (auto split: if_splits)

lemma new_segment_extended:
  assumes new: "new_segment env nid subject kind date source epoch counted l = (Some i, l')" and fresh: "segment_at l nid = None"
  shows "i = nid \<and> extended (fresh_segment nid subject kind date source epoch counted) l l'"
proof -
  let ?s = "fresh_segment nid subject kind date source epoch counted"
  let ?l2 = "room_made epoch l"
  have id: "us_id ?s = nid" by (simp add: fresh_segment_def)
  have room: "evicted {} l ?l2" by (rule room_made_evicted)
  then have none: "segment_at ?l2 nid = None" using fresh evicted_at[OF room, of nid] by auto
  have lim: "length (ul_segments ?l2) < LIGHT_USAGE_SEGMENT_LIMIT" and i: "i = nid"
    and enf: "enforce_serialized_byte_limit env (Some nid) (inserted ?s ?l2) = (True, l')"
    using new unfolding new_segment_eq Let_def by (auto split: if_splits prod.splits bool.splits)
  have ev: "evicted {nid} (inserted ?s ?l2) l'" using enforce_evicted[of "Some nid" "inserted ?s ?l2" env] enf by simp
  have act: "active_ids (inserted ?s ?l2) = active_ids l"
    using evicted_active[OF room] by (simp add: inserted_def active_ids_def)
  have "l' = l\<lparr>ul_segments := ul_segments l', ul_order := ul_order l', ul_dropped := ul_dropped l'\<rparr>"
    using room ev by (cases l; cases l'; cases ?l2) (simp add: evicted_def inserted_def)
  moreover have "segment_at l' nid = Some ?s"
    using evicted_fields(3)[OF ev, of nid] by (simp add: inserted_def update_conv' id)
  moreover have "segment_at l' j = segment_at l j \<or> segment_at l' j = None \<and> j \<notin> active_ids l" if "j \<noteq> nid" for j
  proof -
    have "segment_at (inserted ?s ?l2) j = segment_at ?l2 j" using that by (simp add: inserted_def update_conv' id)
    then show ?thesis using room ev act unfolding evicted_def by (metis UnCI)
  qed
  moreover have "order_ok l \<Longrightarrow> order_ok l'" using room ev order_ok_inserted[of ?l2 ?s] none by (simp add: evicted_def id)
  moreover have "length (ul_segments l') \<le> LIGHT_USAGE_SEGMENT_LIMIT"
    using ev lim none by (simp add: evicted_def inserted_def length_update_new id)
  ultimately show ?thesis using i by (simp add: extended_def id)
qed

lemma new_segment_refused:
  assumes new: "new_segment env nid subject kind date source epoch counted l = (None, l')" and fresh: "segment_at l nid = None"
    and ok: "order_ok l"
  shows "evicted {} l l'"
proof -
  let ?s = "fresh_segment nid subject kind date source epoch counted"
  let ?l2 = "room_made epoch l"
  have id: "us_id ?s = nid" by (simp add: fresh_segment_def)
  have room: "evicted {} l ?l2" by (rule room_made_evicted)
  then have none: "segment_at ?l2 nid = None" using fresh evicted_at[OF room, of nid] by auto
  show ?thesis
  proof (cases "LIGHT_USAGE_SEGMENT_LIMIT \<le> length (ul_segments ?l2)")
    case True
    then have "l' = ?l2\<lparr>ul_dropped := sat_add (ul_dropped ?l2) 1\<rparr>" using new unfolding new_segment_eq Let_def by simp
    then have "evicted {} ?l2 l'" by (simp add: evicted_def order_ok_def)
    then show ?thesis by (rule evicted_trans[OF room])
  next
    case False
    then obtain l4 where enf: "enforce_serialized_byte_limit env (Some nid) (inserted ?s ?l2) = (False, l4)"
      and l': "l' = drop_segment nid (l4\<lparr>ul_order := filter (\<lambda>i. i \<noteq> nid) (ul_order l4)\<rparr>)"
      using new unfolding new_segment_eq Let_def by (auto split: prod.splits bool.splits)
    have ev: "evicted {nid} (inserted ?s ?l2) l4" using enforce_evicted[of "Some nid" "inserted ?s ?l2" env] enf by simp
    have act: "active_ids (inserted ?s ?l2) = active_ids l"
      using evicted_active[OF room] by (simp add: inserted_def active_ids_def)
    have "order_ok ?l2" using room ok by (simp add: evicted_def)
    then have "order_ok l4" using ev order_ok_inserted[of ?l2 ?s] none by (simp add: evicted_def id)
    then have ok': "order_ok l'" by (auto simp: l' order_ok_def drop_segment_def distinct_delete delete_conv' split: if_splits)
    have seg: "segment_at l' j = segment_at l j \<or> segment_at l' j = None \<and> j \<notin> active_ids l" for j
    proof (cases "j = nid")
      case True
      then show ?thesis using fresh by (simp add: l' drop_segment_def delete_conv')
    next
      case False
      then have "segment_at l' j = segment_at l4 j" and "segment_at (inserted ?s ?l2) j = segment_at ?l2 j"
        by (simp_all add: l' drop_segment_def delete_conv' inserted_def update_conv' id)
      then show ?thesis using room ev act unfolding evicted_def by (metis UnCI)
    qed
    then have "dom (segment_at l') \<subseteq> dom (segment_at l)" by (metis domIff subsetI)
    then have len: "length (ul_segments l') \<le> length (ul_segments l)"
      using order_ok_length[OF ok] order_ok_length[OF ok'] by (simp add: card_mono finite_dom_map_of)
    have "l' = l\<lparr>ul_segments := ul_segments l', ul_order := ul_order l', ul_dropped := ul_dropped l'\<rparr>"
      using room ev by (cases l; cases l4; cases ?l2) (simp add: l' evicted_def inserted_def drop_segment_def)
    then show ?thesis using seg ok' len by (simp add: evicted_def)
  qed
qed

section \<open>Operations keep the invariant\<close>

lemma sat_add_ge: "a \<le> sat_add a b" for a b :: "'a::len word"
proof -
  have "unat a < 2 ^ LENGTH('a)" by simp
  then show ?thesis unfolding word_le_nat_alt unat_sat_add by linarith
qed

lemma accrued_ok: "segment_ok i s \<Longrightarrow> segment_ok i (accrued c on u tr source epoch counted s)"
  using sat_add_ge[of "us_revision s" 1] by (auto simp: segment_ok_def accrued_def Let_def intro: order_trans)

lemma dom_modify [simp]: "dom (map_of (hm_modify i f m)) = dom (map_of m)"
  by (auto simp: hm_get_modify dom_def)

lemma length_hm_modify [simp]: "length (hm_modify i f m) = length m"
  by (simp add: hm_modify_def)

lemma usage_ok_modified:
  assumes ok: "usage_ok l" and f: "\<And>i s. segment_ok i s \<Longrightarrow> segment_ok i (f s) \<and> us_subject (f s) = us_subject s"
  shows "usage_ok (l\<lparr>ul_segments := hm_modify i f (ul_segments l)\<rparr>)"
proof -
  have "\<exists>s. map_of (hm_modify i f (ul_segments l)) (ub_segment b) = Some s \<and> us_subject s = subject"
    if b: "baseline_at l subject = Some b" for subject b
  proof -
    obtain s where "segment_at l (ub_segment b) = Some s" "us_subject s = subject" "segment_ok (ub_segment b) s"
      using ok b unfolding usage_ok_def by blast
    then show ?thesis using f by (auto simp: hm_get_modify)
  qed
  then show ?thesis using ok f by (auto simp: usage_ok_def order_ok_def hm_get_modify split: if_splits)
qed

lemma segment_at_accrue:
  "segment_at (accrue_segment i c o' u tr source epoch counted l) j =
     (if j = i then map_option (accrued c o' u tr source epoch counted) (segment_at l i) else segment_at l j)"
  by (simp add: accrue_segment_def hm_get_modify)

lemma usage_ok_accrue: "usage_ok l \<Longrightarrow> usage_ok (accrue_segment i c on u tr source epoch counted l)"
  unfolding accrue_segment_def
  by (rule usage_ok_modified) (auto simp: accrued_ok, simp add: accrued_def Let_def)

lemma usage_ok_rebase:
  assumes ok: "usage_ok l" and s: "segment_at l i = Some s" "us_subject s = subject"
  shows "usage_ok (l\<lparr>ul_baselines := AList.update subject \<lparr>ub_on = on, ub_epoch = epoch, ub_instant = inst, ub_segment = i\<rparr> (ul_baselines l)\<rparr>)"
  using assms by (auto simp: usage_ok_def order_ok_def update_conv' distinct_update)

lemma usage_ok_unbase: "usage_ok l \<Longrightarrow> usage_ok (l\<lparr>ul_baselines := AList.delete subject (ul_baselines l)\<rparr>)"
  by (auto simp: usage_ok_def order_ok_def delete_conv' distinct_delete)

lemma fresh_segment_ok: "segment_ok nid (fresh_segment nid subject kind date source epoch counted)"
  by (simp add: segment_ok_def fresh_segment_def)

lemma extended_fields:
  assumes "extended s l l'"
  shows "ul_baselines l' = ul_baselines l" and "segment_at l' (us_id s) = Some s"
    and "i \<noteq> us_id s \<Longrightarrow> segment_at l' i = segment_at l i \<or> segment_at l' i = None \<and> i \<notin> active_ids l"
proof -
  show "ul_baselines l' = ul_baselines l" using assms by (cases l; cases l') (simp add: extended_def)
  show "segment_at l' (us_id s) = Some s" using assms unfolding extended_def by blast
  show "i \<noteq> us_id s \<Longrightarrow> segment_at l' i = segment_at l i \<or> segment_at l' i = None \<and> i \<notin> active_ids l"
    using assms unfolding extended_def by blast
qed

lemma usage_ok_extended:
  assumes ok: "usage_ok l" and e: "extended s l l'" and s: "segment_ok (us_id s) s" and new: "segment_at l (us_id s) = None"
  shows "usage_ok l'"
proof -
  have base: "\<exists>s. segment_at l' (ub_segment b) = Some s \<and> us_subject s = subject" if b: "baseline_at l subject = Some b" for subject b
  proof -
    obtain s' where s': "segment_at l (ub_segment b) = Some s'" "us_subject s' = subject" using ok b unfolding usage_ok_def by blast
    then have "ub_segment b \<noteq> us_id s" using new by auto
    then show ?thesis using extended_fields(3)[OF e] s' baseline_active[OF b] by metis
  qed
  have seg: "segment_ok i s'" if "segment_at l' i = Some s'" for i s'
    using that extended_fields(2)[OF e] extended_fields(3)[OF e, of i] s ok unfolding usage_ok_def by (cases "i = us_id s") auto
  show ?thesis
    using ok base seg e extended_fields(1)[OF e] unfolding usage_ok_def extended_def by simp
qed

lemma usage_ok_refused:
  assumes "new_segment env nid subject kind date source epoch counted l = (None, l')" and "segment_at l nid = None" and ok: "usage_ok l"
  shows "usage_ok l'"
proof -
  have "order_ok l" using ok by (simp add: usage_ok_def)
  then show ?thesis using usage_ok_evicted[OF ok new_segment_refused] assms by blast
qed

lemma usage_ok_start:
  assumes ok: "usage_ok l" and fresh: "segment_at l nid = None"
  shows "usage_ok (start_baseline env nid subject kind on source inst epoch l)"
proof -
  let ?s = "fresh_segment nid subject kind (ue_date env epoch) source epoch True"
  have id: "us_id ?s = nid" "us_subject ?s = subject" by (simp_all add: fresh_segment_def)
  obtain r l1 where new: "new_segment env nid subject kind (ue_date env epoch) source epoch True l = (r, l1)" by fastforce
  show ?thesis
  proof (cases r)
    case None
    then have "usage_ok l1" using usage_ok_refused[OF _ fresh ok] new by simp
    then show ?thesis by (simp add: start_baseline_def new None)
  next
    case (Some i)
    then have i: "i = nid" and e: "extended ?s l l1" using new_segment_extended[of env nid] new fresh by auto
    have "usage_ok l1" by (rule usage_ok_extended[OF ok e]) (use fresh_segment_ok fresh id in \<open>simp_all\<close>)
    then show ?thesis using extended_fields(2)[OF e] id usage_ok_rebase[of l1 nid ?s subject]
      by (simp add: start_baseline_def new Some i)
  qed
qed

lemma usage_ok_interval:
  assumes ok: "usage_ok l" and fresh: "segment_at l nid = None" and prev: "baseline_at l subject = Some prev"
  shows "usage_ok (accrue_interval env nid subject kind on source inst epoch prev l)"
proof -
  obtain s where s: "segment_at l (ub_segment prev) = Some s" "us_subject s = subject"
    using ok prev unfolding usage_ok_def by blast
  have acc: "usage_ok (accrue_segment (ub_segment prev) c on u tr source epoch counted l)"
    and sub: "\<exists>s'. segment_at (accrue_segment (ub_segment prev) c on u tr source epoch counted l) (ub_segment prev) = Some s' \<and> us_subject s' = subject"
    and none: "segment_at (accrue_segment (ub_segment prev) c on u tr source epoch counted l) nid = None" for c on u tr epoch counted
    using usage_ok_accrue[OF ok] s fresh by (auto simp: accrue_segment_def hm_get_modify accrued_def Let_def)
  obtain on_ms uncertainty where cr: "interval_credit (ub_on prev) on (is_live source) (as_millis (duration_since inst (ub_instant prev))) = (on_ms, uncertainty)"
    by fastforce
  show ?thesis
  proof (cases "ue_date env (ub_epoch prev) = ue_date env epoch")
    case True
    then show ?thesis using acc sub usage_ok_rebase by (fastforce simp: accrue_interval_def cr Let_def)
  next
    case False
    let ?elapsed = "as_millis (duration_since inst (ub_instant prev))"
    let ?total = "max (unwrap_or (wall_delta epoch (ub_epoch prev)) ?elapsed) 1"
    let ?boundary = "unwrap_or (ue_midnight env (ub_epoch prev)) epoch"
    obtain bc bo bu bt where sp: "split_before (ub_on prev) on (is_live source) ?elapsed ?total (min (sat_sub ?boundary (ub_epoch prev)) ?total) = (bc, bo, bu, bt)"
      by (metis prod_cases4)
    let ?l1 = "accrue_segment (ub_segment prev) bc bo bu bt source (sat_sub ?boundary 1) False l"
    let ?s = "fresh_segment nid subject kind (ue_date env epoch) source epoch False"
    have id: "us_id ?s = nid" "us_subject ?s = subject" by (simp_all add: fresh_segment_def)
    obtain r l2 where new: "new_segment env nid subject kind (ue_date env epoch) source epoch False ?l1 = (r, l2)" by fastforce
    show ?thesis
    proof (cases r)
      case None
      then have "usage_ok l2" using usage_ok_refused[OF _ none acc] new by simp
      then show ?thesis using False usage_ok_unbase[of l2] by (simp add: accrue_interval_def cr Let_def sp new None)
    next
      case (Some i)
      then have i: "i = nid" and e: "extended ?s ?l1 l2" using new_segment_extended[of env nid] new none by auto
      have ok2: "usage_ok l2" by (rule usage_ok_extended[OF acc e]) (use fresh_segment_ok none id in \<open>simp_all\<close>)
      let ?l3 = "accrue_segment nid (sat_sub ?elapsed bc) (sat_sub on_ms bo) (sat_sub uncertainty bu) (ub_on prev \<noteq> on \<and> \<not> bt) source epoch True l2"
      let ?l3' = "?l3\<lparr>ul_force_checkpoint := True, ul_force_cloud := True\<rparr>"
      have ok3: "usage_ok ?l3'" using usage_ok_accrue[OF ok2] by (rule usage_ok_same) simp_all
      obtain s3 where "segment_at ?l3' nid = Some s3" "us_subject s3 = subject"
        using extended_fields(2)[OF e] id by (simp add: accrue_segment_def hm_get_modify accrued_def Let_def)
      then show ?thesis using False usage_ok_rebase[OF ok3] by (simp add: accrue_interval_def cr Let_def sp new Some i)
    qed
  qed
qed

lemma usage_ok_observation:
  assumes ok: "usage_ok l" and fresh: "segment_at l nid = None"
  shows "usage_ok (record_observation env nid subject kind on source inst epoch budget l)"
proof -
  have ok': "usage_ok (l\<lparr>ul_discontinuities := sat_add (ul_discontinuities l) 1\<rparr>)" using ok by (rule usage_ok_same) simp_all
  have "usage_ok (start_baseline env nid subject kind on source inst epoch (l\<lparr>ul_discontinuities := sat_add (ul_discontinuities l) 1\<rparr>))"
    using usage_ok_start[OF ok'] fresh by simp
  then show ?thesis using usage_ok_start[OF ok fresh] usage_ok_interval[OF ok fresh] ok
    by (auto simp: record_observation_def Let_def split: option.split)
qed

section \<open>Loading\<close>

lemma prune_scan_limit:
  "ul_baselines l = [] \<Longrightarrow> order_ok l \<Longrightarrow>
   length (ul_segments (prune_scan n fl l)) \<le> max LIGHT_USAGE_SEGMENT_LIMIT (length (ul_segments l) - n)"
proof (induction n fl l rule: prune_scan.induct)
  case (2 n fl l)
  show ?case
  proof (cases "ul_order l")
    case Nil
    then have "ul_segments l = []" using 2(3) by (cases "ul_segments l") (auto simp: order_ok_def)
    then show ?thesis using Nil by simp
  next
    case (Cons i rest)
    let ?aged = "case segment_at l i of None \<Rightarrow> False | Some s \<Rightarrow> us_last s < fl"
    let ?capped = "LIGHT_USAGE_SEGMENT_LIMIT < length (ul_segments l)"
    define l' where "l' = (if (?aged \<or> ?capped) \<and> i \<notin> active_ids l then drop_segment i (l\<lparr>ul_order := rest\<rparr>)
      else l\<lparr>ul_order := rest @ [i]\<rparr>)"
    have act: "active_ids l = {}" using 2(2) by (simp add: active_ids_def)
    have step: "evicted {} l l'" unfolding l'_def by (rule prune_step[OF Cons])
    have ok': "order_ok l'" and base': "ul_baselines l' = []" and le: "length (ul_segments l') \<le> length (ul_segments l)"
      using step 2(2,3) evicted_fields(1)[OF step] by (simp_all add: evicted_def)
    have less: "length (ul_segments l') < length (ul_segments l)" if ?capped
    proof -
      have "i \<in> dom (segment_at l)" using 2(3) Cons by (auto simp: order_ok_def)
      then obtain s where "(i, s) \<in> set (ul_segments l)" by (auto dest: map_of_SomeD)
      then show ?thesis using that act by (simp add: l'_def drop_segment_def AList.delete_eq length_filter_less)
    qed
    let ?done = "length (ul_segments l') \<le> LIGHT_USAGE_SEGMENT_LIMIT \<and>
        (case ul_order l' of [] \<Rightarrow> True | j # _ \<Rightarrow> (case segment_at l' j of None \<Rightarrow> True | Some s \<Rightarrow> fl \<le> us_last s))"
    have eq: "prune_scan (Suc n) fl l = (if ?done then l' else prune_scan n fl l')"
      by (simp only: prune_scan.simps Cons list.case Let_def l'_def)
    show ?thesis
    proof (cases ?done)
      case False
      have "length (ul_segments (prune_scan n fl l')) \<le> max LIGHT_USAGE_SEGMENT_LIMIT (length (ul_segments l') - n)"
        using 2(1)[OF Cons refl refl l'_def False base' ok'] .
      then show ?thesis using False less le unfolding eq by (cases ?capped) auto
    next
      case True
      then have "prune_scan (Suc n) fl l = l'" unfolding eq by (rule if_P)
      then show ?thesis using True by (simp only: max_def) simp
    qed
  qed
qed simp

lemma normalize_segment_ok: "us_id s = i \<Longrightarrow> segment_ok i (normalize_segment s)"
  by (simp add: segment_ok_def normalize_segment_def Let_def)

lemma normalize_order_ok:
  assumes "hm_ok (ul_segments l)" and ids: "\<And>i s. (i, s) \<in> set (ul_segments l) \<Longrightarrow> us_id s = i"
  shows "distinct (normalize_order l) \<and> set (normalize_order l) = fst ` set (ul_segments l)"
proof -
  define seen where "seen = rev (remdups (rev (filter (\<lambda>i. i \<in> fst ` set (ul_segments l)) (ul_order l))))"
  define rest where "rest = filter (\<lambda>(_, s). us_id s \<notin> set seen) (ul_segments l)"
  define missing where "missing = map (\<lambda>(_, s). (us_first s, us_id s)) rest"
  have seen: "distinct seen" "set seen \<subseteq> fst ` set (ul_segments l)" by (auto simp: seen_def)
  have keys: "map snd missing = map fst rest" unfolding missing_def map_map by (rule map_cong) (use ids in \<open>auto simp: rest_def\<close>)
  have sorted: "mset (map snd (sort missing)) = mset (map fst rest)" by (simp flip: keys)
  have "distinct (map fst rest)" using assms(1) unfolding rest_def by (rule distinct_map_filter)
  then have d: "distinct (map snd (sort missing))" using mset_eq_imp_distinct_iff[OF sorted] by blast
  have s: "set (map snd (sort missing)) = fst ` set rest" using mset_eq_setD[OF sorted] by simp
  have rest: "fst ` set rest = fst ` set (ul_segments l) - set seen"
    using ids unfolding rest_def by (force simp: image_iff)
  have "normalize_order l = seen @ map snd (sort missing)" by (simp only: normalize_order_def seen_def rest_def missing_def Let_def)
  then show ?thesis using seen d s rest by (auto simp del: set_map)
qed

lemma usage_ok_normalized:
  assumes hm: "hm_ok (ul_segments stored)" and n: "ledger_normalized env now stored = Some l"
  shows "usage_ok l"
proof -
  define kept where "kept = filter (\<lambda>(i, s). us_id s = i \<and> valid_opaque_id i \<and> valid_subject_id (us_subject s) \<and> ue_valid_date env (us_date s)) (ul_segments stored)"
  define l1 where "l1 = stored\<lparr>ul_schema := LIGHT_USAGE_SCHEMA_VERSION, ul_segments := hm_map normalize_segment kept\<rparr>"
  define l2 where "l2 = l1\<lparr>ul_order := normalize_order l1, ul_baselines := [], ul_dirty := any_dirty l1, ul_generation := 0,
    ul_checkpointing := False, ul_checkpoint_anchor := None, ul_force_checkpoint := False, ul_uploading := False,
    ul_cloud_anchor := None, ul_force_cloud := any_dirty l1\<rparr>"
  have l: "l = prune_closed_segments now l2"
    using n by (simp add: ledger_normalized_def kept_def l1_def l2_def Let_def split: if_splits)
  have keys: "hm_ok (ul_segments l1)" using hm by (simp add: l1_def kept_def distinct_map_filter)
  have ids: "us_id s = i \<and> segment_ok i s" if mem: "(i, s) \<in> set (ul_segments l1)" for i s
  proof -
    obtain s0 where "(i, s0) \<in> set kept" "s = normalize_segment s0" using mem by (auto simp: l1_def hm_map_def image_iff)
    then show ?thesis using normalize_segment_ok[of s0 i] by (auto simp: kept_def segment_ok_def)
  qed
  have ord: "order_ok l2" using normalize_order_ok[OF keys] keys ids by (simp add: order_ok_def l2_def dom_map_of_conv_image_fst)
  have "length (ul_order l2) = length (ul_segments l2)"
    using order_ok_length[OF ord] ord by (metis distinct_card order_ok_def)
  then have len: "length (ul_segments l) \<le> LIGHT_USAGE_SEGMENT_LIMIT"
    using prune_scan_limit[OF _ ord, of "length (ul_order l2)"] by (simp add: l prune_closed_segments_def l2_def)
  have ev: "evicted {} l2 l" unfolding l by (rule prune_evicted)
  have "segment_ok i s" if "segment_at l i = Some s" for i s
    using evicted_fields(2)[OF ev that] ids by (auto simp: l2_def dest: map_of_SomeD)
  moreover have "ul_baselines l = []" using evicted_fields(1)[OF ev] by (simp add: l2_def)
  moreover have "order_ok l" using ev ord by (simp add: evicted_def)
  ultimately show ?thesis using len by (simp add: usage_ok_def)
qed

section \<open>The system\<close>

datatype usage_event =
    UObserve string string subject_kind bool observation_source instant u64 int
  | UClose string
  | UExcluded instant
  | UForceUpload instant
  | UUnavailable string instant
  | UBeginUpload string instant u64
  | UCompleteUpload cloud_batch bool instant u64
  | UFailUpload string instant
  | UBeginCheckpoint instant u64
  | UCompleteCheckpoint u64 bool instant u64
  | UFlush u64

fun usage_step :: "usage_env \<Rightarrow> usage_event \<Rightarrow> usage_ledger \<Rightarrow> usage_ledger" where
  "usage_step env (UObserve nid subject kind on source inst epoch budget) l =
     record_observation env nid subject kind on source inst epoch budget l"
| "usage_step env (UClose subject) l = close_subject subject l"
| "usage_step env (UExcluded now) l = record_excluded_source now l"
| "usage_step env (UForceUpload now) l = force_cloud_upload now l"
| "usage_step env (UUnavailable status now) l = mark_cloud_unavailable status now l"
| "usage_step env (UBeginUpload bid now epoch) l = snd (begin_cloud_upload bid now epoch l)"
| "usage_step env (UCompleteUpload batch acked now epoch) l = complete_cloud_upload batch acked now epoch l"
| "usage_step env (UFailUpload status now) l = fail_cloud_upload status now l"
| "usage_step env (UBeginCheckpoint now epoch) l = snd (begin_checkpoint env now epoch l)"
| "usage_step env (UCompleteCheckpoint gen ok now epoch) l = complete_checkpoint gen ok now epoch l"
| "usage_step env (UFlush epoch) l = snd (persisted_snapshot env epoch l)"

text \<open>The identifier of a new segment is one that the ledger does not have: the loop that draws it ends with it.\<close>

fun usage_allowed :: "usage_event \<Rightarrow> usage_ledger \<Rightarrow> bool" where
  "usage_allowed (UObserve nid _ _ _ _ _ _ _) l = (segment_at l nid = None)"
| "usage_allowed _ l = True"

inductive usage_reachable :: "usage_env \<Rightarrow> usage_ledger \<Rightarrow> bool" for env where
  new: "usage_reachable env ledger_default"
| loaded: "hm_ok (ul_segments stored) \<Longrightarrow> ledger_normalized env now stored = Some l \<Longrightarrow> usage_reachable env l"
| step: "usage_reachable env l \<Longrightarrow> usage_allowed e l \<Longrightarrow> usage_reachable env (usage_step env e l)"

lemma usage_ok_default: "usage_ok ledger_default"
  by (simp add: usage_ok_def order_ok_def ledger_default_def)

lemma usage_ok_acknowledged:
  "usage_ok l \<Longrightarrow> usage_ok (l\<lparr>ul_segments := fold acknowledge us (ul_segments l)\<rparr>)"
proof (induction us arbitrary: l)
  case (Cons u us)
  have "usage_ok (l\<lparr>ul_segments := acknowledge u (ul_segments l)\<rparr>)"
    unfolding acknowledge_def by (rule usage_ok_modified[OF Cons.prems]) (simp add: segment_ok_def)
  from Cons.IH[OF this] show ?case by simp
qed simp

lemma usage_ok_snapshot: "usage_ok l \<Longrightarrow> usage_ok (snd (persisted_snapshot env epoch l))"
  using usage_ok_evicted[OF _ enforce_evicted] by (simp add: persisted_snapshot_def Let_def)

lemma usage_step_ok:
  assumes ok: "usage_ok l" and allowed: "usage_allowed e l"
  shows "usage_ok (usage_step env e l)"
proof (cases e)
  case (UObserve nid subject kind on source inst epoch budget)
  then show ?thesis using usage_ok_observation[OF ok] allowed by simp
next
  case (UClose subject)
  then show ?thesis using usage_ok_unbase[OF ok] by (simp add: close_subject_def)
next
  case (UCompleteUpload batch acked now epoch)
  let ?l1 = "l\<lparr>ul_uploading := False, ul_cloud_anchor := Some now\<rparr>"
  have "usage_ok ?l1" using ok by simp
  from usage_ok_acknowledged[OF this, of "cb_segments batch"] show ?thesis
    using ok by (simp add: UCompleteUpload complete_cloud_upload_def Let_def)
next
  case (UBeginCheckpoint now epoch)
  have "usage_ok (snd (persisted_snapshot env epoch (l\<lparr>ul_checkpoint_anchor := a, ul_checkpointing := True, ul_force_checkpoint := False\<rparr>)))" for a
    by (rule usage_ok_snapshot) (simp add: ok)
  then show ?thesis using ok by (simp add: UBeginCheckpoint begin_checkpoint_def Let_def split_beta)
next
  case (UFlush epoch)
  then show ?thesis using usage_ok_snapshot[OF ok] by simp
next
  case (UBeginUpload bid now epoch)
  then show ?thesis using ok by (simp add: begin_cloud_upload_def cloud_upload_due_def Let_def split: bool.split)
qed (use ok in \<open>simp_all add: record_excluded_source_def force_cloud_upload_def mark_cloud_unavailable_def fail_cloud_upload_def
  complete_checkpoint_def Let_def\<close>)

interpretation usage_steps: guarded_steps usage_allowed "usage_step env" usage_ok for env
  by unfold_locales (rule usage_step_ok)

lemma reachable_usage_ok: "usage_reachable env l \<Longrightarrow> usage_ok l"
  by (induction rule: usage_reachable.induct) (auto simp: usage_ok_default usage_ok_normalized usage_steps.step_keeps)

end
