(* ===== verification/LightUsageProperties.thy ===== *)
theory LightUsageProperties
  imports LightUsageInvariant
begin

text \<open>The properties of the usage ledger.\<close>

section \<open>Crediting an interval\<close>

lemma unat_proportional:
  assumes "n \<le> d" and "d \<noteq> 0"
  shows "unat (proportional v n d) = unat v * unat n div unat d"
proof (cases "v = 0 \<or> n = 0")
  case True
  then show ?thesis by (auto simp: proportional_def)
next
  case False
  have lt: "unat v < 2 ^ 64" "unat n < 2 ^ 64" for v n :: u64 using unsigned_less[of v] unsigned_less[of n] by simp_all
  have up: "unat (ucast x :: u128) = unat x" for x :: u64 by (simp add: unat_ucast_mod order_less_trans[OF lt(1)])
  have "unat v * unat n < 2 ^ 64 * 2 ^ 64" using lt by (intro mult_strict_mono) auto
  then have prod: "unat ((ucast v :: u128) * ucast n) = unat v * unat n"
    using unat_mult_lem[of "ucast v :: u128" "ucast n"] by (simp add: up)
  have q: "unat ((ucast v :: u128) * ucast n div ucast d) = unat v * unat n div unat d"
    by (simp add: unat_div_distrib prod up)
  have "unat v * unat n div unat d \<le> unat v * unat d div unat d"
    using assms by (intro div_le_mono mult_le_mono2) (simp add: word_le_nat_alt)
  also have "\<dots> = unat v" using assms(2) by (simp add: unat_eq_0)
  finally have le: "unat v * unat n div unat d \<le> unat v" .
  have "(ucast v :: u128) * ucast n div ucast d \<le> ucast (- 1 :: u64)"
    unfolding word_le_nat_alt q up using le lt(1)[of v] by (simp add: unsigned_minus_1_eq_mask mask_eq_exp_minus_1)
  then show ?thesis using False assms(2) le lt(1)[of v] by (simp add: proportional_def min_absorb1 unat_ucast_mod q)
qed

lemma interval_credit_bounds:
  assumes "interval_credit w o' lv e = (c, u)"
  shows "unat c \<le> unat e" and "unat u \<le> unat e"
  using assms by (auto simp: interval_credit_def Let_def unat_sat_sub unat_div_distrib split: if_splits)

lemma split_before_bounds:
  assumes cr: "interval_credit w o' lv e = (c, u)" and sp: "split_before w o' lv e W B = (bc, bo, bu, bt)"
    and B: "B \<le> W" and W: "W \<noteq> 0"
  shows "unat bc \<le> unat e \<and> unat bo \<le> unat bc \<and> unat bo \<le> unat c \<and> unat c - unat bo \<le> unat e - unat bc \<and>
     unat bu \<le> unat bc \<and> unat bu \<le> unat u \<and> unat u - unat bu \<le> unat e - unat bc"
proof -
  have bc: "bc = proportional e B W" using sp cr by (auto simp: split_before_def Let_def)
  have "unat bc = unat e * unat B div unat W" unfolding bc by (rule unat_proportional[OF B W])
  also have "\<dots> \<le> unat e * unat W div unat W" using B by (intro div_le_mono mult_le_mono2) (simp add: word_le_nat_alt)
  also have "\<dots> = unat e" using W by (simp add: unat_eq_0)
  finally have bce: "unat bc \<le> unat e" .
  show ?thesis
  proof (cases "e = 0")
    case True
    then have "unat bc = 0" "unat c = 0" "unat u = 0" using bce interval_credit_bounds[OF cr] by auto
    moreover from this have "unat bo = 0" "unat bu = 0"
      using sp cr True by (auto simp: split_before_def proportional_def unat_eq_0 sat_sub_def Let_def split: if_splits)
    ultimately show ?thesis by simp
  next
    case False
    have "unat e \<noteq> 0" using False by (simp add: unat_eq_0)
    then have e1: "0 < unat e" by simp
    then have m: "max e 1 = e" by (intro max_absorb1) (simp add: word_le_nat_alt)
    have be: "bc \<le> e" using bce by (simp add: word_le_nat_alt)
    have bu: "bu = proportional u bc e" using sp cr by (simp add: split_before_def Let_def m bc)
    have p: "unat (proportional x bc e) = unat x * unat bc div unat e" for x by (rule unat_proportional[OF be False])
    show ?thesis
    proof (cases "w = o' \<or> lv")
      case True
      then have c: "c = (if w then e else 0)" "u = 0" using cr by (auto simp: interval_credit_def)
      have "bo = proportional c bc e" using sp cr True by (auto simp: split_before_def Let_def m bc)
      then show ?thesis using c bu bce e1 p by auto
    next
      case False
      let ?m = "unat e div 2"
      have u: "unat u = ?m" and c: "unat c = (if w then ?m else unat e - ?m)"
        using cr False by (auto simp: interval_credit_def Let_def unat_sat_sub unat_div_distrib)
      have bo: "unat bo = (if w then min (unat bc) ?m else unat bc - ?m)"
        using sp cr False bc by (auto simp: split_before_def Let_def unat_sat_sub unat_div_distrib min_def word_le_nat_alt)
      have ubu: "unat bu = ?m * unat bc div unat e" unfolding bu p u ..
      have "?m * unat bc div unat e \<le> unat e * unat bc div unat e" by (intro div_le_mono mult_le_mono1) simp
      then have bubc: "unat bu \<le> unat bc" using e1 by (simp add: ubu)
      have "?m * unat bc div unat e \<le> ?m * unat e div unat e" using bce by (intro div_le_mono mult_le_mono2)
      then have buu: "unat bu \<le> unat u" using e1 by (simp add: ubu u)
      have "?m \<le> (unat e - unat bc) + ?m * unat bc div unat e"
      proof -
        have "?m * unat e = ?m * (unat e - unat bc) + ?m * unat bc" using bce by (simp flip: distrib_left)
        also have "\<dots> \<le> unat e * (unat e - unat bc) + ?m * unat bc" by (intro add_right_mono mult_le_mono1) simp
        finally have "?m * unat e div unat e \<le> (unat e * (unat e - unat bc) + ?m * unat bc) div unat e" by (rule div_le_mono)
        then show ?thesis using e1 by simp
      qed
      then have "unat u - unat bu \<le> unat e - unat bc" by (simp add: u ubu)
      then show ?thesis using bce bubc buu bo c diff_le_mono[OF bce, of ?m] by (auto simp: min_def)
    qed
  qed
qed


lemma split_before_exact:
  assumes sp: "split_before w o' lv e W B = (bc, bo, bu, bt)" and B: "B \<le> W" and W: "W \<noteq> 0"
  shows "unat bc = unat e * unat B div unat W"
    and "unat bo = (if w = o' \<or> lv then if w then unat bc else 0 else if w then min (unat bc) (unat e div 2) else unat bc - unat e div 2)"
proof -
  have bc: "bc = proportional e B W" using sp by (auto simp: split_before_def Let_def split: prod.splits)
  show exact: "unat bc = unat e * unat B div unat W" unfolding bc by (rule unat_proportional[OF B W])
  also have "\<dots> \<le> unat e * unat W div unat W" using B by (intro div_le_mono mult_le_mono2) (simp add: word_le_nat_alt)
  also have "\<dots> = unat e" using W by (simp add: unat_eq_0)
  finally have le: "bc \<le> e" by (simp add: word_le_nat_alt)
  show "unat bo = (if w = o' \<or> lv then if w then unat bc else 0 else if w then min (unat bc) (unat e div 2) else unat bc - unat e div 2)"
  proof (cases "e = 0")
    case True
    then have "bc = 0" using le by simp
    then show ?thesis using sp True by (auto simp: split_before_def interval_credit_def proportional_def sat_sub_def min_def Let_def split: if_splits)
  next
    case False
    have "unat e \<noteq> 0" using False by (simp add: unat_eq_0)
    then have pos: "0 < unat e" by simp
    then have m: "max e 1 = e" by (intro max_absorb1) (simp add: word_le_nat_alt)
    have p: "unat (proportional x bc e) = unat x * unat bc div unat e" for x by (rule unat_proportional[OF le False])
    show ?thesis
    proof (cases "w = o' \<or> lv")
      case True
      then have "bo = proportional (if w then e else 0) bc e"
        using sp by (auto simp: split_before_def interval_credit_def Let_def m bc)
      then show ?thesis using True pos by (simp add: p)
    next
      case False
      then have "unat bo = (if w then min (unat bc) (unat e div 2) else unat bc - unat e div 2)"
        using sp bc by (auto simp: split_before_def interval_credit_def Let_def unat_sat_sub unat_div_distrib min_def word_le_nat_alt)
      then show ?thesis using False by simp
    qed
  qed
qed

section \<open>Want of room\<close>

text \<open>
  A segment is refused for want of room: every segment that is left is the current one of an open subject, and these are
  already 1024, or the ledger with the new segment is too long for its file.
\<close>

definition no_room :: "usage_env \<Rightarrow> string \<Rightarrow> string set \<Rightarrow> usage_ledger \<Rightarrow> bool" where
  "no_room env nid active l \<longleftrightarrow>
     dom (segment_at l) \<subseteq> active \<and>
     (1024 \<le> length (ul_segments l) \<or>
      (\<exists>l4. 2097152 < ue_bytes env l4 \<and> dom (segment_at l4) = insert nid (dom (segment_at l))))"

lemma enforce_refused:
  "enforce_serialized_byte_limit env prot l = (False, l4) \<Longrightarrow>
   LIGHT_USAGE_LEDGER_BYTES_LIMIT < ue_bytes env l4 \<and> set (ul_order l4) \<subseteq> active_ids l4 \<union> set_option prot"
proof (induction env prot l rule: enforce_serialized_byte_limit.induct)
  case (1 env prot l)
  have big: "\<not> ue_bytes env l \<le> LIGHT_USAGE_LEDGER_BYTES_LIMIT"
    using 1(2) by (subst (asm) enforce_serialized_byte_limit.simps) (auto split: if_splits)
  show ?case
  proof (cases "evict_first (\<lambda>i. i \<notin> active_ids l \<and> prot \<noteq> Some i) l")
    case None
    then have "l4 = l" using 1(2) big by (subst (asm) enforce_serialized_byte_limit.simps) simp
    then show ?thesis using None big by (auto simp: evict_first_def find_None_iff)
  next
    case (Some l')
    then have "enforce_serialized_byte_limit env prot l' = (False, l4)"
      using 1(2) big by (subst (asm) enforce_serialized_byte_limit.simps) simp
    then show ?thesis by (rule 1(1)[OF big Some])
  qed
qed

lemma refused_no_room:
  assumes new: "new_segment env nid subject kind date source epoch counted l = (None, l')" and fresh: "segment_at l nid = None"
    and ok: "order_ok l" and len: "length (ul_segments l) \<le> 1024"
  shows "no_room env nid (active_ids l) l'"
proof -
  let ?s = "fresh_segment nid subject kind date source epoch counted"
  let ?l1 = "prune_closed_segments epoch l" and ?l2 = "room_made epoch l"
  have e1: "evicted {} l ?l1" by (rule prune_evicted)
  have ok1: "order_ok ?l1" and len1: "length (ul_segments ?l1) \<le> 1024" using e1 ok len by (simp_all add: evicted_def)
  have room: "evicted {} l ?l2" by (rule room_made_evicted)
  show ?thesis
  proof (cases "LIGHT_USAGE_SEGMENT_LIMIT \<le> length (ul_segments ?l2)")
    case True
    then have l': "l' = ?l2\<lparr>ul_dropped := sat_add (ul_dropped ?l2) 1\<rparr>" using new unfolding new_segment_eq Let_def by simp
    have full: "evict_first (\<lambda>i. i \<notin> active_ids ?l1) ?l1 = None"
    proof (rule ccontr)
      assume "evict_first (\<lambda>i. i \<notin> active_ids ?l1) ?l1 \<noteq> None"
      then obtain i where i: "find (\<lambda>i. i \<notin> active_ids ?l1) (ul_order ?l1) = Some i" by (auto simp: evict_first_def)
      then have "i \<in> set (ul_order ?l1)" by (auto simp: find_Some_iff)
      then have "i \<in> dom (segment_at ?l1)" using ok1 by (simp add: order_ok_def)
      then have "length (AList.delete i (ul_segments ?l1)) < length (ul_segments ?l1)"
        by (auto simp: dom_map_of_conv_image_fst AList.delete_eq intro: length_filter_less)
      then show False using True i len1 by (simp add: room_made_def Let_def evict_first_def drop_segment_def LIGHT_USAGE_SEGMENT_LIMIT_def split: if_splits)
    qed
    then have l2: "?l2 = ?l1" by (simp add: room_made_def Let_def)
    have "set (ul_order ?l1) \<subseteq> active_ids ?l1" using full by (auto simp: evict_first_def find_None_iff)
    then have "dom (segment_at ?l1) \<subseteq> active_ids l" using ok1 evicted_active[OF e1] by (simp add: order_ok_def)
    then show ?thesis using True by (simp add: no_room_def l' l2 LIGHT_USAGE_SEGMENT_LIMIT_def)
  next
    case False
    then obtain l4 where enf: "enforce_serialized_byte_limit env (Some nid) (inserted ?s ?l2) = (False, l4)"
      and l': "l' = drop_segment nid (l4\<lparr>ul_order := filter (\<lambda>i. i \<noteq> nid) (ul_order l4)\<rparr>)"
      using new unfolding new_segment_eq Let_def by (auto split: prod.splits bool.splits)
    have id: "us_id ?s = nid" by (simp add: fresh_segment_def)
    have ev: "evicted {nid} (inserted ?s ?l2) l4" using enforce_evicted[of "Some nid" "inserted ?s ?l2" env] enf by simp
    have none: "segment_at ?l2 nid = None" using fresh evicted_at[OF room, of nid] by auto
    have "order_ok ?l2" using room ok by (simp add: evicted_def)
    then have ok4: "order_ok l4" using ev order_ok_inserted[of ?l2 ?s] none by (simp add: evicted_def id)
    have act: "active_ids l4 = active_ids l"
      using evicted_active[OF ev] evicted_active[OF room] by (simp add: inserted_def active_ids_def)
    have "segment_at l4 nid = Some ?s" using evicted_fields(3)[OF ev, of nid] by (simp add: inserted_def update_conv' id)
    then have "dom (segment_at l4) = insert nid (dom (segment_at l'))" by (auto simp: l' drop_segment_def delete_conv' split: if_splits)
    moreover have "dom (segment_at l') \<subseteq> active_ids l"
      using conjunct2[OF enforce_refused[OF enf]] ok4 act by (auto simp: order_ok_def l' drop_segment_def delete_conv' split: if_splits)
    ultimately show ?thesis
      using conjunct1[OF enforce_refused[OF enf]] by (auto simp: no_room_def LIGHT_USAGE_LEDGER_BYTES_LIMIT_def)
  qed
qed

text \<open>The time with the light on that an interval is credited is off by at most the uncertainty it is given and one
millisecond, wherever in the interval the light changed; with a live source it is off by nothing if the change is
the observation itself.\<close>

theorem interval_error_bound:
  assumes "interval_credit was_on on False elapsed = (credited, uncertainty)"
    and "was_on \<noteq> on" and "x \<le> unat elapsed"
  defines "on_time \<equiv> (if was_on then x else unat elapsed - x)"
  shows "unat credited \<le> on_time + unat uncertainty + 1 \<and> on_time \<le> unat credited + unat uncertainty + 1 \<and>
     fst (interval_credit was_on on True elapsed) = (if was_on then elapsed else 0)"
  using assms by (auto simp: interval_credit_def Let_def unat_sat_sub unat_div_distrib on_time_def)

theorem interval_error_bound_witness:
  "interval_credit True False False 9 = (4, 4) \<and> 9 \<le> unat (4 :: u64) + unat (4 :: u64) + 1"
proof -
  have c: "interval_credit True False False 9 = (4, 4)" by code_simp
  then show ?thesis using interval_error_bound[OF c, of 9] by simp
qed

definition credited :: "usage_segment \<Rightarrow> usage_segment \<Rightarrow> nat \<Rightarrow> nat \<Rightarrow> nat \<Rightarrow> bool" where
  "credited s s' c o' u \<longleftrightarrow> unat (us_covered s') = unat (us_covered s) + c \<and> unat (us_on s') = unat (us_on s) + o' \<and>
     unat (us_uncertainty s') = unat (us_uncertainty s) + u \<and> us_subject s' = us_subject s \<and> us_date s' = us_date s"

lemma accrued_credited:
  assumes ok: "segment_ok i s" and le: "unat o' \<le> unat c" "unat u \<le> unat c" and fits: "unat (us_covered s) + unat c < 2 ^ 64"
  shows "credited s (accrued c o' u tr source epoch counted s) (unat c) (unat o') (unat u)"
proof -
  have s: "unat (us_on s) \<le> unat (us_covered s)" "unat (us_uncertainty s) \<le> unat (us_covered s)"
    using ok by (simp_all add: segment_ok_def word_le_nat_alt)
  have "unat (min a b) = min (unat a) (unat b)" for a b :: u64 by (simp add: min_def word_le_nat_alt)
  then show ?thesis using s le fits by (simp add: credited_def accrued_def Let_def unat_sat_add)
qed

lemma next_day_segment:
  assumes ord: "order_ok l1" and none: "segment_at l1 nid = None" and at1: "segment_at l1 j = Some s1" and ne: "j \<noteq> nid"
    and act: "j \<in> active_ids l1" and new: "new_segment env nid subject kind date source epoch False l1 = (r, l2)"
    and len: "length (ul_segments l1) \<le> 1024"
  shows "segment_at l2 j = Some s1 \<and>
         (r = None \<and> no_room env nid (active_ids l1) l2 \<or> r = Some nid \<and> segment_at l2 nid = Some (fresh_segment nid subject kind date source epoch False))"
proof (cases r)
  case None
  then have "evicted {} l1 l2" using new_segment_refused[OF _ none ord] new by blast
  then show ?thesis using None evicted_fields(3)[of "{}" l1 l2] act at1 refused_no_room[OF _ none ord len] new by auto
next
  case (Some i)
  let ?s = "fresh_segment nid subject kind date source epoch False"
  have i: "i = nid" and e: "extended ?s l1 l2" using Some new_segment_extended[of env nid] new none by auto
  have id: "us_id ?s = nid" by (simp add: fresh_segment_def)
  then show ?thesis using Some i extended_fields(2)[OF e] extended_fields(3)[OF e, of j] ne act at1 by auto
qed

lemma fresh_accrued:
  fixes o' :: u64
  assumes "unat o' \<le> unat c" and "unat u \<le> unat c"
  shows "\<exists>s2. accrued c o' u tr source epoch counted (fresh_segment nid subject kind date source epoch False) = s2 \<and>
           us_subject s2 = subject \<and> us_date s2 = date \<and> unat (us_covered s2) = unat c \<and> unat (us_on s2) = unat o' \<and>
           unat (us_uncertainty s2) = unat u"
proof -
  let ?s = "fresh_segment nid subject kind date source epoch False"
  have fits: "unat (us_covered ?s) + unat c < 2 ^ 64" using unsigned_less[of c, where ?'a = nat] by (simp add: fresh_segment_def)
  show ?thesis
    using accrued_credited[OF fresh_segment_ok assms fits, of tr source epoch counted]
    unfolding credited_def by (simp add: fresh_segment_def)
qed

lemma interval_same_day:
  assumes ok: "segment_ok (ub_segment prev) s" and s: "segment_at l (ub_segment prev) = Some s"
    and credit: "interval_credit (ub_on prev) on (is_live source) (as_millis (duration_since inst (ub_instant prev))) = (on_ms, uncertainty)"
    and fits: "unat (us_covered s) + unat (as_millis (duration_since inst (ub_instant prev))) < 2 ^ 64"
    and day: "ue_date env (ub_epoch prev) = ue_date env epoch"
  shows "\<exists>s1. segment_at (accrue_interval env nid subject kind on source inst epoch prev l) (ub_segment prev) = Some s1 \<and>
           credited s s1 (unat (as_millis (duration_since inst (ub_instant prev)))) (unat on_ms) (unat uncertainty)"
    and "baseline_at (accrue_interval env nid subject kind on source inst epoch prev l) subject =
           Some \<lparr>ub_on = on, ub_epoch = epoch, ub_instant = inst, ub_segment = ub_segment prev\<rparr>"
proof -
  show "baseline_at (accrue_interval env nid subject kind on source inst epoch prev l) subject =
      Some \<lparr>ub_on = on, ub_epoch = epoch, ub_instant = inst, ub_segment = ub_segment prev\<rparr>"
    using day by (simp add: accrue_interval_def credit Let_def mark_dirty_def update_conv')
  let ?e = "as_millis (duration_since inst (ub_instant prev))"
  have "credited s (accrued ?e on_ms uncertainty (ub_on prev \<noteq> on) source epoch True s) (unat ?e) (unat on_ms) (unat uncertainty)"
    by (rule accrued_credited[OF ok interval_credit_bounds[OF credit] fits])
  then show "\<exists>s1. segment_at (accrue_interval env nid subject kind on source inst epoch prev l) (ub_segment prev) = Some s1 \<and>
      credited s s1 (unat ?e) (unat on_ms) (unat uncertainty)"
    using day s by (simp add: accrue_interval_def credit Let_def accrue_segment_def hm_get_modify mark_dirty_def)
qed

text \<open>
  The share of an interval of \<open>e\<close> milliseconds before midnight, in proportion to the wall clock, and the time on
  in it: a change that was not observed live is taken to have happened in the middle.
\<close>

definition share_before :: "usage_env \<Rightarrow> u64 \<Rightarrow> u64 \<Rightarrow> nat \<Rightarrow> nat" where
  "share_before env start epoch e =
     (let total = max (unat epoch - unat start) 1;
          midnight = unat (unwrap_or (ue_midnight env start) epoch)
      in e * min (midnight - unat start) total div total)"

definition on_before :: "bool \<Rightarrow> bool \<Rightarrow> bool \<Rightarrow> nat \<Rightarrow> nat \<Rightarrow> nat" where
  "on_before was_on on live' e c =
     (if was_on = on \<or> live' then if was_on then c else 0 else if was_on then min c (e div 2) else c - e div 2)"

text \<open>What an observation leaves after midnight: a segment of the new day and the next interval in it, or neither.\<close>

definition next_day ::
    "usage_env \<Rightarrow> string \<Rightarrow> string \<Rightarrow> usage_baseline \<Rightarrow> string set \<Rightarrow> nat \<Rightarrow> nat \<Rightarrow> nat \<Rightarrow> usage_ledger \<Rightarrow> bool" where
  "next_day env nid subject b active c o' u l \<longleftrightarrow>
     baseline_at l subject = None \<and> no_room env nid active l \<or>
     baseline_at l subject = Some b \<and>
     (\<exists>s2. segment_at l nid = Some s2 \<and> us_subject s2 = subject \<and> us_date s2 = ue_date env (ub_epoch b) \<and>
        unat (us_covered s2) = c \<and> unat (us_on s2) = o' \<and> unat (us_uncertainty s2) = u)"

lemma interval_new_day:
  fixes env nid subject kind on source inst epoch prev l
  defines "l' \<equiv> accrue_interval env nid subject kind on source inst epoch prev l"
    and "e \<equiv> as_millis (duration_since inst (ub_instant prev))"
  assumes ok: "usage_ok l" and prev: "baseline_at l subject = Some prev" and s: "segment_at l (ub_segment prev) = Some s"
    and fresh: "segment_at l nid = None" and forward: "ub_epoch prev \<le> epoch"
    and credit: "interval_credit (ub_on prev) on (is_live source) e = (on_ms, uncertainty)"
    and fits: "unat (us_covered s) + unat e < 2 ^ 64"
    and day: "ue_date env (ub_epoch prev) \<noteq> ue_date env epoch"
  shows "\<exists>bu s1. let bc = share_before env (ub_epoch prev) epoch (unat e);
             bo = on_before (ub_on prev) on (is_live source) (unat e) bc in
           bc \<le> unat e \<and> bo \<le> unat on_ms \<and> bu \<le> unat uncertainty \<and> bo \<le> bc \<and> bu \<le> bc \<and>
           unat on_ms - bo \<le> unat e - bc \<and> unat uncertainty - bu \<le> unat e - bc \<and>
           segment_at l' (ub_segment prev) = Some s1 \<and> credited s s1 bc bo bu \<and>
           next_day env nid subject \<lparr>ub_on = on, ub_epoch = epoch, ub_instant = inst, ub_segment = nid\<rparr> (active_ids l)
             (unat e - bc) (unat on_ms - bo) (unat uncertainty - bu) l'"
proof -
  let ?total = "max (epoch - ub_epoch prev) 1"
  let ?boundary = "unwrap_or (ue_midnight env (ub_epoch prev)) epoch"
  let ?B = "min (sat_sub ?boundary (ub_epoch prev)) ?total"
  have wall: "wall_delta epoch (ub_epoch prev) = Some (epoch - ub_epoch prev)" using forward by (simp add: wall_delta_def)
  obtain bc bo bu bt where sp: "split_before (ub_on prev) on (is_live source) e ?total ?B = (bc, bo, bu, bt)"
    by (metis prod_cases4)
  have W: "?total \<noteq> 0" by (metis max.cobounded2 word_le_0_iff zero_neq_one)
  note b = split_before_bounds[OF credit sp min.cobounded2 W]
  have minmax: "unat (max x y) = max (unat x) (unat y)" "unat (min x y) = min (unat x) (unat y)" for x y :: u64
    by (simp_all add: max_def min_def word_le_nat_alt)
  have bc: "unat bc = share_before env (ub_epoch prev) epoch (unat e)"
    using split_before_exact(1)[OF sp min.cobounded2 W] forward
    by (simp add: share_before_def Let_def minmax unat_sat_sub unat_sub)
  have bo: "unat bo = on_before (ub_on prev) on (is_live source) (unat e) (unat bc)"
    using split_before_exact(2)[OF sp min.cobounded2 W] by (simp add: on_before_def)
  let ?s1 = "accrued bc bo bu bt source (sat_sub ?boundary 1) False s"
  let ?l1 = "accrue_segment (ub_segment prev) bc bo bu bt source (sat_sub ?boundary 1) False l"
  let ?b = "\<lparr>ub_on = on, ub_epoch = epoch, ub_instant = inst, ub_segment = nid\<rparr>"
  have sok: "segment_ok (ub_segment prev) s" using ok s by (simp add: usage_ok_def)
  have ne: "ub_segment prev \<noteq> nid" using s fresh by auto
  have cred1: "credited s ?s1 (unat bc) (unat bo) (unat bu)" by (rule accrued_credited[OF sok]) (use b fits in auto)
  have at1: "segment_at ?l1 (ub_segment prev) = Some ?s1" and none: "segment_at ?l1 nid = None"
    using s fresh ne by (simp_all add: accrue_segment_def hm_get_modify)
  have ids: "active_ids ?l1 = active_ids l" and act: "ub_segment prev \<in> active_ids ?l1"
    using baseline_active[OF prev] by (simp_all add: accrue_segment_def active_ids_def)
  have ord: "order_ok ?l1" and len: "length (ul_segments ?l1) \<le> 1024"
    using usage_ok_accrue[OF ok] by (simp_all add: usage_ok_def LIGHT_USAGE_SEGMENT_LIMIT_def)
  obtain r l2 where new: "new_segment env nid subject kind (ue_date env epoch) source epoch False ?l1 = (r, l2)" by fastforce
  note day2 = next_day_segment[OF ord none at1 ne act new len, unfolded ids]
  have "segment_at l' (ub_segment prev) = Some ?s1 \<and>
      next_day env nid subject ?b (active_ids l) (unat e - unat bc) (unat on_ms - unat bo) (unat uncertainty - unat bu) l'"
  proof (cases r)
    case None
    then have l': "l' = mark_dirty inst (l2\<lparr>ul_baselines := AList.delete subject (ul_baselines l2)\<rparr>)"
      by (simp add: l'_def accrue_interval_def credit[unfolded e_def] sp[unfolded e_def] wall new Let_def day)
    show ?thesis using day2 None by (simp add: l' next_day_def no_room_def mark_dirty_def delete_conv')
  next
    case (Some i)
    then have i: "i = nid" and at2: "segment_at l2 (ub_segment prev) = Some ?s1"
      "segment_at l2 nid = Some (fresh_segment nid subject kind (ue_date env epoch) source epoch False)" using day2 by auto
    let ?t = "ub_on prev \<noteq> on \<and> \<not> bt"
    let ?l3 = "accrue_segment nid (sat_sub e bc) (sat_sub on_ms bo) (sat_sub uncertainty bu) ?t source epoch True l2"
    have l': "l' = mark_dirty inst (?l3\<lparr>ul_force_checkpoint := True, ul_force_cloud := True,
        ul_baselines := AList.update subject ?b (ul_baselines ?l3)\<rparr>)"
      by (simp add: l'_def e_def accrue_interval_def credit[unfolded e_def] sp[unfolded e_def] wall new Some i Let_def day)
    let ?s2 = "accrued (sat_sub e bc) (sat_sub on_ms bo) (sat_sub uncertainty bu) ?t source epoch True
        (fresh_segment nid subject kind (ue_date env epoch) source epoch False)"
    have "segment_at l' nid = Some ?s2" "segment_at l' (ub_segment prev) = Some ?s1" "baseline_at l' subject = Some ?b"
      using at2 ne by (simp_all add: l' mark_dirty_def segment_at_accrue update_conv')
    moreover have "us_subject ?s2 = subject \<and> us_date ?s2 = ue_date env epoch \<and> unat (us_covered ?s2) = unat e - unat bc \<and>
        unat (us_on ?s2) = unat on_ms - unat bo \<and> unat (us_uncertainty ?s2) = unat uncertainty - unat bu"
      using fresh_accrued[of "sat_sub on_ms bo" "sat_sub e bc" "sat_sub uncertainty bu" ?t source epoch True nid subject kind "ue_date env epoch"] b
      by (simp only: unat_sat_sub) auto
    ultimately show ?thesis by (simp add: next_day_def)
  qed
  then show ?thesis using b cred1 unfolding Let_def bc[symmetric] bo[symmetric]
    by (intro exI[of _ "unat bu"] exI[of _ ?s1]) simp
qed

text \<open>C5: An observation that continues the last one credits the interval between them exactly once, and the next interval
starts where it ends. On one day the time covered, the time on and the uncertainty go to the segment of the last
observation, and the baseline of the subject becomes the new observation in that segment. Over midnight they are divided
between that segment and one of the new day without loss and without double counting, the time covered in proportion to
the wall clock before midnight and the time on by when the light changed, no part with more time on or more uncertainty
than time covered, and the baseline becomes the new observation in the new segment. Only when every segment left is in use
by an open subject, and there are 1024 of them or the ledger is too long for its file, is the subject closed instead. The
observation comes within the budget and without a step of the wall clock, and no counter is near its limit.\<close>

theorem interval_credited_exactly:
  fixes env nid subject kind on source inst epoch budget l prev
  defines "l' \<equiv> record_observation env nid subject kind on source inst epoch budget l"
    and "e \<equiv> as_millis (duration_since inst (ub_instant prev))"
  assumes reach: "usage_reachable env l" and prev: "baseline_at l subject = Some prev" and s: "segment_at l (ub_segment prev) = Some s"
    and kind: "us_kind s = kind" and valid: "valid_subject_id subject" and fresh: "segment_at l nid = None"
    and gap: "duration_since inst (ub_instant prev) \<le> budget"
    and wall: "\<not> wall_discontinuous (wall_delta epoch (ub_epoch prev)) e"
    and credit: "interval_credit (ub_on prev) on (is_live source) e = (on_ms, uncertainty)"
    and fits: "unat (us_covered s) + unat e < 2 ^ 64"
  shows "\<exists>c1 o1 u1 c2 o2 u2 s1.
     c1 + c2 = unat e \<and> o1 + o2 = unat on_ms \<and> u1 + u2 = unat uncertainty \<and>
     o1 \<le> c1 \<and> o2 \<le> c2 \<and> u1 \<le> c1 \<and> u2 \<le> c2 \<and>
     segment_at l' (ub_segment prev) = Some s1 \<and> credited s s1 c1 o1 u1 \<and>
     (if ue_date env (ub_epoch prev) = ue_date env epoch
      then c2 = 0 \<and>
        baseline_at l' subject = Some \<lparr>ub_on = on, ub_epoch = epoch, ub_instant = inst, ub_segment = ub_segment prev\<rparr>
      else c1 = share_before env (ub_epoch prev) epoch (unat e) \<and>
        o1 = on_before (ub_on prev) on (is_live source) (unat e) c1 \<and>
        next_day env nid subject \<lparr>ub_on = on, ub_epoch = epoch, ub_instant = inst, ub_segment = nid\<rparr> (active_ids l) c2 o2 u2 l')"
proof -
  have ok: "usage_ok l" using reach by (rule reachable_usage_ok)
  have rec: "l' = accrue_interval env nid subject kind on source inst epoch prev l"
    using valid prev s kind gap wall by (simp add: l'_def e_def record_observation_def Let_def)
  show ?thesis
  proof (cases "ue_date env (ub_epoch prev) = ue_date env epoch")
    case True
    have "segment_ok (ub_segment prev) s" using ok s by (simp add: usage_ok_def)
    note same = interval_same_day[OF this s credit[unfolded e_def] fits[unfolded e_def] True, folded e_def]
    from same(1) obtain s1 where "segment_at l' (ub_segment prev) = Some s1" "credited s s1 (unat e) (unat on_ms) (unat uncertainty)"
      unfolding rec by blast
    then show ?thesis using True same(2) interval_credit_bounds[OF credit] unfolding rec[symmetric]
      by (intro exI[of _ "unat e"] exI[of _ "unat on_ms"] exI[of _ "unat uncertainty"] exI[of _ 0] exI[of _ s1]) (simp add: rec)
  next
    case False
    have "ub_epoch prev \<le> epoch" using wall by (auto simp: wall_discontinuous_def wall_delta_def split: if_splits)
    from interval_new_day[OF ok prev s fresh this credit[unfolded e_def] fits[unfolded e_def] False, folded e_def, of kind]
    show ?thesis unfolding rec[symmetric] Let_def using False
      by (elim exE) (intro exI conjI; (elim conjE)?; (assumption | simp))
  qed
qed

definition demo_usage_env :: usage_env where
  "demo_usage_env = \<lparr>ue_bytes = (\<lambda>_. 0), ue_date = (\<lambda>t. if t < 86400000 then ''1970-01-01'' else ''1970-01-02''),
     ue_midnight = (\<lambda>_. Some 86400000), ue_valid_date = (\<lambda>_. True)\<rparr>"

definition demo_usage :: usage_ledger where
  "demo_usage = usage_step demo_usage_env (UObserve ''s1'' ''bulb'' Bulb True Periodic 0 86399000 60000000000) ledger_default"

lemma demo_usage_reachable: "usage_reachable demo_usage_env demo_usage"
  unfolding demo_usage_def by (rule usage_reachable.step[OF usage_reachable.new]) (simp add: ledger_default_def)

theorem interval_credited_exactly_witness:
  "\<exists>c1 c2 s1. c1 + c2 = 2000 \<and>
     segment_at (record_observation demo_usage_env ''s2'' ''bulb'' Bulb False Periodic 2000000000 86401000 60000000000 demo_usage) ''s1'' = Some s1 \<and>
     unat (us_covered s1) = c1"
proof -
  define prev where "prev = \<lparr>ub_on = True, ub_epoch = 86399000, ub_instant = 0, ub_segment = ''s1''\<rparr>"
  have p: "baseline_at demo_usage ''bulb'' = Some prev" unfolding prev_def by code_simp
  define s where "s = fresh_segment ''s1'' ''bulb'' Bulb ''1970-01-01'' Periodic 86399000 True"
  have s: "segment_at demo_usage (ub_segment prev) = Some s" unfolding prev_def s_def by code_simp
  have e: "as_millis (duration_since 2000000000 (ub_instant prev)) = 2000" unfolding prev_def by code_simp
  have k: "us_kind s = Bulb" and c: "unat (us_covered s) = 0" by (simp_all add: s_def fresh_segment_def)
  have v: "valid_subject_id ''bulb''" and f: "segment_at demo_usage ''s2'' = None" by code_simp+
  have g: "duration_since 2000000000 (ub_instant prev) \<le> 60000000000" unfolding prev_def by code_simp
  have w: "\<not> wall_discontinuous (wall_delta 86401000 (ub_epoch prev)) (as_millis (duration_since 2000000000 (ub_instant prev)))"
    unfolding prev_def by code_simp
  have cr: "interval_credit (ub_on prev) False (is_live Periodic) (as_millis (duration_since 2000000000 (ub_instant prev))) = (1000, 1000)"
    unfolding prev_def by code_simp
  have fits: "unat (us_covered s) + unat (as_millis (duration_since 2000000000 (ub_instant prev))) < 2 ^ 64" by (simp add: e c)
  have u: "ub_segment prev = ''s1''" by (simp add: prev_def)
  obtain c1 c2 s1 where "c1 + c2 = unat (as_millis (duration_since 2000000000 (ub_instant prev)))"
      "segment_at (record_observation demo_usage_env ''s2'' ''bulb'' Bulb False Periodic 2000000000 86401000 60000000000 demo_usage) (ub_segment prev) = Some s1"
      "unat (us_covered s1) = unat (us_covered s) + c1"
    using interval_credited_exactly[OF demo_usage_reachable p s k v f g w cr fits] unfolding Let_def credited_def by blast
  then show ?thesis unfolding u c e by (intro exI[of _ c1] exI[of _ c2] exI[of _ s1]) simp
qed

text \<open>C36: In every reachable ledger, whatever is loaded, observed, uploaded and saved, each segment is filed under its
identifier, has no more time on and no more uncertainty than time covered and is not ahead of itself at the cloud;
the order of eviction lists exactly the segments, each once; every open subject has a segment of its own; and there
are at most 1024 segments.\<close>

theorem usage_invariant:
  assumes "usage_reachable env l"
  shows "(\<forall>i s. segment_at l i = Some s \<longrightarrow>
       us_id s = i \<and> us_on s \<le> us_covered s \<and> us_uncertainty s \<le> us_covered s \<and> us_synced s \<le> us_revision s) \<and>
     distinct (ul_order l) \<and> set (ul_order l) = dom (segment_at l) \<and>
     (\<forall>subject b. baseline_at l subject = Some b \<longrightarrow> (\<exists>s. segment_at l (ub_segment b) = Some s \<and> us_subject s = subject)) \<and>
     length (ul_segments l) \<le> 1024"
  using reachable_usage_ok[OF assms] unfolding usage_ok_def order_ok_def segment_ok_def LIGHT_USAGE_SEGMENT_LIMIT_def by blast

theorem usage_invariant_witness: "set (ul_order demo_usage) = dom (segment_at demo_usage) \<and> ul_order demo_usage = [''s1'']"
proof
  show "set (ul_order demo_usage) = dom (segment_at demo_usage)" using usage_invariant[OF demo_usage_reachable] by blast
  show "ul_order demo_usage = [''s1'']" by code_simp
qed

end
