(* ===== verification/LightUsageCloud.thy ===== *)
theory LightUsageCloud
  imports LightUsageInvariant
begin

text \<open>The upload of the usage ledger and its checkpoints: what is reported as uploaded or saved really was.\<close>

section \<open>The backlog\<close>

definition ack_one :: "string \<Rightarrow> upload_segment \<Rightarrow> usage_segment \<Rightarrow> usage_segment" where
  "ack_one i u s = (if i = up_id u then s\<lparr>us_synced := max (us_synced s) (min (up_revision u) (us_revision s))\<rparr> else s)"

lemma acknowledge_one: "acknowledge u m = map (\<lambda>(i, s). (i, ack_one i u s)) m"
  by (simp add: acknowledge_def hm_modify_def ack_one_def)

lemma acknowledge_keyed:
  "fold acknowledge us m = map (\<lambda>(i, s). (i, fold (ack_one i) us s)) m"
proof (induction us arbitrary: m)
  case (Cons u us)
  show ?case unfolding fold_simps Cons.IH by (simp add: acknowledge_one split_def)
qed simp

lemma fold_other:
  "\<forall>u \<in> set us. up_id u \<noteq> i \<Longrightarrow>
   fold (ack_one i) us s = s"
  by (induction us arbitrary: s) (auto simp: ack_one_def)

lemma fold_one:
  "distinct (map up_id us) \<Longrightarrow> u \<in> set us \<Longrightarrow> up_id u = i \<Longrightarrow>
   fold (ack_one i) us s =
     s\<lparr>us_synced := max (us_synced s) (min (up_revision u) (us_revision s))\<rparr>"
proof (induction us arbitrary: s)
  case (Cons v us)
  show ?case
  proof (cases "v = u")
    case True
    then have "\<forall>w \<in> set us. up_id w \<noteq> i" using Cons.prems by (metis distinct.simps(2) image_eqI list.set_map list.simps(9))
    moreover have "ack_one i v s = s\<lparr>us_synced := max (us_synced s) (min (up_revision u) (us_revision s))\<rparr>"
      using Cons.prems True by (simp add: ack_one_def)
    ultimately show ?thesis by (simp add: fold_other)
  next
    case False
    then have "up_id v \<noteq> i" "u \<in> set us" using Cons.prems by auto
    then show ?thesis using Cons by (simp add: ack_one_def)
  qed
qed simp

lemma dirty_segments_set:
  "usage_ok l \<Longrightarrow> s \<in> set (dirty_segments l) \<longleftrightarrow> segment_at l (us_id s) = Some s \<and> segment_dirty s"
proof -
  assume ok: "usage_ok l"
  have hm: "hm_ok (ul_segments l)" using ok by (simp add: usage_ok_def order_ok_def)
  have ids: "us_id s = i" if "(i, s) \<in> set (ul_segments l)" for i
  proof -
    have "segment_at l i = Some s" using that hm by (simp add: map_of_eq_Some_iff)
    then show ?thesis using ok by (simp add: usage_ok_def segment_ok_def)
  qed
  have "s \<in> set (dirty_segments l) \<longleftrightarrow> (\<exists>i. (i, s) \<in> set (ul_segments l)) \<and> segment_dirty s"
    by (force simp: dirty_segments_def)
  also have "\<dots> \<longleftrightarrow> (us_id s, s) \<in> set (ul_segments l) \<and> segment_dirty s" using ids by blast
  finally show ?thesis by (simp only: map_of_eq_Some_iff[OF hm])
qed

lemma dirty_segments_ids: "usage_ok l \<Longrightarrow> distinct (map us_id (dirty_segments l))"
proof -
  assume ok: "usage_ok l"
  have ids: "map us_id (map snd (ul_segments l)) = map fst (ul_segments l)"
    unfolding map_map by (rule map_cong) (use ok in \<open>auto simp: usage_ok_def segment_ok_def order_ok_def map_of_eq_Some_iff\<close>)
  have "distinct (map us_id (map snd (ul_segments l)))" unfolding ids using ok by (simp add: usage_ok_def order_ok_def)
  then have "distinct (map us_id (filter segment_dirty (map snd (ul_segments l))))" by (rule distinct_map_filter)
  moreover have "mset (map us_id (dirty_segments l)) = mset (map us_id (filter segment_dirty (map snd (ul_segments l))))"
    by (simp add: dirty_segments_def)
  ultimately show ?thesis using mset_eq_imp_distinct_iff by blast
qed

lemma any_dirty_iff: "any_dirty l \<longleftrightarrow> dirty_segments l \<noteq> []"
proof -
  have "set (dirty_segments l) = set (filter segment_dirty (map snd (ul_segments l)))" by (simp add: dirty_segments_def)
  then show ?thesis by (simp add: any_dirty_def list_ex_iff flip: set_empty) force
qed

lemma dirty_segments_same: "ul_segments l' = ul_segments l \<Longrightarrow> dirty_segments l' = dirty_segments l"
  by (simp add: dirty_segments_def)

text \<open>Acknowledging a batch of dirty segments as they are removes exactly these from the backlog.\<close>

lemma filter_set_take: "distinct xs \<Longrightarrow> filter (\<lambda>x. x \<notin> set (take n xs)) xs = drop n xs"
proof -
  assume d: "distinct xs"
  have disj: "set (take n xs) \<inter> set (drop n xs) = {}" using d by (metis append_take_drop_id distinct_append)
  have "filter (\<lambda>x. x \<notin> set (take n xs)) (take n xs) = []" by (rule filter_False) blast
  moreover have "filter (\<lambda>x. x \<notin> set (take n xs)) (drop n xs) = drop n xs" by (rule filter_True) (use disj in blast)
  ultimately have "filter (\<lambda>x. x \<notin> set (take n xs)) (take n xs @ drop n xs) = drop n xs" unfolding filter_append by simp
  then show ?thesis by (simp only: append_take_drop_id)
qed

lemma acknowledged_backlog:
  assumes ok: "usage_ok l"
  shows "dirty_segments (l\<lparr>ul_segments := fold acknowledge (map upload_of (take n (dirty_segments l))) (ul_segments l)\<rparr>) = drop n (dirty_segments l)"
proof -
  let ?ds = "dirty_segments l"
  let ?us = "map upload_of (take n ?ds)"
  let ?ack = "\<lambda>(i, s). fold (ack_one i) ?us s"
  have dist: "distinct ?ds" and ids: "distinct (map us_id ?ds)" using dirty_segments_ids[OF ok] by (auto simp: distinct_map)
  have "map up_id ?us = take n (map us_id ?ds)" by (simp add: upload_of_def comp_def take_map)
  then have uid: "distinct (map up_id ?us)" using ids by (simp add: distinct_take)
  have one: "?ack (i, s) = s \<or> s \<in> set (take n ?ds) \<and> \<not> segment_dirty (?ack (i, s))"
    and kept: "s \<notin> set (take n ?ds) \<Longrightarrow> ?ack (i, s) = s" and hit: "s \<in> set (take n ?ds) \<Longrightarrow> \<not> segment_dirty (?ack (i, s))"
    if mem: "(i, s) \<in> set (ul_segments l)" for i s
  proof -
    have i: "us_id s = i" and sync: "us_synced s \<le> us_revision s" and at: "segment_at l i = Some s"
      using ok mem by (auto simp: usage_ok_def segment_ok_def order_ok_def map_of_eq_Some_iff)
    show hit': "s \<in> set (take n ?ds) \<Longrightarrow> \<not> segment_dirty (?ack (i, s))"
    proof -
      assume "s \<in> set (take n ?ds)"
      then have "upload_of s \<in> set ?us" by simp
      then have "?ack (i, s) = s\<lparr>us_synced := max (us_synced s) (min (us_revision s) (us_revision s))\<rparr>"
        using fold_one[OF uid, of "upload_of s" i s] i by (simp add: upload_of_def)
      then show ?thesis using sync by (simp add: segment_dirty_def max_def)
    qed
    show kept': "?ack (i, s) = s" if nt: "s \<notin> set (take n ?ds)"
    proof -
      have "up_id u \<noteq> i" if u: "u \<in> set ?us" for u
      proof
        assume ui: "up_id u = i"
        obtain s' where s': "s' \<in> set (take n ?ds)" "u = upload_of s'" using u by auto
        then have "segment_at l (us_id s') = Some s'" using dirty_segments_set[OF ok, of s'] by (auto dest: in_set_takeD)
        moreover have "us_id s' = i" using s' ui by (simp add: upload_of_def)
        ultimately show False using at s' nt by simp
      qed
      then show ?thesis by (simp add: fold_other)
    qed
    show "?ack (i, s) = s \<or> s \<in> set (take n ?ds) \<and> \<not> segment_dirty (?ack (i, s))" using hit' kept' by blast
  qed
  have filt: "filter segment_dirty (map ?ack xs) = filter (\<lambda>s. s \<notin> set (take n ?ds)) (filter segment_dirty (map snd xs))"
    if "set xs \<subseteq> set (ul_segments l)" for xs
    using that
  proof (induction xs)
    case (Cons p xs)
    obtain i s where p: "p = (i, s)" by fastforce
    then have mem: "(i, s) \<in> set (ul_segments l)" using Cons.prems by simp
    show ?case using Cons kept[OF mem] hit[OF mem] by (cases "s \<in> set (take n ?ds)") (auto simp: p simp del: fold_simps)
  qed simp
  have "map snd (fold acknowledge ?us (ul_segments l)) = map ?ack (ul_segments l)"
    unfolding acknowledge_keyed by (simp add: split_def)
  then have "dirty_segments (l\<lparr>ul_segments := fold acknowledge ?us (ul_segments l)\<rparr>) =
      sort_key (\<lambda>s. (us_date s, us_id s)) (filter segment_dirty (map ?ack (ul_segments l)))"
    unfolding dirty_segments_def[of "l\<lparr>ul_segments := fold acknowledge ?us (ul_segments l)\<rparr>"] by simp
  also have "\<dots> = filter (\<lambda>s. s \<notin> set (take n ?ds)) (sort_key (\<lambda>s. (us_date s, us_id s)) (filter segment_dirty (map snd (ul_segments l))))"
    unfolding filt[OF subset_refl] by (rule filter_sort[symmetric])
  also have "\<dots> = filter (\<lambda>s. s \<notin> set (take n ?ds)) ?ds" by (simp only: dirty_segments_def)
  finally have "dirty_segments (l\<lparr>ul_segments := fold acknowledge ?us (ul_segments l)\<rparr>) = filter (\<lambda>s. s \<notin> set (take n ?ds)) ?ds" .
  then show ?thesis by (simp add: filter_set_take[OF dist])
qed

section \<open>Draining the backlog\<close>

text \<open>A round of the uploader whose batch the cloud acknowledges.\<close>

definition upload_round :: "string \<times> instant \<times> u64 \<Rightarrow> usage_ledger \<Rightarrow> usage_ledger" where
  "upload_round = (\<lambda>(bid, now, epoch) l.
     (case begin_cloud_upload bid now epoch l of
        (None, l1) \<Rightarrow> l1
      | (Some batch, l1) \<Rightarrow> complete_cloud_upload batch True now epoch l1))"

lemma upload_round_idle: "dirty_segments l = [] \<Longrightarrow> upload_round r l = l"
  by (cases r) (simp add: upload_round_def begin_cloud_upload_def cloud_upload_due_def any_dirty_iff)

lemma upload_round_backlog:
  assumes ok: "usage_ok l" and idle: "\<not> ul_uploading l" and due: "ul_force_cloud l" and dirty: "dirty_segments l \<noteq> []"
  shows "dirty_segments (upload_round r l) = drop 512 (dirty_segments l)"
    and "usage_ok (upload_round r l)" and "\<not> ul_uploading (upload_round r l)"
    and "ul_force_cloud (upload_round r l) \<longleftrightarrow> dirty_segments (upload_round r l) \<noteq> []"
proof -
  obtain bid now epoch where r: "r = (bid, now, epoch)" by (cases r)
  let ?segs = "fold acknowledge (map upload_of (take 512 (dirty_segments l))) (ul_segments l)"
  have same: "dirty_segments (l\<lparr>ul_cloud_anchor := a, ul_pending := p\<rparr>) = dirty_segments l" for a p
    by (rule dirty_segments_same) simp
  have round: "ul_segments (upload_round r l) = ?segs \<and> ul_order (upload_round r l) = ul_order l \<and>
      ul_baselines (upload_round r l) = ul_baselines l \<and> \<not> ul_uploading (upload_round r l) \<and>
      ul_force_cloud (upload_round r l) = any_dirty (upload_round r l)"
    using idle due dirty any_dirty_iff[of l]
    by (simp add: r upload_round_def begin_cloud_upload_def cloud_upload_due_def complete_cloud_upload_def mark_dirty_def
        same LIGHT_USAGE_CLOUD_BATCH_LIMIT_def Let_def any_dirty_def)
  have "dirty_segments (upload_round r l) = dirty_segments (l\<lparr>ul_segments := ?segs\<rparr>)"
    by (rule dirty_segments_same) (simp add: round)
  then show drop: "dirty_segments (upload_round r l) = drop 512 (dirty_segments l)" by (simp add: acknowledged_backlog[OF ok])
  show "usage_ok (upload_round r l)"
    by (rule usage_ok_same[OF usage_ok_acknowledged[OF ok, of "map upload_of (take 512 (dirty_segments l))"]]) (simp_all add: round)
  show "\<not> ul_uploading (upload_round r l)" using round by blast
  show "ul_force_cloud (upload_round r l) \<longleftrightarrow> dirty_segments (upload_round r l) \<noteq> []" using round any_dirty_iff by blast
qed

lemma upload_rounds_backlog:
  "usage_ok l \<Longrightarrow> \<not> ul_uploading l \<Longrightarrow> (dirty_segments l \<noteq> [] \<Longrightarrow> ul_force_cloud l) \<Longrightarrow>
   dirty_segments (fold upload_round rs l) = drop (512 * length rs) (dirty_segments l)"
proof (induction rs arbitrary: l)
  case (Cons r rs)
  show ?case
  proof (cases "dirty_segments l = []")
    case True
    then show ?thesis using Cons.IH[OF Cons.prems] by (simp add: upload_round_idle)
  next
    case False
    note b = upload_round_backlog[OF Cons.prems(1,2) Cons.prems(3)[OF False] False]
    show ?thesis using Cons.IH[OF b(2,3)] b(1,4) by (simp add: ac_simps)
  qed
qed simp

text \<open>C37: The backlog drains: once an upload is forced, each round that the cloud acknowledges uploads the 512 segments that are
oldest by day and is followed by another, until every segment is acknowledged; after as many rounds as the backlog
has batches nothing is left to upload.\<close>

theorem backlog_drains:
  assumes "usage_reachable env l" and "\<not> ul_uploading l" and "ul_force_cloud l"
  shows "dirty_segments (fold upload_round rs l) = drop (512 * length rs) (dirty_segments l) \<and>
     (length (dirty_segments l) \<le> 512 * length rs \<longrightarrow> \<not> any_dirty (fold upload_round rs l))"
  using upload_rounds_backlog[of l rs] reachable_usage_ok[OF assms(1)] assms(2,3) by (simp add: any_dirty_iff)

definition usage_demo_env :: usage_env where
  "usage_demo_env = \<lparr>ue_bytes = (\<lambda>_. 0), ue_date = (\<lambda>_. ''1970-01-01''), ue_midnight = (\<lambda>_. Some 86400000), ue_valid_date = (\<lambda>_. True)\<rparr>"

definition usage_demo :: usage_ledger where
  "usage_demo = usage_step usage_demo_env (UForceUpload 0)
     (usage_step usage_demo_env (UObserve ''s1'' ''bulb'' Bulb True Periodic 0 1000 60000000000) ledger_default)"

lemma usage_demo_reachable: "usage_reachable usage_demo_env usage_demo"
  unfolding usage_demo_def
  by (intro usage_reachable.step usage_reachable.new) (simp_all add: ledger_default_def)

theorem backlog_drains_witness: "any_dirty usage_demo \<and> \<not> any_dirty (upload_round (''b'', 0, 2000) usage_demo)"
proof
  show "any_dirty usage_demo" by code_simp
  have "\<not> ul_uploading usage_demo" and "ul_force_cloud usage_demo" and "length (dirty_segments usage_demo) \<le> 512 * length [(''b'', 0 :: int, 2000 :: u64)]"
    by code_simp+
  then show "\<not> any_dirty (upload_round (''b'', 0, 2000) usage_demo)"
    using backlog_drains[OF usage_demo_reachable, of "[(''b'', 0, 2000)]"] by simp
qed

end
