(* ===== verification/LightUsageSync.thy ===== *)
theory LightUsageSync
  imports LightUsageCloud
begin

text \<open>
  What the ledger takes as uploaded or saved, while observations go on between the start and the end of an upload or
  of a checkpoint.
\<close>

definition usage_run :: "usage_env \<Rightarrow> usage_event list \<Rightarrow> usage_ledger \<Rightarrow> usage_ledger" where
  "usage_run env es l = fold (usage_step env) es l"

abbreviation run_allowed :: "usage_env \<Rightarrow> usage_event list \<Rightarrow> usage_ledger \<Rightarrow> bool" where
  "run_allowed env \<equiv> run_guarded usage_allowed (usage_step env)"

lemma usage_run_simps [simp]:
  "usage_run env [] l = l" "usage_run env (e # es) l = usage_run env es (usage_step env e l)"
  by (simp_all add: usage_run_def)

lemma usage_run_ok: "usage_ok l \<Longrightarrow> run_allowed env es l \<Longrightarrow> usage_ok (usage_run env es l)"
  unfolding usage_run_def by (rule usage_steps.run_keeps)

section \<open>What a step does to a segment\<close>

definition touched :: "usage_segment option \<Rightarrow> usage_segment option \<Rightarrow> bool" where
  "touched s s' \<longleftrightarrow> s' = None \<or> s' = s \<or>
     (\<exists>s0 c o' u tr source epoch counted. s = Some s0 \<and> s' = Some (accrued c o' u tr source epoch counted s0))"

lemma touched_refl [simp]: "touched s s" and touched_None [simp]: "touched s None"
  by (simp_all add: touched_def)

lemma touched_accrue: "touched (segment_at l i) (segment_at (accrue_segment j c o' u tr source epoch counted l) i)"
proof (cases "i = j")
  case True
  then show ?thesis by (cases "segment_at l i") (simp_all add: segment_at_accrue touched_def, blast)
qed (simp add: segment_at_accrue)

lemma touched_evicted: "evicted keep l l' \<Longrightarrow> touched s (segment_at l i) \<Longrightarrow> touched s (segment_at l' i)"
  using evicted_at[of keep l l' i] by auto

lemma touched_extended: "extended s0 l l' \<Longrightarrow> i \<noteq> us_id s0 \<Longrightarrow> touched s (segment_at l i) \<Longrightarrow> touched s (segment_at l' i)"
  using extended_fields(3)[of s0 l l' i] by auto

lemma touched_new_segment:
  assumes new: "new_segment env nid subject kind date source epoch counted l = (r, l')" and fresh: "segment_at l nid = None"
    and ok: "order_ok l" and i: "i \<noteq> nid" and t: "touched s (segment_at l i)"
  shows "touched s (segment_at l' i)"
proof (cases r)
  case None
  then show ?thesis using touched_evicted[OF new_segment_refused[OF _ fresh ok] t] new by simp
next
  case (Some j)
  then have "extended (fresh_segment nid subject kind date source epoch counted) l l'"
    using new_segment_extended[of env nid] new fresh by simp
  then show ?thesis by (rule touched_extended) (use i t in \<open>simp_all add: fresh_segment_def\<close>)
qed

lemma touched_start:
  assumes fresh: "segment_at l nid = None" and ok: "order_ok l" and i: "i \<noteq> nid"
  shows "touched (segment_at l i) (segment_at (start_baseline env nid subject kind on source inst epoch l) i)"
proof -
  obtain r l1 where new: "new_segment env nid subject kind (ue_date env epoch) source epoch True l = (r, l1)" by fastforce
  have "touched (segment_at l i) (segment_at l1 i)" by (rule touched_new_segment[OF new fresh ok i]) simp
  then show ?thesis by (simp add: start_baseline_def new mark_dirty_def split: option.split)
qed

lemma touched_interval:
  assumes fresh: "segment_at l nid = None" and ok: "order_ok l" and i: "i \<noteq> nid" and p: "ub_segment prev \<noteq> nid"
  shows "touched (segment_at l i) (segment_at (accrue_interval env nid subject kind on source inst epoch prev l) i)"
proof -
  have none: "segment_at (accrue_segment (ub_segment prev) c o' u tr source epoch counted l) nid = None"
    and ord: "order_ok (accrue_segment (ub_segment prev) c o' u tr source epoch counted l)" for c o' u tr epoch counted
    using fresh p ok by (simp add: segment_at_accrue, simp add: order_ok_def accrue_segment_def)
  obtain on_ms uncertainty where cr: "interval_credit (ub_on prev) on (is_live source) (as_millis (duration_since inst (ub_instant prev))) = (on_ms, uncertainty)"
    by fastforce
  show ?thesis
  proof (cases "ue_date env (ub_epoch prev) = ue_date env epoch")
    case True
    then show ?thesis using touched_accrue by (simp add: accrue_interval_def cr Let_def mark_dirty_def)
  next
    case False
    let ?elapsed = "as_millis (duration_since inst (ub_instant prev))"
    let ?total = "max (unwrap_or (wall_delta epoch (ub_epoch prev)) ?elapsed) 1"
    let ?boundary = "unwrap_or (ue_midnight env (ub_epoch prev)) epoch"
    obtain bc bo bu bt where sp: "split_before (ub_on prev) on (is_live source) ?elapsed ?total (min (sat_sub ?boundary (ub_epoch prev)) ?total) = (bc, bo, bu, bt)"
      by (metis prod_cases4)
    let ?l1 = "accrue_segment (ub_segment prev) bc bo bu bt source (sat_sub ?boundary 1) False l"
    obtain r l2 where new: "new_segment env nid subject kind (ue_date env epoch) source epoch False ?l1 = (r, l2)" by fastforce
    have t: "touched (segment_at l i) (segment_at l2 i)" by (rule touched_new_segment[OF new none ord i touched_accrue])
    show ?thesis
    proof (cases r)
      case None
      then show ?thesis using t by (simp add: accrue_interval_def cr Let_def sp new False mark_dirty_def)
    next
      case (Some j)
      then have "j = nid" using new_segment_extended[OF new[unfolded Some] none] by blast
      then show ?thesis using t i by (simp add: accrue_interval_def cr Let_def sp new False Some mark_dirty_def segment_at_accrue)
    qed
  qed
qed

lemma touched_observation:
  assumes ok: "usage_ok l" and fresh: "segment_at l nid = None" and i: "i \<noteq> nid"
  shows "touched (segment_at l i) (segment_at (record_observation env nid subject kind on source inst epoch budget l) i)"
proof -
  have ord: "order_ok l" using ok by (simp add: usage_ok_def)
  have ord': "order_ok (l\<lparr>ul_discontinuities := d\<rparr>)" for d using ord by (simp add: order_ok_def)
  have start: "touched (segment_at l i) (segment_at (start_baseline env nid subject kind on source inst epoch (l\<lparr>ul_discontinuities := d\<rparr>)) i)" for d
    using touched_start[of "l\<lparr>ul_discontinuities := d\<rparr>" nid i] fresh i ord' by simp
  have "ub_segment prev \<noteq> nid" if "baseline_at l subject = Some prev" for prev
    using ok that fresh unfolding usage_ok_def by force
  then show ?thesis using touched_start[OF fresh ord i] start touched_interval[OF fresh ord i]
    by (simp add: record_observation_def Let_def split: option.split)
qed

section \<open>Uploads\<close>

text \<open>The events that can come while an upload is on its way.\<close>

fun during_upload :: "usage_event \<Rightarrow> bool" where
  "during_upload (UUnavailable _ _) = False"
| "during_upload (UBeginUpload _ _ _) = False"
| "during_upload (UCompleteUpload _ _ _ _) = False"
| "during_upload (UFailUpload _ _) = False"
| "during_upload _ = True"

fun new_ids :: "usage_event \<Rightarrow> string set" where
  "new_ids (UObserve nid _ _ _ _ _ _ _) = {nid}"
| "new_ids _ = {}"

lemma touched_snapshot: "touched (segment_at l i) (segment_at (snd (persisted_snapshot env epoch l)) i)"
  using touched_evicted[OF enforce_evicted touched_refl] by (simp add: persisted_snapshot_def Let_def)

text \<open>An observation leaves the state of uploads and checkpoints alone, and either changes nothing or marks the ledger.\<close>

definition framed :: "usage_ledger \<Rightarrow> usage_ledger \<Rightarrow> bool" where
  "framed l l' \<longleftrightarrow> ul_pending l' = ul_pending l \<and> ul_checkpointing l' = ul_checkpointing l \<and> ul_generation l' = ul_generation l"

lemma framed_new_segment:
  assumes new: "new_segment env nid subject kind date source epoch counted l = (r, l')"
    and fresh: "segment_at l nid = None" and ok: "order_ok l"
  shows "framed l l'"
proof (cases r)
  case None
  then have "evicted {} l l'" using new_segment_refused[OF _ fresh ok] new by blast
  then show ?thesis by (cases l; cases l') (simp add: evicted_def framed_def)
next
  case (Some j)
  then have "extended (fresh_segment nid subject kind date source epoch counted) l l'"
    using new_segment_extended[OF _ fresh] new by blast
  then show ?thesis by (cases l; cases l') (simp add: extended_def framed_def)
qed

definition marked :: "usage_ledger \<Rightarrow> usage_ledger \<Rightarrow> bool" where
  "marked l l' \<longleftrightarrow> ul_pending l' = ul_pending l \<and> ul_checkpointing l' = ul_checkpointing l \<and>
     ul_generation l' = sat_add (ul_generation l) 1 \<and> ul_dirty l'"

lemma marked_start:
  assumes "segment_at l nid = None" and "order_ok l"
  shows "marked l (start_baseline env nid subject kind on source inst epoch l)"
proof -
  obtain r l1 where new: "new_segment env nid subject kind (ue_date env epoch) source epoch True l = (r, l1)" by fastforce
  from framed_new_segment[OF new assms] show ?thesis
    by (simp add: start_baseline_def new mark_dirty_def marked_def framed_def split: option.split)
qed

lemma marked_interval:
  assumes fresh: "segment_at l nid = None" and ok: "order_ok l" and p: "ub_segment prev \<noteq> nid"
  shows "marked l (accrue_interval env nid subject kind on source inst epoch prev l)"
proof -
  have none: "segment_at (accrue_segment (ub_segment prev) c o' u tr source epoch counted l) nid = None"
    and ord: "order_ok (accrue_segment (ub_segment prev) c o' u tr source epoch counted l)" for c o' u tr epoch counted
    using fresh p ok by (simp add: segment_at_accrue, simp add: order_ok_def accrue_segment_def)
  obtain on_ms uncertainty where cr: "interval_credit (ub_on prev) on (is_live source) (as_millis (duration_since inst (ub_instant prev))) = (on_ms, uncertainty)"
    by fastforce
  show ?thesis
  proof (cases "ue_date env (ub_epoch prev) = ue_date env epoch")
    case True
    then show ?thesis by (simp add: accrue_interval_def cr Let_def mark_dirty_def marked_def accrue_segment_def)
  next
    case False
    let ?elapsed = "as_millis (duration_since inst (ub_instant prev))"
    let ?total = "max (unwrap_or (wall_delta epoch (ub_epoch prev)) ?elapsed) 1"
    let ?boundary = "unwrap_or (ue_midnight env (ub_epoch prev)) epoch"
    obtain bc bo bu bt where sp: "split_before (ub_on prev) on (is_live source) ?elapsed ?total (min (sat_sub ?boundary (ub_epoch prev)) ?total) = (bc, bo, bu, bt)"
      by (metis prod_cases4)
    let ?l1 = "accrue_segment (ub_segment prev) bc bo bu bt source (sat_sub ?boundary 1) False l"
    obtain r l2 where new: "new_segment env nid subject kind (ue_date env epoch) source epoch False ?l1 = (r, l2)" by fastforce
    have "framed ?l1 l2" by (rule framed_new_segment[OF new none ord])
    then have "framed l l2" by (simp add: framed_def accrue_segment_def)
    then show ?thesis
      by (simp add: accrue_interval_def cr Let_def sp new False mark_dirty_def marked_def framed_def split: option.split)
        (simp add: accrue_segment_def)
  qed
qed

lemma observation_marked:
  assumes ok: "usage_ok l" and fresh: "segment_at l nid = None"
  shows "record_observation env nid subject kind on source inst epoch budget l = l \<or>
     marked l (record_observation env nid subject kind on source inst epoch budget l)"
proof -
  have ord: "order_ok l" using ok by (simp add: usage_ok_def)
  have start: "marked l (start_baseline env nid subject kind on source inst epoch (l\<lparr>ul_discontinuities := d\<rparr>))" for d
  proof -
    have "marked (l\<lparr>ul_discontinuities := d\<rparr>) (start_baseline env nid subject kind on source inst epoch (l\<lparr>ul_discontinuities := d\<rparr>))"
      by (rule marked_start) (use fresh ord in \<open>simp_all add: order_ok_def\<close>)
    then show ?thesis by (simp add: marked_def)
  qed
  have "ub_segment prev \<noteq> nid" if "baseline_at l subject = Some prev" for prev
    using ok that fresh unfolding usage_ok_def by force
  then show ?thesis using marked_start[OF fresh ord] start marked_interval[OF fresh ord]
    by (simp add: record_observation_def Let_def split: option.split)
qed

lemma step_during_upload:
  assumes ok: "usage_ok l" and allowed: "usage_allowed e l" and during: "during_upload e"
  shows "ul_pending (usage_step env e l) = ul_pending l" and "i \<notin> new_ids e \<Longrightarrow> touched (segment_at l i) (segment_at (usage_step env e l) i)"
proof -
  have snap: "ul_pending (snd (persisted_snapshot env epoch l)) = ul_pending l" for epoch and l :: usage_ledger
    using enforce_evicted[of None l env] unfolding persisted_snapshot_def Let_def
    by (cases l; cases "snd (enforce_serialized_byte_limit env None l)") (simp add: evicted_def)
  have "ul_pending (usage_step env e l) = ul_pending l \<and>
      (i \<notin> new_ids e \<longrightarrow> touched (segment_at l i) (segment_at (usage_step env e l) i))"
  proof (cases e)
    case (UObserve nid subject kind on source inst epoch budget)
    then show ?thesis
      using observation_marked[OF ok, of nid env subject kind on source inst epoch budget] allowed touched_observation[OF ok, of nid i]
      by (auto simp: marked_def)
  next
    case (UBeginCheckpoint now epoch)
    let ?l = "l\<lparr>ul_checkpoint_anchor := Some (unwrap_or (ul_checkpoint_anchor l) now), ul_checkpointing := True, ul_force_checkpoint := False\<rparr>"
    show ?thesis using snap[of epoch ?l] touched_snapshot[of ?l i env epoch]
      by (simp add: UBeginCheckpoint begin_checkpoint_def Let_def split_beta)
  next
    case (UFlush epoch)
    then show ?thesis using snap touched_snapshot by simp
  qed (use during in \<open>simp_all add: close_subject_def record_excluded_source_def mark_dirty_def force_cloud_upload_def complete_checkpoint_def Let_def\<close>)
  then show "ul_pending (usage_step env e l) = ul_pending l" and "i \<notin> new_ids e \<Longrightarrow> touched (segment_at l i) (segment_at (usage_step env e l) i)"
    by blast+
qed

text \<open>A segment since the start of the upload, \<open>k\<close> events ago: as it was, or with a higher revision.\<close>

definition moved_on :: "usage_segment \<Rightarrow> nat \<Rightarrow> usage_segment \<Rightarrow> bool" where
  "moved_on s0 k s \<longleftrightarrow> us_synced s = us_synced s0 \<and> unat (us_revision s0) \<le> unat (us_revision s) \<and>
     unat (us_revision s) \<le> unat (us_revision s0) + k \<and> (us_revision s = us_revision s0 \<longrightarrow> s = s0)"

lemma moved_on_touched:
  assumes m: "moved_on s0 k s" and t: "touched (Some s) (Some s')" and fits: "unat (us_revision s0) + k < 2 ^ 64 - 1"
  shows "moved_on s0 (Suc k) s'"
proof -
  from t consider "s' = s" | c o' u tr source epoch counted where "s' = accrued c o' u tr source epoch counted s"
    by (auto simp: touched_def)
  then show ?thesis
  proof cases
    case 1
    then show ?thesis using m by (simp add: moved_on_def)
  next
    case 2
    have "unat (us_revision s') = unat (us_revision s) + 1" and "us_synced s' = us_synced s"
      using m fits by (simp_all add: 2 accrued_def Let_def moved_on_def unat_sat_add)
    then show ?thesis using m by (auto simp: moved_on_def)
  qed
qed

lemma run_moved_on:
  assumes "usage_ok l" and "run_allowed env es l" and "\<forall>e \<in> set es. during_upload e \<and> i \<notin> new_ids e"
    and "\<forall>s. segment_at l i = Some s \<longrightarrow> moved_on s0 k s" and "unat (us_revision s0) + k + length es < 2 ^ 64 - 1"
    and "segment_at (usage_run env es l) i = Some s"
  shows "moved_on s0 (k + length es) s"
  using assms
proof (induction es arbitrary: l k)
  case (Cons e es)
  have t: "touched (segment_at l i) (segment_at (usage_step env e l) i)"
    using step_during_upload(2)[of l e i env] Cons.prems(1-3) by simp
  have "moved_on s0 (Suc k) s'" if s': "segment_at (usage_step env e l) i = Some s'" for s'
  proof -
    obtain s where "segment_at l i = Some s" using t s' by (cases "segment_at l i") (auto simp: touched_def)
    then show ?thesis using moved_on_touched[of s0 k s s'] t s' Cons.prems(4,5) by simp
  qed
  then show ?case using Cons.IH[of "usage_step env e l" "Suc k"] Cons.prems usage_step_ok by simp
qed simp

lemma run_pending:
  "usage_ok l \<Longrightarrow> run_allowed env es l \<Longrightarrow> \<forall>e \<in> set es. during_upload e \<Longrightarrow> ul_pending (usage_run env es l) = ul_pending l"
  by (induction es arbitrary: l) (auto simp: step_during_upload(1) usage_step_ok)

lemma begun_batch:
  assumes "begin_cloud_upload bid now epoch l = (Some batch, l1)"
  shows "cb_segments batch = map upload_of (take 512 (dirty_segments l)) \<and> ul_pending l1 = Some (cb_id batch) \<and> ul_segments l1 = ul_segments l"
proof -
  have due: "fst (cloud_upload_due now l)" using assms by (auto simp: begin_cloud_upload_def split: prod.splits bool.splits)
  let ?la = "snd (cloud_upload_due now l)"
  have "dirty_segments (?la\<lparr>ul_pending := p\<rparr>) = dirty_segments l" and "ul_segments ?la = ul_segments l" for p
    by (auto simp: cloud_upload_due_def Let_def intro: dirty_segments_same)
  then show ?thesis
    using assms due
    by (auto simp: begin_cloud_upload_def Let_def mark_dirty_def LIGHT_USAGE_CLOUD_BATCH_LIMIT_def split: prod.splits bool.splits if_splits)
qed

lemma complete_upload_at:
  assumes "ul_pending l = Some (cb_id batch)"
  shows "segment_at (complete_cloud_upload batch True now epoch l) i =
           map_option (\<lambda>s. fold (ack_one i) (cb_segments batch) s) (segment_at l i)"
  using assms map_of_keyed_map[of "\<lambda>i s. fold (ack_one i) (cb_segments batch) s" "ul_segments l" i]
  by (simp add: complete_cloud_upload_def Let_def mark_dirty_def acknowledge_keyed)

lemma acknowledged_clean_iff:
  assumes dirty: "segment_dirty s0" and moved: "moved_on s0 n s2"
    and s: "s = s2\<lparr>us_synced := max (us_synced s2) (min (us_revision s0) (us_revision s2))\<rparr>"
  shows "\<not> segment_dirty s \<longleftrightarrow> upload_of s = upload_of s0"
proof -
  have m: "us_synced s2 = us_synced s0" "unat (us_revision s0) \<le> unat (us_revision s2)" "us_revision s2 = us_revision s0 \<Longrightarrow> s2 = s0"
    using moved by (simp_all add: moved_on_def)
  have rev: "us_revision s = us_revision s2" and sync: "us_synced s = us_revision s0"
    using m(1,2) dirty by (auto simp: s segment_dirty_def max_def min_def word_le_nat_alt word_less_nat_alt)
  show ?thesis
  proof (cases "us_revision s2 = us_revision s0")
    case True
    then have "s2 = s0" by (rule m(3))
    then have "upload_of s = upload_of s0" by (simp add: s upload_of_def)
    then show ?thesis using True rev sync by (simp add: segment_dirty_def)
  next
    case False
    then have "segment_dirty s" using m(2) rev sync by (simp add: segment_dirty_def word_less_nat_alt order_less_le word_unat_eq_iff)
    moreover have "up_revision (upload_of s) \<noteq> up_revision (upload_of s0)" using False rev by (simp add: upload_of_def)
    ultimately show ?thesis by auto
  qed
qed

text \<open>C4: What the ledger takes as uploaded is what the cloud has: when a batch is acknowledged, whatever was observed, dropped
and saved since it was taken, a segment of the batch that is still there counts as uploaded exactly if it is as it
was in the batch; one that was credited more in the meantime is uploaded again.\<close>

theorem uploaded_means_acknowledged:
  assumes reach: "usage_reachable env l" and begin': "begin_cloud_upload bid now epoch l = (Some batch, l1)"
    and run: "run_allowed env es l1" and events: "\<forall>e \<in> set es. during_upload e \<and> new_ids e \<inter> dom (segment_at l) = {}"
    and u: "u \<in> set (cb_segments batch)" and fits: "unat (up_revision u) + length es < 2 ^ 64 - 1"
    and s: "segment_at (complete_cloud_upload batch True now' epoch' (usage_run env es l1)) (up_id u) = Some s"
  shows "\<not> segment_dirty s \<longleftrightarrow> upload_of s = u"
proof -
  have ok: "usage_ok l" using reach by (rule reachable_usage_ok)
  note b = begun_batch[OF begin']
  have ok1: "usage_ok l1" using usage_steps.step_keeps[of l "UBeginUpload bid now epoch" env] ok begin' by simp
  let ?l2 = "usage_run env es l1"
  have pend2: "ul_pending ?l2 = Some (cb_id batch)" using run_pending[OF ok1 run] events b by simp
  obtain s0 where s0: "s0 \<in> set (take 512 (dirty_segments l))" "u = upload_of s0" using u b by auto
  then have at0: "segment_at l (us_id s0) = Some s0" and dirty0: "segment_dirty s0"
    using dirty_segments_set[OF ok, of s0] by (auto dest: in_set_takeD)
  have uid: "up_id u = us_id s0" "up_revision u = us_revision s0" by (simp_all add: s0 upload_of_def)
  have "map up_id (cb_segments batch) = take 512 (map us_id (dirty_segments l))" by (simp add: b upload_of_def comp_def take_map)
  then have dist: "distinct (map up_id (cb_segments batch))" using dirty_segments_ids[OF ok] by (simp add: distinct_take)
  obtain s2 where s2: "segment_at ?l2 (us_id s0) = Some s2"
    and s_eq: "s = s2\<lparr>us_synced := max (us_synced s2) (min (us_revision s0) (us_revision s2))\<rparr>"
    using s fold_one[OF dist u refl] by (auto simp: uid complete_upload_at[OF pend2])
  have "moved_on s0 (0 + length es) s2"
    by (rule run_moved_on[OF ok1 run _ _ _ s2]) (use events fits at0 in \<open>auto simp: b moved_on_def uid\<close>)
  then show ?thesis unfolding s0(2) using dirty0 s_eq by (intro acknowledged_clean_iff)
qed

definition demo_batch :: "cloud_batch option \<times> usage_ledger" where
  "demo_batch = begin_cloud_upload ''b'' 0 2000 usage_demo"

definition demo_later :: usage_event where
  "demo_later = UObserve ''s2'' ''bulb'' Bulb True Periodic 1000000000 2000 60000000000"

theorem uploaded_means_acknowledged_witness:
  "\<exists>batch u s. fst demo_batch = Some batch \<and> cb_segments batch = [u] \<and>
     segment_at (complete_cloud_upload batch True 0 3000 (usage_run usage_demo_env [demo_later] (snd demo_batch))) (up_id u) = Some s \<and>
     (\<not> segment_dirty s \<longleftrightarrow> upload_of s = u)"
proof -
  obtain batch l1 where b: "begin_cloud_upload ''b'' 0 2000 usage_demo = (Some batch, l1)"
  proof -
    have "fst (begin_cloud_upload ''b'' 0 2000 usage_demo) \<noteq> None" by code_simp
    then show ?thesis using that by (metis option.exhaust prod.collapse)
  qed
  have l1: "l1 = snd demo_batch" and batch: "batch = the (fst demo_batch)" using b by (simp_all add: demo_batch_def)
  have "length (cb_segments (the (fst demo_batch))) = 1" by code_simp
  then obtain u where u: "cb_segments batch = [u]" unfolding batch by (auto simp: length_Suc_conv)
  have "map (\<lambda>u. (up_revision u, up_id u)) (cb_segments (the (fst demo_batch))) = [(1, ''s1'')]" by code_simp
  then have ru: "up_revision u = 1" "up_id u = ''s1''" using u by (simp_all add: batch)
  have run: "run_allowed usage_demo_env [demo_later] l1" unfolding l1 demo_later_def by code_simp
  have "segment_at usage_demo ''s2'' = None" by code_simp
  then have ev: "\<forall>e \<in> set [demo_later]. during_upload e \<and> new_ids e \<inter> dom (segment_at usage_demo) = {}"
    by (auto simp: demo_later_def)
  have "segment_at (complete_cloud_upload (the (fst demo_batch)) True 0 3000 (usage_run usage_demo_env [demo_later] (snd demo_batch))) ''s1'' \<noteq> None"
    by code_simp
  then obtain s where s: "segment_at (complete_cloud_upload batch True 0 3000 (usage_run usage_demo_env [demo_later] l1)) (up_id u) = Some s"
    unfolding l1 batch ru by blast
  have "\<not> segment_dirty s \<longleftrightarrow> upload_of s = u"
    by (rule uploaded_means_acknowledged[OF usage_demo_reachable b run ev _ _ s]) (simp_all add: u ru)
  then show ?thesis using s u by (auto simp: demo_batch_def b)
qed

section \<open>Checkpoints\<close>

text \<open>The events that can come while a checkpoint is written; only one is written at a time.\<close>

fun during_checkpoint :: "usage_event \<Rightarrow> bool" where
  "during_checkpoint (UCompleteCheckpoint _ _ _ _) = False"
| "during_checkpoint (UFlush _) = False"
| "during_checkpoint _ = True"

lemma step_during_checkpoint:
  assumes ok: "usage_ok l" and allowed: "usage_allowed e l" and during: "during_checkpoint e" and writing: "ul_checkpointing l"
  shows "ul_checkpointing (usage_step env e l) \<and> (ul_dirty l \<longrightarrow> ul_dirty (usage_step env e l)) \<and>
    (persisted_view t (usage_step env e l) = persisted_view t l \<and> ul_generation (usage_step env e l) = ul_generation l \<or>
     ul_generation (usage_step env e l) = sat_add (ul_generation l) 1)"
proof (cases e)
  case (UObserve nid subject kind on source inst epoch budget)
  then show ?thesis
    using observation_marked[OF ok, of nid env subject kind on source inst epoch budget] allowed writing by (auto simp: marked_def)
next
  case (UBeginUpload bid now epoch)
  have due: "dirty_segments (l\<lparr>ul_cloud_anchor := a, ul_pending := p\<rparr>) = dirty_segments l" for a p
    by (rule dirty_segments_same) simp
  show ?thesis
  proof (cases "\<not> ul_uploading l \<and> any_dirty l \<and>
      (ul_force_cloud l \<or> LIGHT_USAGE_CLOUD_INTERVAL \<le> duration_since now (unwrap_or (ul_cloud_anchor l) now))")
    case True
    then show ?thesis using writing any_dirty_iff[of l]
      by (simp add: UBeginUpload begin_cloud_upload_def cloud_upload_due_def Let_def mark_dirty_def due)
  next
    case False
    then show ?thesis using writing
      by (auto simp: UBeginUpload begin_cloud_upload_def cloud_upload_due_def Let_def persisted_view_def)
  qed
next
  case (UCompleteUpload batch acked now epoch)
  then show ?thesis using writing by (simp add: complete_cloud_upload_def Let_def mark_dirty_def)
qed (use during writing in \<open>simp_all add: close_subject_def record_excluded_source_def mark_dirty_def force_cloud_upload_def
  mark_cloud_unavailable_def fail_cloud_upload_def begin_checkpoint_def persisted_view_def\<close>)

lemma run_during_checkpoint:
  assumes "usage_ok l" and "run_allowed env es l" and "\<forall>e \<in> set es. during_checkpoint e" and "ul_checkpointing l"
    and "unat (ul_generation l) + length es < 2 ^ 64"
  shows "unat (ul_generation l) \<le> unat (ul_generation (usage_run env es l)) \<and>
     (ul_generation (usage_run env es l) = ul_generation l \<longrightarrow> persisted_view t (usage_run env es l) = persisted_view t l) \<and>
     (ul_dirty l \<longrightarrow> ul_dirty (usage_run env es l))"
  using assms
proof (induction es arbitrary: l)
  case (Cons e es)
  let ?l = "usage_step env e l"
  have step: "ul_checkpointing ?l" "ul_dirty l \<longrightarrow> ul_dirty ?l" "persisted_view t ?l = persisted_view t l \<and> ul_generation ?l = ul_generation l \<or>
      ul_generation ?l = sat_add (ul_generation l) 1"
    using step_during_checkpoint[of l e env t] Cons.prems by auto
  have gen: "unat (sat_add (ul_generation l) 1) = unat (ul_generation l) + 1" using Cons.prems(5) by (simp add: unat_sat_add)
  have IH: "unat (ul_generation ?l) \<le> unat (ul_generation (usage_run env es ?l)) \<and>
      (ul_generation (usage_run env es ?l) = ul_generation ?l \<longrightarrow> persisted_view t (usage_run env es ?l) = persisted_view t ?l) \<and>
      (ul_dirty ?l \<longrightarrow> ul_dirty (usage_run env es ?l))"
    by (rule Cons.IH) (use Cons.prems step gen usage_step_ok in auto)
  from step(3) show ?case
  proof
    assume "persisted_view t ?l = persisted_view t l \<and> ul_generation ?l = ul_generation l"
    then show ?thesis using IH step(2) by simp
  next
    assume "ul_generation ?l = sat_add (ul_generation l) 1"
    then show ?thesis using IH gen step(2) by auto
  qed
qed simp

text \<open>C38: What the ledger takes as saved is saved: when a checkpoint has been written while observations and uploads went on, the
ledger is clean only if what a checkpoint would write now is what was written; otherwise it stays marked, and the next
checkpoint saves the rest.\<close>

theorem clean_means_saved:
  assumes reach: "usage_reachable env l" and begin': "begin_checkpoint env now epoch l = (Some (generation, snapshot'), l1)"
    and run: "run_allowed env es l1" and events: "\<forall>e \<in> set es. during_checkpoint e"
    and fits: "unat generation + length es < 2 ^ 64"
    and clean: "\<not> ul_dirty (complete_checkpoint generation True now' epoch (usage_run env es l1))"
  shows "persisted_view epoch (complete_checkpoint generation True now' epoch (usage_run env es l1)) = snapshot'"
proof -
  have ok: "usage_ok l" using reach by (rule reachable_usage_ok)
  let ?lc = "l\<lparr>ul_checkpoint_anchor := Some (unwrap_or (ul_checkpoint_anchor l) now), ul_checkpointing := True, ul_force_checkpoint := False\<rparr>"
  have l1: "l1 = snd (enforce_serialized_byte_limit env None ?lc)" and snap: "snapshot' = persisted_view epoch l1"
    and gen: "generation = ul_generation ?lc" and dirty: "ul_dirty ?lc"
    using begin' by (auto simp: begin_checkpoint_def persisted_snapshot_def Let_def split: if_splits)
  have ev: "evicted {} ?lc l1" unfolding l1 using enforce_evicted[of None ?lc env] by simp
  have ok1: "usage_ok l1" by (rule usage_ok_evicted[OF _ ev]) (simp add: ok)
  have f: "ul_checkpointing l1" "ul_generation l1 = generation" "ul_dirty l1"
    using ev gen dirty by (cases l1; cases l; simp add: evicted_def)+
  have fits1: "unat (ul_generation l1) + length es < 2 ^ 64" using fits f(2) by simp
  note r = run_during_checkpoint[OF ok1 run events f(1) fits1, of epoch]
  have "ul_generation (usage_run env es l1) = generation"
  proof (rule ccontr)
    assume ne: "ul_generation (usage_run env es l1) \<noteq> generation"
    have "ul_dirty (usage_run env es l1)" using r f(3) by blast
    then show False using clean ne by (simp add: complete_checkpoint_def Let_def)
  qed
  then show ?thesis using r f(2) by (simp add: snap complete_checkpoint_def Let_def persisted_view_def)
qed

theorem clean_means_saved_witness:
  "\<exists>generation snapshot' l1. begin_checkpoint usage_demo_env 900000000000 2000 usage_demo = (Some (generation, snapshot'), l1) \<and>
     \<not> ul_dirty (complete_checkpoint generation True 900000000001 2000 (usage_run usage_demo_env [UClose ''bulb''] l1)) \<and>
     persisted_view 2000 (complete_checkpoint generation True 900000000001 2000 (usage_run usage_demo_env [UClose ''bulb''] l1)) = snapshot'"
proof -
  let ?c = "begin_checkpoint usage_demo_env 900000000000 2000 usage_demo"
  have g: "map_option fst (fst ?c) = Some 1" by code_simp
  then obtain snapshot' where fst: "fst ?c = Some (1, snapshot')" by auto
  then have c: "?c = (Some (1, snapshot'), snd ?c)" by (metis prod.collapse)
  have clean: "\<not> ul_dirty (complete_checkpoint 1 True 900000000001 2000 (usage_run usage_demo_env [UClose ''bulb''] (snd ?c)))"
    by code_simp
  have "persisted_view 2000 (complete_checkpoint 1 True 900000000001 2000 (usage_run usage_demo_env [UClose ''bulb''] (snd ?c))) = snapshot'"
    by (rule clean_means_saved[OF usage_demo_reachable c _ _ _ clean]) simp_all
  then show ?thesis using c clean by (intro exI[of _ 1] exI[of _ snapshot'] exI[of _ "snd ?c"] conjI)
qed

end
