(* ===== verification/Auth.thy ===== *)
theory Auth
  imports RustStr
begin

text \<open>
  The credentials of the local API (\<open>rhythm-os/src/auth.rs\<close>): issue and revocation of tokens, the gate in front of
  every route, and the handlers of the routes under \<open>/api/auth\<close>.

  \<open>sha\<close> is SHA-256, \<open>rnd\<close> the random bytes of a new token, \<open>now\<close> the wall clock in milliseconds, and
  \<open>save\<close> the answer of the storage to a write of the credentials: \<open>None\<close> is success. A string is the list of its
  bytes. Appending to the support audit file works when \<open>as_audit_writable\<close> holds. The mutex of the shared state is poisoned when \<open>as_poisoned\<close> holds.
\<close>

section \<open>Tokens\<close>

definition DEFAULT_SUPPORT_SESSION_TTL_SECS :: u64 where "DEFAULT_SUPPORT_SESSION_TTL_SECS = 3600"
definition MIN_SUPPORT_SESSION_TTL_SECS :: u64 where "MIN_SUPPORT_SESSION_TTL_SECS = 1"
definition MAX_SUPPORT_SESSION_TTL_SECS :: u64 where "MAX_SUPPORT_SESSION_TTL_SECS = 14400"

definition TOKEN_PREFIX :: string where "TOKEN_PREFIX = ''rhythm_owner_''"
definition SUPPORT_TOKEN_PREFIX :: string where "SUPPORT_TOKEN_PREFIX = ''rhythm_support_''"
definition SUPPORT_SESSION_TOKEN_PREFIX :: string where "SUPPORT_SESSION_TOKEN_PREFIX = ''rhythm_support_session_''"

datatype token_role = OwnerRole | SupportRole

record stored_token =
  st_id :: string
  st_role :: token_role
  st_hash :: string
  st_created :: u64
  st_label :: "string option"
  st_expires :: "u64 option"

record stored_auth =
  sa_schema :: u8
  sa_require :: "bool option"
  sa_tokens :: "stored_token list"

definition auth_default :: stored_auth where
  "auth_default = \<lparr>sa_schema = 1, sa_require = None, sa_tokens = []\<rparr>"

record verified_token =
  vt_id :: string
  vt_role :: token_role
  vt_expires :: "u64 option"

record issued_token =
  it_id :: string
  it_token :: string

definition hex_nibble :: "u8 \<Rightarrow> char" where
  "hex_nibble n = ''0123456789abcdef'' ! unat n"

definition token_hex :: "u8 list \<Rightarrow> string" where
  "token_hex bytes = concat (map (\<lambda>b. [hex_nibble (drop_bit 4 b), hex_nibble (and b 15)]) bytes)"

definition hash_token :: "(string \<Rightarrow> u8 list) \<Rightarrow> string \<Rightarrow> string" where
  "hash_token sha raw = token_hex (sha raw)"

definition generate_raw_token :: "string \<Rightarrow> u8 list \<Rightarrow> string" where
  "generate_raw_token pre rnd = pre @ token_hex rnd"

definition as_bytes :: "string \<Rightarrow> u8 list" where
  "as_bytes s = map (\<lambda>c. of_nat (of_char c)) s"

definition constant_time_eq :: "u8 list \<Rightarrow> u8 list \<Rightarrow> bool" where
  "constant_time_eq l r \<longleftrightarrow> length l = length r \<and> fold (\<lambda>(a, b) acc. or acc (xor a b)) (zip l r) 0 = 0"

definition is_expired :: "u64 \<Rightarrow> stored_token \<Rightarrow> bool" where
  "is_expired now t \<longleftrightarrow> (case st_expires t of None \<Rightarrow> False | Some e \<Rightarrow> e \<le> now)"

definition has_owner :: "stored_auth \<Rightarrow> bool" where
  "has_owner a \<longleftrightarrow> list_ex (\<lambda>t. st_role t = OwnerRole) (sa_tokens a)"

definition verify_token_info :: "(string \<Rightarrow> u8 list) \<Rightarrow> u64 \<Rightarrow> string \<Rightarrow> stored_auth \<Rightarrow> verified_token option" where
  "verify_token_info sha now raw a =
     (if trim raw = [] then None
      else map_option (\<lambda>t. \<lparr>vt_id = st_id t, vt_role = st_role t, vt_expires = st_expires t\<rparr>)
        (find (\<lambda>t. \<not> is_expired now t \<and> constant_time_eq (as_bytes (st_hash t)) (as_bytes (hash_token sha raw))) (sa_tokens a)))"

definition verify_token :: "(string \<Rightarrow> u8 list) \<Rightarrow> u64 \<Rightarrow> string \<Rightarrow> stored_auth \<Rightarrow> bool" where
  "verify_token sha now raw a \<longleftrightarrow> verify_token_info sha now raw a \<noteq> None"

definition verify_token_role :: "(string \<Rightarrow> u8 list) \<Rightarrow> u64 \<Rightarrow> string \<Rightarrow> stored_auth \<Rightarrow> token_role option" where
  "verify_token_role sha now raw a = map_option vt_role (verify_token_info sha now raw a)"

definition prune_expired_tokens :: "u64 \<Rightarrow> stored_token list \<Rightarrow> stored_token list" where
  "prune_expired_tokens now ts = filter (\<lambda>t. \<not> is_expired now t) ts"

definition clamp_support_session_ttl :: "u64 option \<Rightarrow> u64" where
  "clamp_support_session_ttl ttl =
     max MIN_SUPPORT_SESSION_TTL_SECS (min (unwrap_or ttl DEFAULT_SUPPORT_SESSION_TTL_SECS) MAX_SUPPORT_SESSION_TTL_SECS)"

section \<open>The shared state\<close>

datatype http_method = GET | HEAD | POST | PUT | DELETE | PATCH | OPTIONS | OtherMethod string

record api_state =
  as_poisoned :: bool
  as_auth :: stored_auth
  as_require :: bool
  as_platform_type :: string
  as_platform_context :: string
  as_storage :: bool
  as_saved :: stored_auth
  as_data_dir :: string
  as_audit_writable :: bool
  as_audit :: "(u64 \<times> string \<times> http_method \<times> string \<times> string) list"

type_synonym save_result = "stored_auth \<Rightarrow> string option"

text \<open>Writing the credentials, then publishing them; a failed write leaves the state alone.\<close>

definition save_auth :: "save_result \<Rightarrow> stored_auth \<Rightarrow> api_state \<Rightarrow> string + api_state" where
  "save_auth save a s =
     (if as_storage s then (case save a of Some e \<Rightarrow> Inl e | None \<Rightarrow> Inr (s\<lparr>as_saved := a\<rparr>)) else Inr s)"

definition publish :: "save_result \<Rightarrow> stored_auth \<Rightarrow> api_state \<Rightarrow> string + api_state" where
  "publish save a s = (case save_auth save a s of Inl e \<Rightarrow> Inl e | Inr s' \<Rightarrow> Inr (s'\<lparr>as_auth := a\<rparr>))"

definition token_id :: "string \<Rightarrow> string" where
  "token_id hash = take 16 hash"

definition new_token :: "string \<Rightarrow> token_role \<Rightarrow> u64 \<Rightarrow> string option \<Rightarrow> u64 option \<Rightarrow> stored_token" where
  "new_token hash role now label expires =
     \<lparr>st_id = token_id hash, st_role = role, st_hash = hash, st_created = now, st_label = label, st_expires = expires\<rparr>"

definition add_token :: "stored_token \<Rightarrow> stored_auth \<Rightarrow> stored_auth" where
  "add_token t a = a\<lparr>sa_tokens := sa_tokens a @ [t]\<rparr>"

section \<open>Issue and revocation\<close>

definition install_ephemeral_owner_token :: "(string \<Rightarrow> u8 list) \<Rightarrow> u64 \<Rightarrow> string \<Rightarrow> api_state \<Rightarrow> string + api_state" where
  "install_ephemeral_owner_token sha now raw s =
     (if \<not> (32 \<le> length raw \<and> list_all is_ascii_alphanumeric raw)
      then Inl ''Local API credential must contain at least 32 alphanumeric characters''
      else if as_poisoned s then Inl ''lock''
      else if \<not> list_all (\<lambda>t. st_id t = ''local-supervisor'') (sa_tokens (as_auth s))
      then Inl ''Cannot replace durable credentials with an ephemeral owner; use listener-local authentication''
      else Inr (s\<lparr>as_auth := auth_default\<lparr>sa_require := Some True, sa_tokens :=
             [\<lparr>st_id = ''local-supervisor'', st_role = OwnerRole, st_hash = hash_token sha raw, st_created = now,
               st_label = Some ''Local admin API'', st_expires = None\<rparr>]\<rparr>, as_require := True\<rparr>))"

definition issue_local_token ::
    "(string \<Rightarrow> u8 list) \<Rightarrow> u8 list \<Rightarrow> u64 \<Rightarrow> save_result \<Rightarrow> token_role \<Rightarrow> string \<Rightarrow> string option \<Rightarrow> u64 option \<Rightarrow> api_state \<Rightarrow>
     string + issued_token \<times> api_state" where
  "issue_local_token sha rnd now save role pre label expires s =
     (let token = generate_raw_token pre rnd; hash = hash_token sha token in
      if as_poisoned s then Inl ''lock''
      else
        let pruned = (as_auth s)\<lparr>sa_tokens := prune_expired_tokens now (sa_tokens (as_auth s))\<rparr>;
            a = add_token (new_token hash role now label expires) pruned
        in case publish save a s of
             Inl e \<Rightarrow> Inl e
           | Inr s' \<Rightarrow> Inr (\<lparr>it_id = token_id hash, it_token = token\<rparr>, s'))"

definition issue_local_owner_token where
  "issue_local_owner_token sha rnd now save label = issue_local_token sha rnd now save OwnerRole TOKEN_PREFIX label None"

definition issue_local_support_token where
  "issue_local_support_token sha rnd now save label = issue_local_token sha rnd now save SupportRole SUPPORT_TOKEN_PREFIX label None"

definition issue_support_session_token ::
    "(string \<Rightarrow> u8 list) \<Rightarrow> u8 list \<Rightarrow> u64 \<Rightarrow> save_result \<Rightarrow> string option \<Rightarrow> u64 option \<Rightarrow> api_state \<Rightarrow>
     string + (issued_token \<times> u64) \<times> api_state" where
  "issue_support_session_token sha rnd now save label ttl s =
     (let expires = sat_add now (sat_mul (clamp_support_session_ttl ttl) 1000) in
      case issue_local_token sha rnd now save SupportRole SUPPORT_SESSION_TOKEN_PREFIX label (Some expires) s of
        Inl e \<Rightarrow> Inl e
      | Inr (t, s') \<Rightarrow> Inr ((t, expires), s'))"

definition is_support_session :: "string \<Rightarrow> stored_token \<Rightarrow> bool" where
  "is_support_session i t \<longleftrightarrow> st_id t = i \<and> st_role t = SupportRole \<and> st_expires t \<noteq> None"

definition revoke_support_session_token :: "u64 \<Rightarrow> save_result \<Rightarrow> string \<Rightarrow> api_state \<Rightarrow> string + bool \<times> api_state" where
  "revoke_support_session_token now save i s =
     (let clean = trim i in
      if clean = [] then Inr (False, s)
      else if as_poisoned s then Inl ''lock''
      else
        let kept = filter (\<lambda>t. \<not> is_support_session clean t) (sa_tokens (as_auth s));
            revoked = (length kept \<noteq> length (sa_tokens (as_auth s)));
            a = (as_auth s)\<lparr>sa_tokens := prune_expired_tokens now kept\<rparr>
        in if revoked
           then (case save_auth save a s of Inl e \<Rightarrow> Inl e | Inr s' \<Rightarrow> Inr (True, s'\<lparr>as_auth := a\<rparr>))
           else Inr (False, s\<lparr>as_auth := a\<rparr>))"

definition revoke_local_token :: "save_result \<Rightarrow> string \<Rightarrow> api_state \<Rightarrow> string + bool \<times> api_state" where
  "revoke_local_token save i s =
     (if as_poisoned s then Inl ''lock''
      else
        let kept = filter (\<lambda>t. st_id t \<noteq> i) (sa_tokens (as_auth s)) in
        if length kept = length (sa_tokens (as_auth s)) then Inr (False, s)
        else (case publish save ((as_auth s)\<lparr>sa_tokens := kept\<rparr>) s of Inl e \<Rightarrow> Inl e | Inr s' \<Rightarrow> Inr (True, s')))"

text \<open>The first owner: \<open>None\<close> is \<open>AlreadyConfigured\<close>.\<close>

definition issue_owner_token ::
    "(string \<Rightarrow> u8 list) \<Rightarrow> u8 list \<Rightarrow> u64 \<Rightarrow> save_result \<Rightarrow> string option \<Rightarrow> api_state \<Rightarrow> string + issued_token option \<times> api_state" where
  "issue_owner_token sha rnd now save label s =
     (let token = generate_raw_token TOKEN_PREFIX rnd; hash = hash_token sha token in
      if as_poisoned s then Inl ''lock''
      else if has_owner (as_auth s) then Inr (None, s)
      else (case publish save (add_token (new_token hash OwnerRole now label None) (as_auth s)) s of
              Inl e \<Rightarrow> Inl e
            | Inr s' \<Rightarrow> Inr (Some \<lparr>it_id = token_id hash, it_token = token\<rparr>, s')))"

record settings_update =
  su_require :: bool
  su_owner :: bool
  su_count :: nat
  su_issued :: "issued_token option"

definition set_api_auth_required ::
    "(string \<Rightarrow> u8 list) \<Rightarrow> u8 list \<Rightarrow> u64 \<Rightarrow> save_result \<Rightarrow> bool \<Rightarrow> string option \<Rightarrow> api_state \<Rightarrow> string + settings_update \<times> api_state" where
  "set_api_auth_required sha rnd now save required label s =
     (if as_poisoned s then Inl ''lock''
      else
        let token = generate_raw_token TOKEN_PREFIX rnd; hash = hash_token sha token;
            first = (required \<and> \<not> has_owner (as_auth s));
            a1 = (if first then add_token (new_token hash OwnerRole now label None) (as_auth s) else as_auth s);
            a = a1\<lparr>sa_require := Some required\<rparr>;
            update = \<lparr>su_require = required, su_owner = has_owner a, su_count = length (sa_tokens a),
              su_issued = (if first then Some \<lparr>it_id = token_id hash, it_token = token\<rparr> else None)\<rparr>
        in case publish save a s of Inl e \<Rightarrow> Inl e | Inr s' \<Rightarrow> Inr (update, s'\<lparr>as_require := required\<rparr>))"

definition clear_api_auth :: "save_result \<Rightarrow> api_state \<Rightarrow> string + api_state" where
  "clear_api_auth save s = (if as_poisoned s then Inl ''lock'' else publish save auth_default s)"

end
