(* ===== verification/AuthGate.thy ===== *)
theory AuthGate
  imports Auth
begin

text \<open>
  The gate in front of the local API (\<open>require_api_auth_middleware\<close> of \<open>rhythm-os/src/auth.rs\<close>): who may reach
  which route with which credential. A request is what the gate reads of it: the value of a header is what
  \<open>HeaderValue::to_str\<close> gives, \<open>None\<close> when it is not visible ASCII, and \<open>rq_peer_loopback\<close> is \<open>None\<close> when the
  server recorded no peer address. The clock is read at most three times while a request passes, as \<open>n1\<close>, \<open>n2\<close>, \<open>n3\<close>.
\<close>

section \<open>Requests\<close>

record request =
  rq_method :: http_method
  rq_path :: string
  rq_query :: "string option"
  rq_headers :: "(string \<times> string option) list"
  rq_peer_loopback :: "bool option"

record auth_info =
  ai_requires_auth :: bool
  ai_claim_available :: bool
  ai_via_remote :: bool
  ai_role :: "token_role option"
  ai_expires :: "u64 option"

definition contains_header :: "string \<Rightarrow> request \<Rightarrow> bool" where
  "contains_header h rq \<longleftrightarrow> map_of (rq_headers rq) h \<noteq> None"

definition header_str :: "string \<Rightarrow> request \<Rightarrow> string option" where
  "header_str h rq = (case map_of (rq_headers rq) h of None \<Rightarrow> None | Some v \<Rightarrow> v)"

definition strip_prefix :: "string \<Rightarrow> string \<Rightarrow> string option" where
  "strip_prefix p s = (if prefix p s then Some (drop (length p) s) else None)"

definition bearer_token :: "string option \<Rightarrow> string option" where
  "bearer_token v =
     (case v of
        None \<Rightarrow> None
      | Some raw \<Rightarrow>
          let s = trim raw in
          case (case strip_prefix ''Bearer '' s of Some t \<Rightarrow> Some t | None \<Rightarrow> strip_prefix ''bearer '' s) of
            None \<Rightarrow> None
          | Some t \<Rightarrow> if trim t = [] then None else Some (trim t))"

definition has_remote_access_forwarding_headers :: "request \<Rightarrow> bool" where
  "has_remote_access_forwarding_headers rq \<longleftrightarrow>
     contains_header ''cf-connecting-ip'' rq \<or> contains_header ''cf-ray'' rq \<or> contains_header ''cf-visitor'' rq \<or>
     contains_header ''cdn-loop'' rq \<or> contains_header ''x-forwarded-for'' rq"

definition auth_request_info :: "api_state \<Rightarrow> request \<Rightarrow> auth_info" where
  "auth_request_info s rq =
     (let (stored, owner, appliance, addon) =
            (if as_poisoned s then (True, True, False, False)
             else (as_require s, has_owner (as_auth s), as_platform_type s = ''appliance'', as_platform_context s = ''ha_addon''));
          remote = ((appliance \<or> addon) \<and> unwrap_or (rq_peer_loopback rq) False \<and> has_remote_access_forwarding_headers rq);
          requires = (if remote \<or> addon then True else if appliance then False else stored)
      in \<lparr>ai_requires_auth = requires, ai_claim_available = \<not> addon \<and> \<not> remote \<and> (\<not> requires \<or> \<not> owner),
          ai_via_remote = remote, ai_role = None, ai_expires = None\<rparr>)"

definition is_public_request :: "http_method \<Rightarrow> string \<Rightarrow> auth_info \<Rightarrow> bool" where
  "is_public_request m path info \<longleftrightarrow>
     m = OPTIONS \<or> path = ''/health'' \<or> path = ''/api/auth/status'' \<or>
     (m = POST \<and> path = ''/api/auth/claim'' \<and> ai_claim_available info)"

section \<open>What a support token must not reach\<close>

definition split_once :: "char \<Rightarrow> string \<Rightarrow> (string \<times> string) option" where
  "split_once d s = (if d \<in> set s then Some (takeWhile (\<lambda>c. c \<noteq> d) s, tl (dropWhile (\<lambda>c. c \<noteq> d) s)) else None)"

definition flag_set :: "string \<Rightarrow> string \<Rightarrow> bool" where
  "flag_set key pair =
     (let (k, v) = unwrap_or (split_once (CHR ''='') pair) (pair, ''true'')
      in k = key \<and> (v = '''' \<or> v = ''1'' \<or> v = ''true'' \<or> v = ''yes'' \<or> v = ''on''))"

definition query_flag_truthy :: "string option \<Rightarrow> string \<Rightarrow> bool" where
  "query_flag_truthy q key = (case q of None \<Rightarrow> False | Some s \<Rightarrow> list_ex (flag_set key) (split_on (CHR ''&'') s))"

definition network_path :: "string \<Rightarrow> bool" where
  "network_path path \<longleftrightarrow>
     prefix ''/api/pairing/wifi-profiles'' path \<or> prefix ''/api/matter/wifi-change'' path \<or>
     prefix ''/api/matter/wifi-network/'' path \<or> prefix ''/api/wifi/profile/'' path"

definition support_forbidden_routes :: "(http_method \<times> string) list" where
  "support_forbidden_routes =
     [(POST, ''/api/auth/claim''), (POST, ''/api/auth/support-token''), (PUT, ''/api/auth/settings''),
      (POST, ''/api/factory-reset''), (PUT, ''/api/hub/credentials''), (DELETE, ''/api/hub/credentials''),
      (PUT, ''/api/remote-access/config''), (DELETE, ''/api/remote-access/config''), (PUT, ''/api/wifi''),
      (DELETE, ''/api/wifi''), (POST, ''/api/diag/reset-matter-fabric''), (PUT, ''/api/backup'')]"

definition support_token_forbidden_reason :: "http_method \<Rightarrow> string \<Rightarrow> string option \<Rightarrow> string option" where
  "support_token_forbidden_reason m path query =
     (if network_path path then Some ''Network provisioning is owner-only''
      else if (m = GET \<or> m = HEAD) \<and> path = ''/api/pairing/wifi-credentials''
      then Some ''Support token cannot read Wi-Fi credentials''
      else if m = GET \<and> prefix ''/api/matter/setup-code/'' path then Some ''Support token cannot read Matter setup codes''
      else if m = GET \<and> path = ''/api/devices/removed'' then Some ''Support token cannot read removed device archives''
      else if m = DELETE \<and> prefix ''/api/devices/canonical/'' path
      then Some ''Support token cannot permanently delete archived devices''
      else if m = GET \<and> path = ''/api/backup'' \<and> query_flag_truthy query ''include_secrets''
      then Some ''Support token cannot export backup secrets''
      else if (m, path) \<in> set support_forbidden_routes then Some ''Support token is not allowed for this endpoint''
      else None)"

definition owner_token_required :: "http_method \<Rightarrow> string \<Rightarrow> bool" where
  "owner_token_required m path \<longleftrightarrow>
     network_path path \<or>
     (m = GET \<or> m = HEAD) \<and> path = ''/api/pairing/wifi-credentials'' \<or>
     m = GET \<and> prefix ''/api/matter/setup-code/'' path \<or>
     m = GET \<and> path = ''/api/devices/removed'' \<or>
     m = DELETE \<and> prefix ''/api/devices/canonical/'' path"

section \<open>The audit trail\<close>

definition sanitized_support_request_id :: "string option \<Rightarrow> string" where
  "sanitized_support_request_id r =
     (case r of
        None \<Rightarrow> ''-''
      | Some raw \<Rightarrow>
          let s = trim raw in
          if 8 \<le> length s \<and> length s \<le> 128 \<and> list_all (\<lambda>c. is_ascii_alphanumeric c \<or> c \<in> set ''._:-'') s then s else ''-'')"

definition write_support_audit_line :: "u64 \<Rightarrow> string \<Rightarrow> http_method \<Rightarrow> string \<Rightarrow> string option \<Rightarrow> api_state \<Rightarrow> api_state" where
  "write_support_audit_line now i m path r s =
     (let dir = (if as_poisoned s then '''' else as_data_dir s) in
      if trim dir = [] \<or> \<not> as_audit_writable s then s
      else s\<lparr>as_audit := as_audit s @ [(now, i, m, path, sanitized_support_request_id r)]\<rparr>)"

section \<open>The gate\<close>

datatype gate = Proceed auth_info "string option" | Unauthorized string | Forbidden string

definition presented_token :: "request \<Rightarrow> string option" where
  "presented_token rq = bearer_token (header_str ''authorization'' rq)"

definition verify_locked :: "(string \<Rightarrow> u8 list) \<Rightarrow> u64 \<Rightarrow> string \<Rightarrow> api_state \<Rightarrow> verified_token option" where
  "verify_locked sha now tok s = (if as_poisoned s then None else verify_token_info sha now tok (as_auth s))"

definition verified_bearer_token :: "(string \<Rightarrow> u8 list) \<Rightarrow> u64 \<Rightarrow> api_state \<Rightarrow> request \<Rightarrow> verified_token option" where
  "verified_bearer_token sha now s rq =
     (case presented_token rq of None \<Rightarrow> None | Some tok \<Rightarrow> verify_locked sha now tok s)"

definition with_token :: "verified_token \<Rightarrow> auth_info \<Rightarrow> auth_info" where
  "with_token v info = info\<lparr>ai_role := Some (vt_role v), ai_expires := vt_expires v\<rparr>"

definition audit_request :: "u64 \<Rightarrow> verified_token option \<Rightarrow> request \<Rightarrow> api_state \<Rightarrow> api_state" where
  "audit_request now v rq s =
     (case v of
        Some t \<Rightarrow>
          if vt_role t = SupportRole
          then write_support_audit_line now (vt_id t) (rq_method rq) (rq_path rq) (header_str ''x-request-id'' rq) s
          else s
      | None \<Rightarrow> s)"

definition is_support :: "verified_token option \<Rightarrow> bool" where
  "is_support v \<longleftrightarrow> map_option vt_role v = Some SupportRole"

definition is_owner :: "verified_token option \<Rightarrow> bool" where
  "is_owner v \<longleftrightarrow> map_option vt_role v = Some OwnerRole"

text \<open>The last check: a request that requires a credential and is neither public nor refused already.\<close>

definition require_token ::
    "(string \<Rightarrow> u8 list) \<Rightarrow> u64 \<Rightarrow> verified_token option \<Rightarrow> auth_info \<Rightarrow> string option \<Rightarrow> request \<Rightarrow> api_state \<Rightarrow> gate" where
  "require_token sha n3 verified info stream rq s =
     (case presented_token rq of
        None \<Rightarrow> Unauthorized ''Missing bearer token''
      | Some tok \<Rightarrow>
          case (case verified of Some v \<Rightarrow> Some v | None \<Rightarrow> verify_locked sha n3 tok s) of
            None \<Rightarrow> Unauthorized ''Invalid bearer token''
          | Some v \<Rightarrow>
              case (if vt_role v = SupportRole then support_token_forbidden_reason (rq_method rq) (rq_path rq) (rq_query rq) else None) of
                Some reason \<Rightarrow> Forbidden reason
              | None \<Rightarrow> Proceed (with_token v info) stream)"

definition gate_decision ::
    "(string \<Rightarrow> u8 list) \<Rightarrow> u64 \<Rightarrow> verified_token option \<Rightarrow> request \<Rightarrow> api_state \<Rightarrow> gate" where
  "gate_decision sha n3 verified rq s =
     (let info0 = auth_request_info s rq;
          info = (case verified of Some v \<Rightarrow> with_token v info0 | None \<Rightarrow> info0);
          stream = (if verified = None then None else presented_token rq);
          reason = (if is_support verified then support_token_forbidden_reason (rq_method rq) (rq_path rq) (rq_query rq) else None)
      in case reason of
           Some r \<Rightarrow> Forbidden r
         | None \<Rightarrow>
             if is_public_request (rq_method rq) (rq_path rq) info then Proceed info stream
             else if owner_token_required (rq_method rq) (rq_path rq) \<and> \<not> is_owner verified
             then Unauthorized ''Owner bearer token required''
             else if \<not> ai_requires_auth info then Proceed info stream
             else require_token sha n3 verified info stream rq s)"

definition require_api_auth_middleware ::
    "(string \<Rightarrow> u8 list) \<Rightarrow> u64 \<Rightarrow> u64 \<Rightarrow> u64 \<Rightarrow> request \<Rightarrow> api_state \<Rightarrow> gate \<times> api_state" where
  "require_api_auth_middleware sha n1 n2 n3 rq s =
     (let verified = verified_bearer_token sha n1 s rq; s' = audit_request n2 verified rq s
      in (gate_decision sha n3 verified rq s', s'))"

end
