(* ===== verification/AuthApi.thy ===== *)
theory AuthApi
  imports AuthGate
begin

text \<open>
  The routes under \<open>/api/auth\<close>, the read of a backup and the factory reset, behind the gate: the handlers of
  \<open>rhythm-os/src/auth.rs\<close> with their wrappers of \<open>axum_router.rs\<close>. The body of a request is a parsed JSON value;
  \<open>decode\<close> is the form decoding of a query string by the framework, \<open>None\<close> when it rejects it.
\<close>

section \<open>JSON values\<close>

datatype json =
  JNull | JBool bool | JUint u64 | JNumber string | JString string | JArray "json list" | JObject "(string \<times> json) list"

definition json_get :: "json \<Rightarrow> string \<Rightarrow> json option" where
  "json_get j k = (case j of JObject kvs \<Rightarrow> map_of kvs k | _ \<Rightarrow> None)"

definition json_get_or :: "json \<Rightarrow> string \<Rightarrow> string \<Rightarrow> json option" where
  "json_get_or j k k' = (case json_get j k of Some v \<Rightarrow> Some v | None \<Rightarrow> json_get j k')"

definition as_str :: "json option \<Rightarrow> string option" where
  "as_str v = (case v of Some (JString s) \<Rightarrow> Some s | _ \<Rightarrow> None)"

definition as_bool :: "json option \<Rightarrow> bool option" where
  "as_bool v = (case v of Some (JBool b) \<Rightarrow> Some b | _ \<Rightarrow> None)"

definition as_u64 :: "json option \<Rightarrow> u64 option" where
  "as_u64 v = (case v of Some (JUint n) \<Rightarrow> Some n | _ \<Rightarrow> None)"

definition clean_str :: "json option \<Rightarrow> string option" where
  "clean_str v = (case map_option trim (as_str v) of None \<Rightarrow> None | Some s \<Rightarrow> if s = [] then None else Some s)"

section \<open>Handlers\<close>

datatype api_response = JsonOk json | BadRequest string | ForbiddenResponse string | ServerError string

definition role_json :: "token_role option \<Rightarrow> json" where
  "role_json r = (case r of None \<Rightarrow> JNull | Some OwnerRole \<Rightarrow> JString ''owner'' | Some SupportRole \<Rightarrow> JString ''support'')"

definition auth_status_payload ::
    "bool \<Rightarrow> bool \<Rightarrow> nat \<Rightarrow> bool \<Rightarrow> bool \<Rightarrow> token_role option \<Rightarrow> (string \<times> json) list" where
  "auth_status_payload require owner n claim remote role =
     [(''requires_auth'', JBool require), (''owner_configured'', JBool owner), (''token_count'', JUint (of_nat n)),
      (''claim_available'', JBool claim), (''via_remote_access'', JBool remote), (''authenticated_role'', role_json role)]"

definition handle_get_auth_status :: "api_state \<Rightarrow> auth_info option \<Rightarrow> api_response" where
  "handle_get_auth_status s request_info =
     (if as_poisoned s then ServerError ''lock''
      else
        let addon = (as_platform_context s = ''ha_addon'');
            info = unwrap_or request_info
              \<lparr>ai_requires_auth = as_require s \<or> addon,
               ai_claim_available = \<not> addon \<and> as_require s \<and> \<not> has_owner (as_auth s),
               ai_via_remote = False, ai_role = None, ai_expires = None\<rparr>;
            payload = auth_status_payload (ai_requires_auth info) (has_owner (as_auth s)) (length (sa_tokens (as_auth s)))
              (ai_claim_available info) (ai_via_remote info) (ai_role info)
        in JsonOk (JObject (payload @ (if addon then [(''mobile_enrollment_available'', JBool True)] else []))))"

definition token_payload :: "issued_token \<Rightarrow> (string \<times> json) list" where
  "token_payload t = [(''status'', JString ''ok''), (''token_id'', JString (it_id t)), (''token'', JString (it_token t))]"

definition handle_claim_owner_token ::
    "(string \<Rightarrow> u8 list) \<Rightarrow> u8 list \<Rightarrow> u64 \<Rightarrow> save_result \<Rightarrow> string option \<Rightarrow> api_state \<Rightarrow> api_response \<times> api_state" where
  "handle_claim_owner_token sha rnd now save label s =
     (case issue_local_owner_token sha rnd now save label s of
        Inl e \<Rightarrow> (ServerError e, s)
      | Inr (t, s') \<Rightarrow> (JsonOk (JObject (token_payload t)), s'))"

definition handle_issue_support_token ::
    "(string \<Rightarrow> u8 list) \<Rightarrow> u8 list \<Rightarrow> u64 \<Rightarrow> save_result \<Rightarrow> auth_info option \<Rightarrow> string option \<Rightarrow> api_state \<Rightarrow>
     api_response \<times> api_state" where
  "handle_issue_support_token sha rnd now save request_info label s =
     (case request_info of
        None \<Rightarrow> (ForbiddenResponse ''Support tokens require an owner token'', s)
      | Some info \<Rightarrow>
          if ai_via_remote info then (ForbiddenResponse ''Support tokens can only be issued locally'', s)
          else if ai_role info \<noteq> Some OwnerRole then (ForbiddenResponse ''Support tokens require an owner token'', s)
          else (case issue_local_support_token sha rnd now save label s of
                  Inl e \<Rightarrow> (ServerError e, s)
                | Inr (t, s') \<Rightarrow> (JsonOk (JObject (token_payload t @ [(''role'', JString ''support'')])), s')))"

definition request_has_privileged_token :: "auth_info option \<Rightarrow> bool" where
  "request_has_privileged_token request_info \<longleftrightarrow>
     (case request_info of
        None \<Rightarrow> False
      | Some info \<Rightarrow>
          case ai_role info of None \<Rightarrow> False | Some OwnerRole \<Rightarrow> True | Some SupportRole \<Rightarrow> ai_expires info = None)"

definition handle_issue_support_session_token ::
    "(string \<Rightarrow> u8 list) \<Rightarrow> u8 list \<Rightarrow> u64 \<Rightarrow> save_result \<Rightarrow> auth_info option \<Rightarrow> json \<Rightarrow> api_state \<Rightarrow>
     api_response \<times> api_state" where
  "handle_issue_support_session_token sha rnd now save request_info body s =
     (if \<not> request_has_privileged_token request_info
      then (ForbiddenResponse ''Support session tokens require an authenticated support token'', s)
      else (case issue_support_session_token sha rnd now save (clean_str (json_get body ''label''))
                   (as_u64 (json_get body ''ttl_seconds'')) s of
              Inl e \<Rightarrow> (ServerError e, s)
            | Inr ((t, expires), s') \<Rightarrow>
                (JsonOk (JObject (token_payload t @ [(''role'', JString ''support''), (''expires_at_epoch_ms'', JUint expires)])), s')))"

definition handle_revoke_support_session_token ::
    "u64 \<Rightarrow> save_result \<Rightarrow> auth_info option \<Rightarrow> json \<Rightarrow> api_state \<Rightarrow> api_response \<times> api_state" where
  "handle_revoke_support_session_token now save request_info body s =
     (if \<not> request_has_privileged_token request_info
      then (ForbiddenResponse ''Support session tokens require an authenticated support token'', s)
      else (case clean_str (json_get_or body ''token_id'' ''id'') of
              None \<Rightarrow> (BadRequest ''Missing token_id'', s)
            | Some i \<Rightarrow>
                (case revoke_support_session_token now save i s of
                   Inl e \<Rightarrow> (ServerError e, s)
                 | Inr (revoked, s') \<Rightarrow>
                     (JsonOk (JObject [(''status'', JString ''ok''), (''token_id'', JString i), (''revoked'', JBool revoked)]), s'))))"

definition handle_put_auth_settings ::
    "(string \<Rightarrow> u8 list) \<Rightarrow> u8 list \<Rightarrow> u64 \<Rightarrow> save_result \<Rightarrow> json \<Rightarrow> api_state \<Rightarrow> api_response \<times> api_state" where
  "handle_put_auth_settings sha rnd now save body s =
     (case as_bool (json_get_or body ''require_api_auth'' ''requires_auth'') of
        None \<Rightarrow> (BadRequest ''Missing or invalid require_api_auth boolean'', s)
      | Some required \<Rightarrow>
          (case set_api_auth_required sha rnd now save required (clean_str (json_get_or body ''label'' ''owner_label'')) s of
             Inl e \<Rightarrow> (ServerError e, s)
           | Inr (u, s') \<Rightarrow>
               (JsonOk (JObject
                  (auth_status_payload (su_require u) (su_owner u) (su_count u) (\<not> su_require u \<or> \<not> su_owner u) False None @
                   (case su_issued u of None \<Rightarrow> [(''status'', JString ''ok'')] | Some t \<Rightarrow> token_payload t))), s')))"

section \<open>Routes\<close>

text \<open>
  The factory reset (\<open>rhythm-os/src/commands.rs\<close>) is modelled in what it does to the credentials. How far it gets is
  reported by the surroundings: it may stop before the saved state is cleared, between the saved and the running state,
  or after both.
\<close>

datatype reset_progress = ResetStopped | ResetStorageCleared | ResetStateCleared

definition clear_factory_reset_storage :: "api_state \<Rightarrow> api_state" where
  "clear_factory_reset_storage s = (if as_storage s then s\<lparr>as_saved := auth_default\<rparr> else s)"

definition clear_factory_reset_ephemeral_state :: "api_state \<Rightarrow> api_state" where
  "clear_factory_reset_ephemeral_state s =
     s\<lparr>as_auth := auth_default, as_require := (if as_platform_context s = ''ha_addon'' then True else as_require s)\<rparr>"

definition do_factory_reset :: "reset_progress \<Rightarrow> api_state \<Rightarrow> api_state" where
  "do_factory_reset progress s =
     (if as_poisoned s then s
      else case progress of
        ResetStopped \<Rightarrow> s
      | ResetStorageCleared \<Rightarrow> clear_factory_reset_storage s
      | ResetStateCleared \<Rightarrow> clear_factory_reset_ephemeral_state (clear_factory_reset_storage s))"

text \<open>
  A backup is served by its handler with the flag read here. The handlers of the other routes do not write the
  credentials, and what they answer is outside this model.
\<close>

datatype served = Answer api_response | ServeBackup bool | BadQuery | FactoryReset reset_progress | Elsewhere

definition get_backup :: "(string option \<Rightarrow> (string \<times> string) list option) \<Rightarrow> request \<Rightarrow> served" where
  "get_backup decode rq =
     (case decode (rq_query rq) of
        None \<Rightarrow> BadQuery
      | Some params \<Rightarrow>
          ServeBackup (case map_of params ''include_secrets'' of
                         Some v \<Rightarrow> v = ''true'' | None \<Rightarrow> False))"

definition auth_routes ::
    "(string \<Rightarrow> u8 list) \<Rightarrow> (string option \<Rightarrow> (string \<times> string) list option) \<Rightarrow> u8 list \<Rightarrow> u64 \<Rightarrow> save_result \<Rightarrow>
     reset_progress \<Rightarrow> auth_info option \<Rightarrow> request \<Rightarrow> json \<Rightarrow> api_state \<Rightarrow> served \<times> api_state" where
  "auth_routes sha decode rnd now save progress info rq body s =
     (let m = rq_method rq; path = rq_path rq in
      if path = ''/api/auth/status'' \<and> (m = GET \<or> m = HEAD) then (Answer (handle_get_auth_status s info), s)
      else if path = ''/api/auth/claim'' \<and> m = POST
      then map_prod Answer id (handle_claim_owner_token sha rnd now save (clean_str (json_get body ''label'')) s)
      else if path = ''/api/auth/support-token'' \<and> m = POST
      then map_prod Answer id (handle_issue_support_token sha rnd now save info (clean_str (json_get body ''label'')) s)
      else if path = ''/api/auth/support-session-token'' \<and> m = POST
      then map_prod Answer id (handle_issue_support_session_token sha rnd now save info body s)
      else if path = ''/api/auth/support-session-token/revoke'' \<and> m = POST
      then map_prod Answer id (handle_revoke_support_session_token now save info body s)
      else if path = ''/api/auth/settings'' \<and> m = PUT
      then map_prod Answer id (handle_put_auth_settings sha rnd now save body s)
      else if path = ''/api/backup'' \<and> (m = GET \<or> m = HEAD) then (get_backup decode rq, s)
      else if path = ''/api/factory-reset'' \<and> m = POST then (FactoryReset progress, do_factory_reset progress s)
      else (Elsewhere, s))"

datatype reply = Refused gate | Served served

definition serve_api ::
    "(string \<Rightarrow> u8 list) \<Rightarrow> (string option \<Rightarrow> (string \<times> string) list option) \<Rightarrow> u8 list \<Rightarrow> u64 \<Rightarrow> u64 \<Rightarrow> u64 \<Rightarrow> u64 \<Rightarrow>
     save_result \<Rightarrow> reset_progress \<Rightarrow> request \<Rightarrow> json \<Rightarrow> api_state \<Rightarrow> reply \<times> api_state" where
  "serve_api sha decode rnd n1 n2 n3 n4 save progress rq body s =
     (case require_api_auth_middleware sha n1 n2 n3 rq s of
        (Proceed info stream, s') \<Rightarrow> map_prod Served id (auth_routes sha decode rnd n4 save progress (Some info) rq body s')
      | (refusal, s') \<Rightarrow> (Refused refusal, s'))"

end
