(* ===== verification/AuthStore.thy ===== *)
theory AuthStore
  imports Auth
begin

text \<open>
  The credential store over time: which token a presented secret finds, how long an issued token lasts, and the agreement
  of the published credentials with the saved ones.
\<close>

section \<open>Comparison of secrets\<close>

lemma fold_xor_zero:
  fixes l r :: "u8 list"
  assumes "length l = length r"
  shows "fold (\<lambda>(a, b) acc. or acc (xor a b)) (zip l r) acc = 0 \<longleftrightarrow> acc = 0 \<and> l = r"
  using assms
proof (induction l r arbitrary: acc rule: list_induct2)
  case Nil then show ?case by simp
next
  case (Cons a l b r)
  have "or acc (xor a b) = 0 \<longleftrightarrow> acc = 0 \<and> a = b"
    by (auto simp: bit_eq_iff bit_simps)
  then show ?case using Cons.IH [of "or acc (xor a b)"] by auto
qed

text \<open>The comparison that hides where two byte strings first differ decides equality.\<close>

lemma constant_time_eq_eq: "constant_time_eq l r = (l = r)"
  using fold_xor_zero [of l r 0] by (auto simp: constant_time_eq_def)

lemma as_bytes_inject [simp]: "as_bytes s = as_bytes t \<longleftrightarrow> s = t"
proof -
  have "inj (\<lambda>c. of_nat (of_char c) :: u8)"
  proof (rule injI)
    fix c d :: char
    assume "(of_nat (of_char c) :: u8) = of_nat (of_char d)"
    then have "(of_char c :: nat) mod 256 = of_char d mod 256" by (simp add: of_nat_eq_iff word_of_nat_eq_iff take_bit_eq_mod)
    then show "c = d" by simp
  qed
  then show ?thesis by (simp add: as_bytes_def inj_map_eq_map)
qed

definition matches :: "(string \<Rightarrow> u8 list) \<Rightarrow> u64 \<Rightarrow> string \<Rightarrow> stored_token \<Rightarrow> bool" where
  "matches sha now raw t \<longleftrightarrow> \<not> is_expired now t \<and> st_hash t = hash_token sha raw"

lemma verify_token_info_find:
  "verify_token_info sha now raw a =
     (if trim raw = [] then None
      else map_option (\<lambda>t. \<lparr>vt_id = st_id t, vt_role = st_role t, vt_expires = st_expires t\<rparr>) (find (matches sha now raw) (sa_tokens a)))"
  by (simp add: verify_token_info_def constant_time_eq_eq matches_def [abs_def])

lemma verified_stored:
  assumes "verify_token_info sha now raw a = Some v"
  shows "\<exists>t \<in> set (sa_tokens a). st_id t = vt_id v \<and> st_role t = vt_role v \<and> st_expires t = vt_expires v \<and>
           \<not> is_expired now t \<and> st_hash t = hash_token sha raw"
  using assms by (auto simp: verify_token_info_find matches_def find_Some_iff split: if_splits)


lemma matches_unique:
  assumes "\<forall>x \<in> set ts. st_hash x \<noteq> hash_token sha raw"
  shows "find (matches sha n raw) (ts @ [t]) = (if matches sha n raw t then Some t else None)"
  using assms by (induction ts) (auto simp: matches_def)

section \<open>Hexadecimal text\<close>

lemma hex_nibble_printable: "n < 16 \<Longrightarrow> printable (hex_nibble n)"
proof -
  assume "n < 16"
  then have "unat n < length ''0123456789abcdef''" by (simp add: word_less_nat_alt)
  then have "hex_nibble n \<in> set ''0123456789abcdef''" unfolding hex_nibble_def by (rule nth_mem)
  moreover have "\<forall>c \<in> set ''0123456789abcdef''. printable c" by (simp add: printable_def)
  ultimately show ?thesis by blast
qed

lemma token_hex_printable: "list_all printable (token_hex bytes)"
proof -
  have "drop_bit 4 b < 16" for b :: u8
    using unsigned_less [of b, where ?'a = nat] by (simp add: word_less_nat_alt unsigned_drop_bit_eq drop_bit_eq_div unat_div less_mult_imp_div_less)
  moreover have "and b 15 < 16" for b :: u8
    using word_and_le1 [of b 15] by (simp add: word_le_nat_alt word_less_nat_alt)
  ultimately show ?thesis by (induction bytes) (simp_all add: token_hex_def hex_nibble_printable)
qed

lemma length_token_hex: "length (token_hex bytes) = 2 * length bytes"
  by (induction bytes) (simp_all add: token_hex_def)

lemma trim_printable: "list_all printable s \<Longrightarrow> trim s = s"
  by (cases "s = []") (simp_all add: trim_id list_all_iff)

lemma generated_token_trim: "list_all printable pre \<Longrightarrow> trim (generate_raw_token pre rnd) = generate_raw_token pre rnd"
  by (simp add: trim_printable generate_raw_token_def token_hex_printable)

lemma token_id_trim: "trim (token_id (hash_token sha raw)) = token_id (hash_token sha raw)"
  using token_hex_printable [of "sha raw"]
  by (intro trim_printable) (auto simp: token_id_def hash_token_def list_all_iff dest: in_set_takeD)

section \<open>A session token from issue to revocation\<close>

lemma clamp_bounds: "1 \<le> unat (clamp_support_session_ttl ttl) \<and> unat (clamp_support_session_ttl ttl) \<le> 14400"
  by (auto simp: clamp_support_session_ttl_def max_def min_def word_le_nat_alt MIN_SUPPORT_SESSION_TTL_SECS_def
      MAX_SUPPORT_SESSION_TTL_SECS_def DEFAULT_SUPPORT_SESSION_TTL_SECS_def)

lemma unat_clamp: "unat (clamp_support_session_ttl ttl) = max 1 (min (case ttl of None \<Rightarrow> 3600 | Some secs \<Rightarrow> unat secs) 14400)"
proof -
  have "unat (max a b) = max (unat a) (unat b)" "unat (min a b) = min (unat a) (unat b)" for a b :: u64
    by (simp_all add: max_def min_def word_le_nat_alt)
  then show ?thesis
    by (cases ttl) (simp_all add: clamp_support_session_ttl_def MIN_SUPPORT_SESSION_TTL_SECS_def MAX_SUPPORT_SESSION_TTL_SECS_def
        DEFAULT_SUPPORT_SESSION_TTL_SECS_def)
qed

lemma session_expiry:
  assumes "unat now + 14400000 < 2 ^ 64"
  shows "unat (sat_add now (sat_mul (clamp_support_session_ttl ttl) 1000)) = unat now + 1000 * unat (clamp_support_session_ttl ttl)"
  using assms clamp_bounds [of ttl] by (simp add: unat_sat_add unat_sat_mul)

lemma publish_Inr: "publish save a s = Inr s' \<Longrightarrow> as_auth s' = a"
  by (auto simp: publish_def split: sum.splits)

lemma issue_local_token_Inr:
  assumes "issue_local_token sha rnd now save role pre label expires s = Inr (t, s')"
  shows "it_token t = generate_raw_token pre rnd \<and> it_id t = token_id (hash_token sha (it_token t)) \<and>
         as_auth s' = (as_auth s)\<lparr>sa_tokens := prune_expired_tokens now (sa_tokens (as_auth s)) @
           [new_token (hash_token sha (it_token t)) role now label expires]\<rparr> \<and> \<not> as_poisoned s'"
  using assms
  by (auto simp: issue_local_token_def Let_def add_token_def publish_def save_auth_def split: if_splits sum.splits option.splits)

lemma length_filter_eq_iff: "length (filter P xs) = length xs \<longleftrightarrow> (\<forall>x \<in> set xs. P x)"
  by (induction xs) (auto simp: Suc_length_conv dest: arg_cong [where f = Suc] intro: le_antisym [OF length_filter_le])

lemma revoke_session_Inr:
  assumes "revoke_support_session_token now save i s = Inr (r, s')" and "trim i \<noteq> []"
  shows "set (sa_tokens (as_auth s')) \<subseteq> {t \<in> set (sa_tokens (as_auth s)). \<not> is_support_session (trim i) t} \<and>
         (r \<longleftrightarrow> (\<exists>t \<in> set (sa_tokens (as_auth s)). is_support_session (trim i) t))"
  using assms
  by (auto simp: revoke_support_session_token_def Let_def save_auth_def prune_expired_tokens_def length_filter_eq_iff
      split: if_splits sum.splits option.splits)

lemma session_token_Inr:
  assumes "issue_support_session_token sha rnd now save label ttl s = Inr ((t, e), s')"
  shows "issue_local_token sha rnd now save SupportRole SUPPORT_SESSION_TOKEN_PREFIX label (Some e) s = Inr (t, s') \<and>
         e = sat_add now (sat_mul (clamp_support_session_ttl ttl) 1000)"
  using assms by (auto simp: issue_support_session_token_def Let_def split: sum.splits)

lemma session_token_trim: "trim (generate_raw_token SUPPORT_SESSION_TOKEN_PREFIX rnd) = generate_raw_token SUPPORT_SESSION_TOKEN_PREFIX rnd"
  by (intro generated_token_trim) (simp add: SUPPORT_SESSION_TOKEN_PREFIX_def printable_def)

lemma session_token_verifies:
  assumes "issue_support_session_token sha rnd now save label ttl s = Inr ((t, e), s')"
    and "\<forall>x \<in> set (sa_tokens (as_auth s)). st_hash x \<noteq> hash_token sha (it_token t)"
  shows "verify_token_info sha n (it_token t) (as_auth s') =
           (if n < e then Some \<lparr>vt_id = it_id t, vt_role = SupportRole, vt_expires = Some e\<rparr> else None)"
proof -
  note issued = issue_local_token_Inr [OF conjunct1 [OF session_token_Inr [OF assms(1)]]]
  let ?old = "prune_expired_tokens now (sa_tokens (as_auth s))"
  have "\<forall>x \<in> set ?old. st_hash x \<noteq> hash_token sha (it_token t)" using assms(2) by (simp add: prune_expired_tokens_def)
  from matches_unique [OF this] have found: "find (matches sha n (it_token t)) (?old @ [y]) = (if matches sha n (it_token t) y then Some y else None)" for y .
  have nonempty: "trim (it_token t) \<noteq> []"
    using issued by (simp add: session_token_trim) (simp add: generate_raw_token_def SUPPORT_SESSION_TOKEN_PREFIX_def)
  have auth: "as_auth s' = (as_auth s)\<lparr>sa_tokens := ?old @ [new_token (hash_token sha (it_token t)) SupportRole now label (Some e)]\<rparr>"
    and id: "it_id t = token_id (hash_token sha (it_token t))"
    using issued by blast+
  show ?thesis
    using nonempty by (simp add: verify_token_info_find auth found) (simp add: id matches_def new_token_def is_expired_def not_le)
qed

lemma unknown_token_rejected:
  "\<forall>x \<in> set (sa_tokens a). st_hash x \<noteq> hash_token sha raw \<Longrightarrow> verify_token_info sha n raw a = None"
  using verified_stored [of sha n raw a] by (cases "verify_token_info sha n raw a") auto

lemma revoked_session_gone:
  assumes issued: "issue_support_session_token sha rnd now save label ttl s = Inr ((t, e), s')"
    and fresh: "\<forall>x \<in> set (sa_tokens (as_auth s)). st_hash x \<noteq> hash_token sha (it_token t)"
    and digest: "length (sha (it_token t)) = 32"
    and revoked: "revoke_support_session_token now' save' (it_id t) s' = Inr (r, s'')"
  shows "r \<and> verify_token_info sha n (it_token t) (as_auth s'') = None"
proof -
  note i = issue_local_token_Inr [OF conjunct1 [OF session_token_Inr [OF issued]]]
  have id: "trim (it_id t) = it_id t" using i by (simp add: token_id_trim)
  moreover have "it_id t \<noteq> []" using i digest length_token_hex [of "sha (it_token t)"] by (auto simp: token_id_def hash_token_def)
  ultimately have ne: "trim (it_id t) \<noteq> []" by simp
  let ?t = "new_token (hash_token sha (it_token t)) SupportRole now label (Some e)"
  have t: "is_support_session (it_id t) ?t" using i by (simp add: is_support_session_def new_token_def)
  note r = revoke_session_Inr [OF revoked ne, unfolded id]
  have "r" using r i t by auto
  moreover have "\<forall>x \<in> set (sa_tokens (as_auth s'')). st_hash x \<noteq> hash_token sha (it_token t)"
  proof
    fix x assume x: "x \<in> set (sa_tokens (as_auth s''))"
    then have "x \<noteq> ?t" "x \<in> set (sa_tokens (as_auth s'))" using r t by auto
    then show "st_hash x \<noteq> hash_token sha (it_token t)" using i fresh by (auto simp: prune_expired_tokens_def)
  qed
  ultimately show ?thesis using unknown_token_rejected by blast
qed

text \<open>C15: A support session token is accepted, as a support token with its expiry, from its issue until it expires and
  never after; its life is the requested number of seconds, an hour when none is requested, raised to one second and cut
  at four hours; and once it has been revoked by its identifier it is not accepted at any time.\<close>
theorem session_token_lifecycle:
  assumes "issue_support_session_token sha rnd now save label ttl s = Inr ((t, e), s')"
    and "\<forall>x \<in> set (sa_tokens (as_auth s)). st_hash x \<noteq> hash_token sha (it_token t)"
    and "length (sha (it_token t)) = 32" and "unat now + 14400000 < 2 ^ 64"
  shows "verify_token_info sha n (it_token t) (as_auth s') =
           (if n < e then Some \<lparr>vt_id = it_id t, vt_role = SupportRole, vt_expires = Some e\<rparr> else None) \<and>
         unat e = unat now + 1000 * max 1 (min (case ttl of None \<Rightarrow> 3600 | Some secs \<Rightarrow> unat secs) 14400) \<and>
         (\<forall>k r s'' n'. revoke_support_session_token k save' (it_id t) s' = Inr (r, s'') \<longrightarrow>
            r \<and> verify_token_info sha n' (it_token t) (as_auth s'') = None)"
proof (intro conjI)
  show "unat e = unat now + 1000 * max 1 (min (case ttl of None \<Rightarrow> 3600 | Some secs \<Rightarrow> unat secs) 14400)"
    using session_expiry [OF assms(4), of ttl] conjunct2 [OF session_token_Inr [OF assms(1)]] by (simp add: unat_clamp)
qed (use session_token_verifies [OF assms(1,2)] revoked_session_gone [OF assms(1-3)] in blast)+

section \<open>Published and saved credentials\<close>

definition live :: "u64 \<Rightarrow> stored_auth \<Rightarrow> stored_auth" where
  "live n a = a\<lparr>sa_tokens := prune_expired_tokens n (sa_tokens a)\<rparr>"

lemma expired_mono: "n \<le> m \<Longrightarrow> is_expired n t \<Longrightarrow> is_expired m t"
  by (auto simp: is_expired_def split: option.splits)

lemma live_live: "n \<le> m \<Longrightarrow> live m (live n a) = live m a"
proof -
  assume "n \<le> m"
  then have "(\<lambda>t. \<not> is_expired n t \<and> \<not> is_expired m t) = (\<lambda>t. \<not> is_expired m t)" using expired_mono by blast
  then show ?thesis by (simp add: live_def prune_expired_tokens_def)
qed

lemma live_mono: "live n a = live n b \<Longrightarrow> n \<le> m \<Longrightarrow> live m a = live m b"
  by (metis live_live)

lemma verify_live: "verify_token_info sha n raw (live n a) = verify_token_info sha n raw a"
proof -
  have "find P (filter Q xs) = find (\<lambda>x. Q x \<and> P x) xs" for P Q and xs :: "stored_token list" by (induction xs) auto
  moreover have "(\<lambda>t. \<not> is_expired n t \<and> matches sha n raw t) = matches sha n raw" by (auto simp: matches_def)
  ultimately show ?thesis by (simp add: verify_token_info_find live_def prune_expired_tokens_def)
qed

datatype auth_op =
  IssueToken token_role string "string option" "u64 option"
| IssueSession "string option" "u64 option"
| RevokeSession string
| RevokeToken string
| IssueOwner "string option"
| SetRequired bool "string option"
| ClearAuth

text \<open>The state after an operation: the one it returns, the old one when it fails.\<close>

definition settled :: "api_state \<Rightarrow> string + 'a \<times> api_state \<Rightarrow> api_state" where
  "settled s r = (case r of Inl _ \<Rightarrow> s | Inr (_, s') \<Rightarrow> s')"

definition run_auth_op :: "(string \<Rightarrow> u8 list) \<Rightarrow> u8 list \<Rightarrow> u64 \<Rightarrow> save_result \<Rightarrow> auth_op \<Rightarrow> api_state \<Rightarrow> api_state" where
  "run_auth_op sha rnd now save oper s =
     (case oper of
        IssueToken role pre label e \<Rightarrow> settled s (issue_local_token sha rnd now save role pre label e s)
      | IssueSession label ttl \<Rightarrow> settled s (issue_support_session_token sha rnd now save label ttl s)
      | RevokeSession i \<Rightarrow> settled s (revoke_support_session_token now save i s)
      | RevokeToken i \<Rightarrow> settled s (revoke_local_token save i s)
      | IssueOwner label \<Rightarrow> settled s (issue_owner_token sha rnd now save label s)
      | SetRequired b label \<Rightarrow> settled s (set_api_auth_required sha rnd now save b label s)
      | ClearAuth \<Rightarrow> (case clear_api_auth save s of Inl _ \<Rightarrow> s | Inr s' \<Rightarrow> s'))"

fun run_auth_ops :: "(string \<Rightarrow> u8 list) \<Rightarrow> (u64 \<times> u8 list \<times> save_result \<times> auth_op) list \<Rightarrow> api_state \<Rightarrow> api_state" where
  "run_auth_ops sha [] s = s"
| "run_auth_ops sha ((now, rnd, save, oper) # ops) s = run_auth_ops sha ops (run_auth_op sha rnd now save oper s)"

definition durable :: "u64 \<Rightarrow> api_state \<Rightarrow> bool" where
  "durable n s \<longleftrightarrow> (as_storage s \<longrightarrow> live n (as_saved s) = live n (as_auth s))"

lemma durable_mono: "durable n s \<Longrightarrow> n \<le> m \<Longrightarrow> durable m s"
  unfolding durable_def using live_mono [of n "as_saved s" "as_auth s" m] by blast

lemma publish_durable: "publish save a s = Inr s' \<Longrightarrow> durable n s'"
  by (auto simp: publish_def save_auth_def durable_def split: if_splits option.splits)

lemma revoke_session_durable:
  assumes "revoke_support_session_token n save i s = Inr (r, s')" and "durable n s"
  shows "durable n s'"
proof -
  let ?a = "(as_auth s)\<lparr>sa_tokens := prune_expired_tokens n (filter (\<lambda>t. \<not> is_support_session (trim i) t) (sa_tokens (as_auth s)))\<rparr>"
  have "s' = s \<or> publish save ?a s = Inr s' \<or> s' = s\<lparr>as_auth := live n (as_auth s)\<rparr>"
    using assms(1)
    by (auto simp: revoke_support_session_token_def Let_def publish_def live_def filter_id_conv length_filter_eq_iff
        split: if_splits sum.splits)
  then show ?thesis using assms(2) publish_durable live_live [of n n "as_auth s"] by (auto simp: durable_def)
qed

lemma issue_local_durable: "issue_local_token sha rnd now save role pre label e s = Inr (t, s') \<Longrightarrow> durable n s'"
  by (auto simp: issue_local_token_def Let_def dest: publish_durable split: sum.splits if_splits)

lemma issue_session_durable: "issue_support_session_token sha rnd now save label ttl s = Inr (t, s') \<Longrightarrow> durable n s'"
  by (auto simp: issue_support_session_token_def Let_def dest: issue_local_durable split: sum.splits)

lemma revoke_local_durable: "revoke_local_token save i s = Inr (r, s') \<Longrightarrow> durable n s \<Longrightarrow> durable n s'"
  by (auto simp: revoke_local_token_def Let_def dest: publish_durable split: sum.splits if_splits)

lemma issue_owner_durable: "issue_owner_token sha rnd now save label s = Inr (t, s') \<Longrightarrow> durable n s \<Longrightarrow> durable n s'"
  by (auto simp: issue_owner_token_def Let_def dest: publish_durable split: sum.splits if_splits)

lemma set_required_durable:
  "set_api_auth_required sha rnd now save b label s = Inr (u, s') \<Longrightarrow> durable n s'"
proof -
  have "durable n x \<Longrightarrow> durable n (x\<lparr>as_require := b\<rparr>)" for x by (simp add: durable_def)
  then show "set_api_auth_required sha rnd now save b label s = Inr (u, s') \<Longrightarrow> durable n s'"
    unfolding set_api_auth_required_def Let_def
    by (split if_split_asm; clarsimp split: sum.splits; blast dest: publish_durable)
qed

lemma clear_durable: "clear_api_auth save s = Inr s' \<Longrightarrow> durable n s'"
  by (auto simp: clear_api_auth_def dest: publish_durable split: if_splits)

lemma settled_cases: "P s \<Longrightarrow> (\<And>x s'. r = Inr (x, s') \<Longrightarrow> P s') \<Longrightarrow> P (settled s r)"
  by (auto simp: settled_def split: sum.splits)

lemma auth_op_durable:
  assumes "durable now s"
  shows "durable now (run_auth_op sha rnd now save oper s)"
proof (cases oper)
  case ClearAuth
  then show ?thesis using assms clear_durable by (simp add: run_auth_op_def split: sum.splits)
qed (use assms in \<open>auto simp: run_auth_op_def intro: settled_cases issue_local_durable issue_session_durable revoke_session_durable
       revoke_local_durable issue_owner_durable set_required_durable\<close>)

lemma auth_ops_durable:
  assumes "durable n s" and "sorted (n # map fst ops)"
  shows "durable (last (n # map fst ops)) (run_auth_ops sha ops s)"
  using assms
proof (induction ops arbitrary: n s)
  case (Cons p ops)
  obtain now rnd save oper where p: "p = (now, rnd, save, oper)" by (cases p)
  have "durable now (run_auth_op sha rnd now save oper s)"
    using Cons.prems p by (intro auth_op_durable durable_mono [OF Cons.prems(1)]) simp
  from Cons.IH [OF this] show ?case using Cons.prems(2) p by simp
qed simp

lemma run_storage: "as_storage (run_auth_op sha rnd now save oper s) = as_storage s"
  by (cases oper)
    (auto simp: run_auth_op_def settled_def issue_support_session_token_def issue_local_token_def revoke_support_session_token_def
      revoke_local_token_def issue_owner_token_def set_api_auth_required_def clear_api_auth_def publish_def save_auth_def Let_def
      split: sum.splits if_splits option.splits)

lemma run_ops_storage: "as_storage (run_auth_ops sha ops s) = as_storage s"
  by (induction sha ops s rule: run_auth_ops.induct) (simp_all add: run_storage)

text \<open>C8: The credentials survive a restart. Whatever tokens are issued, revoked or cleared, with any of the writes
  failing, and as long as the clock does not go back, the credentials on disk answer every presented secret as those in
  memory do, and carry the same switch.\<close>
theorem credentials_durable:
  assumes "as_storage s" and "as_saved s = as_auth s"
    and "sorted (map fst ops)" and "\<forall>p \<in> set ops. fst p \<le> n"
  shows "verify_token_info sha n raw (as_saved (run_auth_ops sha ops s)) = verify_token_info sha n raw (as_auth (run_auth_ops sha ops s)) \<and>
         sa_require (as_saved (run_auth_ops sha ops s)) = sa_require (as_auth (run_auth_ops sha ops s))"
proof -
  let ?s = "run_auth_ops sha ops s" and ?m = "last (0 # map fst ops)"
  have "?m = 0 \<or> ?m \<in> fst ` set ops" by (cases ops rule: rev_cases) auto
  then have "?m \<le> n" using assms(4) by auto
  moreover have "durable ?m ?s" using assms(2,3) by (intro auth_ops_durable) (simp_all add: durable_def)
  ultimately have "durable n ?s" by (rule durable_mono [rotated])
  then have "live n (as_saved ?s) = live n (as_auth ?s)" using assms(1) by (simp add: durable_def run_ops_storage)
  then show ?thesis using verify_live [of sha n raw "as_saved ?s"] verify_live [of sha n raw "as_auth ?s"]
    by (metis live_def stored_auth.select_convs(2) stored_auth.update_convs(3) stored_auth.surjective)
qed

section \<open>Concrete inputs\<close>

definition toy_sha :: "string \<Rightarrow> u8 list" where
  "toy_sha s = take 32 (rev (as_bytes s) @ replicate 32 0)"

definition toy_state :: "stored_token list \<Rightarrow> api_state" where
  "toy_state ts =
     \<lparr>as_poisoned = False, as_auth = auth_default\<lparr>sa_tokens := ts\<rparr>, as_require = True, as_platform_type = ''server'',
      as_platform_context = ''linux'', as_storage = True, as_saved = auth_default\<lparr>sa_tokens := ts\<rparr>, as_data_dir = ''/data'',
      as_audit_writable = True, as_audit = []\<rparr>"

definition toy_issue :: "issued_token \<times> u64" where
  "toy_issue = (case issue_support_session_token toy_sha [7] 1000 (\<lambda>_. None) None (Some 1) (toy_state []) of
     Inr (r, _) \<Rightarrow> r | Inl _ \<Rightarrow> (\<lparr>it_id = [], it_token = []\<rparr>, 0))"

theorem session_token_lifecycle_witness:
  "\<exists>s'. issue_support_session_token toy_sha [7] 1000 (\<lambda>_. None) None (Some 1) (toy_state []) = Inr (toy_issue, s') \<and>
     verify_token_info toy_sha 2000 (it_token (fst toy_issue)) (as_auth s') = None"
proof -
  have ok: "case issue_support_session_token toy_sha [7] 1000 (\<lambda>_. None) None (Some 1) (toy_state []) of Inr _ \<Rightarrow> True | Inl _ \<Rightarrow> False"
    by code_simp
  then obtain s' where i: "issue_support_session_token toy_sha [7] 1000 (\<lambda>_. None) None (Some 1) (toy_state []) = Inr (toy_issue, s')"
    by (auto simp: toy_issue_def split: sum.splits)
  have e: "snd toy_issue = 2000" and l: "length (toy_sha (it_token (fst toy_issue))) = 32" by code_simp+
  have i': "issue_support_session_token toy_sha [7] 1000 (\<lambda>_. None) None (Some 1) (toy_state []) = Inr ((fst toy_issue, snd toy_issue), s')"
    using i by simp
  have f: "\<forall>x \<in> set (sa_tokens (as_auth (toy_state []))). st_hash x \<noteq> hash_token toy_sha (it_token (fst toy_issue))"
    by (simp add: toy_state_def auth_default_def)
  have "verify_token_info toy_sha 2000 (it_token (fst toy_issue)) (as_auth s') = None"
    using session_token_lifecycle [where n = 2000, OF i' f l] by (simp add: e)
  with i show ?thesis by blast
qed

theorem credentials_durable_witness:
  "let s = run_auth_ops toy_sha
       [(1, [7], \<lambda>_. None, IssueSession None (Some 1)), (2, [8], \<lambda>_. Some ''full'', IssueOwner None), (5000, [], \<lambda>_. None, RevokeSession ''x'')]
       (toy_state [])
   in verify_token_info toy_sha 6000 ''a'' (as_saved s) = verify_token_info toy_sha 6000 ''a'' (as_auth s)"
  unfolding Let_def by (rule conjunct1, rule credentials_durable) (simp_all add: toy_state_def)

end
