(* ===== verification/AuthProperties.thy ===== *)
theory AuthProperties
  imports AuthApi AuthStore
begin

text \<open>
  What the gate and the routes behind it guarantee, and two ways around what they announce: the percent-encoded query of
  a backup and the open claim on the local network.
\<close>

section \<open>The gate\<close>

lemma audit_keeps [simp]:
  "as_auth (audit_request n v rq s) = as_auth s" "as_poisoned (audit_request n v rq s) = as_poisoned s"
  "as_require (audit_request n v rq s) = as_require s" "as_saved (audit_request n v rq s) = as_saved s"
  "as_platform_type (audit_request n v rq s) = as_platform_type s"
  "as_platform_context (audit_request n v rq s) = as_platform_context s" "as_storage (audit_request n v rq s) = as_storage s"
  by (auto simp: audit_request_def write_support_audit_line_def Let_def split: option.splits)

lemma audit_info [simp]: "auth_request_info (audit_request n v rq s) rq = auth_request_info s rq"
  by (simp add: auth_request_info_def)

lemma with_token_simps [simp]:
  "ai_requires_auth (with_token v i) = ai_requires_auth i" "ai_claim_available (with_token v i) = ai_claim_available i"
  "ai_via_remote (with_token v i) = ai_via_remote i" "ai_role (with_token v i) = Some (vt_role v)"
  "ai_expires (with_token v i) = vt_expires v"
  by (simp_all add: with_token_def)

lemma public_with_token [simp]: "is_public_request m p (with_token v i) = is_public_request m p i"
  by (simp add: is_public_request_def)

lemma locked_stored:
  assumes "verify_locked sha n tok s = Some v"
  shows "\<exists>t \<in> set (sa_tokens (as_auth s)). matches sha n tok t \<and> st_role t = vt_role v \<and> st_expires t = vt_expires v"
  using assms verified_stored [of sha n tok "as_auth s" v] by (auto simp: verify_locked_def matches_def split: if_splits)

lemma bearer_stored:
  assumes "verified_bearer_token sha n s rq = Some v"
  shows "\<exists>tok. presented_token rq = Some tok \<and>
           (\<exists>t \<in> set (sa_tokens (as_auth s)). matches sha n tok t \<and> st_role t = vt_role v \<and> st_expires t = vt_expires v)"
  using assms locked_stored [of sha n _ s v] by (auto simp: verified_bearer_token_def split: option.splits)

lemma gate_refuses_support:
  assumes "verified_bearer_token sha n1 s rq = Some v" and "vt_role v = SupportRole"
    and "support_token_forbidden_reason (rq_method rq) (rq_path rq) (rq_query rq) = Some r"
  shows "gate_decision sha n3 (Some v) rq s' = Forbidden r"
  using assms by (simp add: gate_decision_def is_support_def)

lemma require_token_Proceed:
  assumes "require_token sha n3 verified info stream rq s = Proceed i st"
  shows "\<exists>tok v. presented_token rq = Some tok \<and> (verified = Some v \<or> verify_locked sha n3 tok s = Some v) \<and>
           (vt_role v = SupportRole \<longrightarrow> support_token_forbidden_reason (rq_method rq) (rq_path rq) (rq_query rq) = None)"
  using assms by (auto simp: require_token_def split: option.splits if_splits)

lemma gate_Proceed:
  assumes "gate_decision sha n3 verified rq s = Proceed i st"
    and "\<not> is_public_request (rq_method rq) (rq_path rq) (auth_request_info s rq)"
  shows "(owner_token_required (rq_method rq) (rq_path rq) \<longrightarrow> is_owner verified) \<and>
         (ai_requires_auth (auth_request_info s rq) \<longrightarrow>
            (\<exists>info stream i' st'. require_token sha n3 verified info stream rq s = Proceed i' st'))"
  using assms by (auto simp: gate_decision_def Let_def split: option.splits if_splits)

text \<open>C2: What passes the gate. A request that is not public reaches a route that asks for an owner only with the
  secret of an unexpired owner token; where the API requires a credential, it reaches any route only with the secret of
  an unexpired token, and with a support token only a route that is not closed to support.\<close>
theorem gate_sound:
  assumes "require_api_auth_middleware sha n1 n2 n3 rq s = (Proceed info stream, s')"
    and "\<not> is_public_request (rq_method rq) (rq_path rq) (auth_request_info s rq)"
  shows "(owner_token_required (rq_method rq) (rq_path rq) \<longrightarrow>
            (\<exists>tok. presented_token rq = Some tok \<and>
               (\<exists>t \<in> set (sa_tokens (as_auth s)). st_role t = OwnerRole \<and> \<not> is_expired n1 t \<and> st_hash t = hash_token sha tok))) \<and>
         (ai_requires_auth (auth_request_info s rq) \<longrightarrow>
            (\<exists>tok. presented_token rq = Some tok \<and>
               (\<exists>t \<in> set (sa_tokens (as_auth s)). (\<not> is_expired n1 t \<or> \<not> is_expired n3 t) \<and> st_hash t = hash_token sha tok \<and>
                  (st_role t = SupportRole \<longrightarrow>
                     support_token_forbidden_reason (rq_method rq) (rq_path rq) (rq_query rq) = None))))"
proof -
  let ?v = "verified_bearer_token sha n1 s rq" and ?s = "audit_request n2 (verified_bearer_token sha n1 s rq) rq s"
  have d: "gate_decision sha n3 ?v rq ?s = Proceed info stream"
    using assms(1) by (auto simp only: require_api_auth_middleware_def Let_def prod.inject)
  note g = gate_Proceed [OF d, unfolded audit_info, OF assms(2)]
  have owner: "\<exists>tok. presented_token rq = Some tok \<and>
      (\<exists>t \<in> set (sa_tokens (as_auth s)). st_role t = OwnerRole \<and> \<not> is_expired n1 t \<and> st_hash t = hash_token sha tok)"
    if "is_owner ?v"
    using that bearer_stored [of sha n1 s rq] by (fastforce simp: is_owner_def matches_def)
  have cred: "\<exists>tok. presented_token rq = Some tok \<and>
      (\<exists>t \<in> set (sa_tokens (as_auth s)). (\<not> is_expired n1 t \<or> \<not> is_expired n3 t) \<and> st_hash t = hash_token sha tok \<and>
         (st_role t = SupportRole \<longrightarrow> support_token_forbidden_reason (rq_method rq) (rq_path rq) (rq_query rq) = None))"
    if "require_token sha n3 ?v i st rq ?s = Proceed i' st'" for i st i' st'
    using require_token_Proceed [OF that] bearer_stored [of sha n1 s rq] locked_stored [of sha n3 _ ?s]
    by (fastforce simp: matches_def)
  show ?thesis using g owner cred by blast
qed

definition proceeds :: "gate \<times> api_state \<Rightarrow> bool" where
  "proceeds r \<longleftrightarrow> (case fst r of Proceed _ _ \<Rightarrow> True | _ \<Rightarrow> False)"

lemma proceedsE: "proceeds r \<Longrightarrow> \<exists>i st s'. r = (Proceed i st, s')"
  by (cases r; cases "fst r") (auto simp: proceeds_def)

definition toy_owner :: "string \<Rightarrow> stored_token" where
  "toy_owner raw = new_token (hash_token toy_sha raw) OwnerRole 5 None None"

definition toy_request :: "http_method \<Rightarrow> string \<Rightarrow> string option \<Rightarrow> string \<Rightarrow> request" where
  "toy_request m path q tok =
     \<lparr>rq_method = m, rq_path = path, rq_query = q, rq_headers = [(''authorization'', Some (''Bearer '' @ tok))],
      rq_peer_loopback = Some False\<rparr>"

theorem gate_sound_witness:
  "\<exists>tok. presented_token (toy_request GET ''/api/devices/removed'' None ''secret'') = Some tok \<and>
     (\<exists>t \<in> set [toy_owner ''secret'']. st_role t = OwnerRole \<and> \<not> is_expired 9 t \<and> st_hash t = hash_token toy_sha tok)"
proof -
  let ?rq = "toy_request GET ''/api/devices/removed'' None ''secret''" and ?s = "toy_state [toy_owner ''secret'']"
  have p: "\<exists>i st s'. require_api_auth_middleware toy_sha 9 9 9 ?rq ?s = (Proceed i st, s')"
    by (rule proceedsE) code_simp
  have "\<not> is_public_request (rq_method ?rq) (rq_path ?rq) (auth_request_info ?s ?rq)"
    and o: "owner_token_required (rq_method ?rq) (rq_path ?rq)" and t: "sa_tokens (as_auth ?s) = [toy_owner ''secret'']"
    by (code_simp, code_simp, simp add: toy_state_def)
  with p gate_sound [of toy_sha 9 9 9 ?rq ?s] show ?thesis by (metis (no_types, lifting))
qed

text \<open>C16: A request with a live support token never gets to a route that is closed to support, public or not: the answer
  is the refusal, and of the state only the audit trail may have grown.\<close>
theorem support_token_confined:
  assumes "verified_bearer_token sha n1 s rq = Some v" and "vt_role v = SupportRole"
    and "support_token_forbidden_reason (rq_method rq) (rq_path rq) (rq_query rq) = Some r"
  shows "\<exists>audit. serve_api sha decode rnd n1 n2 n3 n4 save progress rq body s = (Refused (Forbidden r), s\<lparr>as_audit := audit\<rparr>)"
proof -
  have "\<exists>audit. audit_request n2 (Some v) rq s = s\<lparr>as_audit := audit\<rparr>"
    by (auto simp: audit_request_def write_support_audit_line_def Let_def intro: exI [of _ "as_audit s"])
  then show ?thesis
    using assms gate_refuses_support [OF assms] by (auto simp: serve_api_def require_api_auth_middleware_def Let_def)
qed

text \<open>Each answer to a support session token leaves the credentials alone.\<close>

lemma session_request_refused:
  assumes "ai_role info = Some SupportRole" and "ai_expires info \<noteq> None"
  shows "\<not> request_has_privileged_token (Some info)"
  using assms by (simp add: request_has_privileged_token_def)

lemma open_route: "support_token_forbidden_reason m path q = None \<Longrightarrow> (m, path) \<notin> set support_forbidden_routes"
  by (auto simp: support_token_forbidden_reason_def split: if_splits)

lemma snd_if: "(c \<Longrightarrow> snd a = s) \<Longrightarrow> snd b = s \<Longrightarrow> snd (if c then a else b) = s"
  by simp

lemma auth_routes_support:
  assumes "ai_role info = Some SupportRole" and "ai_expires info \<noteq> None"
    and "support_token_forbidden_reason (rq_method rq) (rq_path rq) (rq_query rq) = None"
  shows "snd (auth_routes sha decode rnd now save progress (Some info) rq body s) = s"
proof -
  have "(rq_method rq, rq_path rq) \<noteq> (POST, ''/api/auth/claim'')" "(rq_method rq, rq_path rq) \<noteq> (POST, ''/api/auth/support-token'')"
    "(rq_method rq, rq_path rq) \<noteq> (PUT, ''/api/auth/settings'')" "(rq_method rq, rq_path rq) \<noteq> (POST, ''/api/factory-reset'')"
    using open_route [OF assms(3)] by (simp_all add: support_forbidden_routes_def)
  then show ?thesis
    unfolding auth_routes_def Let_def
    using session_request_refused [OF assms(1,2)]
    by (intro snd_if)
      (auto simp only: handle_issue_support_session_token_def handle_revoke_support_session_token_def snd_map_prod id_apply snd_conv if_True not_False_eq_True)
qed

lemma gate_Proceed_verified:
  assumes "gate_decision sha n3 (Some v) rq s = Proceed info st"
  shows "ai_role info = Some (vt_role v) \<and> ai_expires info = vt_expires v \<and>
         (vt_role v = SupportRole \<longrightarrow> support_token_forbidden_reason (rq_method rq) (rq_path rq) (rq_query rq) = None)"
  using assms by (auto simp: gate_decision_def require_token_def Let_def is_support_def split: option.splits if_splits)

text \<open>C7: A support session token cannot change who has access. Of the routes of the server, those for authentication and
  the factory reset write the credentials; whatever the request made with the token, and however far a factory reset
  would get, the credentials in memory, the credentials saved and the switch that requires them stay as they were, so a
  session can neither be prolonged nor turned into an owner, nor can it reset the owners away.\<close>
theorem session_cannot_change_credentials:
  assumes "verified_bearer_token sha n1 s rq = Some v" and "vt_role v = SupportRole" and "vt_expires v \<noteq> None"
  shows "as_auth (snd (serve_api sha decode rnd n1 n2 n3 n4 save progress rq body s)) = as_auth s \<and>
         as_saved (snd (serve_api sha decode rnd n1 n2 n3 n4 save progress rq body s)) = as_saved s \<and>
         as_require (snd (serve_api sha decode rnd n1 n2 n3 n4 save progress rq body s)) = as_require s"
proof -
  let ?s = "audit_request n2 (Some v) rq s"
  have "snd (serve_api sha decode rnd n1 n2 n3 n4 save progress rq body s) = ?s"
  proof (cases "gate_decision sha n3 (Some v) rq ?s")
    case (Proceed info st)
    from gate_Proceed_verified [OF this] have "snd (auth_routes sha decode rnd n4 save progress (Some info) rq body ?s) = ?s"
      using assms by (intro auth_routes_support) auto
    with Proceed assms(1) show ?thesis by (simp add: serve_api_def require_api_auth_middleware_def Let_def)
  qed (use assms(1) in \<open>simp_all add: serve_api_def require_api_auth_middleware_def Let_def\<close>)
  then show ?thesis by simp
qed

definition toy_session :: "string \<Rightarrow> stored_token" where
  "toy_session raw = new_token (hash_token toy_sha raw) SupportRole 5 None (Some 50)"

abbreviation no_decode :: "string option \<Rightarrow> (string \<times> string) list option" where
  "no_decode \<equiv> \<lambda>_. None"

theorem support_token_confined_witness:
  "\<exists>audit. serve_api toy_sha no_decode [] 9 9 9 9 (\<lambda>_. None) ResetStateCleared (toy_request PUT ''/api/wifi'' None ''sess'') JNull (toy_state [toy_session ''sess'']) =
     (Refused (Forbidden ''Support token is not allowed for this endpoint''), (toy_state [toy_session ''sess''])\<lparr>as_audit := audit\<rparr>)"
proof -
  let ?rq = "toy_request PUT ''/api/wifi'' None ''sess''"
  have v: "verified_bearer_token toy_sha 9 (toy_state [toy_session ''sess'']) ?rq =
      Some \<lparr>vt_id = take 16 (hash_token toy_sha ''sess''), vt_role = SupportRole, vt_expires = Some 50\<rparr>"
    by code_simp
  have r: "support_token_forbidden_reason (rq_method ?rq) (rq_path ?rq) (rq_query ?rq) =
      Some ''Support token is not allowed for this endpoint''"
    by code_simp
  show ?thesis by (rule support_token_confined [OF v _ r]) simp
qed

theorem session_cannot_change_credentials_witness:
  "as_auth (snd (serve_api toy_sha no_decode [1] 9 9 9 9 (\<lambda>_. None) ResetStateCleared (toy_request POST ''/api/auth/support-session-token'' None ''sess'')
     JNull (toy_state [toy_session ''sess'']))) = as_auth (toy_state [toy_session ''sess''])"
proof -
  let ?rq = "toy_request POST ''/api/auth/support-session-token'' None ''sess''"
  have v: "verified_bearer_token toy_sha 9 (toy_state [toy_session ''sess'']) ?rq =
      Some \<lparr>vt_id = take 16 (hash_token toy_sha ''sess''), vt_role = SupportRole, vt_expires = Some 50\<rparr>"
    by code_simp
  show ?thesis by (rule conjunct1 [OF session_cannot_change_credentials [OF v]]) simp_all
qed

section \<open>The query of a backup\<close>

lemma gate_admits:
  assumes "verified_bearer_token sha n1 s rq = Some v"
    and "vt_role v = SupportRole \<longrightarrow> support_token_forbidden_reason (rq_method rq) (rq_path rq) (rq_query rq) = None"
    and "owner_token_required (rq_method rq) (rq_path rq) \<longrightarrow> vt_role v = OwnerRole"
  shows "\<exists>info st. gate_decision sha n3 (Some v) rq s' = Proceed info st"
proof -
  obtain tok where "presented_token rq = Some tok" using assms(1) by (auto simp: verified_bearer_token_def split: option.splits)
  then show ?thesis using assms by (auto simp: gate_decision_def require_token_def Let_def is_support_def is_owner_def)
qed

text \<open>C39: The gate reads the flag that asks for the secrets of a backup in the query as it was sent, the handler reads it
  after decoding. A support token may not export secrets, but with one letter of the flag percent-encoded the request
  passes the gate and the backup is served with its secrets.\<close>
theorem support_exports_secrets:
  assumes "verified_bearer_token sha n1 s rq = Some v" and "vt_role v = SupportRole"
    and "rq_method rq = GET" and "rq_path rq = ''/api/backup''" and "rq_query rq = Some ''include%5Fsecrets=true''"
    and "decode (Some ''include%5Fsecrets=true'') = Some [(''include_secrets'', ''true'')]"
  shows "support_token_forbidden_reason GET ''/api/backup'' (Some ''include_secrets=true'') \<noteq> None \<and>
         fst (serve_api sha decode rnd n1 n2 n3 n4 save progress rq body s) = Served (ServeBackup True)"
proof -
  have closed: "support_token_forbidden_reason GET ''/api/backup'' (Some ''include_secrets=true'') \<noteq> None" by code_simp
  have passes: "support_token_forbidden_reason GET ''/api/backup'' (Some ''include%5Fsecrets=true'') = None" by code_simp
  have lan: "\<not> owner_token_required GET ''/api/backup''" by code_simp
  have "\<exists>info st. gate_decision sha n3 (Some v) rq (audit_request n2 (Some v) rq s) = Proceed info st"
    by (rule gate_admits [OF assms(1)]) (simp_all only: assms(2-5) passes lan simp_thms)
  then obtain info st where g: "gate_decision sha n3 (Some v) rq (audit_request n2 (Some v) rq s) = Proceed info st" by blast
  have "get_backup decode rq = ServeBackup True" using assms(5,6) by (simp add: get_backup_def)
  with g assms(1,3,4) have "fst (serve_api sha decode rnd n1 n2 n3 n4 save progress rq body s) = Served (ServeBackup True)"
    by (simp add: serve_api_def require_api_auth_middleware_def Let_def auth_routes_def)
  with closed show ?thesis by simp
qed

definition toy_decode :: "string option \<Rightarrow> (string \<times> string) list option" where
  "toy_decode q = (if q = Some ''include%5Fsecrets=true'' then Some [(''include_secrets'', ''true'')] else Some [])"

theorem support_exports_secrets_witness:
  "fst (serve_api toy_sha toy_decode [] 9 9 9 9 (\<lambda>_. None) ResetStateCleared (toy_request GET ''/api/backup'' (Some ''include%5Fsecrets=true'') ''sess'')
     JNull (toy_state [toy_session ''sess''])) = Served (ServeBackup True)"
proof -
  let ?rq = "toy_request GET ''/api/backup'' (Some ''include%5Fsecrets=true'') ''sess''"
  have v: "verified_bearer_token toy_sha 9 (toy_state [toy_session ''sess'']) ?rq =
      Some \<lparr>vt_id = take 16 (hash_token toy_sha ''sess''), vt_role = SupportRole, vt_expires = Some 50\<rparr>"
    by code_simp
  show ?thesis
    by (rule conjunct2 [OF support_exports_secrets [OF v]]) (simp_all add: toy_request_def toy_decode_def)
qed

section \<open>The open claim\<close>

lemma claim_on_lan:
  assumes "\<not> as_poisoned s" and "as_platform_type s = ''appliance''" and "as_platform_context s \<noteq> ''ha_addon''"
    and "\<not> has_remote_access_forwarding_headers rq" and "presented_token rq = None"
    and "rq_method rq = POST" and "rq_path rq = ''/api/auth/claim''"
  shows "require_api_auth_middleware sha n1 n2 n3 rq s = (Proceed (auth_request_info s rq) None, s)"
  using assms
  by (simp add: require_api_auth_middleware_def Let_def verified_bearer_token_def audit_request_def gate_decision_def is_support_def
      is_public_request_def auth_request_info_def)

lemma claim_issues:
  assumes "\<not> as_poisoned s" and "\<forall>a. save a = None"
  shows "\<exists>s'. issue_local_owner_token sha rnd now save label s =
           Inr (\<lparr>it_id = token_id (hash_token sha (generate_raw_token TOKEN_PREFIX rnd)), it_token = generate_raw_token TOKEN_PREFIX rnd\<rparr>, s')"
  using assms by (auto simp: issue_local_owner_token_def issue_local_token_def Let_def publish_def save_auth_def)

lemma owner_token_trim: "trim (generate_raw_token TOKEN_PREFIX rnd) \<noteq> []"
proof -
  have "trim (generate_raw_token TOKEN_PREFIX rnd) = generate_raw_token TOKEN_PREFIX rnd"
    by (intro generated_token_trim) (simp add: TOKEN_PREFIX_def printable_def)
  then show ?thesis by (simp add: generate_raw_token_def TOKEN_PREFIX_def)
qed

lemma new_owner_verifies:
  assumes "issue_local_owner_token sha rnd now save label s = Inr (t, s')" and "as_poisoned s' = False"
    and "\<forall>x \<in> set (sa_tokens (as_auth s)). st_hash x \<noteq> hash_token sha (it_token t)"
  shows "verify_locked sha n (it_token t) s' = Some \<lparr>vt_id = it_id t, vt_role = OwnerRole, vt_expires = None\<rparr>"
proof -
  note issued = issue_local_token_Inr [OF assms(1) [unfolded issue_local_owner_token_def]]
  let ?old = "prune_expired_tokens now (sa_tokens (as_auth s))"
  have "\<forall>x \<in> set ?old. st_hash x \<noteq> hash_token sha (it_token t)" using assms(3) by (simp add: prune_expired_tokens_def)
  from matches_unique [OF this] have found: "find (matches sha n (it_token t)) (?old @ [y]) = (if matches sha n (it_token t) y then Some y else None)" for y .
  have auth: "as_auth s' = (as_auth s)\<lparr>sa_tokens := ?old @ [new_token (hash_token sha (it_token t)) OwnerRole now label None]\<rparr>"
    and id: "it_id t = token_id (hash_token sha (it_token t))" and ne: "trim (it_token t) \<noteq> []"
    using issued owner_token_trim by (blast, blast, simp)
  show ?thesis
    using ne assms(2) by (simp add: verify_locked_def verify_token_info_find auth found) (simp add: id matches_def new_token_def is_expired_def)
qed

text \<open>C40: On an appliance the claim of an owner token is open to the local network at any time: a request without any
  credential, an owner configured or not, is answered with a new owner token, and that token then passes the gate on
  every route, the ones that ask for an owner on purpose included.\<close>
theorem lan_claim_opens_owner_routes:
  assumes "\<not> as_poisoned s" and "as_platform_type s = ''appliance''" and "as_platform_context s \<noteq> ''ha_addon''"
    and "\<not> has_remote_access_forwarding_headers rq" and "presented_token rq = None"
    and "rq_method rq = POST" and "rq_path rq = ''/api/auth/claim''" and "\<forall>a. save a = None"
    and "\<forall>x \<in> set (sa_tokens (as_auth s)). st_hash x \<noteq> hash_token sha (generate_raw_token TOKEN_PREFIX rnd)"
    and "presented_token rq' = Some (generate_raw_token TOKEN_PREFIX rnd)"
  shows "\<exists>t s'. serve_api sha decode rnd n1 n2 n3 n4 save progress rq body s = (Served (Answer (JsonOk (JObject (token_payload t)))), s') \<and>
           it_token t = generate_raw_token TOKEN_PREFIX rnd \<and> proceeds (require_api_auth_middleware sha m1 m2 m3 rq' s')"
proof -
  let ?label = "clean_str (json_get body ''label'')"
  obtain t s' where t: "it_token t = generate_raw_token TOKEN_PREFIX rnd" and
    i: "issue_local_owner_token sha rnd n4 save ?label s = Inr (t, s')"
    using claim_issues [OF assms(1,8), of sha rnd n4 ?label] by force
  have p: "as_poisoned s' = False"
    using issue_local_token_Inr [OF i [unfolded issue_local_owner_token_def]] by simp
  have "auth_routes sha decode rnd n4 save progress (Some (auth_request_info s rq)) rq body s = (Answer (JsonOk (JObject (token_payload t))), s')"
    using i by (simp add: auth_routes_def assms(6,7) handle_claim_owner_token_def)
  then have "serve_api sha decode rnd n1 n2 n3 n4 save progress rq body s = (Served (Answer (JsonOk (JObject (token_payload t)))), s')"
    using claim_on_lan [OF assms(1-7)] by (simp add: serve_api_def)
  moreover have v: "verified_bearer_token sha m1 s' rq' = Some \<lparr>vt_id = it_id t, vt_role = OwnerRole, vt_expires = None\<rparr>"
    using new_owner_verifies [OF i p] assms(9,10) t by (simp add: verified_bearer_token_def)
  have "proceeds (require_api_auth_middleware sha m1 m2 m3 rq' s')"
    using gate_admits [OF v, of m3 s'] by (auto simp: require_api_auth_middleware_def Let_def v proceeds_def audit_request_def)
  ultimately show ?thesis using t by blast
qed

definition toy_claim :: request where
  "toy_claim = \<lparr>rq_method = POST, rq_path = ''/api/auth/claim'', rq_query = None, rq_headers = [], rq_peer_loopback = Some False\<rparr>"

definition toy_appliance :: api_state where
  "toy_appliance = (toy_state [toy_owner ''secret''])\<lparr>as_platform_type := ''appliance''\<rparr>"

theorem lan_claim_opens_owner_routes_witness:
  "\<exists>(t :: issued_token) s'. it_token t = generate_raw_token TOKEN_PREFIX [7] \<and>
     proceeds (require_api_auth_middleware toy_sha 9 9 9
       (toy_request GET ''/api/pairing/wifi-credentials'' None (generate_raw_token TOKEN_PREFIX [7])) s')"
proof -
  have "\<not> as_poisoned toy_appliance" "as_platform_type toy_appliance = ''appliance''" "as_platform_context toy_appliance \<noteq> ''ha_addon''"
    "\<not> has_remote_access_forwarding_headers toy_claim" "presented_token toy_claim = None" "rq_method toy_claim = POST"
    "rq_path toy_claim = ''/api/auth/claim''" and save: "\<forall>a :: stored_auth. (\<lambda>_. None :: string option) a = None" and
    "\<forall>x \<in> set (sa_tokens (as_auth toy_appliance)). st_hash x \<noteq> hash_token toy_sha (generate_raw_token TOKEN_PREFIX [7])"
    "presented_token (toy_request GET ''/api/pairing/wifi-credentials'' None (generate_raw_token TOKEN_PREFIX [7])) =
       Some (generate_raw_token TOKEN_PREFIX [7])"
    by (code_simp, code_simp, code_simp, code_simp, code_simp, code_simp, code_simp, simp, code_simp, code_simp)
  from lan_claim_opens_owner_routes [where ?m1.0 = 9 and ?m2.0 = 9 and ?m3.0 = 9 and body = JNull and decode = no_decode, OF this]
  show ?thesis by blast
qed

end
