(* ===== verification/Spec2Isabelle.thy ===== *)
theory Spec2Isabelle
  imports Inheritance RegistryResolution FlightArchive HubRegistry TopologyDispatch DeviceHealthProperties LightUsageProperties LightUsageSync AuthProperties
begin

text \<open>
  Rhythm OS: a verification library of its core logic.

  Rhythm OS runs on an appliance in the house, follows the sun with the lights of all vendors, and keeps everything it
  knows about the house in stores of its own. This library models those stores and the decisions made on them, in the
  Rust workspace \<open>src/os/rust\<close>; paths below are relative to its crates.

  \<^bold>\<open>The parts and how they interact\<close>

  A vendor integration reports rooms, devices and buttons of a hub. They are kept per hub in the \<^emph>\<open>hub registry\<close>; the
  \<^emph>\<open>canonical registry\<close> decides which of them are one physical device, asks the user through the \<^emph>\<open>triage queue\<close> when it is
  not sure, and gives each device its endpoints; the \<^emph>\<open>topology\<close> places devices in rooms, binds rooms to rooms of hubs,
  records who automates a room, and plans which hub and which group or lamps a command goes to. A \<^emph>\<open>room\<close> has a mode, off
  states and offsets, and its light settings follow from its ancestors and the configured \<^emph>\<open>modes, transitions and
  schedules\<close>. On the side, the \<^emph>\<open>device health ledger\<close> decides when a silent device deserves the attention of the user, the
  \<^emph>\<open>usage ledger\<close> counts how long lights were on and uploads it, the \<^emph>\<open>flight recorder\<close> keeps samples of the host across
  crashes, and the \<^emph>\<open>credentials\<close> guard the API in front of everything.

  \<^bold>\<open>Theories\<close>

  \<^item> Foundations. \<open>Prelude\<close>: words with saturating arithmetic, options, \<open>HashMap\<close> and \<open>BTreeMap\<close> as association lists
    behind the locale \<open>store\<close> (interpreted as \<open>hm\<close> and \<open>bt\<close>), and the locale \<open>guarded_steps\<close>, the contract of a component
    whose events keep an invariant, interpreted for rooms, the topology, device health and light usage. \<open>RustStr\<close>: the
    functions of \<open>str\<close> on UTF-8 bytes. \<open>F32\<close>: IEEE-754 arithmetic on exact rationals with rounding to nearest even.
  \<^item> Rooms and profiles, \<open>rhythm-core/src/room.rs\<close> and \<open>rhythm-profile/src\<close>. \<open>Profile\<close> (profile configuration),
    \<open>Modes\<close>, \<open>Triggers\<close>, \<open>Transitions\<close>, \<open>Schedules\<close>, \<open>RoomSettings\<close>, \<open>Rooms\<close> (\<open>Room\<close> and \<open>RoomManager\<close>), \<open>Inheritance\<close>
    (\<open>RoomManager::effective_state\<close>).
  \<^item> Devices, \<open>rhythm-os/src/canonical\<close> and \<open>registry.rs\<close>. \<open>Identity\<close> (\<open>identity.rs\<close>), \<open>Triage\<close> (\<open>triage.rs\<close>),
    \<open>CanonicalRegistry\<close> (the operations of \<open>registry.rs\<close>), \<open>RegistryInvariants\<close>, \<open>RegistryResolution\<close>, and \<open>HubRegistry\<close>
    (\<open>HubDeviceRegistry\<close>).
  \<^item> Topology, \<open>rhythm-os/src/topology.rs\<close>. \<open>TopologyRoom\<close>, \<open>Topology\<close>, \<open>TopologyPolicy\<close>, \<open>NodeControls\<close>, \<open>TopologySync\<close>,
    \<open>TopologyBindings\<close> and \<open>TopologyRouting\<close> hold the operations of \<open>RoomTopologyStore\<close>; \<open>TopologyInvariants\<close>,
    \<open>TopologyEvents\<close>, \<open>TopologyProperties\<close> and \<open>TopologyDispatch\<close> what holds of them.
  \<^item> Device health, \<open>rhythm-os/src/device_health.rs\<close>. \<open>DeviceHealth\<close> (operations), \<open>DeviceHealthTrace\<close>,
    \<open>DeviceHealthLedger\<close>, \<open>DeviceHealthProperties\<close>.
  \<^item> Light usage, \<open>rhythm-os/src/light_usage.rs\<close>. \<open>LightUsage\<close> (operations), \<open>LightUsageInvariant\<close>,
    \<open>LightUsageProperties\<close>, \<open>LightUsageCloud\<close>, \<open>LightUsageSync\<close>.
  \<^item> Host flight recorder, \<open>rhythm-host-recorder/src/ring.rs\<close>. \<open>FlightRing\<close> (operations), \<open>FlightRingLog\<close>,
    \<open>FlightRecorder\<close>, \<open>FlightArchive\<close>.
  \<^item> Credentials, \<open>rhythm-os/src/auth.rs\<close>. \<open>Auth\<close> (tokens and their store), \<open>AuthGate\<close> (the middleware), \<open>AuthApi\<close> (the
    routes), \<open>AuthStore\<close>, \<open>AuthProperties\<close>.

  A struct of the code is a record with a prefix of its own for the fields, an enum a datatype; the definitions have the
  names of the code, with the name of the type in front or behind where a name is taken. A method with \<open>&mut self\<close>
  returns the new state, with its answer first if it has one; \<open>Result\<close> is a sum with the error on the left, a lock
  that fails is a branch.

  \<^bold>\<open>What the lemmas show\<close>

  \<^item> Rooms: at most one off state and bounded offsets after any operations; transitions keep unique identifiers; an
    override of a schedule changes what it names and nothing else; the walk over the ancestors ends on every graph,
    cycles included, and visits exactly the chain of parents; a trigger is read back as it was written exactly when it
    is well formed.
  \<^item> Devices: every lookup of a reachable canonical registry leads to a device that owns the endpoint; a discovery is
    always served, and joins an existing device only with a proof or the approval of the user; a confirmed merge moves
    the endpoint; proposals of triage are sound; a restart restores the routing of a hub.
  \<^item> Topology: the invariant holds in every store reached by operations none of which is a sync that deletes the room of its
    own hub room, and these syncs are characterised; the devices of a room are exactly the placements; a sync keeps what
    the user placed; a merge joins the explicit choices of the owner; the dispatch plan reaches each controlled lamp of a room
    and no other, and the route of one lamp agrees with it.
  \<^item> Device health: attention is claimed on evidence only, failures far enough apart and a live peer, and ends only by
    recovery, removal or retention. Over every trace the counters and dates of the records are those of the events.
  \<^item> Light usage: the time between two observations is credited exactly once, also over midnight, and the next interval starts where it ends; nothing is taken as
    uploaded or saved that is not, whatever happens meanwhile; every backlog drains in finitely many uploads.
  \<^item> Flight recorder: the ring refines a bounded log of segments, across restarts; a fault of the file system costs at
    most the oldest segment; the archive of the previous boot survives an interruption at any system call.
  \<^item> Credentials: what passes the gate has the credential the route asks for; a support token stays away from the routes
    closed to it, and a session cannot change any credential; a token lives as long as it was issued for; the saved
    credentials answer as those in memory. Two theorems state ways around what the code announces: a percent-encoded flag in the query of
    a backup, and the claim that stays open on the local network.

  \<^bold>\<open>Parameters and assumptions\<close>

  \<^item> The order in which a \<open>HashMap\<close> is iterated is the order of its association list, and every theorem is about all
    orders.
  \<^item> Third-party code is an argument: SHA-256, random bytes and generated identifiers, Unicode lower-casing, the JSON
    codec of the flight recorder (with the hypothesis that decoding inverts encoding where it is needed), the length of a
    serialised ledger, the calendar, the form decoding of a query, the text of a header. The clock is an argument too.
  \<^item> The file system is a sequence of answers: every call may fail, and the model has the branch.
  \<^item> No definition runs on fuel. A loop is a function with a termination proof: the walk over the ancestors by its set of
    visited nodes, the search for a fresh identifier by the finitely many that are taken, evictions by what is left. The
    one counter, in the scan that prunes old usage segments, is the length of the list it scans.
  \<^item> A lock section is one step. Interleavings are those of whole operations, except for uploads and checkpoints of the
    usage ledger, where other events happen between start and end.

  \<^bold>\<open>Not modelled\<close>

  The commands, handlers, event loop and periodic tasks (\<open>commands.rs\<close>, \<open>handlers.rs\<close>, \<open>event_loop.rs\<close>,
  \<open>periodic.rs\<close>) compose the stores above with network calls, threads and JSON; of them only the confirmation of a
  merge, the routes of the credentials and what a factory reset does to them are translated. File storage, self update, provisioning, remote access and the
  recorder's collection are system calls. The vendor integrations are protocol clients of third-party SDKs. The light
  curves, the solar position and the colours are floating-point numerics over \<open>exp\<close>, \<open>powf\<close> and \<open>sin\<close>, which the
  standard library specifies only approximately, so light primitives and update plans that rest on them are left
  out with them.
\<close>

end
